(* ===== verification/Prelude.thy ===== *)
theory Prelude
  imports Complex_Main "HOL-Library.List_Lexorder" "HOL-Library.Char_ord"
    "HOL-Library.Product_Lexorder" "HOL-Library.AList" "HOL-Library.Multiset"
begin

section \<open>Prelude: the Python values the components share\<close>

text \<open>
  Strings, decimal rendering, aware and naive timestamps, error results and sorted lists, with
  the lemmas the component theories use on them.

  A Python \<open>str\<close> is a \<^typ>\<open>string\<close> of ASCII characters; its order is the lexicographic order of
  code points (\<open>List_Lexorder\<close> and \<open>Char_ord\<close>), the order \<open>sorted\<close> uses. A \<open>frozenset\<close> is a set,
  iterated through \<^const>\<open>sorted_list_of_set\<close> where the source sorts it. A tuple or a list is a
  list. A \<open>raise\<close> is the left summand of \<open>'e + 'a\<close>, or \<open>Some e\<close> for a check that returns nothing.
\<close>

named_theorems dt_simps \<open>rewriting of timestamps\<close>
named_theorems err_simps \<open>results of fallible code\<close>

subsection \<open>Strings\<close>

definition is_space :: "char \<Rightarrow> bool" where
  "is_space c \<longleftrightarrow> (let n = (of_char c :: nat) in (9 \<le> n \<and> n \<le> 13) \<or> (28 \<le> n \<and> n \<le> 32))"

definition py_strip :: "string \<Rightarrow> string" where
  "py_strip s = rev (dropWhile is_space (rev (dropWhile is_space s)))"

definition blank :: "string \<Rightarrow> bool" where
  "blank s \<longleftrightarrow> py_strip s = []"

lemma blank_iff: "blank s \<longleftrightarrow> list_all is_space s"
proof -
  have "blank s \<longleftrightarrow> (\<forall>c \<in> set (dropWhile is_space s). is_space c)"
    by (simp add: blank_def py_strip_def)
  also have "\<dots> \<longleftrightarrow> dropWhile is_space s = []"
    by (metis dropWhile_eq_Nil_conv dropWhile_eq_Cons_conv list.set_intros(1) neq_Nil_conv
        list.set(1) empty_iff)
  finally show ?thesis by (simp add: list_all_iff)
qed

lemma blank_Nil [simp]: "blank []"
  by (simp add: blank_iff)

definition lower_char :: "char \<Rightarrow> char" where
  "lower_char c = (let n = (of_char c :: nat) in
     if 65 \<le> n \<and> n \<le> 90 then char_of (n + 32) else c)"

text \<open>\<open>str.casefold\<close> on ASCII text.\<close>

definition casefold :: "string \<Rightarrow> string" where
  "casefold s = map lower_char s"

lemma lower_char_idem [simp]: "lower_char (lower_char c) = lower_char c"
proof (cases "65 \<le> (of_char c :: nat) \<and> (of_char c :: nat) \<le> 90")
  case True
  then have "(of_char (char_of ((of_char c :: nat) + 32)) :: nat) = of_char c + 32"
    by simp
  with True show ?thesis by (simp add: lower_char_def Let_def)
qed (auto simp: lower_char_def Let_def)

lemma casefold_idem [simp]: "casefold (casefold s) = casefold s"
  by (simp add: casefold_def comp_def)

subsection \<open>Decimal rendering\<close>

fun show_nat :: "nat \<Rightarrow> string" where
  "show_nat n = (if n < 10 then [char_of (48 + n)]
                 else show_nat (n div 10) @ [char_of (48 + n mod 10)])"

declare show_nat.simps [simp del]

definition show_int :: "int \<Rightarrow> string" where
  "show_int i = (if i < 0 then ''-'' @ show_nat (nat (- i)) else show_nat (nat i))"

definition is_digit :: "char \<Rightarrow> bool" where
  "is_digit c \<longleftrightarrow> (48::nat) \<le> of_char c \<and> of_char c \<le> (57::nat)"

text \<open>Reading the digits back: the round trip that makes rendering injective.\<close>

definition read_nat :: "string \<Rightarrow> nat" where
  "read_nat s = foldl (\<lambda>n c. 10 * n + (of_char c - 48)) 0 s"

lemma is_digit_char_of [simp]: "d < (10::nat) \<Longrightarrow> is_digit (char_of (48 + d))"
  by (simp add: is_digit_def)

lemma read_show_nat [simp]: "read_nat (show_nat n) = n"
proof (induction n rule: show_nat.induct)
  case (1 n)
  show ?case
  proof (cases "n < 10")
    case True
    then show ?thesis by (simp add: show_nat.simps read_nat_def)
  next
    case False
    with "1.IH" have "read_nat (show_nat (n div 10)) = n div 10" by simp
    with False show ?thesis by (subst show_nat.simps) (simp add: read_nat_def)
  qed
qed

lemma show_nat_digits: "list_all is_digit (show_nat n)"
proof (induction n rule: show_nat.induct)
  case (1 n)
  then show ?case by (cases "n < 10") (subst show_nat.simps, simp)+
qed

lemma show_nat_inject [simp]: "show_nat m = show_nat n \<longleftrightarrow> m = n"
  by (metis read_show_nat)

lemma show_nat_nonempty [simp]: "show_nat n \<noteq> []"
  by (subst show_nat.simps) simp

lemma not_digit_notin_show_nat: "\<not> is_digit c \<Longrightarrow> c \<notin> set (show_nat n)"
  using show_nat_digits [of n] by (auto simp: list_all_iff)

lemma show_int_inject [simp]: "show_int i = show_int j \<longleftrightarrow> i = j"
proof -
  have dash: "CHR ''-'' \<notin> set (show_nat n)" for n
    by (rule not_digit_notin_show_nat) (simp add: is_digit_def)
  have "\<not> (\<exists>r. show_nat n = CHR ''-'' # r)" for n
    using dash [of n] by auto
  then show ?thesis
    by (auto simp: show_int_def) (metis (no_types))+
qed

text \<open>Two fields joined by a separator that the second field never contains.\<close>

lemma sep_append_inject:
  assumes "a @ c # x = b @ c # y" and "c \<notin> set x" and "c \<notin> set y"
  shows "a = b \<and> x = y"
proof -
  have split: "takeWhile (\<lambda>d. d \<noteq> c) (rev (p @ c # q)) = rev q" if "c \<notin> set q" for p q
    using that by (auto simp: takeWhile_append)
  from split [OF assms(2), of a] split [OF assms(3), of b] assms(1) have "rev x = rev y"
    by metis
  with assms(1) show ?thesis by simp
qed

subsection \<open>Timestamps\<close>

text \<open>
  A \<open>datetime\<close> is its wall clock in microseconds, the UTC offset in force at that moment and its
  \<open>tzinfo\<close> (\<open>None\<close>: naive). Python compares and subtracts two values with the same \<open>tzinfo\<close> object
  by their wall clocks and any other pair by their UTC instants; \<open>dt_diff\<close> is that rule.
  \<open>TzUTC\<close> is \<open>datetime.UTC\<close>; every other zone or fixed offset is a \<open>TzZone\<close>.
\<close>

datatype tzinfo = TzUTC | TzZone string

record datetime =
  dt_wall :: int
  dt_off :: int
  dt_tz :: "tzinfo option"

definition instant :: "datetime \<Rightarrow> int" where
  "instant d = dt_wall d - dt_off d"

definition is_aware :: "datetime \<Rightarrow> bool" where
  "is_aware d \<longleftrightarrow> dt_tz d \<noteq> None"

definition dt_diff :: "datetime \<Rightarrow> datetime \<Rightarrow> int" where
  "dt_diff a b = (if dt_tz a = dt_tz b then dt_wall a - dt_wall b else instant a - instant b)"

definition dt_le :: "datetime \<Rightarrow> datetime \<Rightarrow> bool" where
  "dt_le a b \<longleftrightarrow> dt_diff a b \<le> 0"

definition dt_less :: "datetime \<Rightarrow> datetime \<Rightarrow> bool" where
  "dt_less a b \<longleftrightarrow> dt_diff a b < 0"

text \<open>\<open>value + timedelta\<close> moves the wall clock; the value here is in UTC, so the offset stays 0.\<close>

definition utc_dt :: "int \<Rightarrow> datetime" where
  "utc_dt u = \<lparr>dt_wall = u, dt_off = 0, dt_tz = Some TzUTC\<rparr>"

text \<open>A zone is its identity and the offset in force at each UTC instant.\<close>

record zone =
  zone_tz :: tzinfo
  zone_off :: "int \<Rightarrow> int"

definition astimezone :: "zone \<Rightarrow> datetime \<Rightarrow> datetime" where
  "astimezone z d = (let o' = zone_off z (instant d) in
     \<lparr>dt_wall = instant d + o', dt_off = o', dt_tz = Some (zone_tz z)\<rparr>)"

text \<open>A UTC value has offset 0: what every \<open>datetime\<close> of the program satisfies.\<close>

definition dt_ok :: "datetime \<Rightarrow> bool" where
  "dt_ok d \<longleftrightarrow> (dt_tz d = Some TzUTC \<longrightarrow> dt_off d = 0)"

definition in_utc :: "datetime \<Rightarrow> bool" where
  "in_utc d \<longleftrightarrow> dt_tz d = Some TzUTC \<and> dt_off d = 0"

lemma instant_utc_dt [simp, dt_simps]: "instant (utc_dt u) = u"
  by (simp add: instant_def utc_dt_def)

lemma in_utc_utc_dt [simp]: "in_utc (utc_dt u)"
  by (simp add: in_utc_def utc_dt_def)

lemma in_utc_aware: "in_utc d \<Longrightarrow> is_aware d"
  by (simp add: in_utc_def is_aware_def)

lemma in_utc_ok: "in_utc d \<Longrightarrow> dt_ok d"
  by (simp add: in_utc_def dt_ok_def)

lemma dt_diff_utc_left [dt_simps]: "in_utc a \<Longrightarrow> dt_ok b \<Longrightarrow> dt_diff a b = instant a - instant b"
  by (auto simp: dt_diff_def in_utc_def dt_ok_def instant_def)

lemma dt_diff_utc_right [dt_simps]: "dt_ok a \<Longrightarrow> in_utc b \<Longrightarrow> dt_diff a b = instant a - instant b"
  by (auto simp: dt_diff_def in_utc_def dt_ok_def instant_def)

lemma dt_le_utc_left [dt_simps]: "in_utc a \<Longrightarrow> dt_ok b \<Longrightarrow> dt_le a b \<longleftrightarrow> instant a \<le> instant b"
  by (simp add: dt_le_def dt_simps)

lemma dt_le_utc_right [dt_simps]: "dt_ok a \<Longrightarrow> in_utc b \<Longrightarrow> dt_le a b \<longleftrightarrow> instant a \<le> instant b"
  by (simp add: dt_le_def dt_simps)

subsection \<open>Sorted lists and dictionaries\<close>

text \<open>\<open>next((x for x in xs if p x), None)\<close> is \<^const>\<open>find\<close>; its two outcomes as rules.\<close>

lemma find_None_iff_all: "find P xs = None \<longleftrightarrow> (\<forall>x \<in> set xs. \<not> P x)"
  by (induction xs) auto

lemma find_SomeD: "find P xs = Some x \<Longrightarrow> x \<in> set xs \<and> P x"
  by (induction xs) (auto split: if_splits)

lemma sum_list_le_mono:
  "(\<And>x. x \<in> set xs \<Longrightarrow> (f x :: 'b :: ordered_comm_monoid_add) \<le> g x)
     \<Longrightarrow> sum_list (map f xs) \<le> sum_list (map g xs)"
  by (induction xs) (auto intro: add_mono)


subsection \<open>Fallible code\<close>

text \<open>
  A statement that may raise, followed by the rest of the function; and a comprehension whose body
  may raise, which stops at the first element that does.
\<close>

definition and_then :: "'e + 'a \<Rightarrow> ('a \<Rightarrow> 'e + 'b) \<Rightarrow> 'e + 'b" where
  "and_then x f = (case x of Inl e \<Rightarrow> Inl e | Inr v \<Rightarrow> f v)"

fun collect :: "('a \<Rightarrow> 'e + 'b) \<Rightarrow> 'a list \<Rightarrow> 'e + 'b list" where
  "collect f [] = Inr []"
| "collect f (x # xs) = and_then (f x) (\<lambda>y. and_then (collect f xs) (\<lambda>ys. Inr (y # ys)))"

text \<open>A loop whose body updates a state and may raise.\<close>

fun fold_err :: "('a \<Rightarrow> 's \<Rightarrow> 'e + 's) \<Rightarrow> 'a list \<Rightarrow> 's \<Rightarrow> 'e + 's" where
  "fold_err f [] s = Inr s"
| "fold_err f (x # xs) s = and_then (f x s) (fold_err f xs)"

lemma and_then_simps [simp, err_simps]: "and_then (Inl e) f = Inl e" "and_then (Inr v) f = f v"
  by (simp_all add: and_then_def)

lemma and_then_Inr_iff [err_simps]: "and_then x f = Inr y \<longleftrightarrow> (\<exists>v. x = Inr v \<and> f v = Inr y)"
  by (cases x) auto

lemma and_then_Inl_iff [err_simps]:
  "and_then x f = Inl e \<longleftrightarrow> x = Inl e \<or> (\<exists>v. x = Inr v \<and> f v = Inl e)"
  by (cases x) auto

lemma collect_Inr_iff: "collect f xs = Inr ys \<longleftrightarrow> list_all2 (\<lambda>x y. f x = Inr y) xs ys"
  by (induction xs arbitrary: ys) (auto simp: err_simps list_all2_Cons1 list_all2_Nil)

lemma fold_err_invariant:
  assumes "fold_err f xs s = Inr s'" and "I s"
    and "\<And>x s s'. x \<in> set xs \<Longrightarrow> f x s = Inr s' \<Longrightarrow> I s \<Longrightarrow> I s'"
  shows "I s'"
  using assms by (induction xs arbitrary: s) (auto simp: err_simps)

lemma collect_total: "(\<And>x. x \<in> set xs \<Longrightarrow> f x = Inr (g x)) \<Longrightarrow> collect f xs = Inr (map g xs)"
  by (induction xs) auto

end
