(* ===== verification/Contracts.thy ===== *)
theory Contracts
  imports Prelude
begin

section \<open>Contracts: the shared value types and their validators\<close>

text \<open>
  \<open>src/jobtology_be/contracts.py\<close> and \<open>src/jobtology_be/planning/contracts.py\<close>: weekly
  availability windows with the overlap validator, capability inputs, normalized profiles, step
  states and the planning constraints. Pydantic's declarative field bounds are written out as
  Boolean checks. A competency credit, a float between 0 and 1, is a rational number.
\<close>

subsection \<open>Weekly availability\<close>

record WeeklyAvailabilityWindow =
  weekday :: int
  start_hour :: int
  end_hour :: int

definition window_valid :: "WeeklyAvailabilityWindow \<Rightarrow> bool" where
  "window_valid w \<longleftrightarrow> 1 \<le> weekday w \<and> weekday w \<le> 7 \<and> 0 \<le> start_hour w \<and> start_hour w \<le> 23
     \<and> 1 \<le> end_hour w \<and> end_hour w \<le> 24 \<and> \<not> end_hour w \<le> start_hour w"

fun pairwise_clash :: "WeeklyAvailabilityWindow list \<Rightarrow> bool" where
  "pairwise_clash (previous # current # rest) =
     ((weekday current = weekday previous \<and> start_hour current < end_hour previous)
      \<or> pairwise_clash (current # rest))"
| "pairwise_clash _ = False"

definition non_overlapping_windows ::
  "WeeklyAvailabilityWindow list \<Rightarrow> string + WeeklyAvailabilityWindow list" where
  "non_overlapping_windows windows =
     (let ordered = sort_key (\<lambda>item. (weekday item, start_hour item)) windows in
      if pairwise_clash ordered then Inl ''weekly availability windows must not overlap''
      else Inr ordered)"

subsection \<open>Capabilities and profiles\<close>

record CapabilityInput =
  ci_raw_text :: string
  ci_entity_id :: "string option"
  ci_experience_codes :: "string list"
  ci_credit :: rat

datatype Resolution = RESOLVED | UNRESOLVED | AMBIGUOUS

record NormalizedCapability =
  nc_raw_text :: string
  nc_entity_id :: "string option"
  nc_experience_codes :: "string list"
  nc_resolution :: Resolution
  nc_credit :: rat

record NormalizedProfile =
  np_user_id :: string
  np_profile_version :: int
  np_capabilities :: "NormalizedCapability list"

definition credit_valid :: "rat \<Rightarrow> bool" where
  "credit_valid c \<longleftrightarrow> 0 \<le> c \<and> c \<le> 1"

datatype StepState = TODO | IN_PROGRESS | COMPLETED

record RoadmapOutcome =
  ro_requirement_key :: string
  ro_entity_id :: string
  ro_raw_text :: string
  ro_experience_codes :: "string list"

subsection \<open>Planning constraints\<close>

datatype BudgetMode = REGULAR | LOW_COST

record PlanningConstraints =
  target_by :: datetime
  available_hours_per_week :: int
  budget_mode :: BudgetMode
  max_out_of_pocket_krw :: "int option"
  fastest_path :: bool
  needs_portfolio :: bool
  career_switch :: bool
  weekly_availability :: "WeeklyAvailabilityWindow list"
  unavailable_dates :: "int list"

definition constraints_valid :: "PlanningConstraints \<Rightarrow> bool" where
  "constraints_valid c \<longleftrightarrow> is_aware (target_by c)
     \<and> 1 \<le> available_hours_per_week c \<and> available_hours_per_week c \<le> 60
     \<and> (case max_out_of_pocket_krw c of None \<Rightarrow> True | Some k \<Rightarrow> 0 \<le> k)
     \<and> length (weekly_availability c) \<le> 168 \<and> list_all window_valid (weekly_availability c)
     \<and> non_overlapping_windows (weekly_availability c) = Inr (weekly_availability c)
     \<and> length (unavailable_dates c) \<le> 366"

subsection \<open>The overlap check decides overlap\<close>

text \<open>Two windows share an hour of the week.\<close>

definition share_hour :: "WeeklyAvailabilityWindow \<Rightarrow> WeeklyAvailabilityWindow \<Rightarrow> bool" where
  "share_hour v w \<longleftrightarrow> weekday v = weekday w
     \<and> (\<exists>h. start_hour v \<le> h \<and> h < end_hour v \<and> start_hour w \<le> h \<and> h < end_hour w)"

lemma share_hour_iff:
  assumes "window_valid v" and "window_valid w"
  shows "share_hour v w \<longleftrightarrow>
    weekday v = weekday w \<and> start_hour v < end_hour w \<and> start_hour w < end_hour v"
proof -
  have "\<exists>h. start_hour v \<le> h \<and> h < end_hour v \<and> start_hour w \<le> h \<and> h < end_hour w"
    if "start_hour v < end_hour w" and "start_hour w < end_hour v"
    using that assms
    by (intro exI [of _ "max (start_hour v) (start_hour w)"]) (auto simp: window_valid_def)
  then show ?thesis by (auto simp: share_hour_def)
qed

abbreviation window_key :: "WeeklyAvailabilityWindow \<Rightarrow> int \<times> int" where
  "window_key w \<equiv> (weekday w, start_hour w)"

lemma no_clash_separates:
  assumes "\<not> pairwise_clash (v # ws)" and "sorted (map window_key (v # ws))"
    and "list_all window_valid (v # ws)" and "w \<in> set ws"
  shows "\<not> share_hour v w"
  using assms
proof (induction ws arbitrary: v)
  case (Cons c ws)
  show ?case
  proof (cases "w = c")
    case True
    with Cons.prems show ?thesis by (auto simp: share_hour_iff)
  next
    case False
    with Cons.prems have w: "w \<in> set ws" by simp
    with Cons.IH [of c] Cons.prems have "\<not> share_hour c w" by simp
    moreover from Cons.prems w have "window_key c \<le> window_key w"
      and "window_key v \<le> window_key c" and "window_valid w"
      by (auto simp: list_all_iff)
    ultimately show ?thesis using Cons.prems
      by (auto simp: share_hour_iff window_valid_def)
  qed
qed simp

lemma clash_shares:
  assumes "pairwise_clash ws" and "sorted (map window_key ws)" and "list_all window_valid ws"
  shows "\<exists>i j. i < j \<and> j < length ws \<and> share_hour (ws ! i) (ws ! j)"
  using assms
proof (induction ws rule: pairwise_clash.induct)
  case (1 p c rest)
  show ?case
  proof (cases "weekday c = weekday p \<and> start_hour c < end_hour p")
    case True
    with "1.prems" have "share_hour p c"
      by (auto simp: share_hour_iff window_valid_def)
    then show ?thesis by (intro exI [of _ 0] exI [of _ 1]) simp
  next
    case False
    with "1" obtain i j where "i < j" "j < length (c # rest)"
      "share_hour ((c # rest) ! i) ((c # rest) ! j)" by auto
    then show ?thesis by (intro exI [of _ "Suc i"] exI [of _ "Suc j"]) simp
  qed
qed simp_all

definition windows_disjoint :: "WeeklyAvailabilityWindow list \<Rightarrow> bool" where
  "windows_disjoint ws \<longleftrightarrow> (\<forall>i j. i < j \<and> j < length ws \<longrightarrow> \<not> share_hour (ws ! i) (ws ! j))"

lemma no_clash_iff_disjoint:
  assumes "sorted (map window_key ws)" and "list_all window_valid ws"
  shows "\<not> pairwise_clash ws \<longleftrightarrow> windows_disjoint ws"
proof
  assume "\<not> pairwise_clash ws"
  with assms show "windows_disjoint ws"
  proof (induction ws)
    case (Cons v ws)
    from Cons.prems have "\<not> pairwise_clash ws" by (cases ws) auto
    with Cons have IH: "windows_disjoint ws" by simp
    have "\<not> share_hour v w" if "w \<in> set ws" for w
      using no_clash_separates [OF Cons.prems(3,1,2) that] .
    with IH show ?case
      by (auto simp: windows_disjoint_def nth_Cons split: nat.splits)
  qed (simp add: windows_disjoint_def)
next
  assume "windows_disjoint ws"
  then show "\<not> pairwise_clash ws"
    using clash_shares [OF _ assms] by (auto simp: windows_disjoint_def)
qed

text \<open>
  For windows with valid fields, \<open>_non_overlapping_windows\<close> returns exactly the given windows,
  sorted by weekday and start hour and pairwise without a common hour, and it raises only when
  two of the given windows do share an hour. Comparing neighbours in sorted order is enough.
\<close>

theorem non_overlapping_windows_correct:
  assumes "list_all window_valid windows"
  shows "case non_overlapping_windows windows of
      Inr ordered \<Rightarrow> mset ordered = mset windows \<and> sorted (map window_key ordered)
        \<and> windows_disjoint ordered
    | Inl _ \<Rightarrow> \<not> windows_disjoint (sort_key window_key windows)"
proof -
  have "list_all window_valid (sort_key window_key windows)"
    using assms by (simp add: list_all_iff)
  then have "\<not> pairwise_clash (sort_key window_key windows)
      \<longleftrightarrow> windows_disjoint (sort_key window_key windows)"
    by (intro no_clash_iff_disjoint) simp_all
  then show ?thesis by (auto simp: non_overlapping_windows_def Let_def)
qed

theorem non_overlapping_windows_correct_witness:
  "non_overlapping_windows [\<lparr>weekday = 2, start_hour = 9, end_hour = 12\<rparr>,
       \<lparr>weekday = 1, start_hour = 18, end_hour = 20\<rparr>]
     = Inr [\<lparr>weekday = 1, start_hour = 18, end_hour = 20\<rparr>,
         \<lparr>weekday = 2, start_hour = 9, end_hour = 12\<rparr>]
   \<and> windows_disjoint [\<lparr>weekday = 1, start_hour = 18, end_hour = 20\<rparr>,
         \<lparr>weekday = 2, start_hour = 9, end_hour = 12\<rparr>]"
  using non_overlapping_windows_correct [of "[\<lparr>weekday = 2, start_hour = 9, end_hour = 12\<rparr>,
       \<lparr>weekday = 1, start_hour = 18, end_hour = 20\<rparr>]"]
  by (simp add: non_overlapping_windows_def window_valid_def)

end
