(* ===== verification/Gap_Analysis.thy ===== *)
theory Gap_Analysis
  imports Contracts
begin

section \<open>Gap analysis against a reviewed editorial baseline\<close>

text \<open>
  \<open>src/jobtology_be/modules/analyses/editorial_models.py\<close> (the baseline and the checks of its
  constructor) and \<open>editorial.py\<close> (\<open>EditorialGapAnalyzer\<close>: one evaluation per requirement and the
  two coverages). Scores are rational numbers: the rounding of float division is not modelled.
\<close>

subsection \<open>The baseline and its constructor checks\<close>

datatype RequirementNecessity = REQUIRED | PREFERRED

datatype SatisfactionStatus = SATISFIED | PARTIAL | UNMET | NEEDS_INPUT

datatype ReleaseState = PUBLISHED | UNPUBLISHED | REVOKED | FIXTURE

datatype AnalysisStatus = READY | INSUFFICIENT_DATA

datatype CoverageAvailability = AVAILABLE | UNAVAILABLE

datatype UnavailableReason = EMPTY_BASELINE | NO_REQUIREMENTS

datatype EditorialError =
    DuplicateRequirementKeyError string
  | MissingRequirementEvidenceError string
  | UnusableReleaseError ReleaseState
  | InvalidFixtureLabelError bool ReleaseState
  | MissingPublishedReleaseIdError
  | MissingReviewedAtError
  | NaiveReviewedAtError datetime
  | BaselineMismatchError string string string string
  | NaiveReferenceTimeError

record EditorialReleaseMetadata =
  release_id :: "string option"
  release_state :: ReleaseState
  reviewed_at :: "datetime option"

record EditorialRequirement =
  er_requirement_key :: string
  er_label :: string
  er_necessity :: RequirementNecessity
  er_entity_id :: string
  er_required_experience_codes :: "string set"
  er_support_refs :: "string set"

record EditorialBaseline =
  eb_occupation_id :: string
  eb_basis_version :: string
  eb_release :: EditorialReleaseMetadata
  eb_is_fixture :: bool
  eb_requirements :: "EditorialRequirement list"

definition published_check :: "EditorialBaseline \<Rightarrow> EditorialError option" where
  "published_check b =
     (if eb_is_fixture b
      then Some (InvalidFixtureLabelError (eb_is_fixture b) (release_state (eb_release b)))
      else case release_id (eb_release b) of
        None \<Rightarrow> Some MissingPublishedReleaseIdError
      | Some rid \<Rightarrow>
          if blank rid then Some MissingPublishedReleaseIdError
          else case reviewed_at (eb_release b) of
            None \<Rightarrow> Some MissingReviewedAtError
          | Some moment \<Rightarrow>
              if \<not> is_aware moment then Some (NaiveReviewedAtError moment)
              else map_option (\<lambda>r. MissingRequirementEvidenceError (er_requirement_key r))
                (find (\<lambda>r. er_support_refs r = {}) (eb_requirements b)))"

definition baseline_post_init :: "EditorialBaseline \<Rightarrow> EditorialError option" where
  "baseline_post_init b =
     (let requirement_keys = map er_requirement_key (eb_requirements b);
          duplicate = find (\<lambda>k. count_list requirement_keys k > 1) requirement_keys in
      case duplicate of
        Some k \<Rightarrow> Some (DuplicateRequirementKeyError k)
      | None \<Rightarrow>
          (case release_state (eb_release b) of
             PUBLISHED \<Rightarrow> published_check b
           | FIXTURE \<Rightarrow>
               if \<not> eb_is_fixture b
               then Some (InvalidFixtureLabelError (eb_is_fixture b) (release_state (eb_release b)))
               else None
           | _ \<Rightarrow> Some (UnusableReleaseError (release_state (eb_release b)))))"

record EditorialAnalysisRequest =
  ar_analysis_id :: string
  ar_occupation_id :: string
  ar_basis_version :: string
  ar_reference_at :: datetime

definition request_post_init :: "EditorialAnalysisRequest \<Rightarrow> EditorialError option" where
  "request_post_init r = (if \<not> is_aware (ar_reference_at r) then Some NaiveReferenceTimeError else None)"

record InputCompleteness =
  entities_complete :: bool
  experience_complete_entity_ids :: "string set"

definition experience_is_complete_for :: "InputCompleteness \<Rightarrow> string \<Rightarrow> bool" where
  "experience_is_complete_for c entity_id \<longleftrightarrow> entity_id \<in> experience_complete_entity_ids c"

subsection \<open>Evaluation\<close>

record RequirementEvaluation =
  ev_requirement_key :: string
  ev_label :: string
  ev_necessity :: RequirementNecessity
  ev_status :: SatisfactionStatus
  ev_provenance :: "string set"
  ev_support_refs :: "string set"
  ev_credit :: rat

record Coverage =
  cov_availability :: CoverageAvailability
  cov_reason :: "UnavailableReason option"
  cov_score :: "rat option"
  cov_matched_count :: nat
  cov_total_count :: nat
  cov_score_method :: "string option"
  cov_weighted_score :: "rat option"
  cov_weighted_score_method :: "string option"

record EditorialAnalysis =
  an_analysis_id :: string
  an_profile_version :: int
  an_occupation_id :: string
  an_basis_version :: string
  an_corpus_release_id :: "string option"
  an_is_fixture :: bool
  an_reference_at :: datetime
  an_analysis_status :: AnalysisStatus
  an_requirements :: "RequirementEvaluation list"
  an_required_coverage :: Coverage
  an_preferred_coverage :: Coverage

definition evaluation ::
  "EditorialRequirement \<Rightarrow> SatisfactionStatus \<Rightarrow> string set \<Rightarrow> rat \<Rightarrow> RequirementEvaluation" where
  "evaluation requirement status provenance credit =
     \<lparr>ev_requirement_key = er_requirement_key requirement,
      ev_label = er_label requirement,
      ev_necessity = er_necessity requirement,
      ev_status = status,
      ev_provenance = provenance,
      ev_support_refs = er_support_refs requirement,
      ev_credit = credit\<rparr>"

definition matching_capabilities ::
  "EditorialRequirement \<Rightarrow> NormalizedProfile \<Rightarrow> NormalizedCapability list" where
  "matching_capabilities requirement profile =
     filter (\<lambda>c. nc_resolution c = RESOLVED \<and> nc_entity_id c = Some (er_entity_id requirement))
       (np_capabilities profile)"

definition eligible_capabilities ::
  "EditorialRequirement \<Rightarrow> NormalizedProfile \<Rightarrow> NormalizedCapability list" where
  "eligible_capabilities requirement profile =
     filter (\<lambda>c. er_required_experience_codes requirement \<subseteq> set (nc_experience_codes c))
       (matching_capabilities requirement profile)"

definition evaluate_requirement ::
  "EditorialRequirement \<Rightarrow> NormalizedProfile \<Rightarrow> InputCompleteness \<Rightarrow> RequirementEvaluation" where
  "evaluate_requirement requirement profile completeness =
     (if matching_capabilities requirement profile = []
      then evaluation requirement (if entities_complete completeness then UNMET else NEEDS_INPUT) {} 0
      else
        let provenance = {''SELF_REPORTED''};
            eligible = eligible_capabilities requirement profile in
        if eligible \<noteq> []
        then let credit = Max (set (map nc_credit eligible)) in
          evaluation requirement
            (if credit = 1 then SATISFIED else if credit > 0 then PARTIAL else UNMET)
            provenance credit
        else evaluation requirement
          (if experience_is_complete_for completeness (er_entity_id requirement)
           then UNMET else NEEDS_INPUT)
          provenance 0)"

definition unavailable_coverage :: "UnavailableReason \<Rightarrow> Coverage" where
  "unavailable_coverage reason =
     \<lparr>cov_availability = UNAVAILABLE, cov_reason = Some reason, cov_score = None,
      cov_matched_count = 0, cov_total_count = 0, cov_score_method = None,
      cov_weighted_score = None, cov_weighted_score_method = None\<rparr>"

definition coverage ::
  "RequirementEvaluation list \<Rightarrow> RequirementNecessity \<Rightarrow> bool \<Rightarrow> Coverage" where
  "coverage evaluations necessity baseline_empty =
     (if baseline_empty then unavailable_coverage EMPTY_BASELINE
      else
        let matching = filter (\<lambda>e. ev_necessity e = necessity) evaluations in
        if matching = [] then unavailable_coverage NO_REQUIREMENTS
        else
          let matched_count = length (filter (\<lambda>e. ev_status e = SATISFIED) matching) in
          \<lparr>cov_availability = AVAILABLE, cov_reason = None,
           cov_score = Some (of_nat matched_count / of_nat (length matching)),
           cov_matched_count = matched_count,
           cov_total_count = length matching,
           cov_score_method = Some ''REVIEWED_CHECKLIST'',
           cov_weighted_score = Some (sum_list (map ev_credit matching) / of_nat (length matching)),
           cov_weighted_score_method = Some ''MODELED_COMPETENCY_CREDIT_V1''\<rparr>)"

definition evaluate ::
  "EditorialBaseline \<Rightarrow> NormalizedProfile \<Rightarrow> EditorialAnalysisRequest \<Rightarrow> InputCompleteness
     \<Rightarrow> EditorialError + EditorialAnalysis" where
  "evaluate b profile request completeness =
     (if ar_occupation_id request \<noteq> eb_occupation_id b
         \<or> ar_basis_version request \<noteq> eb_basis_version b
      then Inl (BaselineMismatchError (eb_occupation_id b) (eb_basis_version b)
             (ar_occupation_id request) (ar_basis_version request))
      else
        let evaluations = map (\<lambda>r. evaluate_requirement r profile completeness) (eb_requirements b);
            baseline_empty = (eb_requirements b = []) in
        Inr \<lparr>an_analysis_id = ar_analysis_id request,
             an_profile_version = np_profile_version profile,
             an_occupation_id = ar_occupation_id request,
             an_basis_version = ar_basis_version request,
             an_corpus_release_id = release_id (eb_release b),
             an_is_fixture = eb_is_fixture b,
             an_reference_at = ar_reference_at request,
             an_analysis_status = (if baseline_empty then INSUFFICIENT_DATA else READY),
             an_requirements = evaluations,
             an_required_coverage = coverage evaluations REQUIRED baseline_empty,
             an_preferred_coverage = coverage evaluations PREFERRED baseline_empty\<rparr>)"

subsection \<open>Facts about one evaluation\<close>

text \<open>One capability record that alone supports the requirement.\<close>

definition supports :: "EditorialRequirement \<Rightarrow> NormalizedCapability \<Rightarrow> bool" where
  "supports r c \<longleftrightarrow> nc_resolution c = RESOLVED \<and> nc_entity_id c = Some (er_entity_id r)
     \<and> er_required_experience_codes r \<subseteq> set (nc_experience_codes c)"

definition profile_valid :: "NormalizedProfile \<Rightarrow> bool" where
  "profile_valid p \<longleftrightarrow> list_all (\<lambda>c. credit_valid (nc_credit c)) (np_capabilities p)"

lemma set_eligible:
  "set (eligible_capabilities r p) = {c \<in> set (np_capabilities p). supports r c}"
  by (auto simp: eligible_capabilities_def matching_capabilities_def supports_def)

lemma eligible_matching: "eligible_capabilities r p \<noteq> [] \<Longrightarrow> matching_capabilities r p \<noteq> []"
  by (auto simp: eligible_capabilities_def)

lemma evaluation_simps [simp]:
  "ev_status (evaluation r s v c) = s" "ev_credit (evaluation r s v c) = c"
  "ev_necessity (evaluation r s v c) = er_necessity r"
  "ev_requirement_key (evaluation r s v c) = er_requirement_key r"
  "ev_label (evaluation r s v c) = er_label r"
  "ev_support_refs (evaluation r s v c) = er_support_refs r"
  "ev_provenance (evaluation r s v c) = v"
  by (simp_all add: evaluation_def)

lemma ev_frame [simp]:
  "ev_necessity (evaluate_requirement r p k) = er_necessity r"
  "ev_requirement_key (evaluate_requirement r p k) = er_requirement_key r"
  "ev_label (evaluate_requirement r p k) = er_label r"
  "ev_support_refs (evaluate_requirement r p k) = er_support_refs r"
  by (simp_all add: evaluate_requirement_def Let_def)

lemma evaluate_requirement_eligible:
  assumes "eligible_capabilities r p \<noteq> []"
  shows "evaluate_requirement r p k =
    (let credit = Max (set (map nc_credit (eligible_capabilities r p))) in
       evaluation r (if credit = 1 then SATISFIED else if credit > 0 then PARTIAL else UNMET)
         {''SELF_REPORTED''} credit)"
  using assms eligible_matching [OF assms] by (simp add: evaluate_requirement_def)

lemma evaluate_requirement_ineligible:
  assumes "eligible_capabilities r p = []"
  shows "ev_credit (evaluate_requirement r p k) = 0"
    and "ev_status (evaluate_requirement r p k) \<in> {UNMET, NEEDS_INPUT}"
  using assms by (simp_all add: evaluate_requirement_def Let_def)

lemma ev_credit_Max:
  "ev_credit (evaluate_requirement r p k) =
     (if eligible_capabilities r p = [] then 0 else Max (nc_credit ` set (eligible_capabilities r p)))"
  by (simp add: evaluate_requirement_eligible evaluate_requirement_ineligible Let_def)

lemma eligible_credit_bounds:
  "profile_valid p \<Longrightarrow> c \<in> set (eligible_capabilities r p) \<Longrightarrow> 0 \<le> nc_credit c \<and> nc_credit c \<le> 1"
  by (auto simp: set_eligible profile_valid_def list_all_iff credit_valid_def)

lemma ev_credit_bounds:
  assumes "profile_valid p"
  shows "0 \<le> ev_credit (evaluate_requirement r p k) \<and> ev_credit (evaluate_requirement r p k) \<le> 1"
proof (cases "eligible_capabilities r p = []")
  case False
  let ?C = "nc_credit ` set (eligible_capabilities r p)"
  from False have "Max ?C \<in> ?C" by (intro Max_in) auto
  then obtain c where "c \<in> set (eligible_capabilities r p)" and "Max ?C = nc_credit c" by auto
  with False eligible_credit_bounds [OF assms, of c r] show ?thesis by (simp add: ev_credit_Max)
qed (simp add: ev_credit_Max)

lemma satisfied_iff_credit:
  "ev_status (evaluate_requirement r p k) = SATISFIED \<longleftrightarrow> ev_credit (evaluate_requirement r p k) = 1"
proof (cases "eligible_capabilities r p = []")
  case True
  then show ?thesis
    using evaluate_requirement_ineligible [OF True, of k] by auto
qed (auto simp: evaluate_requirement_eligible Let_def)

subsection \<open>What the analysis reports\<close>

text \<open>
  C27: on a profile with credits in [0, 1], a requirement is SATISFIED exactly when one single
  capability record has full credit and itself carries every required experience code, PARTIAL
  exactly when some such record has positive credit and none has full credit. Codes and credits
  of different records are never combined.
\<close>

theorem requirement_status_exact:
  assumes "profile_valid p"
  shows "(ev_status (evaluate_requirement r p k) = SATISFIED \<longleftrightarrow>
            (\<exists>c \<in> set (np_capabilities p). supports r c \<and> nc_credit c = 1))
    \<and> (ev_status (evaluate_requirement r p k) = PARTIAL \<longleftrightarrow>
            (\<exists>c \<in> set (np_capabilities p). supports r c \<and> 0 < nc_credit c)
            \<and> \<not> (\<exists>c \<in> set (np_capabilities p). supports r c \<and> nc_credit c = 1))"
proof (cases "eligible_capabilities r p = []")
  case True
  then have "\<not> supports r c" if "c \<in> set (np_capabilities p)" for c
    using that set_eligible [of r p] by auto
  with True show ?thesis
    using evaluate_requirement_ineligible [OF True, of k] by auto
next
  case False
  let ?E = "set (eligible_capabilities r p)"
  let ?m = "Max (nc_credit ` ?E)"
  from False have m: "?m \<in> nc_credit ` ?E" by (intro Max_in) auto
  have le: "nc_credit c \<le> ?m" if "c \<in> ?E" for c
    using that by (intro Max_ge) auto
  have full: "?m = 1 \<longleftrightarrow> (\<exists>c \<in> ?E. nc_credit c = 1)"
    using m le eligible_credit_bounds [OF assms] by fastforce
  have pos: "0 < ?m \<longleftrightarrow> (\<exists>c \<in> ?E. 0 < nc_credit c)"
    using m le by fastforce
  have "ev_status (evaluate_requirement r p k) =
      (if ?m = 1 then SATISFIED else if 0 < ?m then PARTIAL else UNMET)"
    using False by (simp add: evaluate_requirement_eligible Let_def)
  then show ?thesis
    using full pos by (auto simp: set_eligible)
qed

text \<open>
  Adding capability records never lowers the credit of a requirement, and the evaluation
  depends only on the set of records: duplicates and their order do not change it.
\<close>

theorem evaluation_monotone:
  assumes "profile_valid q" and "set (np_capabilities p) \<subseteq> set (np_capabilities q)"
  shows "ev_credit (evaluate_requirement r p k) \<le> ev_credit (evaluate_requirement r q k)
    \<and> (set (np_capabilities q) \<subseteq> set (np_capabilities p)
         \<longrightarrow> evaluate_requirement r p k = evaluate_requirement r q k)"
proof
  have sub: "set (eligible_capabilities r p) \<subseteq> set (eligible_capabilities r q)"
    using assms(2) by (auto simp: set_eligible)
  show "ev_credit (evaluate_requirement r p k) \<le> ev_credit (evaluate_requirement r q k)"
  proof (cases "eligible_capabilities r p = []")
    case True
    then show ?thesis using ev_credit_bounds [OF assms(1)] by (simp add: ev_credit_Max)
  next
    case False
    with sub have "eligible_capabilities r q \<noteq> []" by auto
    with False sub show ?thesis by (auto simp: ev_credit_Max intro!: Max_mono)
  qed
  show "set (np_capabilities q) \<subseteq> set (np_capabilities p)
         \<longrightarrow> evaluate_requirement r p k = evaluate_requirement r q k"
  proof
    assume "set (np_capabilities q) \<subseteq> set (np_capabilities p)"
    with assms(2) have same: "set (np_capabilities p) = set (np_capabilities q)" by auto
    then have el: "set (eligible_capabilities r p) = set (eligible_capabilities r q)"
      by (simp add: set_eligible)
    from same have "set (matching_capabilities r p) = set (matching_capabilities r q)"
      by (simp add: matching_capabilities_def)
    then have "matching_capabilities r p = [] \<longleftrightarrow> matching_capabilities r q = []"
      by (metis set_empty)
    moreover from el have "eligible_capabilities r p = [] \<longleftrightarrow> eligible_capabilities r q = []"
      by (metis set_empty)
    ultimately show "evaluate_requirement r p k = evaluate_requirement r q k"
      using el by (simp add: evaluate_requirement_def Let_def)
  qed
qed

text \<open>The coverage of a list of evaluations in which SATISFIED means full credit.\<close>

definition evaluations_ok :: "RequirementEvaluation list \<Rightarrow> bool" where
  "evaluations_ok es \<longleftrightarrow> (\<forall>e \<in> set es. 0 \<le> ev_credit e \<and> ev_credit e \<le> 1
     \<and> (ev_status e = SATISFIED \<longleftrightarrow> ev_credit e = 1))"

lemma evaluations_ok_map:
  "profile_valid p \<Longrightarrow> evaluations_ok (map (\<lambda>r. evaluate_requirement r p k) rs)"
  by (auto simp: evaluations_ok_def satisfied_iff_credit ev_credit_bounds)

lemma evaluations_ok_filter: "evaluations_ok es \<Longrightarrow> evaluations_ok (filter P es)"
  by (simp add: evaluations_ok_def)

lemma credit_sum_bounds:
  "evaluations_ok es \<Longrightarrow>
     of_nat (length (filter (\<lambda>e. ev_status e = SATISFIED) es)) \<le> sum_list (map ev_credit es)
     \<and> sum_list (map ev_credit es) \<le> of_nat (length es)"
  by (induction es) (auto simp: evaluations_ok_def)

lemma satisfied_length_iff:
  "length (filter P es) = length es \<longleftrightarrow> (\<forall>e \<in> set es. P e)"
proof (induction es)
  case (Cons e es)
  then show ?case using length_filter_le [of P es] by (auto simp del: length_filter_le)
qed simp

text \<open>
  The reported coverage of a non-empty group of requirements counts exactly the satisfied
  ones: the score lies in [0, 1] and is 1 exactly when every requirement of that necessity is
  SATISFIED, and the weighted score is between the score and 1. An empty group is UNAVAILABLE.
\<close>

theorem evaluate_coverage_exact:
  assumes "profile_valid p" and "evaluate b p request completeness = Inr a"
    and "es = filter (\<lambda>e. ev_necessity e = REQUIRED) (an_requirements a)"
  shows "(es = [] \<longleftrightarrow> cov_availability (an_required_coverage a) = UNAVAILABLE)
    \<and> (es \<noteq> [] \<longrightarrow> (\<exists>s w. cov_score (an_required_coverage a) = Some s
          \<and> cov_weighted_score (an_required_coverage a) = Some w
          \<and> 0 \<le> s \<and> s \<le> w \<and> w \<le> 1
          \<and> (s = 1 \<longleftrightarrow> (\<forall>e \<in> set es. ev_status e = SATISFIED))))"
proof -
  let ?evs = "map (\<lambda>r. evaluate_requirement r p completeness) (eb_requirements b)"
  from assms(2) have a: "an_requirements a = ?evs"
    "an_required_coverage a = coverage ?evs REQUIRED (eb_requirements b = [])"
    by (auto simp: evaluate_def Let_def split: if_splits)
  have ok: "evaluations_ok es"
    unfolding assms(3) a(1) by (intro evaluations_ok_filter evaluations_ok_map assms(1))
  show ?thesis
  proof (cases "es = []")
    case True
    with assms(3) a show ?thesis
      by (auto simp: coverage_def unavailable_coverage_def)
  next
    case False
    let ?m = "length (filter (\<lambda>e. ev_status e = SATISFIED) es)"
    from False have n: "0 < length es" by simp
    from False assms(3) a(1) have ne: "eb_requirements b \<noteq> []" by auto
    with False assms(3) a have cov:
      "cov_availability (an_required_coverage a) = AVAILABLE"
      "cov_score (an_required_coverage a) = Some (of_nat ?m / of_nat (length es))"
      "cov_weighted_score (an_required_coverage a)
         = Some (sum_list (map ev_credit es) / of_nat (length es))"
      by (auto simp: coverage_def Let_def)
    have "of_nat ?m / of_nat (length es) = (1 :: rat) \<longleftrightarrow> ?m = length es"
      using n by (auto simp: field_simps)
    then have one: "of_nat ?m / of_nat (length es) = (1 :: rat)
        \<longleftrightarrow> (\<forall>e \<in> set es. ev_status e = SATISFIED)"
      by (simp only: satisfied_length_iff)
    with cov False n credit_sum_bounds [OF ok] show ?thesis
      by (simp add: divide_right_mono)
  qed
qed


subsection \<open>An example\<close>

definition sample_requirement :: EditorialRequirement where
  "sample_requirement = \<lparr>er_requirement_key = ''k'', er_label = ''SQL'', er_necessity = REQUIRED,
     er_entity_id = ''sql'', er_required_experience_codes = {''prod''}, er_support_refs = {''ref''}\<rparr>"

definition sample_capability :: "rat \<Rightarrow> NormalizedCapability" where
  "sample_capability q = \<lparr>nc_raw_text = ''SQL'', nc_entity_id = Some ''sql'',
     nc_experience_codes = [''prod'', ''school''], nc_resolution = RESOLVED, nc_credit = q\<rparr>"

definition sample_profile :: "rat list \<Rightarrow> NormalizedProfile" where
  "sample_profile qs = \<lparr>np_user_id = ''u'', np_profile_version = 1,
     np_capabilities = map sample_capability qs\<rparr>"

definition sample_completeness :: InputCompleteness where
  "sample_completeness = \<lparr>entities_complete = True, experience_complete_entity_ids = {}\<rparr>"

definition sample_baseline :: EditorialBaseline where
  "sample_baseline = \<lparr>eb_occupation_id = ''o'', eb_basis_version = ''v'',
     eb_release = \<lparr>release_id = Some ''r'', release_state = PUBLISHED, reviewed_at = Some (utc_dt 0)\<rparr>,
     eb_is_fixture = False, eb_requirements = [sample_requirement]\<rparr>"

definition sample_request :: EditorialAnalysisRequest where
  "sample_request = \<lparr>ar_analysis_id = ''a'', ar_occupation_id = ''o'', ar_basis_version = ''v'',
     ar_reference_at = utc_dt 0\<rparr>"

lemmas sample_analysis_defs = sample_requirement_def sample_capability_def sample_profile_def
  sample_completeness_def sample_baseline_def sample_request_def

lemma sample_profile_valid: "profile_valid (sample_profile [1 / 2])" "profile_valid (sample_profile [1 / 2, 1])"
  by (simp_all add: profile_valid_def sample_profile_def sample_capability_def credit_valid_def)

theorem requirement_status_exact_witness:
  "ev_status (evaluate_requirement sample_requirement (sample_profile [1 / 2]) sample_completeness) = PARTIAL
   \<and> ev_status (evaluate_requirement sample_requirement (sample_profile [1 / 2, 1]) sample_completeness) = SATISFIED"
  using requirement_status_exact [OF sample_profile_valid(1), of sample_requirement sample_completeness]
    requirement_status_exact [OF sample_profile_valid(2), of sample_requirement sample_completeness]
  by (simp add: supports_def sample_analysis_defs)

theorem evaluation_monotone_witness:
  "ev_credit (evaluate_requirement sample_requirement (sample_profile [1 / 2]) sample_completeness)
   \<le> ev_credit (evaluate_requirement sample_requirement (sample_profile [1 / 2, 1]) sample_completeness)"
  using evaluation_monotone [OF sample_profile_valid(2), of "sample_profile [1 / 2]" sample_requirement
      sample_completeness]
  by (simp add: sample_profile_def)

theorem evaluate_coverage_exact_witness:
  "\<exists>a s w. evaluate sample_baseline (sample_profile [1 / 2]) sample_request sample_completeness = Inr a
     \<and> cov_score (an_required_coverage a) = Some s \<and> cov_weighted_score (an_required_coverage a) = Some w
     \<and> 0 \<le> s \<and> s \<le> w \<and> w \<le> 1 \<and> s \<noteq> 1"
proof -
  obtain a where a: "evaluate sample_baseline (sample_profile [1 / 2]) sample_request sample_completeness = Inr a"
    and reqs: "an_requirements a
      = [evaluate_requirement sample_requirement (sample_profile [1 / 2]) sample_completeness]"
    by (simp add: evaluate_def Let_def sample_baseline_def sample_request_def)
  have "ev_status (evaluate_requirement sample_requirement (sample_profile [1 / 2]) sample_completeness) \<noteq> SATISFIED"
    by (simp add: evaluate_requirement_def matching_capabilities_def eligible_capabilities_def evaluation_def
        Let_def sample_analysis_defs)
  then show ?thesis
    using evaluate_coverage_exact [OF sample_profile_valid(1) a refl] a
    by (auto simp: reqs) (simp_all add: sample_requirement_def)
qed

end
