(* ===== verification/Candidates.thy ===== *)
theory Candidates
  imports Gap_Analysis
begin

section \<open>Candidate generation\<close>

text \<open>
  \<open>src/jobtology_be/planning/candidate_models.py\<close> (activity templates, candidates, blockers and
  the constructor checks) and \<open>candidates.py\<close> (\<open>CandidateGenerator\<close>: the catalog, the validation
  of its prerequisite graph and the expansion of the activities for unmet requirements).

  A \<open>dict\<close> is an association list in insertion order. The two recursive closures \<open>visit\<close> and
  \<open>include\<close> become functions on the list of action IDs still to be processed at one level, so that
  a recursive call is a call on the sorted prerequisites. \<open>visit\<close> terminates because the stack of
  IDs being visited grows inside the catalog. \<open>include\<close> has no cycle check of its own: its first
  argument is the interpreter's recursion limit and exceeding it is \<open>RecursionError\<close>.
\<close>

subsection \<open>Templates, candidates and blockers\<close>

datatype KrwCost = KnownKrwCost int | UnknownKrwCost

datatype CandidateTemplateError =
    InvalidTemplateIdError string
  | InvalidTemplateRevisionError string int
  | InvalidTemplateEffortError string int
  | MissingCompletionCriteriaError string
  | MissingTemplateSupportError string
  | InvalidKnownKrwCostError int

fun cost_post_init :: "KrwCost \<Rightarrow> CandidateTemplateError option" where
  "cost_post_init (KnownKrwCost krw) = (if krw < 0 then Some (InvalidKnownKrwCostError krw) else None)"
| "cost_post_init UnknownKrwCost = None"

record ActivityTemplate =
  at_action_id :: string
  at_revision :: int
  at_title :: string
  at_estimated_hours :: int
  at_outcome_requirement_keys :: "string set"
  at_prerequisite_action_ids :: "string list"
  at_completion_criteria :: "string list"
  at_support_refs :: "string set"
  at_cost :: KrwCost
  at_is_foundational :: bool

definition template_post_init :: "ActivityTemplate \<Rightarrow> CandidateTemplateError option" where
  "template_post_init t =
     (if blank (at_action_id t) then Some (InvalidTemplateIdError (at_action_id t))
      else if at_revision t \<le> 0
        then Some (InvalidTemplateRevisionError (at_action_id t) (at_revision t))
      else if at_estimated_hours t \<le> 0
        then Some (InvalidTemplateEffortError (at_action_id t) (at_estimated_hours t))
      else if at_completion_criteria t = []
        then Some (MissingCompletionCriteriaError (at_action_id t))
      else if at_support_refs t = {} then Some (MissingTemplateSupportError (at_action_id t))
      else None)"

record Candidate =
  cd_action_id :: string
  cd_template_revision :: int
  cd_title :: string
  cd_estimated_hours :: int
  cd_outcome_requirement_keys :: "string set"
  cd_prerequisite_action_ids :: "string list"
  cd_fulfilled_prerequisite_action_ids :: "string list"
  cd_completion_criteria :: "string list"
  cd_support_refs :: "string set"
  cd_cost :: KrwCost

datatype CandidateBlocker =
    InsufficientAnalysisBlocker string
  | NeedsInputBlocker string string "string set"
  | NoActivitiesBlocker string string "string set"

record CandidateSet =
  cs_analysis_id :: string
  cs_profile_version :: int
  cs_occupation_id :: string
  cs_basis_version :: string
  cs_corpus_release_id :: "string option"
  cs_is_fixture :: bool
  cs_reference_at :: datetime
  cs_candidates :: "Candidate list"
  cs_blockers :: "CandidateBlocker list"

datatype GeneratorError =
    DuplicateTemplateRevisionError string int
  | AmbiguousTemplateRevisionError string
  | MissingPrerequisiteTemplateError string string
  | PrerequisiteCycleError string
  | UnknownOutcomeRequirementError string string
  | KeyError string
  | RecursionError

subsection \<open>The catalog and its validation\<close>

type_synonym catalog = "(string \<times> ActivityTemplate) list"

fun catalog_from :: "catalog \<Rightarrow> ActivityTemplate list \<Rightarrow> GeneratorError + catalog" where
  "catalog_from acc [] = Inr acc"
| "catalog_from acc (template # rest) =
     (case map_of acc (at_action_id template) of
        Some existing \<Rightarrow>
          if at_revision existing = at_revision template
          then Inl (DuplicateTemplateRevisionError (at_action_id template) (at_revision template))
          else Inl (AmbiguousTemplateRevisionError (at_action_id template))
      | None \<Rightarrow> catalog_from (acc @ [(at_action_id template, template)]) rest)"

definition catalog_of :: "ActivityTemplate list \<Rightarrow> GeneratorError + catalog" where
  "catalog_of templates = catalog_from [] templates"

text \<open>
  The depth-first check for cycles. Python's recursion limit is not modelled: a prerequisite chain of
  about a thousand templates would raise \<open>RecursionError\<close> in the program.
\<close>

function visit :: "catalog \<Rightarrow> string set \<Rightarrow> string set \<Rightarrow> string list
    \<Rightarrow> GeneratorError + string set" where
  "visit cat visiting visited [] = Inr visited"
| "visit cat visiting visited (action_id # rest) =
     (if action_id \<in> visiting then Inl (PrerequisiteCycleError action_id)
      else if action_id \<in> visited then visit cat visiting visited rest
      else case map_of cat action_id of
        None \<Rightarrow> Inl (KeyError action_id)
      | Some t \<Rightarrow>
          (case visit cat (insert action_id visiting) visited
                  (sort (at_prerequisite_action_ids t)) of
             Inl e \<Rightarrow> Inl e
           | Inr visited' \<Rightarrow> visit cat visiting (insert action_id visited') rest))"
  by pat_completeness auto
termination
proof (relation "inv_image (less_than <*lex*> less_than)
    (\<lambda>(cat, visiting, visited, ids). (card (fst ` set cat - visiting), length ids))", goal_cases)
  case (3 cat visiting visited a rest t)
  then have "a \<in> fst ` set cat - visiting"
    by (force dest: map_of_SomeD)
  then have "fst ` set cat - insert a visiting \<subset> fst ` set cat - visiting" by auto
  then show ?case by (simp add: psubset_card_mono)
qed auto

definition dependency_pairs :: "catalog \<Rightarrow> (string \<times> string) list" where
  "dependency_pairs cat =
     concat (map (\<lambda>t. map (Pair (at_action_id t)) (at_prerequisite_action_ids t)) (map snd cat))"

definition validate_dependencies :: "catalog \<Rightarrow> GeneratorError option" where
  "validate_dependencies cat =
     (case find (\<lambda>(_, prerequisite). map_of cat prerequisite = None) (dependency_pairs cat) of
        Some (action_id, prerequisite) \<Rightarrow> Some (MissingPrerequisiteTemplateError action_id prerequisite)
      | None \<Rightarrow>
          (case visit cat {} {} (sort (map fst cat)) of
             Inl e \<Rightarrow> Some e
           | Inr _ \<Rightarrow> None))"

definition generator_post_init :: "ActivityTemplate list \<Rightarrow> GeneratorError option" where
  "generator_post_init templates =
     (case catalog_of templates of Inl e \<Rightarrow> Some e | Inr cat \<Rightarrow> validate_dependencies cat)"

definition validate_outcomes :: "catalog \<Rightarrow> string set \<Rightarrow> GeneratorError option" where
  "validate_outcomes cat requirement_keys =
     map_option (\<lambda>t. UnknownOutcomeRequirementError (at_action_id t)
         (hd (sorted_list_of_set (at_outcome_requirement_keys t - requirement_keys))))
       (find (\<lambda>t. at_outcome_requirement_keys t - requirement_keys \<noteq> {}) (map snd cat))"

subsection \<open>Expansion\<close>

text \<open>
  \<open>evaluations[key]\<close> and \<open>catalog[key]\<close> cannot raise in \<open>is_satisfied_foundation\<close> and in the
  \<open>fulfilled\<close> comprehension: \<open>_validate_outcomes\<close> and the constructor have checked those keys, so
  an absent key simply counts as not satisfied here.
\<close>

type_synonym evaluations = "string \<Rightarrow> RequirementEvaluation option"

definition evaluations_of :: "EditorialAnalysis \<Rightarrow> evaluations" where
  "evaluations_of a = map_of (rev (map (\<lambda>e. (ev_requirement_key e, e)) (an_requirements a)))"

definition is_satisfied_foundation :: "evaluations \<Rightarrow> ActivityTemplate \<Rightarrow> bool" where
  "is_satisfied_foundation evaluations t \<longleftrightarrow>
     at_is_foundational t \<and> at_outcome_requirement_keys t \<noteq> {}
     \<and> (\<forall>k \<in> at_outcome_requirement_keys t.
          case evaluations k of Some e \<Rightarrow> ev_status e = SATISFIED | None \<Rightarrow> False)"

definition fulfilled_prerequisites :: "catalog \<Rightarrow> evaluations \<Rightarrow> ActivityTemplate \<Rightarrow> string list" where
  "fulfilled_prerequisites cat evaluations t =
     sort (filter (\<lambda>p. case map_of cat p of
             Some q \<Rightarrow> is_satisfied_foundation evaluations q | None \<Rightarrow> False)
       (at_prerequisite_action_ids t))"

definition open_prerequisites :: "catalog \<Rightarrow> evaluations \<Rightarrow> ActivityTemplate \<Rightarrow> string list" where
  "open_prerequisites cat evaluations t =
     filter (\<lambda>p. p \<notin> set (fulfilled_prerequisites cat evaluations t))
       (sort (at_prerequisite_action_ids t))"

definition candidate_of :: "catalog \<Rightarrow> evaluations \<Rightarrow> ActivityTemplate \<Rightarrow> Candidate" where
  "candidate_of cat evaluations t =
     \<lparr>cd_action_id = at_action_id t,
      cd_template_revision = at_revision t,
      cd_title = at_title t,
      cd_estimated_hours = at_estimated_hours t,
      cd_outcome_requirement_keys = at_outcome_requirement_keys t,
      cd_prerequisite_action_ids = open_prerequisites cat evaluations t,
      cd_fulfilled_prerequisite_action_ids = fulfilled_prerequisites cat evaluations t,
      cd_completion_criteria = at_completion_criteria t,
      cd_support_refs = at_support_refs t,
      cd_cost = at_cost t\<rparr>"

fun include_action :: "nat \<Rightarrow> catalog \<Rightarrow> evaluations \<Rightarrow> string set \<times> Candidate list \<Rightarrow> string list
    \<Rightarrow> GeneratorError + string set \<times> Candidate list" where
  "include_action limit cat evaluations st [] = Inr st"
| "include_action 0 cat evaluations st (action_id # rest) = Inl RecursionError"
| "include_action (Suc limit) cat evaluations (included, candidates) (action_id # rest) =
     (if action_id \<in> included then include_action (Suc limit) cat evaluations (included, candidates) rest
      else case map_of cat action_id of
        None \<Rightarrow> Inl (KeyError action_id)
      | Some t \<Rightarrow>
          (case include_action limit cat evaluations (included, candidates)
                  (open_prerequisites cat evaluations t) of
             Inl e \<Rightarrow> Inl e
           | Inr (included', candidates') \<Rightarrow>
               include_action (Suc limit) cat evaluations
                 (insert action_id included', candidates' @ [candidate_of cat evaluations t]) rest))"

definition expand :: "nat \<Rightarrow> ActivityTemplate list \<Rightarrow> catalog \<Rightarrow> evaluations
    \<Rightarrow> GeneratorError + Candidate list" where
  "expand limit roots cat evaluations =
     (case include_action limit cat evaluations ({}, []) (map at_action_id roots) of
        Inl e \<Rightarrow> Inl e | Inr (_, candidates) \<Rightarrow> Inr candidates)"

definition unmet_requirements :: "EditorialAnalysis \<Rightarrow> RequirementEvaluation list" where
  "unmet_requirements a =
     filter (\<lambda>e. ev_status e \<in> {UNMET, PARTIAL}) (sort_key ev_requirement_key (an_requirements a))"

definition root_templates :: "catalog \<Rightarrow> RequirementEvaluation list \<Rightarrow> ActivityTemplate list" where
  "root_templates cat unmet =
     filter (\<lambda>t. at_outcome_requirement_keys t \<noteq> {}
         \<and> (\<exists>e \<in> set unmet. ev_requirement_key e \<in> at_outcome_requirement_keys t))
       (sort_key at_action_id (map snd cat))"

definition candidate_set ::
  "EditorialAnalysis \<Rightarrow> Candidate list \<Rightarrow> CandidateBlocker list \<Rightarrow> CandidateSet" where
  "candidate_set a candidates blockers =
     \<lparr>cs_analysis_id = an_analysis_id a,
      cs_profile_version = an_profile_version a,
      cs_occupation_id = an_occupation_id a,
      cs_basis_version = an_basis_version a,
      cs_corpus_release_id = an_corpus_release_id a,
      cs_is_fixture = an_is_fixture a,
      cs_reference_at = an_reference_at a,
      cs_candidates = candidates,
      cs_blockers = blockers\<rparr>"

definition needs_input_blockers :: "EditorialAnalysis \<Rightarrow> CandidateBlocker list" where
  "needs_input_blockers a =
     map (\<lambda>e. NeedsInputBlocker (ev_requirement_key e) (ev_label e) (ev_support_refs e))
       (filter (\<lambda>e. ev_status e = NEEDS_INPUT) (sort_key ev_requirement_key (an_requirements a)))"

definition no_activities_blockers ::
  "ActivityTemplate list \<Rightarrow> RequirementEvaluation list \<Rightarrow> CandidateBlocker list" where
  "no_activities_blockers roots unmet =
     map (\<lambda>e. NoActivitiesBlocker (ev_requirement_key e) (ev_label e) (ev_support_refs e))
       (filter (\<lambda>e. filter (\<lambda>t. ev_requirement_key e \<in> at_outcome_requirement_keys t) roots = [])
         unmet)"

definition build_ready :: "nat \<Rightarrow> ActivityTemplate list \<Rightarrow> EditorialAnalysis
    \<Rightarrow> GeneratorError + CandidateSet" where
  "build_ready limit templates a =
     (case catalog_of templates of
        Inl e \<Rightarrow> Inl e
      | Inr cat \<Rightarrow>
          let evaluations = evaluations_of a in
          (case validate_outcomes cat (ev_requirement_key ` set (an_requirements a)) of
             Some e \<Rightarrow> Inl e
           | None \<Rightarrow>
               let unmet = unmet_requirements a;
                   needs_input = needs_input_blockers a;
                   roots = root_templates cat unmet in
               (case expand limit roots cat evaluations of
                  Inl e \<Rightarrow> Inl e
                | Inr candidates \<Rightarrow>
                    Inr (candidate_set a candidates
                      (needs_input @ no_activities_blockers roots unmet)))))"

definition build :: "nat \<Rightarrow> ActivityTemplate list \<Rightarrow> EditorialAnalysis
    \<Rightarrow> GeneratorError + CandidateSet" where
  "build limit templates a =
     (if an_analysis_status a = INSUFFICIENT_DATA
      then Inr (candidate_set a [] [InsufficientAnalysisBlocker (an_analysis_id a)])
      else build_ready limit templates a)"

subsection \<open>The catalog\<close>

lemma catalog_from_Inr:
  "catalog_from acc ts = Inr cat \<longleftrightarrow>
     cat = acc @ map (\<lambda>t. (at_action_id t, t)) ts
     \<and> distinct (map at_action_id ts) \<and> at_action_id ` set ts \<inter> fst ` set acc = {}"
proof (induction ts arbitrary: acc)
  case (Cons t ts)
  show ?case
  proof (cases "map_of acc (at_action_id t)")
    case None
    then have "at_action_id t \<notin> fst ` set acc" by (simp add: map_of_eq_None_iff)
    with None show ?thesis by (auto simp: Cons.IH)
  next
    case (Some e)
    then have "at_action_id t \<in> fst ` set acc" by (force dest: map_of_SomeD)
    with Some show ?thesis by auto
  qed
qed auto

lemma catalog_of_Inr:
  "catalog_of ts = Inr cat \<longleftrightarrow>
     cat = map (\<lambda>t. (at_action_id t, t)) ts \<and> distinct (map at_action_id ts)"
  by (simp add: catalog_of_def catalog_from_Inr)

definition catalog_ok :: "catalog \<Rightarrow> bool" where
  "catalog_ok cat \<longleftrightarrow> distinct (map fst cat) \<and> (\<forall>(k, t) \<in> set cat. at_action_id t = k)"

lemma catalog_of_ok: "catalog_of ts = Inr cat \<Longrightarrow> catalog_ok cat \<and> map snd cat = ts"
  by (auto simp: catalog_of_Inr catalog_ok_def comp_def)

lemma catalog_ok_lookup: "catalog_ok cat \<Longrightarrow> map_of cat k = Some t \<Longrightarrow> at_action_id t = k"
  by (auto simp: catalog_ok_def dest: map_of_SomeD)

subsection \<open>The prerequisite graph\<close>

definition ids :: "catalog \<Rightarrow> string set" where
  "ids cat = fst ` set cat"

definition prereq_edges :: "catalog \<Rightarrow> (string \<times> string) set" where
  "prereq_edges cat = {(a, p). \<exists>t. map_of cat a = Some t \<and> p \<in> set (at_prerequisite_action_ids t)}"

lemma map_of_ids: "(\<exists>t. map_of cat a = Some t) \<longleftrightarrow> a \<in> ids cat"
  by (metis ids_def map_of_eq_None_iff not_None_eq)

lemma finite_ids [simp]: "finite (ids cat)"
  by (simp add: ids_def)

lemma edges_from: "map_of cat a = Some t \<Longrightarrow> prereq_edges cat `` {a} = set (at_prerequisite_action_ids t)"
  by (auto simp: prereq_edges_def)

lemma missing_None_iff:
  assumes "catalog_ok cat"
  shows "find (\<lambda>(_, p). map_of cat p = None) (dependency_pairs cat) = None
    \<longleftrightarrow> prereq_edges cat \<subseteq> ids cat \<times> ids cat"
proof -
  have "set (dependency_pairs cat) = prereq_edges cat"
    using assms
    by (force simp: dependency_pairs_def prereq_edges_def catalog_ok_def map_of_eq_Some_iff)
  moreover have "prereq_edges cat \<subseteq> ids cat \<times> UNIV"
    by (auto simp: prereq_edges_def map_of_ids [symmetric])
  ultimately show ?thesis
    by (auto simp: find_None_iff_all map_of_eq_None_iff ids_def)
qed

text \<open>Walking from a closed set stays in it.\<close>

lemma trancl_closed:
  assumes "(x, y) \<in> R\<^sup>+" and "x \<in> V" and "R `` V \<subseteq> V"
  shows "y \<in> V \<and> (x, y) \<in> (R \<inter> V \<times> V)\<^sup>+"
  using assms
proof (induction rule: trancl_induct)
  case (step y z)
  then have "z \<in> V" and "(y, z) \<in> R \<inter> V \<times> V" by auto
  with step show ?case by (auto intro: trancl_into_trancl)
qed auto

lemma acyclic_extend:
  assumes "acyclic (R \<inter> V \<times> V)" and "R `` V \<subseteq> V" and "R `` {a} \<subseteq> V" and "a \<notin> V"
  shows "acyclic (R \<inter> insert a V \<times> insert a V)"
proof -
  let ?S = "R \<inter> insert a V \<times> insert a V"
  have closed: "?S `` V \<subseteq> V" using assms(2) by auto
  have sub: "?S \<inter> V \<times> V = R \<inter> V \<times> V" by auto
  have "False" if xx: "(x, x) \<in> ?S\<^sup>+" for x
  proof (cases "x \<in> V")
    case True
    then show False
      using trancl_closed [OF xx True closed] assms(1) sub by (simp add: acyclic_def)
  next
    case False
    from xx obtain y where "(x, y) \<in> ?S" and y: "(y, x) \<in> ?S\<^sup>*" by (blast dest: tranclD)
    with False assms(3) have "y \<in> V" by auto
    with y have "x \<in> V"
      using trancl_closed [OF _ _ closed, of y x] by (auto simp: rtrancl_eq_or_trancl)
    with False show False ..
  qed
  then show ?thesis by (auto simp: acyclic_def)
qed

text \<open>
  Soundness of the search: the visited set is closed under prerequisites and acyclic.
\<close>

definition visited_ok :: "catalog \<Rightarrow> string set \<Rightarrow> bool" where
  "visited_ok cat V \<longleftrightarrow> prereq_edges cat `` V \<subseteq> V \<and> acyclic (prereq_edges cat \<inter> V \<times> V)"

lemma visited_ok_empty [simp]: "visited_ok cat {}"
  by (simp add: visited_ok_def acyclic_def)

lemma visited_ok_insert:
  assumes "visited_ok cat V" and "map_of cat a = Some t" and "set (at_prerequisite_action_ids t) \<subseteq> V"
  shows "visited_ok cat (insert a V)"
proof (cases "a \<in> V")
  case True
  then show ?thesis using assms(1) by (simp add: insert_absorb)
next
  case False
  then show ?thesis
    using assms acyclic_extend [of "prereq_edges cat" V a] edges_from [OF assms(2)]
    by (auto simp: visited_ok_def)
qed

lemma visit_sound:
  "visit cat G V xs = Inr V' \<Longrightarrow> visited_ok cat V
     \<Longrightarrow> visited_ok cat V' \<and> V \<subseteq> V' \<and> set xs \<subseteq> V'"
proof (induction cat G V xs arbitrary: V' rule: visit.induct)
  case (2 cat G V a rest)
  show ?case
  proof (cases "a \<in> V")
    case True
    with "2" show ?thesis by (auto split: if_splits)
  next
    case False
    with "2.prems"(1) have aG: "a \<notin> G" by (auto split: if_splits)
    from "2.prems"(1) False aG obtain t where t: "map_of cat a = Some t"
      by (auto split: option.splits)
    from "2.prems"(1) False aG t obtain W
      where W: "visit cat (insert a G) V (sort (at_prerequisite_action_ids t)) = Inr W"
        and rest: "visit cat G (insert a W) rest = Inr V'"
      by (auto split: sum.splits)
    from "2.IH"(2) [OF aG False t W "2.prems"(2)]
    have "visited_ok cat W" and VW: "V \<subseteq> W" and "set (at_prerequisite_action_ids t) \<subseteq> W" by auto
    then have "visited_ok cat (insert a W)" using visited_ok_insert t by blast
    from "2.IH"(3) [OF aG False t W rest this] VW show ?thesis by auto
  qed
qed auto

text \<open>Completeness: on an acyclic graph inside the catalog the search never raises.\<close>

lemma visit_complete:
  assumes "acyclic (prereq_edges cat)" and "prereq_edges cat \<subseteq> ids cat \<times> ids cat"
  shows "set xs \<subseteq> ids cat \<Longrightarrow> \<forall>g \<in> G. \<forall>x \<in> set xs. (g, x) \<in> (prereq_edges cat)\<^sup>+
    \<Longrightarrow> \<exists>V'. visit cat G V xs = Inr V'"
  using assms
proof (induction cat G V xs rule: visit.induct)
  case (2 cat G V a rest)
  from "2.prems" have aG: "a \<notin> G" by (auto simp: acyclic_def)
  show ?case
  proof (cases "a \<in> V")
    case True
    with "2" aG show ?thesis by auto
  next
    case False
    from "2.prems"(1) obtain t where t: "map_of cat a = Some t"
      by (auto simp: map_of_ids [symmetric])
    let ?ps = "sort (at_prerequisite_action_ids t)"
    have E: "(a, p) \<in> prereq_edges cat" if "p \<in> set ?ps" for p
      using that t by (auto simp: prereq_edges_def)
    then have "set ?ps \<subseteq> ids cat" using "2.prems"(4) by auto
    moreover have "\<forall>g \<in> insert a G. \<forall>x \<in> set ?ps. (g, x) \<in> (prereq_edges cat)\<^sup>+"
      using E "2.prems"(2) by (auto intro: trancl_into_trancl)
    ultimately obtain W where W: "visit cat (insert a G) V ?ps = Inr W"
      using "2.IH"(2) [OF aG False t] "2.prems"(3,4) by blast
    have "\<exists>V'. visit cat G (insert a W) rest = Inr V'"
      using "2.IH"(3) [OF aG False t W] "2.prems" by auto
    with aG False t W show ?thesis by simp
  qed
qed simp

lemma validate_dependencies_iff:
  assumes "catalog_ok cat"
  shows "validate_dependencies cat = None
    \<longleftrightarrow> prereq_edges cat \<subseteq> ids cat \<times> ids cat \<and> acyclic (prereq_edges cat)"
proof (cases "prereq_edges cat \<subseteq> ids cat \<times> ids cat")
  case False
  then have "find (\<lambda>(_, p). map_of cat p = None) (dependency_pairs cat) \<noteq> None"
    using missing_None_iff [OF assms] by simp
  with False show ?thesis by (auto simp: validate_dependencies_def)
next
  case True
  then have none: "find (\<lambda>(_, p). map_of cat p = None) (dependency_pairs cat) = None"
    using missing_None_iff [OF assms] by simp
  have "acyclic (prereq_edges cat)" if "visit cat {} {} (sort (map fst cat)) = Inr V" for V
  proof -
    from visit_sound [OF that visited_ok_empty] have "visited_ok cat V" and "ids cat \<subseteq> V"
      by (auto simp: ids_def)
    with True have "prereq_edges cat \<inter> V \<times> V = prereq_edges cat" by auto
    with \<open>visited_ok cat V\<close> show ?thesis by (simp add: visited_ok_def)
  qed
  moreover have "\<exists>V. visit cat {} {} (sort (map fst cat)) = Inr V" if "acyclic (prereq_edges cat)"
    using visit_complete [OF that True, of "sort (map fst cat)" "{}" "{}"] by (simp add: ids_def)
  ultimately show ?thesis
    using True none by (auto simp: validate_dependencies_def split: sum.splits)
qed

subsection \<open>The expansion\<close>

definition open_edges :: "catalog \<Rightarrow> evaluations \<Rightarrow> (string \<times> string) set" where
  "open_edges cat ev = {(a, p). \<exists>t. map_of cat a = Some t \<and> p \<in> set (open_prerequisites cat ev t)}"

lemma open_edges_sub: "open_edges cat ev \<subseteq> prereq_edges cat"
  by (auto simp: open_edges_def prereq_edges_def open_prerequisites_def)

lemma open_edges_from: "map_of cat a = Some t \<Longrightarrow> open_edges cat ev `` {a} = set (open_prerequisites cat ev t)"
  by (auto simp: open_edges_def)

text \<open>Every candidate comes after all its open prerequisites and no action ID occurs twice.\<close>

fun topo_from :: "string set \<Rightarrow> Candidate list \<Rightarrow> bool" where
  "topo_from seen [] = True"
| "topo_from seen (c # cs) =
     (cd_action_id c \<notin> seen \<and> set (cd_prerequisite_action_ids c) \<subseteq> seen
      \<and> topo_from (insert (cd_action_id c) seen) cs)"

lemma topo_from_snoc:
  "topo_from seen (cs @ [c]) \<longleftrightarrow> topo_from seen cs \<and> cd_action_id c \<notin> seen \<union> cd_action_id ` set cs
     \<and> set (cd_prerequisite_action_ids c) \<subseteq> seen \<union> cd_action_id ` set cs"
  by (induction cs arbitrary: seen) auto

lemma topo_from_prereqs:
  "topo_from seen cs \<Longrightarrow> c \<in> set cs
     \<Longrightarrow> set (cd_prerequisite_action_ids c) \<subseteq> seen \<union> cd_action_id ` set cs"
  by (induction cs arbitrary: seen) fastforce+

lemma topo_from_distinct:
  "topo_from seen cs \<Longrightarrow> distinct (map cd_action_id cs) \<and> cd_action_id ` set cs \<inter> seen = {}"
  by (induction cs arbitrary: seen) fastforce+

lemma topo_from_before:
  "topo_from seen cs \<Longrightarrow> j < length cs \<Longrightarrow> p \<in> set (cd_prerequisite_action_ids (cs ! j))
     \<Longrightarrow> p \<in> seen \<or> (\<exists>i < j. cd_action_id (cs ! i) = p)"
proof (induction cs arbitrary: seen j)
  case (Cons c cs)
  show ?case
  proof (cases j)
    case 0
    with Cons.prems show ?thesis by auto
  next
    case (Suc k)
    with Cons.prems Cons.IH [of "insert (cd_action_id c) seen" k]
    have "p \<in> insert (cd_action_id c) seen \<or> (\<exists>i < k. cd_action_id (cs ! i) = p)" by simp
    then show ?thesis using Suc by (auto intro: exI [of _ 0] exI [of _ "Suc _"])
  qed
qed simp

definition include_inv :: "catalog \<Rightarrow> evaluations \<Rightarrow> string set \<times> Candidate list \<Rightarrow> bool" where
  "include_inv cat ev st \<longleftrightarrow> fst st = cd_action_id ` set (snd st) \<and> topo_from {} (snd st)
     \<and> (\<forall>c \<in> set (snd st). \<exists>t. map_of cat (cd_action_id c) = Some t \<and> c = candidate_of cat ev t)"

lemma candidate_of_simps [simp]:
  "cd_action_id (candidate_of cat ev t) = at_action_id t"
  "cd_prerequisite_action_ids (candidate_of cat ev t) = open_prerequisites cat ev t"
  "cd_outcome_requirement_keys (candidate_of cat ev t) = at_outcome_requirement_keys t"
  "cd_estimated_hours (candidate_of cat ev t) = at_estimated_hours t"
  "cd_cost (candidate_of cat ev t) = at_cost t"
  by (simp_all add: candidate_of_def)

lemma include_inv_closed: "include_inv cat ev (inc, cs) \<Longrightarrow> (open_edges cat ev)\<^sup>* `` inc = inc"
proof (rule Image_closed_trancl)
  assume inv: "include_inv cat ev (inc, cs)"
  show "open_edges cat ev `` inc \<subseteq> inc"
  proof
    fix p
    assume "p \<in> open_edges cat ev `` inc"
    then obtain c where c: "c \<in> set cs" and edge: "(cd_action_id c, p) \<in> open_edges cat ev"
      using inv by (auto simp: include_inv_def)
    from inv c obtain t where t: "map_of cat (cd_action_id c) = Some t" "c = candidate_of cat ev t"
      by (auto simp: include_inv_def)
    with edge have "p \<in> set (cd_prerequisite_action_ids c)"
      using open_edges_from [OF t(1), of ev] by auto
    with inv c show "p \<in> inc"
      using topo_from_prereqs [of "{}" cs c] by (auto simp: include_inv_def)
  qed
qed

lemma include_inv_snoc:
  assumes "include_inv cat ev (inc, cs)" and "catalog_ok cat" and "map_of cat a = Some t"
    and "a \<notin> inc" and "set (open_prerequisites cat ev t) \<subseteq> inc"
  shows "include_inv cat ev (insert a inc, cs @ [candidate_of cat ev t])"
proof -
  have "at_action_id t = a" using assms(2,3) by (rule catalog_ok_lookup)
  with assms show ?thesis by (auto simp: include_inv_def topo_from_snoc)
qed

lemma reach_step: "R\<^sup>* `` {a} = insert a (R\<^sup>* `` (R `` {a}))"
  by (auto intro: converse_rtrancl_into_rtrancl elim: converse_rtranclE)

lemma include_action_spec:
  assumes "catalog_ok cat" and "acyclic (prereq_edges cat)"
    and "prereq_edges cat \<subseteq> ids cat \<times> ids cat"
  shows "set xs \<subseteq> ids cat \<Longrightarrow> A \<subseteq> ids cat
    \<Longrightarrow> \<forall>a \<in> A. \<forall>x \<in> set xs. (a, x) \<in> (prereq_edges cat)\<^sup>+
    \<Longrightarrow> card (ids cat) \<le> limit + card A \<Longrightarrow> include_inv cat ev st
    \<Longrightarrow> \<exists>inc' cs'. include_action limit cat ev st xs = Inr (inc', cs')
          \<and> include_inv cat ev (inc', cs') \<and> inc' = fst st \<union> (open_edges cat ev)\<^sup>* `` set xs"
  using assms
proof (induction limit cat ev st xs arbitrary: A rule: include_action.induct)
  case (1 limit cat ev st)
  then show ?case by (cases st) simp
next
  case (2 cat ev st a rest)
  then have "A = ids cat" by (intro card_seteq) auto
  with "2.prems" have "(a, a) \<in> (prereq_edges cat)\<^sup>+" by auto
  with "2.prems" show ?case by (simp add: acyclic_def)
next
  case (3 l cat ev inc cs a rest)
  let ?O = "open_edges cat ev"
  have rest: "set rest \<subseteq> ids cat" "\<forall>b \<in> A. \<forall>x \<in> set rest. (b, x) \<in> (prereq_edges cat)\<^sup>+"
    using "3.prems" by auto
  show ?case
  proof (cases "a \<in> inc")
    case True
    then have "?O\<^sup>* `` {a} \<subseteq> inc" using include_inv_closed [OF "3.prems"(5)] by blast
    then have "inc \<union> ?O\<^sup>* `` set (a # rest) = inc \<union> ?O\<^sup>* `` set rest" by auto
    with True "3.IH"(1) [OF True rest(1) "3.prems"(2) rest(2) "3.prems"(4,5,6,7,8)]
    show ?thesis by simp
  next
    case False
    from "3.prems"(1) obtain t where t: "map_of cat a = Some t"
      by (auto simp: map_of_ids [symmetric])
    let ?ps = "open_prerequisites cat ev t"
    have O: "?O `` {a} = set ?ps" using t by (rule open_edges_from)
    then have E: "(a, p) \<in> prereq_edges cat" if "p \<in> set ?ps" for p
      using that open_edges_sub by blast
    have ps: "set ?ps \<subseteq> ids cat" using E "3.prems"(8) by auto
    have aA: "a \<notin> A" using "3.prems"(3,7) by (auto simp: acyclic_def)
    have fin: "finite A" using "3.prems"(2) by (rule finite_subset) simp
    have A': "insert a A \<subseteq> ids cat" "card (ids cat) \<le> l + card (insert a A)"
      "\<forall>b \<in> insert a A. \<forall>x \<in> set ?ps. (b, x) \<in> (prereq_edges cat)\<^sup>+"
      using "3.prems" aA fin E by (auto intro: trancl_into_trancl)
    from "3.IH"(2) [OF False t ps A'(1) A'(3) A'(2) "3.prems"(5,6,7,8)]
    obtain inc1 cs1 where one: "include_action l cat ev (inc, cs) ?ps = Inr (inc1, cs1)"
      and inv1: "include_inv cat ev (inc1, cs1)" and inc1: "inc1 = inc \<union> ?O\<^sup>* `` set ?ps" by auto
    have "a \<notin> ?O\<^sup>* `` set ?ps"
    proof
      assume "a \<in> ?O\<^sup>* `` set ?ps"
      then obtain p where "p \<in> set ?ps" and "(p, a) \<in> (prereq_edges cat)\<^sup>*"
        using rtrancl_mono [OF open_edges_sub [of cat ev]] by auto
      with E have "(a, a) \<in> (prereq_edges cat)\<^sup>+" by (meson rtrancl_into_trancl2)
      with "3.prems"(7) show False by (simp add: acyclic_def)
    qed
    with False inc1 have "a \<notin> inc1" by simp
    moreover have "set ?ps \<subseteq> inc1" using inc1 by auto
    ultimately have inv2: "include_inv cat ev (insert a inc1, cs1 @ [candidate_of cat ev t])"
      using include_inv_snoc [OF inv1 "3.prems"(6) t] by simp
    have "insert a inc1 \<union> ?O\<^sup>* `` set rest = inc \<union> ?O\<^sup>* `` set (a # rest)"
      using reach_step [of ?O a] inc1 O by auto
    with False t one "3.IH"(3) [OF False t one [THEN trans, OF refl] refl rest(1) "3.prems"(2)
        rest(2) "3.prems"(4) inv2 "3.prems"(6,7,8)]
    show ?thesis by simp
  qed
qed

subsection \<open>Properties\<close>

definition template_edges :: "ActivityTemplate list \<Rightarrow> (string \<times> string) set" where
  "template_edges ts = {(at_action_id t, p) | t p. t \<in> set ts \<and> p \<in> set (at_prerequisite_action_ids t)}"

abbreviation catalog_alist :: "ActivityTemplate list \<Rightarrow> catalog" where
  "catalog_alist ts \<equiv> map (\<lambda>t. (at_action_id t, t)) ts"

lemma catalog_alist_simps:
  assumes "distinct (map at_action_id ts)"
  shows "catalog_ok (catalog_alist ts)" and "ids (catalog_alist ts) = at_action_id ` set ts"
    and "prereq_edges (catalog_alist ts) = template_edges ts"
    and "card (ids (catalog_alist ts)) = length ts"
proof -
  show ok: "catalog_ok (catalog_alist ts)" and i: "ids (catalog_alist ts) = at_action_id ` set ts"
    using assms by (auto simp: catalog_ok_def ids_def comp_def image_image)
  then have "map_of (catalog_alist ts) a = Some t \<longleftrightarrow> t \<in> set ts \<and> at_action_id t = a" for a t
    by (subst map_of_eq_Some_iff) (auto simp: catalog_ok_def)
  then show "prereq_edges (catalog_alist ts) = template_edges ts"
    by (auto simp: prereq_edges_def template_edges_def)
  show "card (ids (catalog_alist ts)) = length ts"
    using assms by (metis distinct_card i length_map list.set_map)
qed

lemma generator_post_init_None_iff:
  "generator_post_init ts = None \<longleftrightarrow>
     distinct (map at_action_id ts)
     \<and> template_edges ts \<subseteq> at_action_id ` set ts \<times> at_action_id ` set ts
     \<and> acyclic (template_edges ts)"
proof (cases "distinct (map at_action_id ts)")
  case True
  then have "catalog_of ts = Inr (catalog_alist ts)" by (simp add: catalog_of_Inr)
  with True show ?thesis
    by (simp add: generator_post_init_def validate_dependencies_iff catalog_alist_simps)
next
  case False
  then obtain e where "catalog_of ts = Inl e"
    by (cases "catalog_of ts") (auto simp: catalog_of_Inr)
  with False show ?thesis by (simp add: generator_post_init_def)
qed

text \<open>
  C6: the constructor of \<open>CandidateGenerator\<close> accepts a list of templates exactly when their
  action IDs are distinct, every prerequisite names one of them and the prerequisite graph has no
  cycle: the depth-first search neither misses a cycle nor raises without one.
\<close>

theorem generator_accepts_iff:
  "generator_post_init ts = None \<longleftrightarrow>
     distinct (map at_action_id ts)
     \<and> template_edges ts \<subseteq> at_action_id ` set ts \<times> at_action_id ` set ts
     \<and> acyclic (template_edges ts)"
  by (rule generator_post_init_None_iff)

lemma root_templates_set:
  "set (root_templates cat (unmet_requirements a)) = {t \<in> snd ` set cat. \<exists>e \<in> set (an_requirements a).
     ev_status e \<in> {UNMET, PARTIAL} \<and> ev_requirement_key e \<in> at_outcome_requirement_keys t}"
  by (auto simp: root_templates_def unmet_requirements_def)

lemma validate_outcomes_None_iff:
  "validate_outcomes cat keys = None \<longleftrightarrow> (\<forall>t \<in> snd ` set cat. at_outcome_requirement_keys t \<subseteq> keys)"
  by (auto simp: validate_outcomes_def find_None_iff_all)

lemma expand_spec:
  assumes "generator_post_init ts = None" and "length ts \<le> limit" and "set roots \<subseteq> set ts"
  shows "\<exists>cs. expand limit roots (catalog_alist ts) ev = Inr cs \<and> topo_from {} cs
    \<and> cd_action_id ` set cs = (open_edges (catalog_alist ts) ev)\<^sup>* `` (at_action_id ` set roots)
    \<and> (\<forall>c \<in> set cs. \<exists>t \<in> set ts. c = candidate_of (catalog_alist ts) ev t)"
proof -
  let ?cat = "catalog_alist ts"
  note acc = assms(1) [unfolded generator_post_init_None_iff]
  then have ok: "catalog_ok ?cat" "acyclic (prereq_edges ?cat)"
    "prereq_edges ?cat \<subseteq> ids ?cat \<times> ids ?cat"
    by (simp_all add: catalog_alist_simps)
  have roots: "set (map at_action_id roots) \<subseteq> ids ?cat"
    using assms(3) acc by (auto simp: catalog_alist_simps)
  have "card (ids ?cat) \<le> limit + card {}"
    using assms(2) acc catalog_alist_simps(4) [of ts] by simp
  from include_action_spec [OF ok roots _ _ this, of ev "({}, [])"]
  obtain inc cs where "include_action limit ?cat ev ({}, []) (map at_action_id roots) = Inr (inc, cs)"
    and inv: "include_inv ?cat ev (inc, cs)"
    and "inc = (open_edges ?cat ev)\<^sup>* `` (at_action_id ` set roots)"
    by (auto simp: include_inv_def)
  moreover have "\<exists>t \<in> set ts. c = candidate_of ?cat ev t" if "c \<in> set cs" for c
  proof -
    from inv that obtain t where "map_of ?cat (cd_action_id c) = Some t" "c = candidate_of ?cat ev t"
      by (auto simp: include_inv_def)
    then show ?thesis using map_of_SomeD [of ?cat "cd_action_id c" t] by auto
  qed
  ultimately show ?thesis
    by (auto simp: expand_def include_inv_def)
qed

lemma build_readyE:
  assumes "build limit ts a = Inr cs" and "an_analysis_status a = READY"
  obtains candidates where "distinct (map at_action_id ts)"
    and "expand limit (root_templates (catalog_alist ts) (unmet_requirements a)) (catalog_alist ts)
           (evaluations_of a) = Inr candidates"
    and "cs = candidate_set a candidates (needs_input_blockers a
           @ no_activities_blockers (root_templates (catalog_alist ts) (unmet_requirements a))
               (unmet_requirements a))"
  using assms
  by (auto simp: build_def build_ready_def Let_def catalog_of_Inr split: sum.splits option.splits)

text \<open>
  C5: for an accepted list of templates and an analysis that evaluates every outcome requirement,
  a recursion limit as large as the catalog is enough: \<open>build\<close> returns a candidate set whose
  candidates are exactly the activities that resolve an unmet or partial requirement and,
  transitively, their prerequisites that are not satisfied foundations, each listed once and
  after all its prerequisites.
\<close>

theorem build_returns_candidate_dag:
  assumes "generator_post_init ts = None" and "length ts \<le> limit"
    and "an_analysis_status a = READY"
    and "\<forall>t \<in> set ts. at_outcome_requirement_keys t \<subseteq> ev_requirement_key ` set (an_requirements a)"
  shows "\<exists>cs. build limit ts a = Inr cs
    \<and> (\<forall>j < length (cs_candidates cs). \<forall>p \<in> set (cd_prerequisite_action_ids (cs_candidates cs ! j)).
         \<exists>i < j. cd_action_id (cs_candidates cs ! i) = p)
    \<and> distinct (map cd_action_id (cs_candidates cs))
    \<and> cd_action_id ` set (cs_candidates cs) =
        (open_edges (catalog_alist ts) (evaluations_of a))\<^sup>* ``
          {at_action_id t | t. t \<in> set ts \<and> (\<exists>e \<in> set (an_requirements a). ev_status e \<in> {UNMET, PARTIAL}
             \<and> ev_requirement_key e \<in> at_outcome_requirement_keys t)}"
proof -
  let ?cat = "catalog_alist ts"
  let ?roots = "root_templates ?cat (unmet_requirements a)"
  have roots: "set ?roots = {t \<in> set ts. \<exists>e \<in> set (an_requirements a).
      ev_status e \<in> {UNMET, PARTIAL} \<and> ev_requirement_key e \<in> at_outcome_requirement_keys t}"
    by (simp add: root_templates_set image_image)
  from expand_spec [OF assms(1,2), of ?roots "evaluations_of a"] roots
  obtain cs where cs: "expand limit ?roots ?cat (evaluations_of a) = Inr cs" "topo_from {} cs"
    "cd_action_id ` set cs = (open_edges ?cat (evaluations_of a))\<^sup>* `` (at_action_id ` set ?roots)"
    by blast
  have "catalog_of ts = Inr ?cat"
    using assms(1) by (simp add: generator_post_init_None_iff catalog_of_Inr)
  moreover have "validate_outcomes ?cat (ev_requirement_key ` set (an_requirements a)) = None"
    using assms(4) by (simp add: validate_outcomes_None_iff image_image)
  ultimately have "build limit ts a = Inr (candidate_set a cs (needs_input_blockers a
      @ no_activities_blockers ?roots (unmet_requirements a)))"
    using assms(3) cs(1) by (simp add: build_def build_ready_def Let_def)
  moreover have "at_action_id ` set ?roots = {at_action_id t | t. t \<in> set ts \<and> (\<exists>e \<in> set (an_requirements a).
      ev_status e \<in> {UNMET, PARTIAL} \<and> ev_requirement_key e \<in> at_outcome_requirement_keys t)}"
    unfolding roots by auto
  ultimately show ?thesis
    using cs topo_from_before [OF cs(2)] topo_from_distinct [OF cs(2)]
    by (intro exI [of _ "candidate_set a cs (needs_input_blockers a
      @ no_activities_blockers ?roots (unmet_requirements a))"]) (auto simp: candidate_set_def)
qed

text \<open>
  C17: nothing unresolved is dropped silently. In a built candidate set of a ready analysis, an
  unmet or partial requirement has a NoActivitiesBlocker exactly when no candidate produces it,
  and a requirement that needs input has its NeedsInputBlocker.
\<close>

theorem build_accounts_for_requirements:
  assumes "generator_post_init ts = None" and "length ts \<le> limit"
    and "an_analysis_status a = READY" and "build limit ts a = Inr cs"
    and "e \<in> set (an_requirements a)"
  shows "(ev_status e \<in> {UNMET, PARTIAL} \<longrightarrow>
       (NoActivitiesBlocker (ev_requirement_key e) (ev_label e) (ev_support_refs e) \<in> set (cs_blockers cs)
        \<longleftrightarrow> \<not> (\<exists>c \<in> set (cs_candidates cs). ev_requirement_key e \<in> cd_outcome_requirement_keys c)))
    \<and> (ev_status e = NEEDS_INPUT \<longrightarrow>
       NeedsInputBlocker (ev_requirement_key e) (ev_label e) (ev_support_refs e) \<in> set (cs_blockers cs))"
proof -
  let ?cat = "catalog_alist ts"
  let ?roots = "root_templates ?cat (unmet_requirements a)"
  obtain candidates where
    ex: "expand limit ?roots ?cat (evaluations_of a) = Inr candidates"
    and cs: "cs = candidate_set a candidates (needs_input_blockers a
      @ no_activities_blockers ?roots (unmet_requirements a))"
    by (rule build_readyE [OF assms(4,3)])
  have roots: "set ?roots = {t \<in> set ts. \<exists>e \<in> set (an_requirements a).
      ev_status e \<in> {UNMET, PARTIAL} \<and> ev_requirement_key e \<in> at_outcome_requirement_keys t}"
    by (simp add: root_templates_set image_image)
  then have sub: "set ?roots \<subseteq> set ts" by auto
  obtain candidates' where "expand limit ?roots ?cat (evaluations_of a) = Inr candidates'"
    and spec: "cd_action_id ` set candidates'
        = (open_edges ?cat (evaluations_of a))\<^sup>* `` (at_action_id ` set ?roots)"
      "\<forall>c \<in> set candidates'. \<exists>t \<in> set ts. c = candidate_of ?cat (evaluations_of a) t"
    using expand_spec [OF assms(1,2) sub, of "evaluations_of a"] by blast
  with ex have "candidates' = candidates" by simp
  with spec have ids: "cd_action_id ` set candidates
      = (open_edges ?cat (evaluations_of a))\<^sup>* `` (at_action_id ` set ?roots)"
    and tmpl: "\<And>c. c \<in> set candidates \<Longrightarrow> \<exists>t \<in> set ts. c = candidate_of ?cat (evaluations_of a) t"
    by auto
  have dist: "distinct (map at_action_id ts)" using assms(1) by (simp add: generator_post_init_None_iff)
  have produced: "(\<exists>c \<in> set candidates. ev_requirement_key e \<in> cd_outcome_requirement_keys c)
      \<longleftrightarrow> (\<exists>t \<in> set ?roots. ev_requirement_key e \<in> at_outcome_requirement_keys t)"
    if unmet: "ev_status e \<in> {UNMET, PARTIAL}"
  proof
    assume "\<exists>c \<in> set candidates. ev_requirement_key e \<in> cd_outcome_requirement_keys c"
    then obtain t where "t \<in> set ts" "ev_requirement_key e \<in> at_outcome_requirement_keys t"
      using tmpl by fastforce
    with unmet assms(5) show "\<exists>t \<in> set ?roots. ev_requirement_key e \<in> at_outcome_requirement_keys t"
      unfolding roots by blast
  next
    assume "\<exists>t \<in> set ?roots. ev_requirement_key e \<in> at_outcome_requirement_keys t"
    then obtain t where t: "t \<in> set ?roots" "ev_requirement_key e \<in> at_outcome_requirement_keys t" ..
    with ids have "at_action_id t \<in> cd_action_id ` set candidates" by auto
    then obtain c where c: "c \<in> set candidates" "cd_action_id c = at_action_id t" by auto
    with tmpl obtain u where u: "u \<in> set ts" "c = candidate_of ?cat (evaluations_of a) u" by blast
    with c t(1) sub dist have "u = t" by (auto simp: distinct_map inj_on_def)
    with c u t show "\<exists>c \<in> set candidates. ev_requirement_key e \<in> cd_outcome_requirement_keys c"
      by (intro bexI [of _ c]) simp_all
  qed
  have "NoActivitiesBlocker (ev_requirement_key e) (ev_label e) (ev_support_refs e) \<in> set (cs_blockers cs)
      \<longleftrightarrow> \<not> (\<exists>t \<in> set ?roots. ev_requirement_key e \<in> at_outcome_requirement_keys t)"
    if "ev_status e \<in> {UNMET, PARTIAL}"
    using that assms(5)
    by (auto simp: cs candidate_set_def needs_input_blockers_def no_activities_blockers_def
        unmet_requirements_def filter_empty_conv image_iff)
  moreover have "cs_candidates cs = candidates" by (simp add: cs candidate_set_def)
  ultimately show ?thesis using produced assms(5)
    by (auto simp: cs candidate_set_def needs_input_blockers_def)
qed


subsection \<open>An example\<close>

definition sample_template :: "string \<Rightarrow> string set \<Rightarrow> string list \<Rightarrow> ActivityTemplate" where
  "sample_template a keys pre =
     \<lparr>at_action_id = a, at_revision = 1, at_title = a, at_estimated_hours = 1,
      at_outcome_requirement_keys = keys, at_prerequisite_action_ids = pre,
      at_completion_criteria = [''done''], at_support_refs = {''ref''}, at_cost = KnownKrwCost 0,
      at_is_foundational = False\<rparr>"

definition sample_templates :: "ActivityTemplate list" where
  "sample_templates = [sample_template ''a'' {} [], sample_template ''b'' {''k''} [''a'']]"

definition sample_evaluation :: RequirementEvaluation where
  "sample_evaluation = \<lparr>ev_requirement_key = ''k'', ev_label = ''K'', ev_necessity = REQUIRED,
     ev_status = UNMET, ev_provenance = {}, ev_support_refs = {''ref''}, ev_credit = 0\<rparr>"

definition sample_analysis :: EditorialAnalysis where
  "sample_analysis =
     \<lparr>an_analysis_id = ''analysis'', an_profile_version = 1, an_occupation_id = ''o'',
      an_basis_version = ''v'', an_corpus_release_id = None, an_is_fixture = False,
      an_reference_at = utc_dt 0, an_analysis_status = READY, an_requirements = [sample_evaluation],
      an_required_coverage = unavailable_coverage NO_REQUIREMENTS,
      an_preferred_coverage = unavailable_coverage NO_REQUIREMENTS\<rparr>"

lemmas sample_generator_defs = sample_templates_def sample_template_def sample_analysis_def
  sample_evaluation_def

lemma sample_templates_accepted: "generator_post_init sample_templates = None"
  by (simp add: generator_post_init_def catalog_of_def validate_dependencies_def dependency_pairs_def
      sample_templates_def sample_template_def)

lemma sample_outcomes_known:
  "\<forall>t \<in> set sample_templates. at_outcome_requirement_keys t \<subseteq> ev_requirement_key ` set (an_requirements sample_analysis)"
  by (simp add: sample_generator_defs)

theorem build_returns_candidate_dag_witness:
  "\<exists>cs. build 2 sample_templates sample_analysis = Inr cs \<and> distinct (map cd_action_id (cs_candidates cs))
     \<and> ''b'' \<in> cd_action_id ` set (cs_candidates cs)"
proof -
  have "sample_template ''b'' {''k''} [''a''] \<in> set sample_templates" "sample_evaluation \<in> set (an_requirements sample_analysis)"
    by (simp_all add: sample_templates_def sample_analysis_def)
  then have "''b'' \<in> {at_action_id t | t. t \<in> set sample_templates \<and> (\<exists>e \<in> set (an_requirements sample_analysis).
      ev_status e \<in> {UNMET, PARTIAL} \<and> ev_requirement_key e \<in> at_outcome_requirement_keys t)}" (is "_ \<in> ?R")
    by (intro CollectI exI [of _ "sample_template ''b'' {''k''} [''a'']"] conjI bexI [of _ sample_evaluation])
      (simp_all add: sample_template_def sample_evaluation_def)
  then have "''b'' \<in> (open_edges (catalog_alist sample_templates) (evaluations_of sample_analysis))\<^sup>* `` ?R"
    by blast
  moreover have "length sample_templates \<le> 2" "an_analysis_status sample_analysis = READY"
    by (simp_all add: sample_templates_def sample_analysis_def)
  note build_returns_candidate_dag [OF sample_templates_accepted this sample_outcomes_known]
  ultimately show ?thesis by metis
qed

theorem build_accounts_for_requirements_witness:
  "\<exists>cs. build 1 [] sample_analysis = Inr cs
     \<and> NoActivitiesBlocker ''k'' ''K'' {''ref''} \<in> set (cs_blockers cs)"
proof -
  have accepted: "generator_post_init [] = None"
    by (simp add: generator_post_init_def catalog_of_def validate_dependencies_def dependency_pairs_def)
  obtain cs where cs: "build 1 [] sample_analysis = Inr cs" "cs_candidates cs = []"
    by (simp add: build_def build_ready_def catalog_of_def validate_outcomes_def root_templates_def
        expand_def Let_def sample_analysis_def candidate_set_def)
  moreover have "an_analysis_status sample_analysis = READY" "sample_evaluation \<in> set (an_requirements sample_analysis)"
    by (simp_all add: sample_analysis_def)
  ultimately show ?thesis
    using build_accounts_for_requirements [OF accepted, of 1 sample_analysis cs sample_evaluation]
    by (simp add: sample_evaluation_def)
qed

end
