(* ===== verification/Solver_Models.thy ===== *)
theory Solver_Models
  imports Candidates
begin

section \<open>The planning problem\<close>

text \<open>
  \<open>src/jobtology_be/planning/solver_models.py\<close>: slots, availabilities, settings, the planning
  problem with the checks of the constructors, the objective snapshot and the result records.
  The calendar is a list of one-hour slots; timestamps are \<^typ>\<open>datetime\<close>s of the prelude, so the
  comparisons and differences below are Python's.
\<close>

definition HOUR :: int where "HOUR = 3600000000"

definition SLOT_DURATION :: int where "SLOT_DURATION = HOUR"

definition SOLVER_RANDOM_SEED :: int where "SOLVER_RANDOM_SEED = 20260904"

definition SOLVER_WORKER_COUNT :: int where "SOLVER_WORKER_COUNT = 1"

definition OBJECTIVE_VERSION :: string where "OBJECTIVE_VERSION = ''CP_SAT_NORMALIZED_V1''"

type_synonym reason = string

datatype RouteFeasibility = FEASIBLE | RISKY | PARTIAL_ROUTE | INFEASIBLE

datatype OptimizationStatus =
  OPTIMAL_STATUS | FEASIBLE_STATUS | INFEASIBLE_STATUS | TIMEOUT_STATUS

datatype ObjectiveMethod = NORMALIZED_WEIGHTED

datatype UnknownCostTreatment = NO_LOW_COST_CREDIT

datatype RouteRejectionCode =
  INPUT_BLOCKER | UNKNOWN_COST_WITH_HARD_CAP | NO_CANDIDATE_FOR_REQUIRED_REQUIREMENT

datatype StepSelectionReason =
    SATISFIES_REQUIRED_REQUIREMENT | SATISFIES_PREFERRED_REQUIREMENT | PREREQUISITE
  | PORTFOLIO_PREFERENCE | FOUNDATIONAL_PREFERENCE

text \<open>A \<open>StrEnum\<close> is ordered by its text, which is how \<open>sorted\<close> orders the reasons of a step.\<close>

fun reason_text :: "StepSelectionReason \<Rightarrow> string" where
  "reason_text SATISFIES_REQUIRED_REQUIREMENT = ''SATISFIES_REQUIRED_REQUIREMENT''"
| "reason_text SATISFIES_PREFERRED_REQUIREMENT = ''SATISFIES_PREFERRED_REQUIREMENT''"
| "reason_text PREREQUISITE = ''PREREQUISITE''"
| "reason_text PORTFOLIO_PREFERENCE = ''PORTFOLIO_PREFERENCE''"
| "reason_text FOUNDATIONAL_PREFERENCE = ''FOUNDATIONAL_PREFERENCE''"

lemma reason_text_inject: "reason_text a = reason_text b \<longleftrightarrow> a = b"
  by (cases a; cases b) simp_all

instantiation StepSelectionReason :: linorder
begin

definition less_eq_StepSelectionReason :: "StepSelectionReason \<Rightarrow> StepSelectionReason \<Rightarrow> bool" where
  "less_eq_StepSelectionReason a b \<longleftrightarrow> reason_text a \<le> reason_text b"

definition less_StepSelectionReason :: "StepSelectionReason \<Rightarrow> StepSelectionReason \<Rightarrow> bool" where
  "less_StepSelectionReason a b \<longleftrightarrow> reason_text a < reason_text b"

instance
  by standard
    (auto simp: less_eq_StepSelectionReason_def less_StepSelectionReason_def less_le_not_le
      reason_text_inject [symmetric])

end

record PlanningSlot =
  starts_at :: datetime
  ends_at :: datetime
  capacity_week_key :: string

definition slot_post_init :: "PlanningSlot \<Rightarrow> reason option" where
  "slot_post_init s =
     (if \<not> is_aware (starts_at s) \<or> \<not> is_aware (ends_at s)
        then Some ''planning slots must use aware timestamps''
      else if dt_diff (ends_at s) (starts_at s) \<noteq> SLOT_DURATION
        then Some ''planning slots must be exactly one hour''
      else if blank (capacity_week_key s) then Some ''planning slot week key must be non-empty''
      else None)"

record CandidateAvailability =
  av_action_id :: string
  available_from :: datetime
  available_until :: datetime

definition availability_post_init :: "CandidateAvailability \<Rightarrow> reason option" where
  "availability_post_init v =
     (if blank (av_action_id v) then Some ''candidate availability action ID must be non-empty''
      else if \<not> is_aware (available_from v) \<or> \<not> is_aware (available_until v)
        then Some ''candidate availability must use aware timestamps''
      else if dt_less (available_until v) (available_from v)
        then Some ''candidate availability cannot end before it starts''
      else None)"

text \<open>
  The time limit of a search is a float; the constructor accepts finite, nonnegative numbers. A
  \<open>bool\<close>, a value of another type and an infinity or NaN are the rejected alternatives.
\<close>

datatype py_number = Finite rat | NotFinite | NotANumber

definition settings_post_init :: "py_number \<Rightarrow> reason option" where
  "settings_post_init v =
     (case v of
        Finite q \<Rightarrow> if q < 0 then Some ''solver time limit must be finite and nonnegative'' else None
      | _ \<Rightarrow> Some ''solver time limit must be finite and nonnegative'')"

record ObjectiveSnapshot =
  obj_version :: string
  obj_method :: ObjectiveMethod
  obj_unknown_cost_treatment :: UnknownCostTreatment
  coverage_weight :: int
  time_weight :: int
  cost_weight :: int
  preferred_requirement_count :: nat
  horizon_microseconds :: int
  known_cost_upper_bound_krw :: int

record CandidateVersion =
  cv_action_id :: string
  cv_template_revision :: int

record SlotAllocation =
  sa_slot_index :: nat
  sa_capacity_week_key :: string
  sa_starts_at :: datetime
  sa_ends_at :: datetime

record ScheduledRouteStep =
  st_step_key :: string
  st_action_id :: string
  st_template_revision :: int
  st_title :: string
  st_estimated_hours :: int
  st_prerequisite_step_keys :: "string list"
  st_outcome_requirement_keys :: "string list"
  st_completion_criteria :: "string list"
  st_support_refs :: "string list"
  st_reason_codes :: "StepSelectionReason list"
  st_planned_start_at :: datetime
  st_planned_end_at :: datetime
  st_slot_allocations :: "SlotAllocation list"

record RouteRejection =
  rj_code :: RouteRejectionCode
  rj_action_id :: "string option"
  rj_requirement_key :: "string option"

datatype Phase = FULL_PHASE | PARTIAL_PHASE

record SolverRunTelemetry =
  tel_phase :: Phase
  tel_status :: string
  tel_time_limit_seconds :: rat
  tel_wall_time_seconds :: rat
  tel_objective_value :: "rat option"
  tel_best_objective_bound :: "rat option"
  tel_skipped_reason :: "string option"

record PartialRouteDiagnostic =
  pd_unmet_required_requirement_keys :: "string list"
  pd_scheduled_steps :: "ScheduledRouteStep list"
  pd_solver_run :: "SolverRunTelemetry option"

record PlanningProblem =
  pp_analysis_id :: string
  pp_profile_version :: int
  pp_basis_version :: string
  pp_corpus_release_id :: "string option"
  pp_is_fixture :: bool
  pp_reference_at :: datetime
  pp_candidates :: "Candidate list"
  pp_candidate_blockers :: "CandidateBlocker list"
  required_requirement_keys :: "string set"
  preferred_requirement_keys :: "string set"
  pp_constraints :: PlanningConstraints
  planning_started_at :: datetime
  calendar :: "PlanningSlot list"
  candidate_availability :: "CandidateAvailability list"
  time_limit_seconds :: rat
  pp_planning_policy_version :: "string option"
  pp_planning_policy_decisions :: "string list"
  foundational_priority_action_ids :: "string set"
  portfolio_action_ids :: "string set"

fun slots_overlap :: "PlanningSlot list \<Rightarrow> bool" where
  "slots_overlap (prior # current # rest) =
     (dt_less (starts_at current) (ends_at prior) \<or> slots_overlap (current # rest))"
| "slots_overlap _ = False"

text \<open>
  \<open>sorted(calendar, key=starts_at) == calendar\<close> for Python's stable sort: no later slot starts
  strictly before an earlier one.
\<close>

fun slots_ordered :: "PlanningSlot list \<Rightarrow> bool" where
  "slots_ordered [] = True"
| "slots_ordered (s # rest) =
     (list_all (\<lambda>t. \<not> dt_less (starts_at t) (starts_at s)) rest \<and> slots_ordered rest)"

definition problem_post_init :: "PlanningProblem \<Rightarrow> reason option" where
  "problem_post_init p =
     (if blank (pp_analysis_id p) \<or> blank (pp_basis_version p)
        then Some ''planning identity fields must be non-empty''
      else if pp_profile_version p \<le> 0 then Some ''profile version must be positive''
      else if \<not> is_aware (pp_reference_at p) \<or> \<not> is_aware (planning_started_at p)
        then Some ''planning timestamps must be aware''
      else if dt_le (target_by (pp_constraints p)) (planning_started_at p)
        then Some ''planning target must be after planning start''
      else if calendar p = [] then Some ''planning calendar cannot be empty''
      else if required_requirement_keys p \<inter> preferred_requirement_keys p \<noteq> {}
        then Some ''requirement necessity sets must not overlap''
      else if \<not> slots_ordered (calendar p) then Some ''planning calendar must be ordered''
      else if slots_overlap (calendar p) then Some ''planning calendar slots cannot overlap''
      else if dt_less (starts_at (hd (calendar p))) (planning_started_at p)
        then Some ''planning calendar cannot start before planning''
      else if dt_less (target_by (pp_constraints p)) (ends_at (last (calendar p)))
        then Some ''planning calendar cannot extend past target date''
      else if \<not> distinct (map av_action_id (candidate_availability p))
        then Some ''candidate availability must be unique per action''
      else if \<not> list_all (\<lambda>v. av_action_id v \<in> cd_action_id ` set (pp_candidates p))
             (candidate_availability p)
        then Some ''candidate availability must reference a candidate''
      else None)"

fun known_cost_of :: "KrwCost \<Rightarrow> int" where
  "known_cost_of (KnownKrwCost krw) = krw"
| "known_cost_of UnknownKrwCost = 0"

definition known_cost :: "Candidate \<Rightarrow> int" where
  "known_cost c = known_cost_of (cd_cost c)"

definition microseconds_from_planning_start :: "PlanningProblem \<Rightarrow> datetime \<Rightarrow> int" where
  "microseconds_from_planning_start p v = dt_diff v (planning_started_at p)"

definition objective_snapshot :: "PlanningProblem \<Rightarrow> ObjectiveSnapshot" where
  "objective_snapshot p =
     (let (cov, tim, cost) = (case budget_mode (pp_constraints p) of
            REGULAR \<Rightarrow> (55, 30, 15) | LOW_COST \<Rightarrow> (35, 20, 45));
          fast = fastest_path (pp_constraints p) in
      \<lparr>obj_version = (if foundational_priority_action_ids p \<noteq> {}
          then OBJECTIVE_VERSION @ ''_FOUNDATION_PRIORITY_V1'' else OBJECTIVE_VERSION),
       obj_method = NORMALIZED_WEIGHTED,
       obj_unknown_cost_treatment = NO_LOW_COST_CREDIT,
       coverage_weight = (if fast then cov - 10 else cov),
       time_weight = (if fast then tim + 15 else tim),
       cost_weight = (if fast then cost - 5 else cost),
       preferred_requirement_count = card (preferred_requirement_keys p),
       horizon_microseconds = dt_diff (target_by (pp_constraints p)) (planning_started_at p),
       known_cost_upper_bound_krw = sum_list (map known_cost (pp_candidates p))\<rparr>)"

record PlanningConstraintSnapshot =
  snap_target_by :: datetime
  snap_available_hours_per_week :: int
  snap_budget_mode :: BudgetMode
  snap_max_out_of_pocket_krw :: "int option"
  snap_fastest_path :: bool
  snap_needs_portfolio :: bool
  snap_career_switch :: bool
  snap_weekly_availability :: "WeeklyAvailabilityWindow list"
  snap_unavailable_dates :: "int list"

definition from_constraints :: "PlanningConstraints \<Rightarrow> PlanningConstraintSnapshot" where
  "from_constraints c =
     \<lparr>snap_target_by = target_by c,
      snap_available_hours_per_week = available_hours_per_week c,
      snap_budget_mode = budget_mode c,
      snap_max_out_of_pocket_krw = max_out_of_pocket_krw c,
      snap_fastest_path = fastest_path c,
      snap_needs_portfolio = needs_portfolio c,
      snap_career_switch = career_switch c,
      snap_weekly_availability = weekly_availability c,
      snap_unavailable_dates = unavailable_dates c\<rparr>"

record RoutePlanningTrace =
  tr_analysis_id :: string
  tr_profile_version :: int
  tr_basis_version :: string
  tr_corpus_release_id :: "string option"
  tr_is_fixture :: bool
  tr_reference_at :: datetime
  tr_planning_started_at :: datetime
  tr_constraints :: PlanningConstraintSnapshot
  tr_objective :: ObjectiveSnapshot
  tr_input_candidate_action_ids :: "string list"
  tr_solver_candidate_action_ids :: "string list"
  tr_candidate_versions :: "CandidateVersion list"
  tr_solver_seed :: int
  tr_solver_worker_count :: int
  tr_time_limit_seconds :: rat
  tr_optimization_status :: OptimizationStatus
  tr_rejections :: "RouteRejection list"
  tr_partial_route_diagnostic :: "PartialRouteDiagnostic option"
  tr_solver_runs :: "SolverRunTelemetry list"
  tr_planning_policy_version :: "string option"
  tr_planning_policy_decisions :: "string list"
  tr_foundational_priority_action_ids :: "string list"

record PlanningResult =
  pr_feasibility :: "RouteFeasibility option"
  pr_optimization_status :: OptimizationStatus
  pr_scheduled_steps :: "ScheduledRouteStep list"
  pr_trace :: RoutePlanningTrace

subsection \<open>Facts about a checked problem\<close>

text \<open>
  A problem as the program builds it: the constructors of its parts passed, its candidates came
  from checked templates, every slot is in UTC (as \<open>flexible_weekly_slots\<close> makes them) and the
  key sets are finite, as a \<open>frozenset\<close> is.
\<close>

definition problem_ok :: "PlanningProblem \<Rightarrow> bool" where
  "problem_ok p \<longleftrightarrow> problem_post_init p = None \<and> constraints_valid (pp_constraints p)
     \<and> list_all (\<lambda>s. slot_post_init s = None \<and> in_utc (starts_at s) \<and> in_utc (ends_at s)) (calendar p)
     \<and> dt_ok (planning_started_at p) \<and> dt_ok (target_by (pp_constraints p))
     \<and> dt_diff (target_by (pp_constraints p)) (planning_started_at p)
         = instant (target_by (pp_constraints p)) - instant (planning_started_at p)
     \<and> list_all (\<lambda>c. cost_post_init (cd_cost c) = None) (pp_candidates p)
     \<and> list_all (\<lambda>c. finite (cd_outcome_requirement_keys c)) (pp_candidates p)
     \<and> finite (required_requirement_keys p) \<and> finite (preferred_requirement_keys p)"

lemma known_cost_nonneg: "cost_post_init (cd_cost c) = None \<Longrightarrow> 0 \<le> known_cost c"
  by (cases "cd_cost c") (auto simp: known_cost_def split: if_splits)

lemma objective_weights:
  "coverage_weight (objective_snapshot p) + time_weight (objective_snapshot p)
     + cost_weight (objective_snapshot p) = 100
   \<and> 0 \<le> coverage_weight (objective_snapshot p) \<and> 0 \<le> time_weight (objective_snapshot p)
   \<and> 0 \<le> cost_weight (objective_snapshot p)"
  by (cases "budget_mode (pp_constraints p)") (simp_all add: objective_snapshot_def Let_def)

definition start_of :: "PlanningProblem \<Rightarrow> nat \<Rightarrow> int" where
  "start_of p i = microseconds_from_planning_start p (starts_at (calendar p ! i))"

definition end_of :: "PlanningProblem \<Rightarrow> nat \<Rightarrow> int" where
  "end_of p i = microseconds_from_planning_start p (ends_at (calendar p ! i))"

abbreviation horizon :: "PlanningProblem \<Rightarrow> int" where
  "horizon p \<equiv> horizon_microseconds (objective_snapshot p)"

lemma horizon_eq: "horizon p = dt_diff (target_by (pp_constraints p)) (planning_started_at p)"
  by (simp add: objective_snapshot_def Let_def split: prod.splits)

lemma slot_facts:
  assumes "problem_ok p" and "i < length (calendar p)"
  shows "start_of p i = instant (starts_at (calendar p ! i)) - instant (planning_started_at p)"
    and "end_of p i = instant (ends_at (calendar p ! i)) - instant (planning_started_at p)"
    and "end_of p i = start_of p i + HOUR"
proof -
  from assms have s: "slot_post_init (calendar p ! i) = None" "in_utc (starts_at (calendar p ! i))"
    "in_utc (ends_at (calendar p ! i))" "dt_ok (planning_started_at p)"
    by (auto simp: problem_ok_def list_all_length)
  then show a: "start_of p i = instant (starts_at (calendar p ! i)) - instant (planning_started_at p)"
    and b: "end_of p i = instant (ends_at (calendar p ! i)) - instant (planning_started_at p)"
    by (simp_all add: start_of_def end_of_def microseconds_from_planning_start_def dt_simps)
  from s have "instant (ends_at (calendar p ! i)) - instant (starts_at (calendar p ! i)) = HOUR"
    by (auto simp: slot_post_init_def dt_simps in_utc_ok SLOT_DURATION_def split: if_splits)
  with a b show "end_of p i = start_of p i + HOUR" by simp
qed

lemma no_overlap_adjacent:
  "\<not> slots_overlap cal \<Longrightarrow> Suc i < length cal
     \<Longrightarrow> \<not> dt_less (starts_at (cal ! Suc i)) (ends_at (cal ! i))"
proof (induction cal arbitrary: i rule: slots_overlap.induct)
  case (1 a b rest)
  then show ?case by (cases i) auto
qed auto

lemma problem_okD:
  assumes "problem_ok p"
  shows "calendar p \<noteq> []" and "\<not> slots_overlap (calendar p)"
    and "\<not> dt_less (starts_at (hd (calendar p))) (planning_started_at p)"
    and "\<not> dt_less (target_by (pp_constraints p)) (ends_at (last (calendar p)))"
    and "\<not> dt_le (target_by (pp_constraints p)) (planning_started_at p)"
    and "1 \<le> available_hours_per_week (pp_constraints p)"
    and "distinct (map av_action_id (candidate_availability p))"
  using assms by (auto simp: problem_ok_def problem_post_init_def constraints_valid_def split: if_splits)

lemma slot_step:
  assumes "problem_ok p" and "Suc i < length (calendar p)"
  shows "end_of p i \<le> start_of p (Suc i)"
proof -
  have "in_utc (ends_at (calendar p ! i))" "in_utc (starts_at (calendar p ! Suc i))"
    using assms by (auto simp: problem_ok_def list_all_length)
  with no_overlap_adjacent [OF problem_okD(2) [OF assms(1)] assms(2)]
  have "instant (ends_at (calendar p ! i)) \<le> instant (starts_at (calendar p ! Suc i))"
    by (simp add: dt_less_def dt_simps in_utc_ok)
  with slot_facts(1) [OF assms] slot_facts(2) [OF assms(1), of i] assms(2) show ?thesis by simp
qed

text \<open>The slots are consecutive and disjoint intervals inside the horizon.\<close>

lemma slot_before:
  assumes "problem_ok p" and "i < j" and "j < length (calendar p)"
  shows "end_of p i \<le> start_of p j"
  using assms(2,3)
proof (induction j)
  case (Suc j)
  show ?case
  proof (cases "i = j")
    case True
    then show ?thesis using slot_step [OF assms(1)] Suc.prems by simp
  next
    case False
    with Suc have "end_of p i \<le> start_of p j" by simp
    moreover have "start_of p j \<le> end_of p j"
      using slot_facts(3) [OF assms(1), of j] Suc.prems by (simp add: HOUR_def)
    moreover have "end_of p j \<le> start_of p (Suc j)"
      using slot_step [OF assms(1)] Suc.prems by simp
    ultimately show ?thesis by linarith
  qed
qed simp

lemma slot_bounds:
  assumes "problem_ok p" and "i < length (calendar p)"
  shows "0 \<le> start_of p i" and "end_of p i \<le> horizon p" and "0 < end_of p i"
proof -
  have ne: "calendar p \<noteq> []" by (rule problem_okD(1) [OF assms(1)])
  let ?n = "length (calendar p) - 1"
  have n: "?n < length (calendar p)" using ne by simp
  have ok: "dt_ok (planning_started_at p)" "dt_ok (target_by (pp_constraints p))"
    "in_utc (starts_at (calendar p ! 0))" "in_utc (ends_at (calendar p ! ?n))"
    and hz: "horizon p = instant (target_by (pp_constraints p)) - instant (planning_started_at p)"
    using assms n ne by (auto simp: problem_ok_def list_all_length horizon_eq)
  have zero: "0 \<le> start_of p 0"
    using problem_okD(3) [OF assms(1)] slot_facts(1) [OF assms(1), of 0] ok ne
    by (simp add: hd_conv_nth dt_less_def dt_simps)
  have last: "end_of p ?n \<le> horizon p"
    using problem_okD(4) [OF assms(1)] slot_facts(2) [OF assms(1) n] ok ne hz
    by (simp add: last_conv_nth dt_less_def dt_simps)
  note dur = slot_facts(3) [OF assms(1), unfolded HOUR_def]
  show start: "0 \<le> start_of p i"
    using zero slot_before [OF assms(1), of 0 i] dur [of 0] assms(2) ne
    by (cases "i = 0") auto
  show "end_of p i \<le> horizon p"
  proof (cases "i = ?n")
    case False
    with assms(2) have "i < ?n" by linarith
    with slot_before [OF assms(1) _ n] last dur [OF n] show ?thesis by fastforce
  qed (use last in simp)
  show "0 < end_of p i" using start dur [OF assms(2)] by simp
qed

lemma horizon_pos: "problem_ok p \<Longrightarrow> 0 < horizon p"
  using slot_bounds(2,3) [of p 0] problem_okD(1) [of p] by fastforce

end
