(* ===== verification/Cp_Sat_Model.thy ===== *)
theory Cp_Sat_Model
  imports Solver_Models
begin

section \<open>The constraint model handed to the solver\<close>

text \<open>
  \<open>src/jobtology_be/planning/cp_sat_model.py\<close>. The variables, expressions and constraints the
  source passes to OR-Tools are a small language with the documented meaning of each constraint;
  \<open>build_route_model\<close> is the list of variable domains and constraints in the order the source adds
  them, the maximised expression and the search hints. Variables are named by what they stand
  for instead of by object identity.
\<close>

subsection \<open>The constraint language\<close>

datatype cp_var =
    Selected string
  | Assigned string nat
  | Completion string
  | Covered string
  | RouteCompletion
  | TotalSelectedHours
  | EarliestCapacityCompletion
  | CoveragePoints
  | TimeRemaining
  | TimePoints
  | CostPoints
  | CostCredit
  | UnknownCostSelected
  | FoundationPriorityPoints

datatype cp_expr =
    Const int
  | Var cp_var
  | Plus cp_expr cp_expr
  | Minus cp_expr cp_expr
  | Times int cp_expr
  | Sum "cp_expr list"

datatype cp_literal = Pos cp_var | Neg cp_var

datatype cp_constraint =
    Eq cp_expr cp_expr
  | Le cp_expr cp_expr
  | MaxEq cp_expr "cp_expr list"
  | ElementEq cp_expr "int list" cp_expr
  | DivEq cp_expr cp_expr int
  | OnlyIf cp_literal cp_constraint

type_synonym assignment = "cp_var \<Rightarrow> int"

type_synonym cp_part = "(cp_var \<times> int \<times> int) list \<times> cp_constraint list"

record cp_model =
  cp_domains :: "(cp_var \<times> int \<times> int) list"
  cp_constraints :: "cp_constraint list"
  cp_objective :: cp_expr
  cp_hints :: "(cp_var \<times> int) list"

fun cp_eval :: "assignment \<Rightarrow> cp_expr \<Rightarrow> int" where
  "cp_eval \<sigma> (Const c) = c"
| "cp_eval \<sigma> (Var v) = \<sigma> v"
| "cp_eval \<sigma> (Plus a b) = cp_eval \<sigma> a + cp_eval \<sigma> b"
| "cp_eval \<sigma> (Minus a b) = cp_eval \<sigma> a - cp_eval \<sigma> b"
| "cp_eval \<sigma> (Times c a) = c * cp_eval \<sigma> a"
| "cp_eval \<sigma> (Sum es) = sum_list (map (cp_eval \<sigma>) es)"

text \<open>Division in a constraint rounds towards zero.\<close>

definition trunc_div :: "int \<Rightarrow> int \<Rightarrow> int" where
  "trunc_div a b = sgn a * sgn b * (\<bar>a\<bar> div \<bar>b\<bar>)"

fun cp_holds :: "assignment \<Rightarrow> cp_constraint \<Rightarrow> bool" where
  "cp_holds \<sigma> (Eq a b) \<longleftrightarrow> cp_eval \<sigma> a = cp_eval \<sigma> b"
| "cp_holds \<sigma> (Le a b) \<longleftrightarrow> cp_eval \<sigma> a \<le> cp_eval \<sigma> b"
| "cp_holds \<sigma> (MaxEq t es) \<longleftrightarrow> es \<noteq> [] \<and> cp_eval \<sigma> t = Max (set (map (cp_eval \<sigma>) es))"
| "cp_holds \<sigma> (ElementEq i vs t) \<longleftrightarrow>
     0 \<le> cp_eval \<sigma> i \<and> cp_eval \<sigma> i < int (length vs) \<and> cp_eval \<sigma> t = vs ! nat (cp_eval \<sigma> i)"
| "cp_holds \<sigma> (DivEq t a d) \<longleftrightarrow> d \<noteq> 0 \<and> cp_eval \<sigma> t = trunc_div (cp_eval \<sigma> a) d"
| "cp_holds \<sigma> (OnlyIf (Pos v) c) \<longleftrightarrow> (\<sigma> v = 1 \<longrightarrow> cp_holds \<sigma> c)"
| "cp_holds \<sigma> (OnlyIf (Neg v) c) \<longleftrightarrow> (\<sigma> v = 0 \<longrightarrow> cp_holds \<sigma> c)"

definition part_holds :: "assignment \<Rightarrow> cp_part \<Rightarrow> bool" where
  "part_holds \<sigma> m \<longleftrightarrow> list_all (\<lambda>(v, lo, hi). lo \<le> \<sigma> v \<and> \<sigma> v \<le> hi) (fst m)
     \<and> list_all (cp_holds \<sigma>) (snd m)"

definition satisfies :: "assignment \<Rightarrow> cp_model \<Rightarrow> bool" where
  "satisfies \<sigma> m \<longleftrightarrow> part_holds \<sigma> (cp_domains m, cp_constraints m)"

subsection \<open>Building the model\<close>

definition NORMALIZED_SCORE_MAXIMUM :: int where "NORMALIZED_SCORE_MAXIMUM = 10000"

definition PARTIAL_REQUIRED_COVERAGE_WEIGHT :: int where
  "PARTIAL_REQUIRED_COVERAGE_WEIGHT = 100 * NORMALIZED_SCORE_MAXIMUM + 1"

definition validate_candidates :: "Candidate list \<Rightarrow> reason option" where
  "validate_candidates candidates =
     (if \<not> distinct (map cd_action_id candidates) then Some ''candidate action IDs must be unique''
      else case find (\<lambda>c. cd_estimated_hours c \<le> 0
             \<or> \<not> set (cd_prerequisite_action_ids c) \<subseteq> cd_action_id ` set candidates) candidates of
        None \<Rightarrow> None
      | Some c \<Rightarrow> if cd_estimated_hours c \<le> 0 then Some ''candidate effort must be positive''
                  else Some ''candidate prerequisites must be included'')"

definition is_available :: "PlanningSlot \<Rightarrow> CandidateAvailability option \<Rightarrow> bool" where
  "is_available slot availability =
     (case availability of None \<Rightarrow> True
      | Some v \<Rightarrow> dt_le (available_from v) (starts_at slot) \<and> dt_le (ends_at slot) (available_until v))"

definition availability_of :: "PlanningProblem \<Rightarrow> string \<Rightarrow> CandidateAvailability option" where
  "availability_of p = map_of (rev (map (\<lambda>v. (av_action_id v, v)) (candidate_availability p)))"

definition slot_available :: "PlanningProblem \<Rightarrow> Candidate \<Rightarrow> nat \<Rightarrow> bool" where
  "slot_available p c i \<longleftrightarrow> is_available (calendar p ! i) (availability_of p (cd_action_id c))"

text \<open>\<open>sum(min(count, hours) for count in Counter(week keys).values())\<close>\<close>

definition capped_capacity :: "int \<Rightarrow> string list \<Rightarrow> int" where
  "capped_capacity hours keys =
     sum_list (map (\<lambda>k. min (int (count_list keys k)) hours) (remdups keys))"

abbreviation slot_indexes :: "PlanningProblem \<Rightarrow> nat list" where
  "slot_indexes p \<equiv> [0..<length (calendar p)]"

abbreviation week_of :: "PlanningProblem \<Rightarrow> nat \<Rightarrow> string" where
  "week_of p i \<equiv> capacity_week_key (calendar p ! i)"

abbreviation hours_per_week :: "PlanningProblem \<Rightarrow> int" where
  "hours_per_week p \<equiv> available_hours_per_week (pp_constraints p)"

abbreviation budget_cap :: "PlanningProblem \<Rightarrow> int option" where
  "budget_cap p \<equiv> max_out_of_pocket_krw (pp_constraints p)"

definition route_variables :: "PlanningProblem \<Rightarrow> Candidate list \<Rightarrow> (cp_var \<times> int \<times> int) list" where
  "route_variables p candidates =
     map (\<lambda>c. (Selected (cd_action_id c), 0, 1)) candidates
     @ concat (map (\<lambda>c. map (\<lambda>i. (Assigned (cd_action_id c) i, 0, 1)) (slot_indexes p)) candidates)
     @ map (\<lambda>c. (Completion (cd_action_id c), 0, horizon p)) candidates"

definition candidate_constraints :: "PlanningProblem \<Rightarrow> Candidate \<Rightarrow> cp_constraint list" where
  "candidate_constraints p c =
     (let a = cd_action_id c;
          available_capacity = capped_capacity (hours_per_week p)
            (map (week_of p) (filter (slot_available p c) (slot_indexes p))) in
      (if cd_estimated_hours c > available_capacity then [Eq (Var (Selected a)) (Const 0)] else [])
      @ [Eq (Sum (map (\<lambda>i. Var (Assigned a i)) (slot_indexes p)))
            (Times (cd_estimated_hours c) (Var (Selected a)))]
      @ map (\<lambda>i. Eq (Var (Assigned a i)) (Const 0))
          (filter (\<lambda>i. \<not> slot_available p c i) (slot_indexes p))
      @ [MaxEq (Var (Completion a))
           (map (\<lambda>i. Times (end_of p i) (Var (Assigned a i))) (slot_indexes p))]
      @ (if budget_cap p \<noteq> None \<and> cd_cost c = UnknownKrwCost
         then [Eq (Var (Selected a)) (Const 0)] else []))"

definition slot_constraints :: "PlanningProblem \<Rightarrow> Candidate list \<Rightarrow> cp_constraint list" where
  "slot_constraints p candidates =
     map (\<lambda>i. Le (Sum (map (\<lambda>c. Var (Assigned (cd_action_id c) i)) candidates)) (Const 1))
       (slot_indexes p)"

definition week_constraints :: "PlanningProblem \<Rightarrow> Candidate list \<Rightarrow> cp_constraint list" where
  "week_constraints p candidates =
     map (\<lambda>k. Le (Sum (concat (map (\<lambda>c. map (\<lambda>i. Var (Assigned (cd_action_id c) i))
              (filter (\<lambda>i. week_of p i = k) (slot_indexes p))) candidates)))
            (Const (hours_per_week p)))
       (sort (remdups (map capacity_week_key (calendar p))))"

definition prerequisite_constraints :: "PlanningProblem \<Rightarrow> Candidate list \<Rightarrow> cp_constraint list" where
  "prerequisite_constraints p candidates =
     concat (map (\<lambda>c. concat (map (\<lambda>q.
         Le (Var (Selected (cd_action_id c))) (Var (Selected q))
         # map (\<lambda>i. OnlyIf (Pos (Assigned (cd_action_id c) i))
               (Le (Var (Completion q)) (Const (start_of p i)))) (slot_indexes p))
       (cd_prerequisite_action_ids c))) candidates)"

definition budget_constraints :: "PlanningProblem \<Rightarrow> Candidate list \<Rightarrow> cp_constraint list" where
  "budget_constraints p candidates =
     (case budget_cap p of
        None \<Rightarrow> []
      | Some cap \<Rightarrow> [Le (Sum (map (\<lambda>c. Times (known_cost c) (Var (Selected (cd_action_id c)))) candidates))
                      (Const cap)])"

definition add_requirement_coverage :: "PlanningProblem \<Rightarrow> Candidate list \<Rightarrow> bool \<Rightarrow> cp_part" where
  "add_requirement_coverage p candidates require_required_coverage =
     (let keys = sorted_list_of_set (required_requirement_keys p \<union> preferred_requirement_keys p) in
      (map (\<lambda>k. (Covered k, 0, 1)) keys,
       concat (map (\<lambda>k.
         let matching = map (\<lambda>c. Var (Selected (cd_action_id c)))
               (filter (\<lambda>c. k \<in> cd_outcome_requirement_keys c) candidates) in
         (if matching \<noteq> [] then [MaxEq (Var (Covered k)) matching]
          else [Eq (Var (Covered k)) (Const 0)])
         @ (if require_required_coverage \<and> k \<in> required_requirement_keys p
            then [Eq (Var (Covered k)) (Const 1)] else [])) keys)))"

definition coverage_points :: "PlanningProblem \<Rightarrow> cp_part" where
  "coverage_points p =
     (let preferred_count = card (preferred_requirement_keys p) in
      ([(CoveragePoints, 0, NORMALIZED_SCORE_MAXIMUM)],
       if preferred_count = 0 then [Eq (Var CoveragePoints) (Const 0)]
       else [DivEq (Var CoveragePoints)
               (Times NORMALIZED_SCORE_MAXIMUM (Sum (map (\<lambda>k. Var (Covered k))
                  (sorted_list_of_set (preferred_requirement_keys p)))))
               (int preferred_count)]))"

definition unknown_selected :: "Candidate list \<Rightarrow> cp_part" where
  "unknown_selected candidates =
     (let selected_unknown = map (\<lambda>c. Var (Selected (cd_action_id c)))
            (filter (\<lambda>c. cd_cost c = UnknownKrwCost) candidates) in
      ([(UnknownCostSelected, 0, 1)],
       if selected_unknown \<noteq> [] then [MaxEq (Var UnknownCostSelected) selected_unknown]
       else [Eq (Var UnknownCostSelected) (Const 0)]))"

definition known_spend :: "Candidate list \<Rightarrow> cp_expr" where
  "known_spend candidates =
     Sum (map (\<lambda>c. Times (known_cost c) (Var (Selected (cd_action_id c)))) candidates)"

definition cost_points :: "PlanningProblem \<Rightarrow> Candidate list \<Rightarrow> cp_part" where
  "cost_points p candidates =
     (let bound = known_cost_upper_bound_krw (objective_snapshot p) in
      if bound = 0
      then ([(CostPoints, 0, NORMALIZED_SCORE_MAXIMUM)], [Eq (Var CostPoints) (Const 0)])
      else
        let (ud, uc) = unknown_selected candidates in
        ((CostPoints, 0, NORMALIZED_SCORE_MAXIMUM) # (CostCredit, 0, bound) # ud,
         uc @ [OnlyIf (Neg UnknownCostSelected)
                 (Eq (Var CostCredit) (Minus (Const bound) (known_spend candidates))),
               OnlyIf (Pos UnknownCostSelected) (Eq (Var CostCredit) (Const 0)),
               DivEq (Var CostPoints) (Times NORMALIZED_SCORE_MAXIMUM (Var CostCredit)) bound]))"

definition completion_part :: "PlanningProblem \<Rightarrow> Candidate list \<Rightarrow> cp_part" where
  "completion_part p candidates =
     ([(RouteCompletion, 0, horizon p), (TotalSelectedHours, 0, int (length (calendar p))),
       (EarliestCapacityCompletion, 0, horizon p), (TimeRemaining, 0, horizon p),
       (TimePoints, 0, NORMALIZED_SCORE_MAXIMUM)],
      [if candidates \<noteq> []
       then MaxEq (Var RouteCompletion) (map (\<lambda>c. Var (Completion (cd_action_id c))) candidates)
       else Eq (Var RouteCompletion) (Const 0),
       Eq (Var TotalSelectedHours)
         (Sum (map (\<lambda>c. Times (cd_estimated_hours c) (Var (Selected (cd_action_id c)))) candidates)),
       ElementEq (Var TotalSelectedHours) (0 # map (end_of p) (slot_indexes p))
         (Var EarliestCapacityCompletion),
       Le (Var EarliestCapacityCompletion) (Var RouteCompletion),
       Eq (Var TimeRemaining) (Minus (Const (horizon p)) (Var RouteCompletion)),
       DivEq (Var TimePoints) (Times NORMALIZED_SCORE_MAXIMUM (Var TimeRemaining)) (horizon p)])"

definition weighted_points :: "PlanningProblem \<Rightarrow> cp_expr" where
  "weighted_points p =
     Plus (Plus (Times (coverage_weight (objective_snapshot p)) (Var CoveragePoints))
                (Times (time_weight (objective_snapshot p)) (Var TimePoints)))
       (Times (cost_weight (objective_snapshot p)) (Var CostPoints))"

definition primary_score :: "PlanningProblem \<Rightarrow> bool \<Rightarrow> cp_expr" where
  "primary_score p reward_required_coverage =
     (if reward_required_coverage
      then Plus (Times PARTIAL_REQUIRED_COVERAGE_WEIGHT
                  (Sum (map (\<lambda>k. Var (Covered k)) (sorted_list_of_set (required_requirement_keys p)))))
             (weighted_points p)
      else weighted_points p)"

definition foundations :: "PlanningProblem \<Rightarrow> Candidate list \<Rightarrow> Candidate list" where
  "foundations p candidates =
     filter (\<lambda>c. cd_action_id c \<in> foundational_priority_action_ids p) candidates"

definition early_foundation_hours :: "PlanningProblem \<Rightarrow> Candidate list \<Rightarrow> cp_expr" where
  "early_foundation_hours p candidates =
     Sum (concat (map (\<lambda>c. map (\<lambda>i. Times (int (length (calendar p)) - int i)
         (Var (Assigned (cd_action_id c) i))) (slot_indexes p)) (foundations p candidates)))"

definition foundation_part :: "PlanningProblem \<Rightarrow> Candidate list \<Rightarrow> cp_part" where
  "foundation_part p candidates =
     (if foundations p candidates = [] then ([], [])
      else ([(FoundationPriorityPoints, 0, NORMALIZED_SCORE_MAXIMUM)],
        [DivEq (Var FoundationPriorityPoints)
           (Times NORMALIZED_SCORE_MAXIMUM (early_foundation_hours p candidates))
           (int (length (calendar p))
              * sum_list (map cd_estimated_hours (foundations p candidates)))]))"

definition objective_expr :: "PlanningProblem \<Rightarrow> Candidate list \<Rightarrow> bool \<Rightarrow> cp_expr" where
  "objective_expr p candidates reward_required_coverage =
     (if foundations p candidates = [] then primary_score p reward_required_coverage
      else Plus (Times (NORMALIZED_SCORE_MAXIMUM + 1) (primary_score p reward_required_coverage))
             (Var FoundationPriorityPoints))"

definition add_objective :: "PlanningProblem \<Rightarrow> Candidate list \<Rightarrow> bool \<Rightarrow> cp_part \<times> cp_expr" where
  "add_objective p candidates reward_required_coverage =
     (let (d1, c1) = completion_part p candidates;
          (d2, c2) = coverage_points p;
          (d3, c3) = cost_points p candidates;
          (d4, c4) = foundation_part p candidates in
      ((d1 @ d2 @ d3 @ d4, c1 @ c2 @ c3 @ c4),
       objective_expr p candidates reward_required_coverage))"

subsection \<open>The search hint\<close>

text \<open>
  \<open>_add_schedule_hint\<close>: a greedy list schedule. The weekly counters, read with \<open>.get(week, 0)\<close>, are
  functions that are 0 where the dictionary has no key.
\<close>

record hint_state =
  hs_allocations :: "(string \<times> nat list) list"
  hs_used :: "nat set"
  hs_weekly :: "string \<Rightarrow> int"
  hs_spent :: int

fun choose_slots :: "PlanningProblem \<Rightarrow> Candidate \<Rightarrow> nat set \<Rightarrow> (string \<Rightarrow> int) \<Rightarrow> nat list
    \<Rightarrow> nat list \<Rightarrow> (string \<Rightarrow> int) \<Rightarrow> nat list \<times> (string \<Rightarrow> int)" where
  "choose_slots p c used weekly [] chosen chosen_weekly = (chosen, chosen_weekly)"
| "choose_slots p c used weekly (i # rest) chosen chosen_weekly =
     (let week = week_of p i in
      if i \<in> used \<or> \<not> slot_available p c i
         \<or> weekly week + chosen_weekly week \<ge> hours_per_week p
      then choose_slots p c used weekly rest chosen chosen_weekly
      else
        let chosen' = chosen @ [i];
            chosen_weekly' = chosen_weekly(week := chosen_weekly week + 1) in
        if int (length chosen') = cd_estimated_hours c then (chosen', chosen_weekly')
        else choose_slots p c used weekly rest chosen' chosen_weekly')"

definition over_budget :: "PlanningProblem \<Rightarrow> Candidate \<Rightarrow> int \<Rightarrow> bool" where
  "over_budget p c spent =
     (case budget_cap p of None \<Rightarrow> False
      | Some cap \<Rightarrow> cd_cost c = UnknownKrwCost \<or> spent + known_cost c > cap)"

definition earliest_index :: "Candidate \<Rightarrow> hint_state \<Rightarrow> nat" where
  "earliest_index c st =
     foldr max (map (\<lambda>q. Suc (last (the (map_of (hs_allocations st) q)))) (cd_prerequisite_action_ids c)) 0"

definition place :: "PlanningProblem \<Rightarrow> Candidate \<Rightarrow> hint_state \<Rightarrow> hint_state" where
  "place p c st =
     (if over_budget p c (hs_spent st) then st
      else
        let (chosen, chosen_weekly) = choose_slots p c (hs_used st) (hs_weekly st)
              [earliest_index c st..<length (calendar p)] [] (\<lambda>_. 0) in
        if int (length chosen) \<noteq> cd_estimated_hours c then st
        else st\<lparr>hs_allocations := (cd_action_id c, chosen) # hs_allocations st,
                hs_used := hs_used st \<union> set chosen,
                hs_weekly := (\<lambda>w. hs_weekly st w + chosen_weekly w),
                hs_spent := hs_spent st + known_cost c\<rparr>)"

definition is_ready :: "hint_state \<Rightarrow> Candidate \<Rightarrow> bool" where
  "is_ready st c \<longleftrightarrow> list_all (\<lambda>q. map_of (hs_allocations st) q \<noteq> None) (cd_prerequisite_action_ids c)"

function hint_loop :: "PlanningProblem \<Rightarrow> Candidate list \<Rightarrow> hint_state \<Rightarrow> hint_state" where
  "hint_loop p pending st =
     (case find (is_ready st) pending of
        None \<Rightarrow> st
      | Some ready \<Rightarrow> hint_loop p (remove1 ready pending) (place p ready st))"
  by pat_completeness auto
termination
proof (relation "measure (\<lambda>(p, pending, st). length pending)", goal_cases)
  case (2 p pending st ready)
  then have "ready \<in> set pending" by (simp add: find_SomeD)
  then show ?case using length_pos_if_in_set [of ready pending] by (simp add: length_remove1)
qed simp

declare hint_loop.simps [simp del]

definition initial_hint :: hint_state where
  "initial_hint = \<lparr>hs_allocations = [], hs_used = {}, hs_weekly = (\<lambda>_. 0), hs_spent = 0\<rparr>"

definition schedule_hint :: "PlanningProblem \<Rightarrow> Candidate list \<Rightarrow> hint_state" where
  "schedule_hint p candidates =
     hint_loop p (sort_key (\<lambda>c. (cd_action_id c \<notin> foundational_priority_action_ids p, cd_action_id c))
       candidates) initial_hint"

definition add_schedule_hint :: "PlanningProblem \<Rightarrow> Candidate list \<Rightarrow> bool \<Rightarrow> (cp_var \<times> int) list" where
  "add_schedule_hint p candidates require_required_coverage =
     (let allocations = hs_allocations (schedule_hint p candidates);
          covered = \<Union> (cd_outcome_requirement_keys `
            {c \<in> set candidates. map_of allocations (cd_action_id c) \<noteq> None});
          chosen = (\<lambda>c. case map_of allocations (cd_action_id c) of None \<Rightarrow> [] | Some xs \<Rightarrow> xs) in
      if require_required_coverage \<and> \<not> required_requirement_keys p \<subseteq> covered then []
      else concat (map (\<lambda>c.
          (Selected (cd_action_id c), if chosen c \<noteq> [] then 1 else 0)
          # map (\<lambda>i. (Assigned (cd_action_id c) i, if i \<in> set (chosen c) then 1 else 0)) (slot_indexes p))
        candidates))"

subsection \<open>The whole model\<close>

record RouteModelArtifacts =
  ra_model :: cp_model
  ra_candidates :: "Candidate list"

definition route_model :: "PlanningProblem \<Rightarrow> Candidate list \<Rightarrow> bool \<Rightarrow> cp_model" where
  "route_model p candidates require_required_coverage =
     (let (d1, c1) = add_requirement_coverage p candidates require_required_coverage;
          ((d2, c2), objective) = add_objective p candidates (\<not> require_required_coverage) in
      \<lparr>cp_domains = route_variables p candidates @ d1 @ d2,
       cp_constraints = concat (map (candidate_constraints p) candidates)
         @ slot_constraints p candidates
         @ week_constraints p candidates
         @ prerequisite_constraints p candidates
         @ budget_constraints p candidates
         @ c1 @ c2,
       cp_objective = objective,
       cp_hints = add_schedule_hint p candidates require_required_coverage\<rparr>)"

definition build_route_model ::
  "PlanningProblem \<Rightarrow> Candidate list \<Rightarrow> bool \<Rightarrow> reason + RouteModelArtifacts" where
  "build_route_model p candidates require_required_coverage =
     (case validate_candidates candidates of
        Some r \<Rightarrow> Inl r
      | None \<Rightarrow> Inr \<lparr>ra_model = route_model p candidates require_required_coverage,
                     ra_candidates = candidates\<rparr>)"

end
