(* ===== verification/Route_Semantics.thy ===== *)
theory Route_Semantics
  imports Cp_Sat_Model
begin

section \<open>What the constraint model means\<close>

text \<open>
  An abstract specification of a route, independent of the solver, and the proof that the
  constraint model of \<open>Cp_Sat_Model\<close> describes exactly the valid routes: every satisfying
  assignment is a valid route and every valid route extends to a satisfying assignment, the
  redundant bounds of \<open>_add_objective\<close> and the effort shortcut included.
\<close>

subsection \<open>Routes\<close>

record route =
  chosen :: "string set"
  slots_of :: "string \<Rightarrow> nat set"

definition occupied :: "route \<Rightarrow> Candidate list \<Rightarrow> nat set" where
  "occupied r cs = (\<Union>c \<in> set cs. slots_of r (cd_action_id c))"

definition effort_ok :: "PlanningProblem \<Rightarrow> Candidate list \<Rightarrow> route \<Rightarrow> bool" where
  "effort_ok p cs r \<longleftrightarrow> (\<forall>c \<in> set cs. slots_of r (cd_action_id c) \<subseteq> {..<length (calendar p)}
     \<and> int (card (slots_of r (cd_action_id c)))
         = (if cd_action_id c \<in> chosen r then cd_estimated_hours c else 0))"

definition available_ok :: "PlanningProblem \<Rightarrow> Candidate list \<Rightarrow> route \<Rightarrow> bool" where
  "available_ok p cs r \<longleftrightarrow> (\<forall>c \<in> set cs. \<forall>i \<in> slots_of r (cd_action_id c). slot_available p c i)"

definition exclusive_ok :: "Candidate list \<Rightarrow> route \<Rightarrow> bool" where
  "exclusive_ok cs r \<longleftrightarrow> (\<forall>c \<in> set cs. \<forall>d \<in> set cs. c \<noteq> d
     \<longrightarrow> slots_of r (cd_action_id c) \<inter> slots_of r (cd_action_id d) = {})"

definition weekly_ok :: "PlanningProblem \<Rightarrow> Candidate list \<Rightarrow> route \<Rightarrow> bool" where
  "weekly_ok p cs r \<longleftrightarrow>
     (\<forall>k. int (card {i \<in> occupied r cs. week_of p i = k}) \<le> hours_per_week p)"

definition prerequisites_ok :: "PlanningProblem \<Rightarrow> Candidate list \<Rightarrow> route \<Rightarrow> bool" where
  "prerequisites_ok p cs r \<longleftrightarrow> (\<forall>c \<in> set cs. cd_action_id c \<in> chosen r
     \<longrightarrow> (\<forall>q \<in> set (cd_prerequisite_action_ids c). q \<in> chosen r
           \<and> (\<forall>i \<in> slots_of r (cd_action_id c). \<forall>j \<in> slots_of r q. end_of p j \<le> start_of p i)))"

definition spend :: "Candidate list \<Rightarrow> route \<Rightarrow> int" where
  "spend cs r = (\<Sum>c \<leftarrow> cs. if cd_action_id c \<in> chosen r then known_cost c else 0)"

definition budget_ok :: "PlanningProblem \<Rightarrow> Candidate list \<Rightarrow> route \<Rightarrow> bool" where
  "budget_ok p cs r \<longleftrightarrow> (case budget_cap p of None \<Rightarrow> True
     | Some cap \<Rightarrow> spend cs r \<le> cap
         \<and> (\<forall>c \<in> set cs. cd_action_id c \<in> chosen r \<longrightarrow> cd_cost c \<noteq> UnknownKrwCost))"

definition valid_route :: "PlanningProblem \<Rightarrow> Candidate list \<Rightarrow> route \<Rightarrow> bool" where
  "valid_route p cs r \<longleftrightarrow> effort_ok p cs r \<and> available_ok p cs r \<and> exclusive_ok cs r
     \<and> weekly_ok p cs r \<and> prerequisites_ok p cs r \<and> budget_ok p cs r"

definition covered :: "Candidate list \<Rightarrow> route \<Rightarrow> string set" where
  "covered cs r = (\<Union>c \<in> {c \<in> set cs. cd_action_id c \<in> chosen r}. cd_outcome_requirement_keys c)"

definition covers_required :: "PlanningProblem \<Rightarrow> Candidate list \<Rightarrow> route \<Rightarrow> bool" where
  "covers_required p cs r \<longleftrightarrow> required_requirement_keys p \<subseteq> covered cs r"

lemmas route_defs = effort_ok_def available_ok_def exclusive_ok_def weekly_ok_def
  prerequisites_ok_def budget_ok_def

subsection \<open>Sums of Boolean variables\<close>

lemma sum_of_bool_card: "finite A \<Longrightarrow> (\<Sum>i \<in> A. of_bool (P i)) = int (card {i \<in> A. P i})"
  by (simp add: Int_def)

lemma sum_list_upt: "(\<Sum>i \<leftarrow> [0..<n]. f i) = (\<Sum>i < n. (f i :: int))"
  by (simp add: sum_list_distinct_conv_sum_set atLeast0LessThan)

lemma sum_list_filter_upt: "(\<Sum>i \<leftarrow> filter P [0..<n]. f i) = (\<Sum>i \<in> {i. i < n \<and> P i}. (f i :: int))"
  by (simp add: sum_list_distinct_conv_sum_set)

lemma validate_None:
  assumes "validate_candidates cs = None"
  shows "distinct (map cd_action_id cs)" and "\<And>c. c \<in> set cs \<Longrightarrow> 0 < cd_estimated_hours c"
    and "\<And>c. c \<in> set cs \<Longrightarrow> set (cd_prerequisite_action_ids c) \<subseteq> cd_action_id ` set cs"
proof -
  from assms show "distinct (map cd_action_id cs)"
    by (auto simp: validate_candidates_def split: if_splits)
  with assms have "find (\<lambda>c. cd_estimated_hours c \<le> 0
      \<or> \<not> set (cd_prerequisite_action_ids c) \<subseteq> cd_action_id ` set cs) cs = None"
    by (auto simp: validate_candidates_def split: option.splits if_splits)
  then show "\<And>c. c \<in> set cs \<Longrightarrow> 0 < cd_estimated_hours c"
    and "\<And>c. c \<in> set cs \<Longrightarrow> set (cd_prerequisite_action_ids c) \<subseteq> cd_action_id ` set cs"
    by (fastforce simp: find_None_iff_all)+
qed

lemma sum_list_candidates:
  "validate_candidates cs = None \<Longrightarrow> (\<Sum>c \<leftarrow> cs. f c) = (\<Sum>c \<in> set cs. (f c :: int))"
  using validate_None(1) [of cs] by (simp add: sum_list_distinct_conv_sum_set distinct_map)

lemma same_id: "validate_candidates cs = None \<Longrightarrow> c \<in> set cs \<Longrightarrow> d \<in> set cs
    \<Longrightarrow> cd_action_id c = cd_action_id d \<longleftrightarrow> c = d"
  using validate_None(1) [of cs] by (auto simp: distinct_map inj_on_def)

subsection \<open>The completion time of a set of slots\<close>

definition completion_of :: "PlanningProblem \<Rightarrow> nat set \<Rightarrow> int" where
  "completion_of p S = Max ((\<lambda>i. end_of p i * of_bool (i \<in> S)) ` {..<length (calendar p)})"

lemma completion_of_le_iff:
  assumes "problem_ok p" and "S \<subseteq> {..<length (calendar p)}" and "0 \<le> x"
  shows "completion_of p S \<le> x \<longleftrightarrow> (\<forall>i \<in> S. end_of p i \<le> x)"
proof -
  have "{..<length (calendar p)} \<noteq> {}" using problem_okD(1) [OF assms(1)] by auto
  then have "completion_of p S \<le> x
      \<longleftrightarrow> (\<forall>i < length (calendar p). end_of p i * of_bool (i \<in> S) \<le> x)"
    unfolding completion_of_def by (subst Max_le_iff) auto
  also have "\<dots> \<longleftrightarrow> (\<forall>i \<in> S. end_of p i \<le> x)"
    using assms(2,3) by (auto simp: of_bool_def)
  finally show ?thesis .
qed

lemma completion_of_bounds:
  assumes "problem_ok p" and "S \<subseteq> {..<length (calendar p)}"
  shows "0 \<le> completion_of p S" and "completion_of p S \<le> horizon p"
    and "i \<in> S \<Longrightarrow> end_of p i \<le> completion_of p S"
proof -
  have fin: "finite ((\<lambda>i. end_of p i * of_bool (i \<in> S)) ` {..<length (calendar p)})" by simp
  have "end_of p 0 * of_bool (0 \<in> S) \<le> completion_of p S"
    unfolding completion_of_def using problem_okD(1) [OF assms(1)] by (intro Max_ge fin) auto
  moreover have "0 \<le> end_of p 0 * of_bool (0 \<in> S)"
    using slot_bounds(3) [OF assms(1), of 0] problem_okD(1) [OF assms(1)] by simp
  ultimately show "0 \<le> completion_of p S" by linarith
  show "completion_of p S \<le> horizon p"
    using completion_of_le_iff [OF assms, of "horizon p"] horizon_pos [OF assms(1)]
      slot_bounds(2) [OF assms(1)] assms(2) by auto
  show "end_of p i \<le> completion_of p S" if "i \<in> S"
  proof -
    have "end_of p i * of_bool (i \<in> S) \<le> completion_of p S"
      unfolding completion_of_def using that assms(2) by (intro Max_ge fin) auto
    with that show ?thesis by simp
  qed
qed

subsection \<open>An assignment that encodes a route\<close>

definition encodes :: "PlanningProblem \<Rightarrow> Candidate list \<Rightarrow> assignment \<Rightarrow> route \<Rightarrow> bool" where
  "encodes p cs \<sigma> r \<longleftrightarrow> (\<forall>c \<in> set cs.
     \<sigma> (Selected (cd_action_id c)) = of_bool (cd_action_id c \<in> chosen r)
     \<and> slots_of r (cd_action_id c) \<subseteq> {..<length (calendar p)}
     \<and> (\<forall>i < length (calendar p). \<sigma> (Assigned (cd_action_id c) i)
           = of_bool (i \<in> slots_of r (cd_action_id c))))"

definition completions_ok :: "PlanningProblem \<Rightarrow> Candidate list \<Rightarrow> assignment \<Rightarrow> route \<Rightarrow> bool" where
  "completions_ok p cs \<sigma> r \<longleftrightarrow>
     (\<forall>c \<in> set cs. \<sigma> (Completion (cd_action_id c)) = completion_of p (slots_of r (cd_action_id c)))"

definition route_of :: "PlanningProblem \<Rightarrow> Candidate list \<Rightarrow> assignment \<Rightarrow> route" where
  "route_of p cs \<sigma> =
     \<lparr>chosen = {a \<in> cd_action_id ` set cs. \<sigma> (Selected a) = 1},
      slots_of = (\<lambda>a. {i. i < length (calendar p) \<and> \<sigma> (Assigned a i) = 1})\<rparr>"

lemma encodes_sum:
  assumes "encodes p cs \<sigma> r" and "c \<in> set cs"
  shows "(\<Sum>i < length (calendar p). \<sigma> (Assigned (cd_action_id c) i))
    = int (card (slots_of r (cd_action_id c)))"
proof -
  have "(\<Sum>i < length (calendar p). \<sigma> (Assigned (cd_action_id c) i))
      = (\<Sum>i < length (calendar p). of_bool (i \<in> slots_of r (cd_action_id c)))"
    using assms by (intro sum.cong) (auto simp: encodes_def)
  also have "\<dots> = int (card {i \<in> {..<length (calendar p)}. i \<in> slots_of r (cd_action_id c)})"
    by (rule sum_of_bool_card) simp
  also have "{i \<in> {..<length (calendar p)}. i \<in> slots_of r (cd_action_id c)} = slots_of r (cd_action_id c)"
    using assms by (auto simp: encodes_def)
  finally show ?thesis .
qed

lemma variables_hold_iff:
  "part_holds \<sigma> (route_variables p cs, []) \<longleftrightarrow> (\<forall>c \<in> set cs.
     (0 \<le> \<sigma> (Selected (cd_action_id c)) \<and> \<sigma> (Selected (cd_action_id c)) \<le> 1)
     \<and> (\<forall>i < length (calendar p). 0 \<le> \<sigma> (Assigned (cd_action_id c) i)
           \<and> \<sigma> (Assigned (cd_action_id c) i) \<le> 1)
     \<and> 0 \<le> \<sigma> (Completion (cd_action_id c)) \<and> \<sigma> (Completion (cd_action_id c)) \<le> horizon p)"
  by (auto simp: part_holds_def route_variables_def list_all_iff ball_Un)

lemma bit_of_bool: "0 \<le> x \<Longrightarrow> x \<le> 1 \<Longrightarrow> x = of_bool (x = (1::int))"
  by auto

lemma route_of_encodes:
  assumes "part_holds \<sigma> (route_variables p cs, [])"
  shows "encodes p cs \<sigma> (route_of p cs \<sigma>)"
  using assms bit_of_bool by (auto simp: variables_hold_iff encodes_def route_of_def)

subsection \<open>The blocks of the model, one by one\<close>

lemma candidate_holds_iff:
  assumes "calendar p \<noteq> []"
  shows "list_all (cp_holds \<sigma>) (candidate_constraints p c) \<longleftrightarrow>
    (cd_estimated_hours c > capped_capacity (hours_per_week p)
          (map (week_of p) (filter (slot_available p c) (slot_indexes p)))
       \<longrightarrow> \<sigma> (Selected (cd_action_id c)) = 0)
    \<and> (\<Sum>i < length (calendar p). \<sigma> (Assigned (cd_action_id c) i))
        = cd_estimated_hours c * \<sigma> (Selected (cd_action_id c))
    \<and> (\<forall>i < length (calendar p). \<not> slot_available p c i \<longrightarrow> \<sigma> (Assigned (cd_action_id c) i) = 0)
    \<and> \<sigma> (Completion (cd_action_id c))
        = Max ((\<lambda>i. end_of p i * \<sigma> (Assigned (cd_action_id c) i)) ` {..<length (calendar p)})
    \<and> (budget_cap p \<noteq> None \<and> cd_cost c = UnknownKrwCost \<longrightarrow> \<sigma> (Selected (cd_action_id c)) = 0)"
  using assms
  by (simp add: candidate_constraints_def Let_def list_all_iff comp_def sum_list_upt image_image
      atLeast0LessThan ball_Un) auto

lemma slot_constraints_iff:
  assumes "validate_candidates cs = None"
  shows "list_all (cp_holds \<sigma>) (slot_constraints p cs) \<longleftrightarrow>
    (\<forall>i < length (calendar p). (\<Sum>c \<in> set cs. \<sigma> (Assigned (cd_action_id c) i)) \<le> 1)"
  by (auto simp: slot_constraints_def list_all_iff comp_def sum_list_candidates [OF assms])

lemma sum_list_concat_map:
  "sum_list (map f (concat (map g xs))) = (\<Sum>x \<leftarrow> xs. sum_list (map f (g x)))"
  for f :: "'a \<Rightarrow> int"
  by (induction xs) simp_all

lemma week_constraints_iff:
  assumes "validate_candidates cs = None"
  shows "list_all (cp_holds \<sigma>) (week_constraints p cs) \<longleftrightarrow>
    (\<forall>k \<in> capacity_week_key ` set (calendar p). (\<Sum>c \<in> set cs. \<Sum>i \<in> {i. i < length (calendar p) \<and> week_of p i = k}.
        \<sigma> (Assigned (cd_action_id c) i)) \<le> hours_per_week p)"
  by (simp add: week_constraints_def list_all_iff comp_def sum_list_concat_map
      sum_list_candidates [OF assms] sum_list_filter_upt)

lemma prerequisite_constraints_iff:
  "list_all (cp_holds \<sigma>) (prerequisite_constraints p cs) \<longleftrightarrow>
    (\<forall>c \<in> set cs. \<forall>q \<in> set (cd_prerequisite_action_ids c).
       \<sigma> (Selected (cd_action_id c)) \<le> \<sigma> (Selected q)
       \<and> (\<forall>i < length (calendar p). \<sigma> (Assigned (cd_action_id c) i) = 1
             \<longrightarrow> \<sigma> (Completion q) \<le> start_of p i))"
  by (auto simp: prerequisite_constraints_def list_all_iff)

lemma budget_constraints_iff:
  assumes "encodes p cs \<sigma> r"
  shows "list_all (cp_holds \<sigma>) (budget_constraints p cs) \<longleftrightarrow>
    (case budget_cap p of None \<Rightarrow> True | Some cap \<Rightarrow> spend cs r \<le> cap)"
proof -
  have "(\<Sum>c \<leftarrow> cs. known_cost c * \<sigma> (Selected (cd_action_id c))) = spend cs r"
    unfolding spend_def using assms by (intro arg_cong [of _ _ sum_list] map_cong) (auto simp: encodes_def)
  then show ?thesis
    by (auto simp: budget_constraints_def comp_def split: option.splits)
qed

subsection \<open>Weekly capacity\<close>

lemma card_UN_weeks:
  assumes "finite S"
  shows "int (card S) = (\<Sum>k \<in> w ` S. int (card {i \<in> S. w i = k}))"
proof -
  have "card S = (\<Sum>k \<in> w ` S. card {i \<in> S. w i = k})"
    using sum.image_gen [OF assms, of "\<lambda>_. 1::nat" w] by simp
  then show ?thesis by simp
qed

lemma count_list_map_filter:
  "count_list (map w (filter P [0..<n])) k = card {i. i < n \<and> P i \<and> w i = k}"
proof -
  have "count_list (map w (filter P [0..<n])) k = length (filter (\<lambda>i. P i \<and> w i = k) [0..<n])"
    by (induction n) auto
  also have "\<dots> = card (set (filter (\<lambda>i. P i \<and> w i = k) [0..<n]))"
    by (rule distinct_card [symmetric]) simp
  also have "set (filter (\<lambda>i. P i \<and> w i = k) [0..<n]) = {i. i < n \<and> P i \<and> w i = k}" by auto
  finally show ?thesis .
qed

text \<open>
  A set of available slots that respects the weekly capacity has at most
  \<open>sum(min(count, hours))\<close> elements.
\<close>

lemma capped_capacity_bound:
  assumes "S \<subseteq> {i. i < n \<and> P i}" and "\<And>k. int (card {i \<in> S. w i = k}) \<le> hours" and "0 \<le> hours"
  shows "int (card S) \<le> capped_capacity hours (map w (filter P [0..<n]))"
proof -
  let ?keys = "map w (filter P [0..<n])"
  let ?f = "\<lambda>k. min (int (count_list ?keys k)) hours"
  have fin: "finite S" using assms(1) by (rule finite_subset) simp
  have per_week: "int (card {i \<in> S. w i = k}) \<le> ?f k" for k
  proof -
    have "card {i \<in> S. w i = k} \<le> card {i. i < n \<and> P i \<and> w i = k}"
      using assms(1) by (intro card_mono) auto
    then show ?thesis using assms(2) [of k] by (simp add: count_list_map_filter)
  qed
  have "int (card S) = (\<Sum>k \<in> w ` S. int (card {i \<in> S. w i = k}))" by (rule card_UN_weeks [OF fin])
  also have "\<dots> \<le> (\<Sum>k \<in> w ` S. ?f k)" by (intro sum_mono per_week)
  also have "\<dots> \<le> (\<Sum>k \<in> set ?keys. ?f k)"
    using assms(1,3) by (intro sum_mono2) auto
  also have "\<dots> = capped_capacity hours ?keys"
    by (simp add: capped_capacity_def sum_list_distinct_conv_sum_set)
  finally show ?thesis .
qed

subsection \<open>Constraints and routes agree\<close>

definition effort_shortcut :: "PlanningProblem \<Rightarrow> Candidate list \<Rightarrow> route \<Rightarrow> bool" where
  "effort_shortcut p cs r \<longleftrightarrow> (\<forall>c \<in> set cs. cd_action_id c \<in> chosen r \<longrightarrow>
     cd_estimated_hours c \<le> capped_capacity (hours_per_week p)
       (map (week_of p) (filter (slot_available p c) (slot_indexes p))))"

definition known_costs_only :: "PlanningProblem \<Rightarrow> Candidate list \<Rightarrow> route \<Rightarrow> bool" where
  "known_costs_only p cs r \<longleftrightarrow> (budget_cap p \<noteq> None \<longrightarrow>
     (\<forall>c \<in> set cs. cd_action_id c \<in> chosen r \<longrightarrow> cd_cost c \<noteq> UnknownKrwCost))"

lemma encodes_Max:
  assumes "encodes p cs \<sigma> r" and "c \<in> set cs"
  shows "Max ((\<lambda>i. end_of p i * \<sigma> (Assigned (cd_action_id c) i)) ` {..<length (calendar p)})
    = completion_of p (slots_of r (cd_action_id c))"
  unfolding completion_of_def using assms
  by (intro arg_cong [of _ _ Max] image_cong) (auto simp: encodes_def)

lemma candidates_iff:
  assumes "problem_ok p" and enc: "encodes p cs \<sigma> r"
  shows "(\<forall>c \<in> set cs. list_all (cp_holds \<sigma>) (candidate_constraints p c)) \<longleftrightarrow>
    effort_ok p cs r \<and> available_ok p cs r \<and> effort_shortcut p cs r \<and> known_costs_only p cs r
    \<and> completions_ok p cs \<sigma> r"
proof -
  have "list_all (cp_holds \<sigma>) (candidate_constraints p c) \<longleftrightarrow>
      (cd_action_id c \<in> chosen r \<longrightarrow> cd_estimated_hours c \<le> capped_capacity (hours_per_week p)
          (map (week_of p) (filter (slot_available p c) (slot_indexes p))))
      \<and> int (card (slots_of r (cd_action_id c)))
          = (if cd_action_id c \<in> chosen r then cd_estimated_hours c else 0)
      \<and> (\<forall>i \<in> slots_of r (cd_action_id c). slot_available p c i)
      \<and> \<sigma> (Completion (cd_action_id c)) = completion_of p (slots_of r (cd_action_id c))
      \<and> (budget_cap p \<noteq> None \<and> cd_cost c = UnknownKrwCost \<longrightarrow> cd_action_id c \<notin> chosen r)"
    if c: "c \<in> set cs" for c
  proof -
    have sel: "\<sigma> (Selected (cd_action_id c)) = of_bool (cd_action_id c \<in> chosen r)"
      and sub: "slots_of r (cd_action_id c) \<subseteq> {..<length (calendar p)}"
      and asg: "\<forall>i < length (calendar p). \<sigma> (Assigned (cd_action_id c) i)
          = of_bool (i \<in> slots_of r (cd_action_id c))"
      using enc c by (auto simp: encodes_def)
    have "(\<forall>i < length (calendar p). \<not> slot_available p c i \<longrightarrow> \<sigma> (Assigned (cd_action_id c) i) = 0)
        \<longleftrightarrow> (\<forall>i \<in> slots_of r (cd_action_id c). slot_available p c i)"
      using sub asg by auto
    moreover have "cd_estimated_hours c * \<sigma> (Selected (cd_action_id c))
        = (if cd_action_id c \<in> chosen r then cd_estimated_hours c else 0)"
      by (simp add: sel)
    ultimately show ?thesis
      using sel
      by (simp add: candidate_holds_iff [OF problem_okD(1) [OF assms(1)]] encodes_sum [OF enc c]
          encodes_Max [OF enc c] not_less)
  qed
  with enc show ?thesis
    by (auto simp: effort_ok_def available_ok_def effort_shortcut_def known_costs_only_def
        completions_ok_def encodes_def)
qed

lemma slots_iff:
  assumes "validate_candidates cs = None" and enc: "encodes p cs \<sigma> r"
  shows "list_all (cp_holds \<sigma>) (slot_constraints p cs) \<longleftrightarrow> exclusive_ok cs r"
proof -
  have "(\<Sum>c \<in> set cs. \<sigma> (Assigned (cd_action_id c) i)) \<le> 1 \<longleftrightarrow>
      (\<forall>c \<in> set cs. \<forall>d \<in> set cs. i \<in> slots_of r (cd_action_id c) \<and> i \<in> slots_of r (cd_action_id d) \<longrightarrow> c = d)"
    if "i < length (calendar p)" for i
  proof -
    let ?C = "{c \<in> set cs. i \<in> slots_of r (cd_action_id c)}"
    have "(\<Sum>c \<in> set cs. \<sigma> (Assigned (cd_action_id c) i))
        = (\<Sum>c \<in> set cs. of_bool (i \<in> slots_of r (cd_action_id c)))"
      using enc that by (intro sum.cong) (auto simp: encodes_def)
    also have "\<dots> = int (card ?C)" by (rule sum_of_bool_card) simp
    finally show ?thesis by (auto simp: card_le_Suc0_iff_eq)
  qed
  then have "list_all (cp_holds \<sigma>) (slot_constraints p cs) \<longleftrightarrow> (\<forall>i < length (calendar p).
      \<forall>c \<in> set cs. \<forall>d \<in> set cs. i \<in> slots_of r (cd_action_id c) \<and> i \<in> slots_of r (cd_action_id d) \<longrightarrow> c = d)"
    by (simp add: slot_constraints_iff [OF assms(1)])
  also have "\<dots> \<longleftrightarrow> exclusive_ok cs r"
  proof -
    have "i < length (calendar p)" if "c \<in> set cs" "i \<in> slots_of r (cd_action_id c)" for c i
      using enc that by (auto simp: encodes_def)
    then show ?thesis unfolding exclusive_ok_def disjoint_iff by blast
  qed
  finally show ?thesis .
qed

lemma week_sum:
  assumes "exclusive_ok cs r" and enc: "encodes p cs \<sigma> r"
  shows "(\<Sum>c \<in> set cs. \<Sum>i \<in> {i. i < length (calendar p) \<and> week_of p i = k}. \<sigma> (Assigned (cd_action_id c) i))
    = int (card {i \<in> occupied r cs. week_of p i = k})"
proof -
  let ?S = "\<lambda>c. {i \<in> slots_of r (cd_action_id c). week_of p i = k}"
  have inner: "(\<Sum>i \<in> {i. i < length (calendar p) \<and> week_of p i = k}. \<sigma> (Assigned (cd_action_id c) i))
      = int (card (?S c))" if c: "c \<in> set cs" for c
  proof -
    have "(\<Sum>i \<in> {i. i < length (calendar p) \<and> week_of p i = k}. \<sigma> (Assigned (cd_action_id c) i))
        = (\<Sum>i \<in> {i. i < length (calendar p) \<and> week_of p i = k}. of_bool (i \<in> slots_of r (cd_action_id c)))"
      using enc c by (intro sum.cong) (auto simp: encodes_def)
    also have "\<dots> = int (card {i \<in> {i. i < length (calendar p) \<and> week_of p i = k}.
        i \<in> slots_of r (cd_action_id c)})" by (rule sum_of_bool_card) simp
    also have "{i \<in> {i. i < length (calendar p) \<and> week_of p i = k}. i \<in> slots_of r (cd_action_id c)} = ?S c"
      using enc c by (auto simp: encodes_def)
    finally show ?thesis .
  qed
  have "finite (?S c)" if "c \<in> set cs" for c
    using enc that by (auto simp: encodes_def intro: finite_subset [of _ "{..<length (calendar p)}"])
  then have "card (\<Union>c \<in> set cs. ?S c) = (\<Sum>c \<in> set cs. card (?S c))"
    using assms(1) by (intro card_UN_disjoint) (auto simp: exclusive_ok_def)
  moreover have "(\<Union>c \<in> set cs. ?S c) = {i \<in> occupied r cs. week_of p i = k}"
    by (auto simp: occupied_def)
  ultimately show ?thesis by (simp add: inner)
qed

lemma weeks_iff:
  assumes "problem_ok p" and "validate_candidates cs = None" and "exclusive_ok cs r"
    and enc: "encodes p cs \<sigma> r"
  shows "list_all (cp_holds \<sigma>) (week_constraints p cs) \<longleftrightarrow> weekly_ok p cs r"
proof -
  have empty: "{i \<in> occupied r cs. week_of p i = k} = {}" if "k \<notin> capacity_week_key ` set (calendar p)" for k
    using that enc by (fastforce simp: occupied_def encodes_def)
  have "0 \<le> hours_per_week p" using problem_okD(6) [OF assms(1)] by simp
  then show ?thesis
    unfolding week_constraints_iff [OF assms(2)] weekly_ok_def week_sum [OF assms(3) enc]
    using empty by (metis card.empty of_nat_0)
qed

lemma prerequisites_iff:
  assumes "problem_ok p" and "validate_candidates cs = None" and "effort_ok p cs r"
    and enc: "encodes p cs \<sigma> r" and comp: "completions_ok p cs \<sigma> r"
  shows "list_all (cp_holds \<sigma>) (prerequisite_constraints p cs) \<longleftrightarrow> prerequisites_ok p cs r"
proof -
  have "\<sigma> (Selected (cd_action_id c)) \<le> \<sigma> (Selected q)
      \<and> (\<forall>i < length (calendar p). \<sigma> (Assigned (cd_action_id c) i) = 1 \<longrightarrow> \<sigma> (Completion q) \<le> start_of p i)
      \<longleftrightarrow> (cd_action_id c \<in> chosen r \<longrightarrow> q \<in> chosen r
        \<and> (\<forall>i \<in> slots_of r (cd_action_id c). \<forall>j \<in> slots_of r q. end_of p j \<le> start_of p i))"
    if c: "c \<in> set cs" and q: "q \<in> set (cd_prerequisite_action_ids c)" for c q
  proof -
    obtain d where d: "d \<in> set cs" "cd_action_id d = q"
      using validate_None(3) [OF assms(2) c] q by auto
    have subq: "slots_of r q \<subseteq> {..<length (calendar p)}"
      and subc: "slots_of r (cd_action_id c) \<subseteq> {..<length (calendar p)}"
      and sel: "\<sigma> (Selected q) = of_bool (q \<in> chosen r)"
        "\<sigma> (Selected (cd_action_id c)) = of_bool (cd_action_id c \<in> chosen r)"
      and asg: "\<And>i. i < length (calendar p) \<Longrightarrow> \<sigma> (Assigned (cd_action_id c) i)
          = of_bool (i \<in> slots_of r (cd_action_id c))"
      using enc c d by (auto simp: encodes_def)
    have "\<sigma> (Completion q) = completion_of p (slots_of r q)"
      using comp d by (auto simp: completions_ok_def)
    then have le: "\<sigma> (Completion q) \<le> start_of p i \<longleftrightarrow> (\<forall>j \<in> slots_of r q. end_of p j \<le> start_of p i)"
      if "i < length (calendar p)" for i
      using completion_of_le_iff [OF assms(1) subq] slot_bounds(1) [OF assms(1) that] by simp
    have none: "slots_of r (cd_action_id c) = {}" if "cd_action_id c \<notin> chosen r"
      using assms(3) c that subc by (auto simp: effort_ok_def finite_subset)
    have "(\<forall>i < length (calendar p). \<sigma> (Assigned (cd_action_id c) i) = 1 \<longrightarrow> \<sigma> (Completion q) \<le> start_of p i)
        \<longleftrightarrow> (\<forall>i \<in> slots_of r (cd_action_id c). \<forall>j \<in> slots_of r q. end_of p j \<le> start_of p i)"
      using le asg subc by fastforce
    then show ?thesis using sel none by auto
  qed
  then show ?thesis
    unfolding prerequisite_constraints_iff prerequisites_ok_def by blast
qed

lemma shortcut_redundant:
  assumes "problem_ok p" and "valid_route p cs r"
  shows "effort_shortcut p cs r"
  unfolding effort_shortcut_def
proof (intro ballI impI)
  fix c
  assume c: "c \<in> set cs" and sel: "cd_action_id c \<in> chosen r"
  let ?S = "slots_of r (cd_action_id c)"
  have sub: "?S \<subseteq> {i. i < length (calendar p) \<and> slot_available p c i}"
    using assms(2) c by (auto simp: valid_route_def effort_ok_def available_ok_def)
  have "finite (occupied r cs)"
    using assms(2) by (auto simp: occupied_def valid_route_def effort_ok_def
        intro: finite_subset [of _ "{..<length (calendar p)}"])
  then have "card {i \<in> ?S. week_of p i = k} \<le> card {i \<in> occupied r cs. week_of p i = k}" for k
    using c by (intro card_mono) (auto simp: occupied_def)
  then have "int (card {i \<in> ?S. week_of p i = k}) \<le> hours_per_week p" for k
    using assms(2) unfolding valid_route_def weekly_ok_def
    by (meson of_nat_mono order_trans)
  from capped_capacity_bound [OF sub this] problem_okD(6) [OF assms(1)]
  have "int (card ?S) \<le> capped_capacity (hours_per_week p)
      (map (week_of p) (filter (slot_available p c) (slot_indexes p)))" by simp
  with assms(2) c sel show "cd_estimated_hours c \<le> capped_capacity (hours_per_week p)
      (map (week_of p) (filter (slot_available p c) (slot_indexes p)))"
    by (auto simp: valid_route_def effort_ok_def)
qed

definition core_constraints :: "PlanningProblem \<Rightarrow> Candidate list \<Rightarrow> cp_constraint list" where
  "core_constraints p cs = concat (map (candidate_constraints p) cs) @ slot_constraints p cs
     @ week_constraints p cs @ prerequisite_constraints p cs @ budget_constraints p cs"

lemma core_iff_valid:
  assumes "problem_ok p" and "validate_candidates cs = None" and enc: "encodes p cs \<sigma> r"
  shows "list_all (cp_holds \<sigma>) (core_constraints p cs) \<longleftrightarrow> valid_route p cs r \<and> completions_ok p cs \<sigma> r"
proof -
  have "budget_ok p cs r \<longleftrightarrow> known_costs_only p cs r
      \<and> (case budget_cap p of None \<Rightarrow> True | Some cap \<Rightarrow> spend cs r \<le> cap)"
    by (auto simp: budget_ok_def known_costs_only_def split: option.splits)
  moreover have "list_all (cp_holds \<sigma>) (core_constraints p cs) \<longleftrightarrow>
      (effort_ok p cs r \<and> available_ok p cs r \<and> effort_shortcut p cs r \<and> known_costs_only p cs r
        \<and> completions_ok p cs \<sigma> r)
      \<and> exclusive_ok cs r \<and> list_all (cp_holds \<sigma>) (week_constraints p cs)
      \<and> list_all (cp_holds \<sigma>) (prerequisite_constraints p cs)
      \<and> (case budget_cap p of None \<Rightarrow> True | Some cap \<Rightarrow> spend cs r \<le> cap)"
    by (simp add: core_constraints_def slots_iff [OF assms(2,3)] budget_constraints_iff [OF enc]
        candidates_iff [OF assms(1,3), symmetric]) (auto simp: list_all_iff)
  ultimately show ?thesis
    using weeks_iff [OF assms(1,2) _ enc] prerequisites_iff [OF assms(1,2) _ enc]
      shortcut_redundant [OF assms(1)]
    unfolding valid_route_def by blast
qed

subsection \<open>The whole model\<close>

lemma part_holds_append:
  "part_holds \<sigma> (d1 @ d2, c1 @ c2) \<longleftrightarrow> part_holds \<sigma> (d1, c1) \<and> part_holds \<sigma> (d2, c2)"
  by (auto simp: part_holds_def)

lemma part_domain:
  assumes "part_holds \<sigma> m" and "(v, lo, hi) \<in> set (fst m)"
  shows "lo \<le> \<sigma> v" and "\<sigma> v \<le> hi"
  using assms by (auto simp: part_holds_def list_all_iff)

lemma satisfies_iff:
  "satisfies \<sigma> (route_model p cs req) \<longleftrightarrow>
     part_holds \<sigma> (route_variables p cs, []) \<and> list_all (cp_holds \<sigma>) (core_constraints p cs)
     \<and> part_holds \<sigma> (add_requirement_coverage p cs req) \<and> part_holds \<sigma> (completion_part p cs)
     \<and> part_holds \<sigma> (coverage_points p) \<and> part_holds \<sigma> (cost_points p cs)
     \<and> part_holds \<sigma> (foundation_part p cs)"
  by (auto simp: satisfies_def route_model_def add_objective_def part_holds_def core_constraints_def
      split: prod.splits)

lemma Max_of_bool:
  assumes "finite A" and "A \<noteq> {}"
  shows "Max ((\<lambda>x. of_bool (P x) :: int) ` A) = of_bool (\<exists>x \<in> A. P x)"
  using assms by (intro Max_eqI) auto

lemma selected_Max:
  assumes "encodes p cs \<sigma> r" and "filter Q cs \<noteq> []"
  shows "Max (set (map (cp_eval \<sigma>) (map (\<lambda>c. Var (Selected (cd_action_id c))) (filter Q cs))))
    = of_bool (\<exists>c \<in> set cs. Q c \<and> cd_action_id c \<in> chosen r)"
proof -
  let ?A = "{c \<in> set cs. Q c}"
  have "(\<lambda>c. \<sigma> (Selected (cd_action_id c))) ` ?A = (\<lambda>c. of_bool (cd_action_id c \<in> chosen r)) ` ?A"
    using assms(1) by (intro image_cong) (auto simp: encodes_def)
  moreover have "?A \<noteq> {}" using assms(2) by (auto simp: filter_empty_conv)
  ultimately show ?thesis
    using Max_of_bool [of ?A "\<lambda>c. cd_action_id c \<in> chosen r"] by (auto simp: image_image)
qed

lemma coverage_iff:
  assumes "problem_ok p" and enc: "encodes p cs \<sigma> r"
  shows "part_holds \<sigma> (add_requirement_coverage p cs req) \<longleftrightarrow>
    (\<forall>k \<in> required_requirement_keys p \<union> preferred_requirement_keys p. \<sigma> (Covered k) = of_bool (k \<in> covered cs r))
    \<and> (req \<longrightarrow> covers_required p cs r)"
proof -
  let ?K = "required_requirement_keys p \<union> preferred_requirement_keys p"
  let ?m = "\<lambda>k. filter (\<lambda>c. k \<in> cd_outcome_requirement_keys c) cs"
  have fin: "finite ?K" using assms(1) by (simp add: problem_ok_def)
  have "part_holds \<sigma> (add_requirement_coverage p cs req) \<longleftrightarrow> (\<forall>k \<in> ?K. 0 \<le> \<sigma> (Covered k) \<and> \<sigma> (Covered k) \<le> 1
      \<and> (if ?m k \<noteq> [] then \<sigma> (Covered k) = Max (set (map (cp_eval \<sigma>) (map (\<lambda>c. Var (Selected (cd_action_id c))) (?m k))))
         else \<sigma> (Covered k) = 0)
      \<and> (req \<and> k \<in> required_requirement_keys p \<longrightarrow> \<sigma> (Covered k) = 1))"
    using fin
    by (simp add: part_holds_def add_requirement_coverage_def list_all_iff Let_def ball_Un)
      (auto split: if_splits)
  also have "\<dots> \<longleftrightarrow> (\<forall>k \<in> ?K. \<sigma> (Covered k) = of_bool (k \<in> covered cs r)
      \<and> (req \<and> k \<in> required_requirement_keys p \<longrightarrow> \<sigma> (Covered k) = 1))"
  proof (intro ball_cong refl)
    fix k
    have cov: "k \<in> covered cs r
        \<longleftrightarrow> (\<exists>c \<in> set cs. k \<in> cd_outcome_requirement_keys c \<and> cd_action_id c \<in> chosen r)"
      by (auto simp: covered_def)
    show "(0 \<le> \<sigma> (Covered k) \<and> \<sigma> (Covered k) \<le> 1
      \<and> (if ?m k \<noteq> [] then \<sigma> (Covered k) = Max (set (map (cp_eval \<sigma>) (map (\<lambda>c. Var (Selected (cd_action_id c))) (?m k))))
         else \<sigma> (Covered k) = 0)
      \<and> (req \<and> k \<in> required_requirement_keys p \<longrightarrow> \<sigma> (Covered k) = 1))
      \<longleftrightarrow> (\<sigma> (Covered k) = of_bool (k \<in> covered cs r)
      \<and> (req \<and> k \<in> required_requirement_keys p \<longrightarrow> \<sigma> (Covered k) = 1))"
    proof (cases "?m k = []")
      case True
      then have "k \<notin> covered cs r" by (auto simp: cov filter_empty_conv)
      with True show ?thesis by auto
    next
      case False
      then show ?thesis unfolding selected_Max [OF enc False] cov by auto
    qed
  qed
  also have "\<dots> \<longleftrightarrow> (\<forall>k \<in> ?K. \<sigma> (Covered k) = of_bool (k \<in> covered cs r)) \<and> (req \<longrightarrow> covers_required p cs r)"
    by (auto simp: covers_required_def)
  finally show ?thesis .
qed

lemma route_model_sound:
  assumes "problem_ok p" and "validate_candidates cs = None" and "satisfies \<sigma> (route_model p cs req)"
  shows "encodes p cs \<sigma> (route_of p cs \<sigma>)" and "valid_route p cs (route_of p cs \<sigma>)"
    and "req \<Longrightarrow> covers_required p cs (route_of p cs \<sigma>)"
    and "\<And>k. k \<in> required_requirement_keys p \<union> preferred_requirement_keys p
      \<Longrightarrow> \<sigma> (Covered k) = of_bool (k \<in> covered cs (route_of p cs \<sigma>))"
proof -
  show enc: "encodes p cs \<sigma> (route_of p cs \<sigma>)"
    using assms(3) by (intro route_of_encodes) (simp add: satisfies_iff)
  show "valid_route p cs (route_of p cs \<sigma>)"
    using assms(3) core_iff_valid [OF assms(1,2) enc] by (simp add: satisfies_iff)
  have "part_holds \<sigma> (add_requirement_coverage p cs req)"
    using assms(3) by (simp add: satisfies_iff)
  then show "req \<Longrightarrow> covers_required p cs (route_of p cs \<sigma>)"
    and "\<And>k. k \<in> required_requirement_keys p \<union> preferred_requirement_keys p
      \<Longrightarrow> \<sigma> (Covered k) = of_bool (k \<in> covered cs (route_of p cs \<sigma>))"
    unfolding coverage_iff [OF assms(1) enc] by auto
qed

end
