(* ===== verification/Sample_Route.thy ===== *)
theory Sample_Route
  imports Route_Semantics
begin

section \<open>A small planning problem\<close>

text \<open>
  One week with three hours, two activities of which the second needs the first, one required
  requirement. The example instantiates the theorems about the model and the planner.
\<close>

abbreviation hour_dt :: "int \<Rightarrow> datetime" where
  "hour_dt h \<equiv> utc_dt (h * 3600000000)"

definition sample_slot :: "int \<Rightarrow> PlanningSlot" where
  "sample_slot h = \<lparr>starts_at = hour_dt h, ends_at = hour_dt (h + 1), capacity_week_key = ''2026-W01''\<rparr>"

definition sample_candidate :: "string \<Rightarrow> int \<Rightarrow> string set \<Rightarrow> string list \<Rightarrow> Candidate" where
  "sample_candidate a h keys pre =
     \<lparr>cd_action_id = a, cd_template_revision = 1, cd_title = a, cd_estimated_hours = h,
      cd_outcome_requirement_keys = keys, cd_prerequisite_action_ids = pre,
      cd_fulfilled_prerequisite_action_ids = [], cd_completion_criteria = [''done''],
      cd_support_refs = {}, cd_cost = KnownKrwCost 1000\<rparr>"

definition sample_candidates :: "Candidate list" where
  "sample_candidates = [sample_candidate ''a'' 1 {} [], sample_candidate ''b'' 2 {''k''} [''a'']]"

definition sample_constraints :: PlanningConstraints where
  "sample_constraints =
     \<lparr>target_by = hour_dt 10, available_hours_per_week = 3, budget_mode = REGULAR,
      max_out_of_pocket_krw = Some 5000, fastest_path = False, needs_portfolio = False,
      career_switch = False, weekly_availability = [], unavailable_dates = []\<rparr>"

definition sample_problem :: PlanningProblem where
  "sample_problem =
     \<lparr>pp_analysis_id = ''analysis'', pp_profile_version = 1, pp_basis_version = ''basis'',
      pp_corpus_release_id = None, pp_is_fixture = False, pp_reference_at = hour_dt 0,
      pp_candidates = sample_candidates, pp_candidate_blockers = [],
      required_requirement_keys = {''k''}, preferred_requirement_keys = {},
      pp_constraints = sample_constraints, planning_started_at = hour_dt 0,
      calendar = map sample_slot [0, 1, 2], candidate_availability = [], time_limit_seconds = 20,
      pp_planning_policy_version = None, pp_planning_policy_decisions = [],
      foundational_priority_action_ids = {}, portfolio_action_ids = {}\<rparr>"

definition sample_route :: route where
  "sample_route = \<lparr>chosen = {''a'', ''b''},
     slots_of = (\<lambda>x. if x = ''a'' then {0} else if x = ''b'' then {1, 2} else {})\<rparr>"

definition empty_route :: route where
  "empty_route = \<lparr>chosen = {}, slots_of = (\<lambda>_. {})\<rparr>"

lemmas sample_defs = sample_problem_def sample_constraints_def sample_candidates_def
  sample_candidate_def sample_slot_def

lemma sample_problem_ok: "problem_ok sample_problem"
  by (simp add: problem_ok_def problem_post_init_def constraints_valid_def slot_post_init_def
      sample_defs blank_iff is_space_def non_overlapping_windows_def is_aware_def in_utc_def dt_ok_def
      dt_le_def dt_less_def dt_diff_def instant_def utc_dt_def SLOT_DURATION_def HOUR_def)

lemma sample_validated: "validate_candidates sample_candidates = None"
  by (simp add: validate_candidates_def sample_candidates_def sample_candidate_def)

lemma sample_candidates_of: "pp_candidates sample_problem = sample_candidates"
  by (simp add: sample_problem_def)

lemma sample_route_valid:
  "valid_route sample_problem sample_candidates sample_route"
  "covers_required sample_problem sample_candidates sample_route"
  "valid_route sample_problem sample_candidates empty_route"
proof -
  have "occupied sample_route sample_candidates = {0, 1, 2}"
    by (auto simp: occupied_def sample_route_def sample_candidates_def sample_candidate_def)
  then have "card {i \<in> occupied sample_route sample_candidates. week_of sample_problem i = k}
      \<le> card {0, 1, 2 :: nat}" for k
    by (intro card_mono) auto
  then have "int (card {i \<in> occupied sample_route sample_candidates. week_of sample_problem i = k}) \<le> 3" for k
    by (simp add: numeral_3_eq_3)
  then have weekly: "weekly_ok sample_problem sample_candidates sample_route"
    by (simp add: weekly_ok_def) (simp add: sample_problem_def sample_constraints_def)
  have effort: "effort_ok sample_problem sample_candidates sample_route"
    by (simp add: effort_ok_def sample_defs sample_route_def)
  have available: "available_ok sample_problem sample_candidates sample_route"
    by (simp add: available_ok_def slot_available_def is_available_def availability_of_def sample_defs)
  have exclusive: "exclusive_ok sample_candidates sample_route"
    by (simp add: exclusive_ok_def sample_candidates_def sample_candidate_def sample_route_def)
  have prerequisites: "prerequisites_ok sample_problem sample_candidates sample_route"
    by (simp add: prerequisites_ok_def start_of_def end_of_def microseconds_from_planning_start_def
        dt_diff_def utc_dt_def sample_defs sample_route_def)
  have budget: "budget_ok sample_problem sample_candidates sample_route"
    by (simp add: budget_ok_def spend_def known_cost_def sample_defs sample_route_def)
  show "valid_route sample_problem sample_candidates sample_route"
    unfolding valid_route_def using weekly effort available exclusive prerequisites budget by blast
  show "covers_required sample_problem sample_candidates sample_route"
    unfolding covers_required_def covered_def
    by (rule order_trans [OF _ UN_upper [of "sample_candidate ''b'' 2 {''k''} [''a'']"]])
      (simp_all add: sample_defs sample_route_def)
  show "valid_route sample_problem sample_candidates empty_route"
    by (simp add: valid_route_def route_defs occupied_def spend_def empty_route_def sample_defs)
qed


lemma sample_covered:
  "covered sample_candidates sample_route = {''k''}" "covered sample_candidates empty_route = {}"
proof -
  have "list_all (\<lambda>c. cd_action_id c \<in> chosen sample_route) sample_candidates"
    by (simp add: sample_candidates_def sample_candidate_def sample_route_def)
  then have sel: "{c \<in> set sample_candidates. cd_action_id c \<in> chosen sample_route} = set sample_candidates"
    by (auto simp: list_all_iff)
  show "covered sample_candidates sample_route = {''k''}"
    unfolding covered_def sel by (simp add: sample_candidates_def sample_candidate_def)
  show "covered sample_candidates empty_route = {}" by (simp add: covered_def empty_route_def)
qed

end
