(* ===== verification/Route_Completeness.thy ===== *)
theory Route_Completeness
  imports Sample_Route
begin

section \<open>Every valid route is an assignment of the model\<close>

text \<open>
  The assignment a valid route induces, and the proof that it satisfies every constraint of
  \<open>build_route_model\<close>: the redundant completion bound, the domains of the score variables and the
  divisions exclude no route. Then the meaning of the objective: one more required requirement
  outweighs the whole normalized score, and the foundation tie-break never outweighs it.
\<close>

subsection \<open>The induced assignment\<close>

definition total_hours :: "Candidate list \<Rightarrow> route \<Rightarrow> int" where
  "total_hours cs r = (\<Sum>c \<leftarrow> cs. if cd_action_id c \<in> chosen r then cd_estimated_hours c else 0)"

definition route_completion :: "PlanningProblem \<Rightarrow> Candidate list \<Rightarrow> route \<Rightarrow> int" where
  "route_completion p cs r =
     (if cs = [] then 0 else Max ((\<lambda>c. completion_of p (slots_of r (cd_action_id c))) ` set cs))"

definition scaled :: "int \<Rightarrow> int \<Rightarrow> int" where
  "scaled x bound = (NORMALIZED_SCORE_MAXIMUM * x) div bound"

definition unknown_chosen :: "Candidate list \<Rightarrow> route \<Rightarrow> bool" where
  "unknown_chosen cs r \<longleftrightarrow> (\<exists>c \<in> set cs. cd_cost c = UnknownKrwCost \<and> cd_action_id c \<in> chosen r)"

abbreviation cost_bound :: "PlanningProblem \<Rightarrow> int" where
  "cost_bound p \<equiv> known_cost_upper_bound_krw (objective_snapshot p)"

definition cost_credit :: "PlanningProblem \<Rightarrow> Candidate list \<Rightarrow> route \<Rightarrow> int" where
  "cost_credit p cs r = (if unknown_chosen cs r then 0 else cost_bound p - spend cs r)"

definition foundation_hours :: "PlanningProblem \<Rightarrow> Candidate list \<Rightarrow> route \<Rightarrow> int" where
  "foundation_hours p cs r = (\<Sum>c \<leftarrow> foundations p cs. \<Sum>i < length (calendar p).
     (int (length (calendar p)) - int i) * of_bool (i \<in> slots_of r (cd_action_id c)))"

definition foundation_maximum :: "PlanningProblem \<Rightarrow> Candidate list \<Rightarrow> int" where
  "foundation_maximum p cs =
     int (length (calendar p)) * sum_list (map cd_estimated_hours (foundations p cs))"

fun assign :: "PlanningProblem \<Rightarrow> Candidate list \<Rightarrow> route \<Rightarrow> assignment" where
  "assign p cs r (Selected a) = of_bool (a \<in> chosen r)"
| "assign p cs r (Assigned a i) = of_bool (i \<in> slots_of r a)"
| "assign p cs r (Completion a) = completion_of p (slots_of r a)"
| "assign p cs r (Covered k) = of_bool (k \<in> covered cs r)"
| "assign p cs r RouteCompletion = route_completion p cs r"
| "assign p cs r TotalSelectedHours = total_hours cs r"
| "assign p cs r EarliestCapacityCompletion
     = (0 # map (end_of p) (slot_indexes p)) ! nat (total_hours cs r)"
| "assign p cs r CoveragePoints = (if card (preferred_requirement_keys p) = 0 then 0
     else scaled (int (card (preferred_requirement_keys p \<inter> covered cs r)))
            (int (card (preferred_requirement_keys p))))"
| "assign p cs r TimeRemaining = horizon p - route_completion p cs r"
| "assign p cs r TimePoints = scaled (horizon p - route_completion p cs r) (horizon p)"
| "assign p cs r CostPoints = (if cost_bound p = 0 then 0 else scaled (cost_credit p cs r) (cost_bound p))"
| "assign p cs r CostCredit = cost_credit p cs r"
| "assign p cs r UnknownCostSelected = of_bool (unknown_chosen cs r)"
| "assign p cs r FoundationPriorityPoints = scaled (foundation_hours p cs r) (foundation_maximum p cs)"

lemma assign_encodes: "effort_ok p cs r \<Longrightarrow> encodes p cs (assign p cs r) r"
  by (auto simp: encodes_def effort_ok_def)

lemma assign_completions: "completions_ok p cs (assign p cs r) r"
  by (simp add: completions_ok_def)

lemma trunc_div_nonneg: "0 \<le> a \<Longrightarrow> 0 < b \<Longrightarrow> trunc_div a b = a div b"
  by (cases "a = 0") (simp_all add: trunc_div_def)

lemma scaled_bounds:
  assumes "0 \<le> x" and "x \<le> b" and "0 < b"
  shows "0 \<le> scaled x b" and "scaled x b \<le> NORMALIZED_SCORE_MAXIMUM"
    and "trunc_div (NORMALIZED_SCORE_MAXIMUM * x) b = scaled x b"
proof -
  show "0 \<le> scaled x b"
    using assms by (simp add: scaled_def NORMALIZED_SCORE_MAXIMUM_def pos_imp_zdiv_nonneg_iff)
  have "(NORMALIZED_SCORE_MAXIMUM * x) div b \<le> (NORMALIZED_SCORE_MAXIMUM * b) div b"
    using assms by (intro zdiv_mono1) (simp_all add: NORMALIZED_SCORE_MAXIMUM_def)
  then show "scaled x b \<le> NORMALIZED_SCORE_MAXIMUM" using assms by (simp add: scaled_def)
  show "trunc_div (NORMALIZED_SCORE_MAXIMUM * x) b = scaled x b"
    using assms by (simp add: trunc_div_nonneg scaled_def NORMALIZED_SCORE_MAXIMUM_def)
qed

subsection \<open>Hours, slots and completion\<close>

lemma occupied_sub: "effort_ok p cs r \<Longrightarrow> occupied r cs \<subseteq> {..<length (calendar p)}"
  by (auto simp: occupied_def effort_ok_def)

lemma total_hours_card:
  assumes "validate_candidates cs = None" and "effort_ok p cs r" and "exclusive_ok cs r"
  shows "total_hours cs r = int (card (occupied r cs))"
proof -
  have "total_hours cs r = (\<Sum>c \<in> set cs. int (card (slots_of r (cd_action_id c))))"
    using assms(2) unfolding total_hours_def sum_list_candidates [OF assms(1)]
    by (intro sum.cong) (auto simp: effort_ok_def)
  also have "\<dots> = int (card (occupied r cs))"
    unfolding occupied_def using assms(2,3)
    by (subst card_UN_disjoint)
      (auto simp: effort_ok_def exclusive_ok_def intro: finite_subset [of _ "{..<length (calendar p)}"])
  finally show ?thesis .
qed

lemma card_index_ge:
  fixes S :: "nat set"
  assumes "finite S" and "t < card S"
  shows "\<exists>i \<in> S. t \<le> i"
proof (rule ccontr)
  assume "\<not> (\<exists>i \<in> S. t \<le> i)"
  then have "S \<subseteq> {..<t}" by auto
  then have "card S \<le> t" using card_mono [of "{..<t}" S] by simp
  with assms(2) show False by simp
qed

lemma end_of_mono:
  assumes "problem_ok p" and "i \<le> j" and "j < length (calendar p)"
  shows "end_of p i \<le> end_of p j"
proof (cases "i = j")
  case False
  with assms have "end_of p i \<le> start_of p j" by (intro slot_before) auto
  with slot_facts(3) [OF assms(1,3)] show ?thesis by (simp add: HOUR_def)
qed simp

lemma route_completion_bounds:
  assumes "problem_ok p" and "effort_ok p cs r"
  shows "0 \<le> route_completion p cs r" and "route_completion p cs r \<le> horizon p"
    and "c \<in> set cs \<Longrightarrow> completion_of p (slots_of r (cd_action_id c)) \<le> route_completion p cs r"
proof -
  have sub: "slots_of r (cd_action_id c) \<subseteq> {..<length (calendar p)}" if "c \<in> set cs" for c
    using assms(2) that by (auto simp: effort_ok_def)
  show le: "completion_of p (slots_of r (cd_action_id c)) \<le> route_completion p cs r" if "c \<in> set cs" for c
    using that by (auto simp: route_completion_def)
  show "0 \<le> route_completion p cs r"
  proof (cases cs)
    case (Cons c rest)
    then show ?thesis
      using le [of c] completion_of_bounds(1) [OF assms(1) sub, of c] by simp
  qed (simp add: route_completion_def)
  show "route_completion p cs r \<le> horizon p"
    using completion_of_bounds(2) [OF assms(1) sub] horizon_pos [OF assms(1)]
    by (auto simp: route_completion_def)
qed

text \<open>Selected effort cannot finish before that many capacity slots have elapsed.\<close>

lemma earliest_completion_bound:
  assumes "problem_ok p" and "validate_candidates cs = None" and "effort_ok p cs r"
    and "exclusive_ok cs r"
  shows "0 \<le> total_hours cs r" and "total_hours cs r \<le> int (length (calendar p))"
    and "(0 # map (end_of p) (slot_indexes p)) ! nat (total_hours cs r) \<le> route_completion p cs r"
proof -
  note th = total_hours_card [OF assms(2,3,4)]
  have fin: "finite (occupied r cs)" using occupied_sub [OF assms(3)] by (rule finite_subset) simp
  show "0 \<le> total_hours cs r" by (simp add: th)
  show bound: "total_hours cs r \<le> int (length (calendar p))"
    using card_mono [OF _ occupied_sub [OF assms(3)]] by (simp add: th)
  show "(0 # map (end_of p) (slot_indexes p)) ! nat (total_hours cs r) \<le> route_completion p cs r"
  proof (cases "card (occupied r cs)")
    case 0
    then show ?thesis using route_completion_bounds(1) [OF assms(1,3)] by (simp add: th)
  next
    case (Suc t)
    with card_index_ge [OF fin, of t] obtain i where i: "i \<in> occupied r cs" "t \<le> i" by auto
    then obtain c where c: "c \<in> set cs" "i \<in> slots_of r (cd_action_id c)" by (auto simp: occupied_def)
    have n: "i < length (calendar p)" using i occupied_sub [OF assms(3)] by auto
    have "end_of p t \<le> end_of p i" by (rule end_of_mono [OF assms(1) i(2) n])
    also have "\<dots> \<le> completion_of p (slots_of r (cd_action_id c))"
      using assms(1,3) c by (intro completion_of_bounds(3)) (auto simp: effort_ok_def)
    also have "\<dots> \<le> route_completion p cs r" by (rule route_completion_bounds(3) [OF assms(1,3) c(1)])
    finally have "end_of p t \<le> route_completion p cs r" .
    moreover have "nat (total_hours cs r) = Suc t" using Suc by (simp add: th)
    moreover have "t < length (calendar p)" using i(2) n by simp
    ultimately show ?thesis by simp
  qed
qed

lemma completion_part_holds:
  assumes "problem_ok p" and "validate_candidates cs = None" and "effort_ok p cs r"
    and "exclusive_ok cs r"
  shows "part_holds (assign p cs r) (completion_part p cs)"
proof -
  note rc = route_completion_bounds [OF assms(1,3)]
  note th = earliest_completion_bound [OF assms]
  note hz = horizon_pos [OF assms(1)]
  let ?e = "(0 # map (end_of p) (slot_indexes p)) ! nat (total_hours cs r)"
  have e: "0 \<le> ?e"
  proof (cases "nat (total_hours cs r)")
    case (Suc t)
    with th(2) have "t < length (calendar p)" by simp
    with Suc slot_bounds(3) [OF assms(1), of t] show ?thesis by simp
  qed simp
  have "(\<Sum>c \<leftarrow> cs. cd_estimated_hours c * of_bool (cd_action_id c \<in> chosen r)) = total_hours cs r"
    unfolding total_hours_def by (intro arg_cong [of _ _ sum_list] map_cong) auto
  moreover have "nat (total_hours cs r) < Suc (length (calendar p))" using th(1,2) by linarith
  moreover have "trunc_div (NORMALIZED_SCORE_MAXIMUM * (horizon p - route_completion p cs r)) (horizon p)
      = scaled (horizon p - route_completion p cs r) (horizon p)"
    using rc hz by (intro scaled_bounds(3)) auto
  moreover have "0 \<le> scaled (horizon p - route_completion p cs r) (horizon p)"
    "scaled (horizon p - route_completion p cs r) (horizon p) \<le> NORMALIZED_SCORE_MAXIMUM"
    using rc hz by (auto intro: scaled_bounds(1,2))
  ultimately show ?thesis
    using rc th hz e
    by (simp add: part_holds_def completion_part_def comp_def image_image route_completion_def)
qed

subsection \<open>Coverage, cost and foundation points\<close>

lemma sum_covered:
  assumes "finite K"
  shows "(\<Sum>k \<leftarrow> sorted_list_of_set K. of_bool (k \<in> C)) = int (card (K \<inter> C))"
proof -
  have "(\<Sum>k \<leftarrow> sorted_list_of_set K. of_bool (k \<in> C)) = (\<Sum>k \<in> K. of_bool (k \<in> C) :: int)"
    using assms by (simp add: sum_list_distinct_conv_sum_set)
  also have "\<dots> = int (card {k \<in> K. k \<in> C})" by (rule sum_of_bool_card [OF assms])
  finally show ?thesis by (simp add: Int_def)
qed

lemma coverage_points_hold:
  assumes "problem_ok p"
  shows "part_holds (assign p cs r) (coverage_points p)"
proof -
  let ?P = "preferred_requirement_keys p"
  have fin: "finite ?P" using assms by (simp add: problem_ok_def)
  have "int (card (?P \<inter> covered cs r)) \<le> int (card ?P)" using fin by (simp add: card_mono)
  with scaled_bounds [of "int (card (?P \<inter> covered cs r))" "int (card ?P)"] show ?thesis
    by (cases "card ?P = 0")
      (simp_all add: part_holds_def coverage_points_def comp_def sum_covered [OF fin]
        NORMALIZED_SCORE_MAXIMUM_def)
qed

lemma spend_bounds:
  assumes "problem_ok p" and "mset cs = mset (pp_candidates p)"
  shows "0 \<le> spend cs r" and "spend cs r \<le> cost_bound p"
proof -
  have "set cs = set (pp_candidates p)" using assms(2) by (metis set_mset_mset)
  then have nonneg: "0 \<le> known_cost c" if "c \<in> set cs" for c
    using assms(1) that by (auto simp: problem_ok_def list_all_iff known_cost_nonneg)
  then show "0 \<le> spend cs r"
    unfolding spend_def by (intro sum_list_nonneg) auto
  have "spend cs r \<le> sum_list (map known_cost cs)"
    unfolding spend_def using nonneg by (intro sum_list_le_mono) auto
  also have "\<dots> = sum_list (map known_cost (pp_candidates p))"
    using assms(2) by (metis mset_map sum_mset_sum_list)
  also have "\<dots> = cost_bound p" by (simp add: objective_snapshot_def Let_def split: prod.splits)
  finally show "spend cs r \<le> cost_bound p" .
qed

lemma cost_points_hold:
  assumes "problem_ok p" and "mset cs = mset (pp_candidates p)" and "encodes p cs (assign p cs r) r"
  shows "part_holds (assign p cs r) (cost_points p cs)"
proof (cases "cost_bound p = 0")
  case True
  then show ?thesis
    by (simp add: part_holds_def cost_points_def NORMALIZED_SCORE_MAXIMUM_def)
next
  case False
  note sp = spend_bounds [OF assms(1,2), of r]
  from False sp have pos: "0 < cost_bound p" by linarith
  have credit: "0 \<le> cost_credit p cs r" "cost_credit p cs r \<le> cost_bound p"
    using sp pos by (auto simp: cost_credit_def)
  have ks: "cp_eval (assign p cs r) (known_spend cs) = spend cs r"
    unfolding known_spend_def spend_def
    by (simp add: comp_def) (intro arg_cong [of _ _ sum_list] map_cong, auto)
  have "part_holds (assign p cs r) (unknown_selected cs)"
  proof (cases "filter (\<lambda>c. cd_cost c = UnknownKrwCost) cs = []")
    case True
    then have "\<not> unknown_chosen cs r" by (auto simp: unknown_chosen_def filter_empty_conv)
    with True show ?thesis by (simp add: part_holds_def unknown_selected_def)
  next
    case nonempty: False
    have "(\<exists>c \<in> set cs. cd_cost c = UnknownKrwCost \<and> cd_action_id c \<in> chosen r) = unknown_chosen cs r"
      by (simp add: unknown_chosen_def)
    with nonempty selected_Max [OF assms(3) nonempty] show ?thesis
      unfolding part_holds_def unknown_selected_def Let_def by simp
  qed
  moreover have "0 \<le> scaled (cost_credit p cs r) (cost_bound p)"
    "scaled (cost_credit p cs r) (cost_bound p) \<le> NORMALIZED_SCORE_MAXIMUM"
    "trunc_div (NORMALIZED_SCORE_MAXIMUM * cost_credit p cs r) (cost_bound p)
       = scaled (cost_credit p cs r) (cost_bound p)"
    using scaled_bounds [OF credit pos] by auto
  ultimately show ?thesis
    using False credit ks
    by (auto simp: cost_points_def part_holds_def Let_def cost_credit_def split: prod.splits)
qed

lemma foundation_hours_bounds:
  assumes "effort_ok p cs r" and "\<And>c. c \<in> set cs \<Longrightarrow> 0 < cd_estimated_hours c"
  shows "0 \<le> foundation_hours p cs r" and "foundation_hours p cs r \<le> foundation_maximum p cs"
proof -
  let ?n = "length (calendar p)"
  let ?h = "\<lambda>c. \<Sum>i < ?n. (int ?n - int i) * of_bool (i \<in> slots_of r (cd_action_id c))"
  show "0 \<le> foundation_hours p cs r"
    unfolding foundation_hours_def by (intro sum_list_nonneg) (auto intro!: sum_nonneg)
  have "?h c \<le> int ?n * cd_estimated_hours c" if c: "c \<in> set cs" for c
  proof -
    let ?S = "slots_of r (cd_action_id c)"
    have sub: "?S \<subseteq> {..<?n}" and card: "int (card ?S) \<le> cd_estimated_hours c"
      using assms(1) c assms(2) [OF c] by (auto simp: effort_ok_def)
    have "?h c \<le> (\<Sum>i < ?n. int ?n * of_bool (i \<in> ?S))" by (intro sum_mono) auto
    also have "\<dots> = int ?n * (\<Sum>i < ?n. of_bool (i \<in> ?S))" by (simp add: sum_distrib_left)
    also have "(\<Sum>i < ?n. of_bool (i \<in> ?S)) = int (card {i \<in> {..<?n}. i \<in> ?S})"
      by (rule sum_of_bool_card) simp
    also have "{i \<in> {..<?n}. i \<in> ?S} = ?S" using sub by auto
    also have "int ?n * int (card ?S) \<le> int ?n * cd_estimated_hours c"
      using card by (intro mult_left_mono) auto
    finally show ?thesis .
  qed
  then have "foundation_hours p cs r \<le> (\<Sum>c \<leftarrow> foundations p cs. int ?n * cd_estimated_hours c)"
    unfolding foundation_hours_def by (intro sum_list_le_mono) (auto simp: foundations_def)
  also have "\<dots> = foundation_maximum p cs"
    by (simp add: foundation_maximum_def sum_list_const_mult)
  finally show "foundation_hours p cs r \<le> foundation_maximum p cs" .
qed

lemma foundation_part_holds:
  assumes "problem_ok p" and "validate_candidates cs = None" and "effort_ok p cs r"
  shows "part_holds (assign p cs r) (foundation_part p cs)"
proof (cases "foundations p cs = []")
  case True
  then show ?thesis by (simp add: foundation_part_def part_holds_def)
next
  case False
  note hours = validate_None(2) [OF assms(2)]
  note fh = foundation_hours_bounds [OF assms(3) hours]
  obtain f rest where f: "foundations p cs = f # rest" using False by (cases "foundations p cs") auto
  then have "f \<in> set cs" "set rest \<subseteq> set cs" by (auto simp: foundations_def filter_eq_Cons_iff)
  then have "0 < cd_estimated_hours f" "\<forall>h \<in> set (map cd_estimated_hours rest). 0 \<le> h"
    using hours by (auto intro: less_imp_le)
  then have "0 < cd_estimated_hours f" "0 \<le> sum_list (map cd_estimated_hours rest)"
    using sum_list_nonneg [of "map cd_estimated_hours rest"] by blast+
  then have "0 < sum_list (map cd_estimated_hours (foundations p cs))" by (simp add: f)
  then have pos: "0 < foundation_maximum p cs"
    using problem_okD(1) [OF assms(1)] by (simp add: foundation_maximum_def)
  have "cp_eval (assign p cs r) (early_foundation_hours p cs) = foundation_hours p cs r"
    by (simp add: early_foundation_hours_def foundation_hours_def sum_list_concat_map comp_def
        sum_list_upt)
  with False scaled_bounds [OF fh pos] pos show ?thesis
    by (auto simp: foundation_part_def part_holds_def foundation_maximum_def)
qed

subsection \<open>The model describes exactly the valid routes\<close>

lemma route_model_complete:
  assumes "problem_ok p" and "validate_candidates cs = None" and "mset cs = mset (pp_candidates p)"
    and "valid_route p cs r" and "req \<longrightarrow> covers_required p cs r"
  shows "satisfies (assign p cs r) (route_model p cs req)"
proof -
  have eff: "effort_ok p cs r" and exc: "exclusive_ok cs r" using assms(4) by (auto simp: valid_route_def)
  note enc = assign_encodes [OF eff]
  have "part_holds (assign p cs r) (route_variables p cs, [])"
    using completion_of_bounds(1,2) [OF assms(1)] eff by (auto simp: variables_hold_iff effort_ok_def)
  moreover have "list_all (cp_holds (assign p cs r)) (core_constraints p cs)"
    using core_iff_valid [OF assms(1,2) enc] assms(4) assign_completions by blast
  moreover have "part_holds (assign p cs r) (add_requirement_coverage p cs req)"
    using assms(5) by (simp add: coverage_iff [OF assms(1) enc])
  ultimately show ?thesis
    using completion_part_holds [OF assms(1,2) eff exc] coverage_points_hold [OF assms(1)]
      cost_points_hold [OF assms(1,3) enc] foundation_part_holds [OF assms(1,2) eff]
    by (simp add: satisfies_iff)
qed


text \<open>
  C2: A solver run on the model finds a route if and only if there is one: the constraint model
  of \<open>build_route_model\<close> has a satisfying assignment exactly when some route obeys the effort,
  availability, exclusivity, weekly-capacity, prerequisite and budget rules (and covers every
  required requirement, when full coverage is asked for).
\<close>

theorem route_model_exact:
  assumes "problem_ok p" and "validate_candidates cs = None" and "mset cs = mset (pp_candidates p)"
  shows "(\<exists>\<sigma>. satisfies \<sigma> (route_model p cs req))
    \<longleftrightarrow> (\<exists>r. valid_route p cs r \<and> (req \<longrightarrow> covers_required p cs r))"
  using route_model_complete [OF assms] route_model_sound [OF assms(1,2)] by blast

theorem route_model_exact_witness:
  "\<exists>\<sigma>. satisfies \<sigma> (route_model sample_problem sample_candidates True)"
  using route_model_exact [OF sample_problem_ok sample_validated, of True] sample_route_valid
    sample_candidates_of by auto

text \<open>
  C16: Every assignment the solver may return decodes to a valid route, and its coverage variables
  tell exactly which requirements that route covers.
\<close>

theorem satisfying_assignment_is_valid_route:
  assumes "problem_ok p" and "validate_candidates cs = None" and "satisfies \<sigma> (route_model p cs req)"
  shows "valid_route p cs (route_of p cs \<sigma>)
    \<and> (req \<longrightarrow> covers_required p cs (route_of p cs \<sigma>))
    \<and> (\<forall>k \<in> required_requirement_keys p \<union> preferred_requirement_keys p.
          \<sigma> (Covered k) = of_bool (k \<in> covered cs (route_of p cs \<sigma>)))"
  using route_model_sound [OF assms] by blast


lemma sample_assignment:
  "satisfies (assign sample_problem sample_candidates sample_route)
     (route_model sample_problem sample_candidates req)"
  "satisfies (assign sample_problem sample_candidates empty_route)
     (route_model sample_problem sample_candidates False)"
  using route_model_complete [OF sample_problem_ok sample_validated] sample_route_valid
    sample_candidates_of by auto

theorem satisfying_assignment_is_valid_route_witness:
  "valid_route sample_problem sample_candidates (route_of sample_problem sample_candidates
     (assign sample_problem sample_candidates sample_route))
   \<and> covers_required sample_problem sample_candidates (route_of sample_problem sample_candidates
     (assign sample_problem sample_candidates sample_route))"
  using satisfying_assignment_is_valid_route [OF sample_problem_ok sample_validated
      sample_assignment(1) [of True]] by simp

subsection \<open>What the objective prefers\<close>

definition required_covered :: "PlanningProblem \<Rightarrow> Candidate list \<Rightarrow> route \<Rightarrow> nat" where
  "required_covered p cs r = card (required_requirement_keys p \<inter> covered cs r)"

lemma weighted_points_bounds:
  assumes "satisfies \<sigma> (route_model p cs req)"
  shows "0 \<le> cp_eval \<sigma> (weighted_points p)"
    and "cp_eval \<sigma> (weighted_points p) < PARTIAL_REQUIRED_COVERAGE_WEIGHT"
proof -
  let ?N = NORMALIZED_SCORE_MAXIMUM
  let ?a = "coverage_weight (objective_snapshot p)"
  let ?b = "time_weight (objective_snapshot p)"
  let ?c = "cost_weight (objective_snapshot p)"
  from assms have parts: "part_holds \<sigma> (coverage_points p)" "part_holds \<sigma> (completion_part p cs)"
    "part_holds \<sigma> (cost_points p cs)" by (simp_all add: satisfies_iff)
  have cov: "0 \<le> \<sigma> CoveragePoints" "\<sigma> CoveragePoints \<le> ?N"
    by (rule part_domain [OF parts(1)], simp add: coverage_points_def Let_def)+
  have tim: "0 \<le> \<sigma> TimePoints" "\<sigma> TimePoints \<le> ?N"
    by (rule part_domain [OF parts(2)], simp add: completion_part_def)+
  have cost: "0 \<le> \<sigma> CostPoints" "\<sigma> CostPoints \<le> ?N"
    by (rule part_domain [OF parts(3), of CostPoints 0 ?N],
        simp add: cost_points_def Let_def split: prod.splits)+
  note dom = cov tim cost
  note w = objective_weights [of p]
  have "0 \<le> ?a * \<sigma> CoveragePoints" "0 \<le> ?b * \<sigma> TimePoints" "0 \<le> ?c * \<sigma> CostPoints"
    using dom w by (blast intro: mult_nonneg_nonneg)+
  then show "0 \<le> cp_eval \<sigma> (weighted_points p)" by (simp add: weighted_points_def)
  have "?a * \<sigma> CoveragePoints + ?b * \<sigma> TimePoints + ?c * \<sigma> CostPoints \<le> ?a * ?N + ?b * ?N + ?c * ?N"
    using dom w by (intro add_mono mult_left_mono) blast+
  also have "\<dots> = (?a + ?b + ?c) * ?N" by (simp add: distrib_right)
  also have "\<dots> = 100 * ?N" using w by simp
  finally show "cp_eval \<sigma> (weighted_points p) < PARTIAL_REQUIRED_COVERAGE_WEIGHT"
    by (simp add: weighted_points_def PARTIAL_REQUIRED_COVERAGE_WEIGHT_def)
qed

lemma foundation_points_bounds:
  assumes "satisfies \<sigma> (route_model p cs req)" and "foundations p cs \<noteq> []"
  shows "0 \<le> \<sigma> FoundationPriorityPoints" and "\<sigma> FoundationPriorityPoints \<le> NORMALIZED_SCORE_MAXIMUM"
  using assms by (auto simp: satisfies_iff part_holds_def foundation_part_def)

lemma route_model_objective: "cp_objective (route_model p cs req) = objective_expr p cs (\<not> req)"
  by (simp add: route_model_def add_objective_def split: prod.splits)

text \<open>A better primary score always wins: the foundation points only break ties.\<close>

lemma objective_less_if_primary_less:
  assumes "satisfies \<sigma> (route_model p cs req)" and "satisfies \<tau> (route_model p cs req)"
    and "cp_eval \<sigma> (primary_score p (\<not> req)) < cp_eval \<tau> (primary_score p (\<not> req))"
  shows "cp_eval \<sigma> (cp_objective (route_model p cs req)) < cp_eval \<tau> (cp_objective (route_model p cs req))"
proof (cases "foundations p cs = []")
  case True
  then show ?thesis using assms(3) by (simp add: route_model_objective objective_expr_def)
next
  case False
  from foundation_points_bounds [OF assms(1) this] foundation_points_bounds [OF assms(2) False]
    assms(3) False show ?thesis
    by (simp add: route_model_objective objective_expr_def NORMALIZED_SCORE_MAXIMUM_def)
qed

lemma partial_primary_score:
  assumes "problem_ok p" and "validate_candidates cs = None" and "satisfies \<sigma> (route_model p cs req)"
  shows "cp_eval \<sigma> (primary_score p True)
    = PARTIAL_REQUIRED_COVERAGE_WEIGHT * int (required_covered p cs (route_of p cs \<sigma>))
      + cp_eval \<sigma> (weighted_points p)"
proof -
  let ?K = "required_requirement_keys p"
  have fin: "finite ?K" using assms(1) by (simp add: problem_ok_def)
  have "(\<Sum>k \<leftarrow> sorted_list_of_set ?K. \<sigma> (Covered k))
      = (\<Sum>k \<leftarrow> sorted_list_of_set ?K. of_bool (k \<in> covered cs (route_of p cs \<sigma>)))"
    using route_model_sound(4) [OF assms] fin
    by (intro arg_cong [of _ _ sum_list] map_cong) auto
  then show ?thesis
    by (simp add: primary_score_def required_covered_def sum_covered [OF fin] comp_def)
qed

text \<open>
  C7: In the partial search one more covered required requirement outweighs every other score:
  of two assignments of the model, the one whose route covers more required requirements has the
  strictly larger objective, whatever the coverage of preferred requirements, the completion time,
  the cost and the foundation tie-break are.
\<close>

theorem partial_objective_prefers_required_coverage:
  assumes "problem_ok p" and "validate_candidates cs = None"
    and "satisfies \<sigma> (route_model p cs False)" and "satisfies \<tau> (route_model p cs False)"
    and "required_covered p cs (route_of p cs \<sigma>) < required_covered p cs (route_of p cs \<tau>)"
  shows "cp_eval \<sigma> (cp_objective (route_model p cs False))
    < cp_eval \<tau> (cp_objective (route_model p cs False))"
proof (rule objective_less_if_primary_less [OF assms(3,4)])
  let ?W = PARTIAL_REQUIRED_COVERAGE_WEIGHT
  let ?n = "int (required_covered p cs (route_of p cs \<sigma>))"
  let ?m = "int (required_covered p cs (route_of p cs \<tau>))"
  have "?n + 1 \<le> ?m" using assms(5) by simp
  then have "?W * (?n + 1) \<le> ?W * ?m"
    by (intro mult_left_mono) (simp_all add: PARTIAL_REQUIRED_COVERAGE_WEIGHT_def NORMALIZED_SCORE_MAXIMUM_def)
  then show "cp_eval \<sigma> (primary_score p (\<not> False)) < cp_eval \<tau> (primary_score p (\<not> False))"
    using weighted_points_bounds(2) [OF assms(3)] weighted_points_bounds(1) [OF assms(4)]
    by (simp add: partial_primary_score [OF assms(1,2,3)] partial_primary_score [OF assms(1,2,4)]
        distrib_left)
qed


lemma route_of_assign:
  assumes "effort_ok p cs r" and "chosen r \<subseteq> cd_action_id ` set cs"
  shows "chosen (route_of p cs (assign p cs r)) = chosen r"
  using assms by (auto simp: route_of_def)

theorem partial_objective_prefers_required_coverage_witness:
  "cp_eval (assign sample_problem sample_candidates empty_route)
     (cp_objective (route_model sample_problem sample_candidates False))
   < cp_eval (assign sample_problem sample_candidates sample_route)
     (cp_objective (route_model sample_problem sample_candidates False))"
proof (rule partial_objective_prefers_required_coverage
    [OF sample_problem_ok sample_validated sample_assignment(2,1)])
  have "chosen (route_of sample_problem sample_candidates (assign sample_problem sample_candidates r)) = chosen r"
    if "r \<in> {sample_route, empty_route}" for r
    using that sample_route_valid
    by (intro route_of_assign)
      (auto simp: valid_route_def sample_route_def empty_route_def sample_candidates_def sample_candidate_def)
  then have "covered sample_candidates (route_of sample_problem sample_candidates
      (assign sample_problem sample_candidates r)) = covered sample_candidates r"
    if "r \<in> {sample_route, empty_route}" for r
    using that by (simp add: covered_def)
  then show "required_covered sample_problem sample_candidates (route_of sample_problem sample_candidates
        (assign sample_problem sample_candidates empty_route))
      < required_covered sample_problem sample_candidates (route_of sample_problem sample_candidates
        (assign sample_problem sample_candidates sample_route))"
    by (simp add: required_covered_def sample_covered sample_problem_def)
qed

end
