(* ===== verification/Route_Hint.thy ===== *)
theory Route_Hint
  imports Route_Completeness
begin

section \<open>The search hint is a valid route\<close>

text \<open>
  \<open>_add_schedule_hint\<close> places candidates greedily, earliest slots first. The schedule it reaches
  obeys every rule of a route, so the hint never points the solver at an inconsistent start.
\<close>

subsection \<open>Extending a route by one candidate\<close>

definition extend :: "route \<Rightarrow> string \<Rightarrow> nat set \<Rightarrow> route" where
  "extend r a S = \<lparr>chosen = insert a (chosen r), slots_of = (slots_of r)(a := S)\<rparr>"

lemma extend_simps [simp]:
  "chosen (extend r a S) = insert a (chosen r)" "slots_of (extend r a S) = (slots_of r)(a := S)"
  by (simp_all add: extend_def)

lemma unchosen_empty:
  assumes "effort_ok p cs r" and "c \<in> set cs" and "cd_action_id c \<notin> chosen r"
  shows "slots_of r (cd_action_id c) = {}"
  using assms finite_subset [of "slots_of r (cd_action_id c)" "{..<length (calendar p)}"]
  by (auto simp: effort_ok_def)

lemma occupied_extend:
  assumes "validate_candidates cs = None" and "effort_ok p cs r" and "c \<in> set cs"
    and "cd_action_id c \<notin> chosen r"
  shows "occupied (extend r (cd_action_id c) S) cs = occupied r cs \<union> S"
  using assms(3) unchosen_empty [OF assms(2,3,4)] same_id [OF assms(1)]
  by (fastforce simp: occupied_def split: if_splits)

lemma spend_extend:
  assumes "validate_candidates cs = None" and "c \<in> set cs" and "cd_action_id c \<notin> chosen r"
  shows "spend cs (extend r (cd_action_id c) S) = spend cs r + known_cost c"
proof -
  have "spend cs (extend r (cd_action_id c) S)
      = (\<Sum>d \<in> set cs. (if cd_action_id d \<in> chosen r then known_cost d else 0)
           + (if d = c then known_cost c else 0))"
    unfolding spend_def sum_list_candidates [OF assms(1)]
    using assms same_id [OF assms(1)] by (intro sum.cong) auto
  also have "\<dots> = spend cs r + known_cost c"
    using assms(2) by (simp add: sum.distrib spend_def sum_list_candidates [OF assms(1)])
  finally show ?thesis .
qed

lemma extend_valid:
  assumes val: "validate_candidates cs = None" and valid: "valid_route p cs r" and c: "c \<in> set cs"
    and new: "cd_action_id c \<notin> chosen r"
    and S: "S \<subseteq> {..<length (calendar p)}" "int (card S) = cd_estimated_hours c"
      "\<forall>i \<in> S. slot_available p c i" "S \<inter> occupied r cs = {}"
    and week: "\<forall>k. int (card {i \<in> occupied r cs \<union> S. week_of p i = k}) \<le> hours_per_week p"
    and pre: "\<forall>q \<in> set (cd_prerequisite_action_ids c). q \<in> chosen r
      \<and> (\<forall>i \<in> S. \<forall>j \<in> slots_of r q. end_of p j \<le> start_of p i)"
    and budget: "\<not> over_budget p c (spend cs r)"
  shows "valid_route p cs (extend r (cd_action_id c) S)"
proof -
  have parts: "effort_ok p cs r" "available_ok p cs r" "exclusive_ok cs r" "prerequisites_ok p cs r"
    "budget_ok p cs r" using valid by (auto simp: valid_route_def)
  note id = same_id [OF val]
  have 1: "effort_ok p cs (extend r (cd_action_id c) S)"
    using parts(1) S(1,2) id [OF _ c] by (auto simp: effort_ok_def)
  have 2: "available_ok p cs (extend r (cd_action_id c) S)"
    using parts(2) S(3) id c by (auto simp: available_ok_def)
  have 3: "exclusive_ok cs (extend r (cd_action_id c) S)"
    unfolding exclusive_ok_def
  proof (intro ballI impI)
    fix d e
    assume d: "d \<in> set cs" and e: "e \<in> set cs" and "d \<noteq> e"
    then have ne: "cd_action_id d \<noteq> cd_action_id e" using id by simp
    have "S \<inter> slots_of r (cd_action_id x) = {}" if "x \<in> set cs" for x
      using S(4) that by (auto simp: occupied_def)
    moreover have "slots_of r (cd_action_id d) \<inter> slots_of r (cd_action_id e) = {}"
      using parts(3) d e \<open>d \<noteq> e\<close> by (simp add: exclusive_ok_def)
    ultimately show "slots_of (extend r (cd_action_id c) S) (cd_action_id d)
        \<inter> slots_of (extend r (cd_action_id c) S) (cd_action_id e) = {}"
      using ne d e by (auto simp: Int_commute)
  qed
  have 4: "weekly_ok p cs (extend r (cd_action_id c) S)"
    using week unfolding weekly_ok_def occupied_extend [OF val parts(1) c new] by simp
  have 5: "prerequisites_ok p cs (extend r (cd_action_id c) S)"
    unfolding prerequisites_ok_def
  proof (intro ballI impI)
    fix d q
    assume d: "d \<in> set cs" "cd_action_id d \<in> chosen (extend r (cd_action_id c) S)"
      and q: "q \<in> set (cd_prerequisite_action_ids d)"
    show "q \<in> chosen (extend r (cd_action_id c) S)
      \<and> (\<forall>i \<in> slots_of (extend r (cd_action_id c) S) (cd_action_id d).
          \<forall>j \<in> slots_of (extend r (cd_action_id c) S) q. end_of p j \<le> start_of p i)"
    proof (cases "d = c")
      case True
      with pre q new show ?thesis by auto
    next
      case False
      with id [OF d(1) c] d have "cd_action_id d \<noteq> cd_action_id c" "cd_action_id d \<in> chosen r" by auto
      with parts(4) d(1) q new show ?thesis by (auto simp: prerequisites_ok_def)
    qed
  qed
  have 6: "budget_ok p cs (extend r (cd_action_id c) S)"
    using parts(5) budget id c
    by (auto simp: budget_ok_def over_budget_def spend_extend [OF val c new] split: option.splits)
  show ?thesis using 1 2 3 4 5 6 by (simp add: valid_route_def)
qed

subsection \<open>Choosing slots\<close>

lemma choose_slots_ext:
  assumes "choose_slots p c used weekly is ch cw = (ch', cw')" and "sorted_wrt (<) is"
  shows "\<exists>ext. ch' = ch @ ext \<and> set ext \<subseteq> set is \<and> sorted_wrt (<) ext \<and> set ext \<inter> used = {}
    \<and> (\<forall>i \<in> set ext. slot_available p c i)
    \<and> (\<forall>w. cw' w = cw w + int (length (filter (\<lambda>i. week_of p i = w) ext)))
    \<and> ((\<forall>w. weekly w + cw w \<le> hours_per_week p) \<longrightarrow> (\<forall>w. weekly w + cw' w \<le> hours_per_week p))"
  using assms
proof (induction "is" arbitrary: ch cw)
  case Nil
  then show ?case by auto
next
  case (Cons i rest)
  show ?case
  proof (cases "i \<in> used \<or> \<not> slot_available p c i \<or> weekly (week_of p i) + cw (week_of p i) \<ge> hours_per_week p")
    case True
    with Cons.prems have "choose_slots p c used weekly rest ch cw = (ch', cw')"
      by (simp add: Let_def)
    from Cons.IH [OF this] Cons.prems(2) obtain ext where "ch' = ch @ ext" "set ext \<subseteq> set rest"
      "sorted_wrt (<) ext" "set ext \<inter> used = {}" "\<forall>i \<in> set ext. slot_available p c i"
      "\<forall>w. cw' w = cw w + int (length (filter (\<lambda>i. week_of p i = w) ext))"
      "(\<forall>w. weekly w + cw w \<le> hours_per_week p) \<longrightarrow> (\<forall>w. weekly w + cw' w \<le> hours_per_week p)"
      by auto
    then show ?thesis by (intro exI [of _ ext]) (simp add: subset_insertI2)
  next
    case False
    let ?cw = "cw(week_of p i := cw (week_of p i) + 1)"
    have room: "(\<forall>w. weekly w + cw w \<le> hours_per_week p) \<longrightarrow> (\<forall>w. weekly w + ?cw w \<le> hours_per_week p)"
      using False by auto
    show ?thesis
    proof (cases "int (length (ch @ [i])) = cd_estimated_hours c")
      case True
      with False Cons.prems have "ch' = ch @ [i]" "cw' = ?cw" by (auto simp: Let_def)
      with False room show ?thesis by (intro exI [of _ "[i]"]) auto
    next
      case more: False
      with False Cons.prems have "choose_slots p c used weekly rest (ch @ [i]) ?cw = (ch', cw')"
        by (auto simp: Let_def)
      from Cons.IH [OF this] Cons.prems(2) obtain ext where ext: "ch' = (ch @ [i]) @ ext"
        "set ext \<subseteq> set rest" "sorted_wrt (<) ext" "set ext \<inter> used = {}"
        "\<forall>i \<in> set ext. slot_available p c i"
        "\<forall>w. cw' w = ?cw w + int (length (filter (\<lambda>i. week_of p i = w) ext))"
        "(\<forall>w. weekly w + ?cw w \<le> hours_per_week p) \<longrightarrow> (\<forall>w. weekly w + cw' w \<le> hours_per_week p)"
        by auto
      show ?thesis
      proof (intro exI [of _ "i # ext"] conjI)
        show "sorted_wrt (<) (i # ext)" using ext(2,3) Cons.prems(2) by auto
        show "\<forall>w. cw' w = cw w + int (length (filter (\<lambda>j. week_of p j = w) (i # ext)))"
          using ext(6) by simp
        show "(\<forall>w. weekly w + cw w \<le> hours_per_week p) \<longrightarrow> (\<forall>w. weekly w + cw' w \<le> hours_per_week p)"
          using room ext(7) by blast
      qed (use ext False in auto)
    qed
  qed
qed

subsection \<open>The invariant of the loop\<close>

definition hint_route :: "hint_state \<Rightarrow> route" where
  "hint_route st = \<lparr>chosen = dom (map_of (hs_allocations st)),
     slots_of = (\<lambda>a. case map_of (hs_allocations st) a of None \<Rightarrow> {} | Some xs \<Rightarrow> set xs)\<rparr>"

definition hint_inv :: "PlanningProblem \<Rightarrow> Candidate list \<Rightarrow> hint_state \<Rightarrow> bool" where
  "hint_inv p cs st \<longleftrightarrow> valid_route p cs (hint_route st)
     \<and> hs_used st = occupied (hint_route st) cs
     \<and> (\<forall>w. hs_weekly st w = int (card {i \<in> hs_used st. week_of p i = w}))
     \<and> hs_spent st = spend cs (hint_route st)
     \<and> (\<forall>a xs. map_of (hs_allocations st) a = Some xs \<longrightarrow> sorted_wrt (<) xs)"

lemma hint_route_cons:
  "hint_route (st\<lparr>hs_allocations := (a, xs) # hs_allocations st, hs_used := u, hs_weekly := w,
     hs_spent := s\<rparr>) = extend (hint_route st) a (set xs)"
  by (auto simp: hint_route_def extend_def fun_eq_iff)

lemma initial_hint_inv:
  assumes "problem_ok p"
  shows "hint_inv p cs initial_hint"
proof -
  have "0 \<le> hours_per_week p" using problem_okD(6) [OF assms] by simp
  moreover have "0 \<le> cap" if "budget_cap p = Some cap" for cap
    using assms that by (auto simp: problem_ok_def constraints_valid_def)
  moreover have "spend cs (hint_route initial_hint) = 0"
    by (simp add: spend_def hint_route_def initial_hint_def)
  ultimately show ?thesis
    by (auto simp: hint_inv_def initial_hint_def hint_route_def valid_route_def route_defs occupied_def
        split: option.splits)
qed

lemma sorted_wrt_le_last: "sorted_wrt (<) xs \<Longrightarrow> x \<in> set xs \<Longrightarrow> x \<le> (last xs :: nat)"
  by (induction xs) (auto dest: less_imp_le)

lemma earliest_index_after:
  assumes "q \<in> set (cd_prerequisite_action_ids c)" and "map_of (hs_allocations st) q = Some xs"
    and "sorted_wrt (<) xs" and "j \<in> set xs" and "earliest_index c st \<le> i"
  shows "j < i"
proof -
  have le: "x \<le> foldr max ys (0::nat)" if "x \<in> set ys" for x ys
    using that by (induction ys) auto
  let ?f = "\<lambda>q. Suc (last (the (map_of (hs_allocations st) q)))"
  have "?f q \<in> set (map ?f (cd_prerequisite_action_ids c))" unfolding set_map using assms(1) by (rule imageI)
  from le [OF this] have "Suc (last xs) \<le> earliest_index c st"
    by (simp add: earliest_index_def assms(2))
  with sorted_wrt_le_last [OF assms(3,4)] assms(5) show ?thesis by simp
qed

lemma card_week_add:
  fixes xs :: "nat list"
  assumes "finite U" and "sorted_wrt (<) xs" and "set xs \<inter> U = {}"
  shows "card {i \<in> U \<union> set xs. Q i} = card {i \<in> U. Q i} + length (filter Q xs)"
proof -
  have "distinct xs" using assms(2) by (simp add: strict_sorted_iff)
  then have "length (filter Q xs) = card {i \<in> set xs. Q i}"
    using distinct_card [of "filter Q xs"] by simp
  moreover have "{i \<in> U \<union> set xs. Q i} = {i \<in> U. Q i} \<union> {i \<in> set xs. Q i}" by auto
  moreover have "card ({i \<in> U. Q i} \<union> {i \<in> set xs. Q i}) = card {i \<in> U. Q i} + card {i \<in> set xs. Q i}"
    using assms by (intro card_Un_disjoint) auto
  ultimately show ?thesis by simp
qed

lemma place_inv:
  assumes ok: "problem_ok p" and val: "validate_candidates cs = None" and inv: "hint_inv p cs st"
    and c: "c \<in> set cs" and new: "cd_action_id c \<notin> chosen (hint_route st)" and ready: "is_ready st c"
  shows "hint_inv p cs (place p c st)"
    and "chosen (hint_route (place p c st)) \<subseteq> insert (cd_action_id c) (chosen (hint_route st))"
proof -
  obtain ch cw where choose: "choose_slots p c (hs_used st) (hs_weekly st)
      [earliest_index c st..<length (calendar p)] [] (\<lambda>_. 0) = (ch, cw)" by fastforce
  have st: "place p c st = st \<or> (\<not> over_budget p c (hs_spent st) \<and> int (length ch) = cd_estimated_hours c
      \<and> place p c st = st\<lparr>hs_allocations := (cd_action_id c, ch) # hs_allocations st,
          hs_used := hs_used st \<union> set ch, hs_weekly := (\<lambda>w. hs_weekly st w + cw w),
          hs_spent := hs_spent st + known_cost c\<rparr>)"
    by (auto simp: place_def choose)
  then show "chosen (hint_route (place p c st)) \<subseteq> insert (cd_action_id c) (chosen (hint_route st))"
    by (auto simp: hint_route_cons)
  note I = inv [unfolded hint_inv_def]
  let ?r = "hint_route st"
  have eff: "effort_ok p cs ?r" using I by (simp add: valid_route_def)
  have fin: "finite (occupied ?r cs)" using occupied_sub [OF eff] by (rule finite_subset) simp
  from choose_slots_ext [OF choose] have ext: "set ch \<subseteq> {earliest_index c st..<length (calendar p)}"
    "sorted_wrt (<) ch" "set ch \<inter> hs_used st = {}" "\<forall>i \<in> set ch. slot_available p c i"
    "\<forall>w. cw w = int (length (filter (\<lambda>i. week_of p i = w) ch))"
    "(\<forall>w. hs_weekly st w \<le> hours_per_week p) \<longrightarrow> (\<forall>w. hs_weekly st w + cw w \<le> hours_per_week p)"
    by auto
  have week: "hs_weekly st w + cw w = int (card {i \<in> occupied ?r cs \<union> set ch. week_of p i = w})" for w
    using card_week_add [OF fin ext(2)] I ext(3,5) by simp
  have room: "\<forall>w. hs_weekly st w \<le> hours_per_week p"
    using I by (simp add: valid_route_def weekly_ok_def)
  have pre: "q \<in> chosen ?r \<and> (\<forall>i \<in> set ch. \<forall>j \<in> slots_of ?r q. end_of p j \<le> start_of p i)"
    if q: "q \<in> set (cd_prerequisite_action_ids c)" for q
  proof -
    from ready q obtain xs where xs: "map_of (hs_allocations st) q = Some xs"
      by (auto simp: is_ready_def list_all_iff)
    have "end_of p j \<le> start_of p i" if "i \<in> set ch" "j \<in> set xs" for i j
    proof (rule slot_before [OF ok])
      show "j < i" using that ext(1) earliest_index_after [OF q xs _ that(2)] I xs by auto
      show "i < length (calendar p)" using that ext(1) by auto
    qed
    with xs show ?thesis by (auto simp: hint_route_def)
  qed
  show "hint_inv p cs (place p c st)"
  proof (cases "place p c st = st")
    case False
    with st have new_st: "\<not> over_budget p c (hs_spent st)" "int (length ch) = cd_estimated_hours c"
      "place p c st = st\<lparr>hs_allocations := (cd_action_id c, ch) # hs_allocations st,
          hs_used := hs_used st \<union> set ch, hs_weekly := (\<lambda>w. hs_weekly st w + cw w),
          hs_spent := hs_spent st + known_cost c\<rparr>" by auto
    have "distinct ch" using ext(2) by (simp add: strict_sorted_iff)
    then have "int (card (set ch)) = cd_estimated_hours c" using new_st(2) by (simp add: distinct_card)
    then have "valid_route p cs (extend ?r (cd_action_id c) (set ch))"
      using I ext new_st(1) pre room week
      by (intro extend_valid [OF val _ c new]) auto
    then show ?thesis
      unfolding new_st(3) hint_inv_def hint_route_cons
      using I week ext(2) occupied_extend [OF val eff c new] spend_extend [OF val c new] by auto
  qed (use inv in simp)
qed

lemma disjoint_insert_image:
  assumes "C \<subseteq> insert a B" and "a \<notin> f ` (P - {c})" and "f ` P \<inter> B = {}"
  shows "f ` (P - {c}) \<inter> C = {}"
  using assms by auto

lemma hint_loop_inv:
  assumes "problem_ok p" and "validate_candidates cs = None" and "hint_inv p cs st"
    and "set pending \<subseteq> set cs" and "distinct (map cd_action_id pending)"
    and "cd_action_id ` set pending \<inter> chosen (hint_route st) = {}"
  shows "hint_inv p cs (hint_loop p pending st)"
  using assms
proof (induction p pending st rule: hint_loop.induct)
  case (1 p pending st)
  show ?case
  proof (cases "find (is_ready st) pending")
    case None
    then show ?thesis using 1 by (simp add: hint_loop.simps)
  next
    case (Some c)
    then have c: "c \<in> set pending" "is_ready st c" by (auto simp: find_SomeD)
    have new: "c \<in> set cs" "cd_action_id c \<notin> chosen (hint_route st)"
      using c(1) "1.prems"(4,6) by auto
    note placed = place_inv [OF "1.prems"(1-3) new c(2)]
    have inj: "distinct pending" "inj_on cd_action_id (set pending)"
      using "1.prems"(5) by (auto simp: distinct_map)
    then have rest: "set (remove1 c pending) = set pending - {c}" by simp
    have "cd_action_id c \<notin> cd_action_id ` (set pending - {c})"
      using inj(2) c(1) by (auto simp: inj_on_def)
    from disjoint_insert_image [OF placed(2) this "1.prems"(6)]
    have "cd_action_id ` set (remove1 c pending) \<inter> chosen (hint_route (place p c st)) = {}"
      unfolding rest .
    moreover have "distinct (map cd_action_id (remove1 c pending))"
      using inj by (auto simp: distinct_map inj_on_def)
    ultimately have "hint_inv p cs (hint_loop p (remove1 c pending) (place p c st))"
      using placed(1) "1.prems"(4) rest by (intro "1.IH" [OF Some "1.prems"(1,2)]) auto
    then show ?thesis by (subst hint_loop.simps) (simp add: Some)
  qed
qed

lemma schedule_hint_inv:
  assumes "problem_ok p" and "validate_candidates cs = None"
  shows "hint_inv p cs (schedule_hint p cs)"
  unfolding schedule_hint_def
proof (rule hint_loop_inv [OF assms initial_hint_inv [OF assms(1)]])
  let ?k = "\<lambda>c. (cd_action_id c \<notin> foundational_priority_action_ids p, cd_action_id c)"
  have "mset (map cd_action_id (sort_key ?k cs)) = mset (map cd_action_id cs)" by simp
  then show "distinct (map cd_action_id (sort_key ?k cs))"
    using validate_None(1) [OF assms(2)] by (metis mset_eq_imp_distinct_iff)
qed (simp_all add: hint_route_def initial_hint_def)

text \<open>
  C8: The greedy schedule behind the search hint always ends in a valid route: it never overlaps
  activities, never exceeds the hours of a week or the budget, keeps every prerequisite before its
  dependent and gives every placed activity exactly its effort.
\<close>

theorem schedule_hint_valid:
  assumes "problem_ok p" and "validate_candidates cs = None"
  shows "valid_route p cs (hint_route (schedule_hint p cs))"
  using schedule_hint_inv [OF assms] by (simp add: hint_inv_def)


theorem schedule_hint_valid_witness:
  "valid_route sample_problem sample_candidates (hint_route (schedule_hint sample_problem sample_candidates))"
  by (rule schedule_hint_valid [OF sample_problem_ok sample_validated])

end
