(* ===== verification/Route_Planner.thy ===== *)
theory Route_Planner
  imports Route_Hint
begin

section \<open>Planning a route\<close>

text \<open>
  \<open>src/jobtology_be/planning/cp_sat_results.py\<close> and \<open>cp_sat_planner.py\<close>: decoding a solver
  response into scheduled steps, the preflight checks, the effort lower bound, the two searches
  and the choice of the result. OR-Tools is not part of the repository: the solver is a parameter
  \<open>solve\<close>, from a model, a time limit, a worker count and a seed to a response. The readings of
  \<open>time.monotonic()\<close> are the three fields of a clock record. Seconds are rationals.
\<close>

subsection \<open>The solver and its clock\<close>

datatype cp_status = CP_UNKNOWN | CP_MODEL_INVALID | CP_FEASIBLE | CP_INFEASIBLE | CP_OPTIMAL

fun status_name :: "cp_status \<Rightarrow> string" where
  "status_name CP_UNKNOWN = ''UNKNOWN''"
| "status_name CP_MODEL_INVALID = ''MODEL_INVALID''"
| "status_name CP_FEASIBLE = ''FEASIBLE''"
| "status_name CP_INFEASIBLE = ''INFEASIBLE''"
| "status_name CP_OPTIMAL = ''OPTIMAL''"

text \<open>\<open>rp_statistics\<close> is \<open>None\<close> where reading the wall time or the bound raises \<open>RuntimeError\<close>.\<close>

record solver_reply =
  rp_status :: cp_status
  rp_value :: assignment
  rp_objective_value :: rat
  rp_statistics :: "(rat \<times> rat) option"

type_synonym cp_solver = "cp_model \<Rightarrow> rat \<Rightarrow> int \<Rightarrow> int \<Rightarrow> solver_reply"

record planner_clock =
  clk_start :: rat
  clk_full :: rat
  clk_partial :: rat

datatype plan_error =
    InvalidPlanningProblemError reason
  | UnexpectedCpSatStatusError cp_status
  | KeyError string
  | IndexError string

subsection \<open>Decoding a response\<close>

definition step_key :: "Candidate \<Rightarrow> string" where
  "step_key c = cd_action_id c @ ''@'' @ show_int (cd_template_revision c)"

definition has_unknown_cost :: "Candidate \<Rightarrow> bool" where
  "has_unknown_cost c = (case cd_cost c of KnownKrwCost _ \<Rightarrow> False | UnknownKrwCost \<Rightarrow> True)"

definition selection_reasons ::
  "PlanningProblem \<Rightarrow> Candidate \<Rightarrow> Candidate list \<Rightarrow> StepSelectionReason list" where
  "selection_reasons p c selected = sort (
     (if cd_outcome_requirement_keys c \<inter> required_requirement_keys p \<noteq> {}
      then [SATISFIES_REQUIRED_REQUIREMENT] else [])
     @ (if cd_outcome_requirement_keys c \<inter> preferred_requirement_keys p \<noteq> {}
        then [SATISFIES_PREFERRED_REQUIREMENT] else [])
     @ (if list_ex (\<lambda>s. cd_action_id c \<in> set (cd_prerequisite_action_ids s)) selected
        then [PREREQUISITE] else [])
     @ (if cd_action_id c \<in> portfolio_action_ids p then [PORTFOLIO_PREFERENCE] else [])
     @ (if cd_action_id c \<in> foundational_priority_action_ids p then [FOUNDATIONAL_PREFERENCE] else []))"

definition slot_allocation :: "PlanningProblem \<Rightarrow> nat \<Rightarrow> SlotAllocation" where
  "slot_allocation p i =
     \<lparr>sa_slot_index = i, sa_capacity_week_key = capacity_week_key (calendar p ! i),
      sa_starts_at = starts_at (calendar p ! i), sa_ends_at = ends_at (calendar p ! i)\<rparr>"

definition allocations_of :: "PlanningProblem \<Rightarrow> assignment \<Rightarrow> Candidate \<Rightarrow> SlotAllocation list" where
  "allocations_of p vals c =
     map (slot_allocation p) (filter (\<lambda>i. vals (Assigned (cd_action_id c) i) = 1) (slot_indexes p))"

definition prerequisite_keys :: "Candidate list \<Rightarrow> Candidate \<Rightarrow> plan_error + string list" where
  "prerequisite_keys candidates c =
     collect (\<lambda>a. case map_of (rev (map (\<lambda>d. (cd_action_id d, d)) candidates)) a of
                    None \<Rightarrow> Inl (KeyError a) | Some d \<Rightarrow> Inr (step_key d))
       (cd_prerequisite_action_ids c)"

definition scheduled_step ::
  "PlanningProblem \<Rightarrow> Candidate list \<Rightarrow> Candidate list \<Rightarrow> assignment \<Rightarrow> Candidate
    \<Rightarrow> plan_error + ScheduledRouteStep" where
  "scheduled_step p candidates selected vals c =
     (let allocations = allocations_of p vals c in
      and_then (prerequisite_keys candidates c) (\<lambda>keys.
      if allocations = [] then Inl (IndexError (cd_action_id c))
      else Inr
        \<lparr>st_step_key = step_key c,
         st_action_id = cd_action_id c,
         st_template_revision = cd_template_revision c,
         st_title = cd_title c,
         st_estimated_hours = cd_estimated_hours c,
         st_prerequisite_step_keys = keys,
         st_outcome_requirement_keys = sorted_list_of_set (cd_outcome_requirement_keys c),
         st_completion_criteria = cd_completion_criteria c,
         st_support_refs = sorted_list_of_set (cd_support_refs c),
         st_reason_codes = selection_reasons p c selected,
         st_planned_start_at = sa_starts_at (hd allocations),
         st_planned_end_at = sa_ends_at (last allocations),
         st_slot_allocations = allocations\<rparr>))"

text \<open>The slots are in UTC, where Python orders timestamps by their instants.\<close>

definition scheduled_steps ::
  "PlanningProblem \<Rightarrow> Candidate list \<Rightarrow> assignment \<Rightarrow> plan_error + ScheduledRouteStep list" where
  "scheduled_steps p candidates vals =
     (let selected = filter (\<lambda>c. vals (Selected (cd_action_id c)) = 1) candidates in
      and_then (collect (scheduled_step p candidates selected vals) selected)
        (\<lambda>steps. Inr (sort_key (\<lambda>s. (instant (st_planned_start_at s), st_action_id s)) steps)))"

fun latest :: "datetime \<Rightarrow> datetime list \<Rightarrow> datetime" where
  "latest d [] = d"
| "latest d (x # xs) = latest (if dt_less d x then x else d) xs"

definition completion_at :: "PlanningProblem \<Rightarrow> ScheduledRouteStep list \<Rightarrow> datetime" where
  "completion_at p steps = (case map st_planned_end_at steps of
     [] \<Rightarrow> planning_started_at p | d # ds \<Rightarrow> latest d ds)"

definition route_feasibility :: "PlanningProblem \<Rightarrow> ScheduledRouteStep list \<Rightarrow> RouteFeasibility" where
  "route_feasibility p steps =
     (let selected_actions = st_action_id ` set steps;
          unknown = list_ex has_unknown_cost
            (filter (\<lambda>c. cd_action_id c \<in> selected_actions) (pp_candidates p));
          hrz = dt_diff (target_by (pp_constraints p)) (planning_started_at p);
          elapsed = dt_diff (completion_at p steps) (planning_started_at p) in
      if \<not> unknown \<and> elapsed * 5 \<le> hrz * 4 then FEASIBLE else RISKY)"

definition planning_result ::
  "int \<Rightarrow> PlanningProblem \<Rightarrow> Candidate list \<Rightarrow> RouteFeasibility option \<Rightarrow> OptimizationStatus
    \<Rightarrow> ScheduledRouteStep list \<Rightarrow> RouteRejection list \<Rightarrow> PartialRouteDiagnostic option
    \<Rightarrow> SolverRunTelemetry list \<Rightarrow> PlanningResult" where
  "planning_result worker_count p candidates feasibility status steps rejections diagnostic runs =
     \<lparr>pr_feasibility = feasibility,
      pr_optimization_status = status,
      pr_scheduled_steps = steps,
      pr_trace =
        \<lparr>tr_analysis_id = pp_analysis_id p,
         tr_profile_version = pp_profile_version p,
         tr_basis_version = pp_basis_version p,
         tr_corpus_release_id = pp_corpus_release_id p,
         tr_is_fixture = pp_is_fixture p,
         tr_reference_at = pp_reference_at p,
         tr_planning_started_at = planning_started_at p,
         tr_constraints = from_constraints (pp_constraints p),
         tr_objective = objective_snapshot p,
         tr_input_candidate_action_ids = map cd_action_id (pp_candidates p),
         tr_solver_candidate_action_ids = map cd_action_id candidates,
         tr_candidate_versions = map (\<lambda>c. \<lparr>cv_action_id = cd_action_id c,
            cv_template_revision = cd_template_revision c\<rparr>) candidates,
         tr_solver_seed = SOLVER_RANDOM_SEED,
         tr_solver_worker_count = worker_count,
         tr_time_limit_seconds = time_limit_seconds p,
         tr_optimization_status = status,
         tr_rejections = rejections,
         tr_partial_route_diagnostic = diagnostic,
         tr_solver_runs = runs,
         tr_planning_policy_version = pp_planning_policy_version p,
         tr_planning_policy_decisions = pp_planning_policy_decisions p,
         tr_foundational_priority_action_ids =
           sorted_list_of_set (foundational_priority_action_ids p)\<rparr>\<rparr>"

subsection \<open>Preflight and the effort lower bound\<close>

fun blocker_rejection :: "CandidateBlocker \<Rightarrow> RouteRejection" where
  "blocker_rejection (InsufficientAnalysisBlocker _) =
     \<lparr>rj_code = INPUT_BLOCKER, rj_action_id = None, rj_requirement_key = None\<rparr>"
| "blocker_rejection (NeedsInputBlocker k _ _) =
     \<lparr>rj_code = INPUT_BLOCKER, rj_action_id = None, rj_requirement_key = Some k\<rparr>"
| "blocker_rejection (NoActivitiesBlocker k _ _) =
     \<lparr>rj_code = INPUT_BLOCKER, rj_action_id = None, rj_requirement_key = Some k\<rparr>"

fun blocks_route :: "PlanningProblem \<Rightarrow> CandidateBlocker \<Rightarrow> bool" where
  "blocks_route p (InsufficientAnalysisBlocker _) = True"
| "blocks_route p (NeedsInputBlocker k _ _) = (k \<in> required_requirement_keys p)"
| "blocks_route p (NoActivitiesBlocker k _ _) = (k \<in> required_requirement_keys p)"

definition candidate_outcomes :: "Candidate list \<Rightarrow> string set" where
  "candidate_outcomes candidates = \<Union> (cd_outcome_requirement_keys ` set candidates)"

definition preflight :: "PlanningProblem \<Rightarrow> Candidate list \<Rightarrow> RouteRejection list \<times> bool" where
  "preflight p candidates =
     (let missing = sorted_list_of_set (required_requirement_keys p - candidate_outcomes candidates) in
      (map blocker_rejection (pp_candidate_blockers p)
       @ (if budget_cap p \<noteq> None
          then map (\<lambda>c. \<lparr>rj_code = UNKNOWN_COST_WITH_HARD_CAP, rj_action_id = Some (cd_action_id c),
                        rj_requirement_key = None\<rparr>) (filter has_unknown_cost candidates)
          else [])
       @ map (\<lambda>k. \<lparr>rj_code = NO_CANDIDATE_FOR_REQUIRED_REQUIREMENT, rj_action_id = None,
                   rj_requirement_key = Some k\<rparr>) missing,
       list_ex (blocks_route p) (pp_candidate_blockers p) \<or> missing \<noteq> []))"

definition route_capacity :: "PlanningProblem \<Rightarrow> int" where
  "route_capacity p = capped_capacity (hours_per_week p) (map capacity_week_key (calendar p))"

definition effort_share :: "PlanningProblem \<Rightarrow> Candidate \<Rightarrow> rat" where
  "effort_share p c = of_int (cd_estimated_hours c)
     / of_nat (card (cd_outcome_requirement_keys c \<inter> required_requirement_keys p))"

definition cheapest_share :: "PlanningProblem \<Rightarrow> Candidate list \<Rightarrow> string \<Rightarrow> rat" where
  "cheapest_share p candidates k =
     (let shares = map (effort_share p) (filter (\<lambda>c. k \<in> cd_outcome_requirement_keys c) candidates) in
      if shares = [] then of_int (route_capacity p + 1) else min_list shares)"

definition full_capacity_possible :: "PlanningProblem \<Rightarrow> Candidate list \<Rightarrow> bool" where
  "full_capacity_possible p candidates \<longleftrightarrow>
     sum_list (map (cheapest_share p candidates) (sorted_list_of_set (required_requirement_keys p)))
       \<le> of_int (route_capacity p)"

subsection \<open>The two searches\<close>

definition telemetry :: "solver_reply \<Rightarrow> rat \<Rightarrow> Phase \<Rightarrow> SolverRunTelemetry" where
  "telemetry reply limit phase =
     (let (wall_time, bound) = (case rp_statistics reply of
            None \<Rightarrow> (0, None) | Some (w, b) \<Rightarrow> (w, Some b)) in
      \<lparr>tel_phase = phase,
       tel_status = status_name (rp_status reply),
       tel_time_limit_seconds = limit,
       tel_wall_time_seconds = wall_time,
       tel_objective_value = (if rp_status reply \<in> {CP_OPTIMAL, CP_FEASIBLE}
         then Some (rp_objective_value reply) else None),
       tel_best_objective_bound = bound,
       tel_skipped_reason = None\<rparr>)"

definition skipped_run :: "string \<Rightarrow> SolverRunTelemetry" where
  "skipped_run why =
     \<lparr>tel_phase = FULL_PHASE, tel_status = ''INFEASIBLE'', tel_time_limit_seconds = 0,
      tel_wall_time_seconds = 0, tel_objective_value = None, tel_best_objective_bound = None,
      tel_skipped_reason = Some why\<rparr>"

definition runs_of :: "SolverRunTelemetry \<Rightarrow> PartialRouteDiagnostic \<Rightarrow> SolverRunTelemetry list" where
  "runs_of full partial =
     (case pd_solver_run partial of None \<Rightarrow> [full] | Some run \<Rightarrow> [full, run])"

definition lift_model :: "reason + RouteModelArtifacts \<Rightarrow> plan_error + RouteModelArtifacts" where
  "lift_model m = (case m of Inl r \<Rightarrow> Inl (InvalidPlanningProblemError r) | Inr a \<Rightarrow> Inr a)"

definition partial_diagnostic ::
  "cp_solver \<Rightarrow> PlanningProblem \<Rightarrow> Candidate list \<Rightarrow> int \<Rightarrow> rat
    \<Rightarrow> plan_error + PartialRouteDiagnostic" where
  "partial_diagnostic solve p candidates worker_count remaining =
     and_then (lift_model (build_route_model p candidates False)) (\<lambda>artifacts.
       let reply = solve (ra_model artifacts) remaining worker_count SOLVER_RANDOM_SEED;
           run = telemetry reply remaining PARTIAL_PHASE;
           required = sorted_list_of_set (required_requirement_keys p) in
       case rp_status reply of
         CP_MODEL_INVALID \<Rightarrow> Inl (UnexpectedCpSatStatusError CP_MODEL_INVALID)
       | CP_INFEASIBLE \<Rightarrow> Inr \<lparr>pd_unmet_required_requirement_keys = required,
           pd_scheduled_steps = [], pd_solver_run = Some run\<rparr>
       | CP_UNKNOWN \<Rightarrow> Inr \<lparr>pd_unmet_required_requirement_keys = required,
           pd_scheduled_steps = [], pd_solver_run = Some run\<rparr>
       | _ \<Rightarrow> and_then (scheduled_steps p (ra_candidates artifacts) (rp_value reply)) (\<lambda>steps.
           Inr \<lparr>pd_unmet_required_requirement_keys =
                  filter (\<lambda>k. rp_value reply (Covered k) = 0) required,
                pd_scheduled_steps = steps, pd_solver_run = Some run\<rparr>))"

text \<open>The outcome of the search for a full route: its status, its steps when solved, its telemetry.\<close>

definition full_search ::
  "cp_solver \<Rightarrow> planner_clock \<Rightarrow> int \<Rightarrow> PlanningProblem \<Rightarrow> Candidate list
    \<Rightarrow> plan_error + (cp_status \<times> assignment \<times> SolverRunTelemetry)" where
  "full_search solve clock worker_count p candidates =
     (if full_capacity_possible p candidates
      then and_then (lift_model (build_route_model p candidates True)) (\<lambda>artifacts.
        let deadline = clk_start clock + time_limit_seconds p;
            limit = min (time_limit_seconds p * (3 / 4)) (max 0 (deadline - clk_full clock));
            reply = solve (ra_model artifacts) limit worker_count SOLVER_RANDOM_SEED in
        Inr (rp_status reply, rp_value reply, telemetry reply limit FULL_PHASE))
      else Inr (CP_INFEASIBLE, (\<lambda>_. 0), skipped_run ''REQUIRED_EFFORT_EXCEEDS_CALENDAR_CAPACITY''))"

definition plan ::
  "cp_solver \<Rightarrow> planner_clock \<Rightarrow> int \<Rightarrow> PlanningProblem \<Rightarrow> plan_error + PlanningResult" where
  "plan solve clock worker_count p =
     (let candidates = sort_key cd_action_id (pp_candidates p);
          (rejections, is_preflight_infeasible) = preflight p candidates;
          result = planning_result worker_count p candidates;
          remaining = max 0 (clk_start clock + time_limit_seconds p - clk_partial clock) in
      if is_preflight_infeasible
      then Inr (result (Some INFEASIBLE) INFEASIBLE_STATUS [] rejections None
             [skipped_run ''INPUT_REJECTION''])
      else and_then (full_search solve clock worker_count p candidates) (\<lambda>(status, vals, full_run).
        case status of
          CP_OPTIMAL \<Rightarrow> and_then (scheduled_steps p candidates vals) (\<lambda>steps.
            Inr (result (Some (route_feasibility p steps)) OPTIMAL_STATUS steps rejections None [full_run]))
        | CP_FEASIBLE \<Rightarrow> and_then (scheduled_steps p candidates vals) (\<lambda>steps.
            Inr (result (Some (route_feasibility p steps)) FEASIBLE_STATUS steps rejections None [full_run]))
        | CP_INFEASIBLE \<Rightarrow>
            and_then (partial_diagnostic solve p candidates worker_count remaining) (\<lambda>diagnostic.
            if pd_scheduled_steps diagnostic \<noteq> []
            then Inr (result (Some PARTIAL_ROUTE) INFEASIBLE_STATUS (pd_scheduled_steps diagnostic)
                   rejections (Some diagnostic) (runs_of full_run diagnostic))
            else Inr (result (Some INFEASIBLE) INFEASIBLE_STATUS [] rejections (Some diagnostic)
                   (runs_of full_run diagnostic)))
        | CP_UNKNOWN \<Rightarrow>
            and_then (partial_diagnostic solve p candidates worker_count remaining) (\<lambda>diagnostic.
            if pd_scheduled_steps diagnostic = []
            then Inr (result None TIMEOUT_STATUS [] rejections None (runs_of full_run diagnostic))
            else if pd_unmet_required_requirement_keys diagnostic \<noteq> []
            then Inr (result (Some PARTIAL_ROUTE) TIMEOUT_STATUS (pd_scheduled_steps diagnostic)
                   rejections (Some diagnostic) (runs_of full_run diagnostic))
            else Inr (result (Some (route_feasibility p (pd_scheduled_steps diagnostic))) FEASIBLE_STATUS
                   (pd_scheduled_steps diagnostic) rejections None (runs_of full_run diagnostic)))
        | CP_MODEL_INVALID \<Rightarrow> Inl (UnexpectedCpSatStatusError CP_MODEL_INVALID)))"

definition planner_post_init :: "int \<Rightarrow> plan_error option" where
  "planner_post_init worker_count =
     (if worker_count < 1 then Some (InvalidPlanningProblemError ''solver worker count must be positive'')
      else None)"

end
