(* ===== verification/Planner_Correctness.thy ===== *)
theory Planner_Correctness
  imports Route_Planner
begin

section \<open>The planner returns what it promises\<close>

text \<open>
  The effort lower bound never rules out a covering route; decoded steps are a schedule that
  realises the route of the assignment; and, for a solver that honours its status codes, the
  result of \<open>plan\<close> means what its feasibility says.
\<close>

subsection \<open>The effort lower bound\<close>

lemma route_capacity_eq:
  "route_capacity p = capped_capacity (hours_per_week p)
     (map (week_of p) (filter (\<lambda>_. True) (slot_indexes p)))"
proof -
  have "map (week_of p) (slot_indexes p) = map capacity_week_key (calendar p)"
    by (rule nth_equalityI) simp_all
  then show ?thesis by (simp add: route_capacity_def)
qed

lemma occupied_within_capacity:
  assumes "problem_ok p" and "valid_route p cs r"
  shows "int (card (occupied r cs)) \<le> route_capacity p"
  unfolding route_capacity_eq
proof (rule capped_capacity_bound)
  show "occupied r cs \<subseteq> {i. i < length (calendar p) \<and> True}"
    using assms(2) occupied_sub [of p cs r] by (auto simp: valid_route_def)
qed (use assms(2) problem_okD(6) [OF assms(1)] in \<open>auto simp: valid_route_def weekly_ok_def\<close>)

lemma cheapest_share_le:
  assumes "c \<in> set cs" and "k \<in> cd_outcome_requirement_keys c"
  shows "cheapest_share p cs k \<le> effort_share p c"
proof -
  let ?shares = "map (effort_share p) (filter (\<lambda>c. k \<in> cd_outcome_requirement_keys c) cs)"
  have mem: "effort_share p c \<in> set ?shares" using assms by auto
  then have "?shares \<noteq> []" by (metis empty_iff list.set(1))
  moreover from this have "min_list ?shares = Min (set ?shares)" by (rule min_list_Min)
  moreover have "Min (set ?shares) \<le> effort_share p c" using mem by (intro Min_le) auto
  ultimately show ?thesis by (simp only: cheapest_share_def Let_def if_False)
qed

text \<open>The shares of an activity over the required requirements it covers add up to its effort.\<close>

lemma shares_sum:
  assumes "finite (required_requirement_keys p)" and "0 \<le> cd_estimated_hours c"
  shows "(\<Sum>k \<in> required_requirement_keys p \<inter> cd_outcome_requirement_keys c. effort_share p c)
    \<le> of_int (cd_estimated_hours c)"
  using assms by (auto simp: effort_share_def Int_commute)

lemma covering_share_bound:
  assumes "problem_ok p" and "validate_candidates cs = None" and "covers_required p cs r"
  shows "(\<Sum>k \<in> required_requirement_keys p. cheapest_share p cs k) \<le> of_int (total_hours cs r)"
proof -
  let ?R = "required_requirement_keys p"
  let ?C = "{c \<in> set cs. cd_action_id c \<in> chosen r}"
  have fin: "finite ?R" using assms(1) by (simp add: problem_ok_def)
  note hours = validate_None(2) [OF assms(2)]
  have nonneg: "0 \<le> effort_share p c" if "c \<in> set cs" for c
    using hours [OF that] by (simp add: effort_share_def)
  have "cheapest_share p cs k \<le> (\<Sum>c \<in> ?C. if k \<in> cd_outcome_requirement_keys c then effort_share p c else 0)"
    if k: "k \<in> ?R" for k
  proof -
    from assms(3) k obtain c where c: "c \<in> ?C" "k \<in> cd_outcome_requirement_keys c"
      by (auto simp: covers_required_def covered_def)
    have "cheapest_share p cs k \<le> effort_share p c" using c by (intro cheapest_share_le) auto
    also have "\<dots> \<le> (\<Sum>c \<in> ?C. if k \<in> cd_outcome_requirement_keys c then effort_share p c else 0)"
      using c nonneg
      member_le_sum [of c ?C "\<lambda>c. if k \<in> cd_outcome_requirement_keys c then effort_share p c else 0"]
      by auto
    finally show ?thesis .
  qed
  then have "(\<Sum>k \<in> ?R. cheapest_share p cs k)
      \<le> (\<Sum>k \<in> ?R. \<Sum>c \<in> ?C. if k \<in> cd_outcome_requirement_keys c then effort_share p c else 0)"
    by (rule sum_mono)
  also have "\<dots> = (\<Sum>c \<in> ?C. \<Sum>k \<in> ?R. if k \<in> cd_outcome_requirement_keys c then effort_share p c else 0)"
    by (rule sum.swap)
  also have "\<dots> = (\<Sum>c \<in> ?C. \<Sum>k \<in> ?R \<inter> cd_outcome_requirement_keys c. effort_share p c)"
    by (simp only: sum.inter_restrict [OF fin])
  also have "\<dots> \<le> (\<Sum>c \<in> ?C. of_int (cd_estimated_hours c))"
    using shares_sum [OF fin] hours by (intro sum_mono) (auto intro: less_imp_le)
  also have "\<dots> = of_int (total_hours cs r)"
    unfolding total_hours_def sum_list_candidates [OF assms(2)]
    by (simp add: sum.If_cases Int_def)
  finally show ?thesis .
qed

lemma capacity_possible:
  assumes "problem_ok p" and "validate_candidates cs = None" and "valid_route p cs r"
    and "covers_required p cs r"
  shows "full_capacity_possible p cs"
proof -
  have fin: "finite (required_requirement_keys p)" using assms(1) by (simp add: problem_ok_def)
  have "total_hours cs r \<le> route_capacity p"
    using occupied_within_capacity [OF assms(1,3)] total_hours_card [OF assms(2), of p r] assms(3)
    by (simp add: valid_route_def)
  then have "(of_int (total_hours cs r) :: rat) \<le> of_int (route_capacity p)" by simp
  with covering_share_bound [OF assms(1,2,4)] show ?thesis
    unfolding full_capacity_possible_def
    by (subst sum_list_distinct_conv_sum_set) (use fin in auto)
qed

text \<open>
  C9: Skipping the full search is safe: when the effort lower bound of \<open>_full_capacity_possible\<close>
  exceeds the capacity of the calendar, no valid route covers every required requirement, even
  though one activity may cover several of them.
\<close>

theorem capacity_check_sound:
  assumes "problem_ok p" and "validate_candidates cs = None" and "\<not> full_capacity_possible p cs"
  shows "\<not> (\<exists>r. valid_route p cs r \<and> covers_required p cs r)"
  using capacity_possible [OF assms(1,2)] assms(3) by blast


subsection \<open>Decoded steps realise the route\<close>

definition route_of_steps :: "ScheduledRouteStep list \<Rightarrow> route" where
  "route_of_steps steps =
     \<lparr>chosen = st_action_id ` set steps,
      slots_of = (\<lambda>a. \<Union>s \<in> {s \<in> set steps. st_action_id s = a}. sa_slot_index ` set (st_slot_allocations s))\<rparr>"

definition step_ok :: "PlanningProblem \<Rightarrow> Candidate \<Rightarrow> ScheduledRouteStep \<Rightarrow> bool" where
  "step_ok p c s \<longleftrightarrow> st_action_id s = cd_action_id c \<and> st_step_key s = step_key c
     \<and> st_estimated_hours s = cd_estimated_hours c
     \<and> int (length (st_slot_allocations s)) = cd_estimated_hours c
     \<and> st_slot_allocations s \<noteq> []
     \<and> sorted_wrt (<) (map sa_slot_index (st_slot_allocations s))
     \<and> list_all (\<lambda>a. sa_slot_index a < length (calendar p) \<and> a = slot_allocation p (sa_slot_index a))
         (st_slot_allocations s)
     \<and> st_planned_start_at s = sa_starts_at (hd (st_slot_allocations s))
     \<and> st_planned_end_at s = sa_ends_at (last (st_slot_allocations s))"

definition schedule_ok :: "PlanningProblem \<Rightarrow> Candidate list \<Rightarrow> ScheduledRouteStep list \<Rightarrow> bool" where
  "schedule_ok p cs steps \<longleftrightarrow> valid_route p cs (route_of_steps steps)
     \<and> distinct (map st_action_id steps)
     \<and> sorted (map (\<lambda>s. instant (st_planned_start_at s)) steps)
     \<and> (\<forall>s \<in> set steps. \<exists>c \<in> set cs. step_ok p c s)"

lemma valid_route_cong:
  assumes "chosen r = chosen r'" and "\<And>c. c \<in> set cs \<Longrightarrow> slots_of r (cd_action_id c) = slots_of r' (cd_action_id c)"
    and "validate_candidates cs = None"
  shows "valid_route p cs r \<longleftrightarrow> valid_route p cs r'" and "covered cs r = covered cs r'"
    and "covers_required p cs r \<longleftrightarrow> covers_required p cs r'"
proof -
  have occ: "occupied r cs = occupied r' cs" using assms(2) by (auto simp: occupied_def)
  have pre: "slots_of r q = slots_of r' q" if "c \<in> set cs" "q \<in> set (cd_prerequisite_action_ids c)" for c q
    using validate_None(3) [OF assms(3) that(1)] that(2) assms(2) by auto
  have "effort_ok p cs r \<longleftrightarrow> effort_ok p cs r'" "available_ok p cs r \<longleftrightarrow> available_ok p cs r'"
    "exclusive_ok cs r \<longleftrightarrow> exclusive_ok cs r'" "weekly_ok p cs r \<longleftrightarrow> weekly_ok p cs r'"
    "budget_ok p cs r \<longleftrightarrow> budget_ok p cs r'"
    using assms(1,2) occ
    by (simp_all add: effort_ok_def available_ok_def exclusive_ok_def weekly_ok_def budget_ok_def
        spend_def cong: option.case_cong)
  moreover have "prerequisites_ok p cs r \<longleftrightarrow> prerequisites_ok p cs r'"
    using assms(1,2) pre by (simp add: prerequisites_ok_def)
  ultimately show "valid_route p cs r \<longleftrightarrow> valid_route p cs r'" by (simp add: valid_route_def)
  show "covered cs r = covered cs r'" using assms(1) by (simp add: covered_def)
  then show "covers_required p cs r \<longleftrightarrow> covers_required p cs r'" by (simp add: covers_required_def)
qed

lemma prerequisite_keys_total:
  assumes "validate_candidates cs = None" and "c \<in> set cs"
  shows "\<exists>keys. prerequisite_keys cs c = Inr keys"
proof -
  let ?m = "map_of (rev (map (\<lambda>d. (cd_action_id d, d)) cs))"
  have "?m a \<noteq> None" if "a \<in> set (cd_prerequisite_action_ids c)" for a
  proof -
    have "a \<in> cd_action_id ` set cs" using validate_None(3) [OF assms] that by auto
    then have "a \<in> dom ?m" by (simp add: dom_map_of_conv_image_fst image_image)
    then show ?thesis by auto
  qed
  then have "prerequisite_keys cs c = Inr (map (\<lambda>a. step_key (the (?m a))) (cd_prerequisite_action_ids c))"
    unfolding prerequisite_keys_def by (intro collect_total) (auto split: option.split)
  then show ?thesis by blast
qed

lemma scheduled_step_total:
  assumes "problem_ok p" and "validate_candidates cs = None" and "effort_ok p cs (route_of p cs \<sigma>)"
    and "c \<in> set cs" and "\<sigma> (Selected (cd_action_id c)) = 1"
  shows "\<exists>s. scheduled_step p cs selected \<sigma> c = Inr s \<and> step_ok p c s
    \<and> sa_slot_index ` set (st_slot_allocations s) = slots_of (route_of p cs \<sigma>) (cd_action_id c)"
proof -
  let ?is = "filter (\<lambda>i. \<sigma> (Assigned (cd_action_id c) i) = 1) (slot_indexes p)"
  have alloc: "allocations_of p \<sigma> c = map (slot_allocation p) ?is" by (simp add: allocations_of_def)
  have slots: "slots_of (route_of p cs \<sigma>) (cd_action_id c) = set ?is" by (auto simp: route_of_def)
  have hours: "int (length ?is) = cd_estimated_hours c"
  proof -
    have "int (card (slots_of (route_of p cs \<sigma>) (cd_action_id c))) = cd_estimated_hours c"
      using assms(3-5) by (auto simp: effort_ok_def route_of_def)
    moreover have "card (set ?is) = length ?is" by (rule distinct_card) simp
    ultimately show ?thesis unfolding slots by simp
  qed
  with validate_None(2) [OF assms(2,4)] have ne: "?is \<noteq> []" by auto
  obtain keys where keys: "prerequisite_keys cs c = Inr keys"
    using prerequisite_keys_total [OF assms(2,4)] by blast
  have "sorted_wrt (<) ?is" by (simp add: sorted_wrt_filter)
  with hours ne show ?thesis
    unfolding scheduled_step_def Let_def alloc keys slots step_ok_def
    by (simp add: list_all_iff slot_allocation_def image_image comp_def)
qed

lemma route_of_steps_sort: "route_of_steps (sort_key f steps) = route_of_steps steps"
  by (simp add: route_of_steps_def)

lemma distinct_map_sort_key: "distinct (map g (sort_key f xs)) \<longleftrightarrow> distinct (map g xs)"
  by (rule mset_eq_imp_distinct_iff) simp

lemma sorted_map_sort_key_fst:
  assumes "\<And>x. f x = (g x, h x)"
  shows "sorted (map g (sort_key f xs))"
  using sorted_sort_key [of f xs] unfolding sorted_map
  by (rule sorted_wrt_mono_rel [rotated]) (auto simp: assms less_eq_prod_def)

lemma scheduled_steps_realise:
  assumes "problem_ok p" and "validate_candidates cs = None" and "satisfies \<sigma> (route_model p cs req)"
  shows "\<exists>steps. scheduled_steps p cs \<sigma> = Inr steps \<and> schedule_ok p cs steps
    \<and> covered cs (route_of_steps steps) = covered cs (route_of p cs \<sigma>)"
proof -
  let ?r = "route_of p cs \<sigma>"
  let ?sel = "filter (\<lambda>c. \<sigma> (Selected (cd_action_id c)) = 1) cs"
  let ?g = "\<lambda>c. projr (scheduled_step p cs ?sel \<sigma> c)"
  let ?steps = "sort_key (\<lambda>s. (instant (st_planned_start_at s), st_action_id s)) (map ?g ?sel)"
  have valid: "valid_route p cs ?r" by (rule route_model_sound(2) [OF assms])
  then have eff: "effort_ok p cs ?r" by (simp add: valid_route_def)
  have g: "scheduled_step p cs ?sel \<sigma> c = Inr (?g c)" "step_ok p c (?g c)"
    "sa_slot_index ` set (st_slot_allocations (?g c)) = slots_of ?r (cd_action_id c)"
    if "c \<in> set ?sel" for c
    using scheduled_step_total [OF assms(1,2) eff, of c ?sel] that by auto
  have steps: "scheduled_steps p cs \<sigma> = Inr ?steps"
    unfolding scheduled_steps_def Let_def using collect_total [of ?sel, OF g(1)] by simp
  have ids: "map st_action_id (map ?g ?sel) = map cd_action_id ?sel"
    using g(2) by (simp add: step_ok_def)
  have chosen: "chosen (route_of_steps (map ?g ?sel)) = chosen ?r"
    using arg_cong [OF ids, of set] by (auto simp: route_of_steps_def route_of_def image_image)
  have slots: "slots_of (route_of_steps (map ?g ?sel)) (cd_action_id c) = slots_of ?r (cd_action_id c)"
    if c: "c \<in> set cs" for c
  proof (cases "c \<in> set ?sel")
    case True
    have "{s \<in> set (map ?g ?sel). st_action_id s = cd_action_id c} = {?g c}"
      using g(2) True same_id [OF assms(2)] c by (auto simp: step_ok_def)
    then show ?thesis using g(3) [OF True] by (simp add: route_of_steps_def)
  next
    case False
    then have "{s \<in> set (map ?g ?sel). st_action_id s = cd_action_id c} = {}"
      using g(2) same_id [OF assms(2)] c by (auto simp: step_ok_def)
    moreover have "slots_of ?r (cd_action_id c) = {}"
      using False c by (intro unchosen_empty [OF eff c]) (auto simp: route_of_def)
    ultimately show ?thesis unfolding route_of_steps_def by auto
  qed
  have "distinct (map cd_action_id ?sel)" using validate_None(1) [OF assms(2)] by (rule distinct_map_filter)
  then have "distinct (map st_action_id (map ?g ?sel))" unfolding ids .
  then have "distinct (map st_action_id ?steps)" unfolding distinct_map_sort_key .
  moreover have "sorted (map (\<lambda>s. instant (st_planned_start_at s)) ?steps)"
    by (rule sorted_map_sort_key_fst) simp
  moreover have "\<forall>s \<in> set ?steps. \<exists>c \<in> set cs. step_ok p c s" using g(2) by auto
  ultimately show ?thesis
    using steps valid valid_route_cong [OF chosen slots assms(2)]
    by (simp add: schedule_ok_def route_of_steps_sort)
qed


subsection \<open>A solver that honours its status codes\<close>

text \<open>
  The documented contract of CP-SAT: a FEASIBLE or OPTIMAL response carries an assignment of the
  model, an OPTIMAL one is not beaten, and INFEASIBLE is only reported for a model without one.
  How long a search takes, and when it gives up with UNKNOWN, is left open.
\<close>

definition honest_solver :: "cp_solver \<Rightarrow> bool" where
  "honest_solver solve \<longleftrightarrow> (\<forall>m limit workers seed. let reply = solve m limit workers seed in
     (rp_status reply \<in> {CP_OPTIMAL, CP_FEASIBLE} \<longrightarrow> satisfies (rp_value reply) m)
     \<and> (rp_status reply = CP_OPTIMAL \<longrightarrow> (\<forall>\<tau>. satisfies \<tau> m
          \<longrightarrow> cp_eval \<tau> (cp_objective m) \<le> cp_eval (rp_value reply) (cp_objective m)))
     \<and> (rp_status reply = CP_INFEASIBLE \<longrightarrow> \<not> (\<exists>\<tau>. satisfies \<tau> m)))"

abbreviation solver_candidates :: "PlanningProblem \<Rightarrow> Candidate list" where
  "solver_candidates p \<equiv> sort_key cd_action_id (pp_candidates p)"

lemma honest_solverD:
  assumes "honest_solver solve"
  shows "rp_status (solve m l w s) \<in> {CP_OPTIMAL, CP_FEASIBLE} \<Longrightarrow> satisfies (rp_value (solve m l w s)) m"
    and "rp_status (solve m l w s) = CP_OPTIMAL \<Longrightarrow> satisfies \<tau> m
      \<Longrightarrow> cp_eval \<tau> (cp_objective m) \<le> cp_eval (rp_value (solve m l w s)) (cp_objective m)"
    and "rp_status (solve m l w s) = CP_INFEASIBLE \<Longrightarrow> \<not> satisfies \<tau> m"
  using assms unfolding honest_solver_def Let_def by blast+

lemma build_route_model_Inr [err_simps]:
  "lift_model (build_route_model p cs req) = Inr a \<longleftrightarrow> validate_candidates cs = None
     \<and> a = \<lparr>ra_model = route_model p cs req, ra_candidates = cs\<rparr>"
  by (auto simp: lift_model_def build_route_model_def split: option.splits)

text \<open>What the search for a full route tells.\<close>

lemma full_search_cases:
  assumes "honest_solver solve" and "problem_ok p" and "validate_candidates cs = None"
    and "mset cs = mset (pp_candidates p)" and "full_search solve clock w p cs = Inr (status, vals, run)"
  shows "status \<in> {CP_OPTIMAL, CP_FEASIBLE} \<Longrightarrow> satisfies vals (route_model p cs True)"
    and "status = CP_OPTIMAL \<Longrightarrow> satisfies \<tau> (route_model p cs True)
      \<Longrightarrow> cp_eval \<tau> (cp_objective (route_model p cs True))
        \<le> cp_eval vals (cp_objective (route_model p cs True))"
    and "status = CP_INFEASIBLE \<Longrightarrow> \<not> (\<exists>r. valid_route p cs r \<and> covers_required p cs r)"
proof -
  note D = honest_solverD [OF assms(1)]
  show "satisfies vals (route_model p cs True)" if "status \<in> {CP_OPTIMAL, CP_FEASIBLE}"
    using assms(5) that D(1)
    by (auto simp: full_search_def err_simps Let_def split: if_splits)
  show "cp_eval \<tau> (cp_objective (route_model p cs True))
        \<le> cp_eval vals (cp_objective (route_model p cs True))"
    if "status = CP_OPTIMAL" "satisfies \<tau> (route_model p cs True)"
    using assms(5) that D(2)
    by (auto simp: full_search_def err_simps Let_def split: if_splits)
  show "\<not> (\<exists>r. valid_route p cs r \<and> covers_required p cs r)" if inf: "status = CP_INFEASIBLE"
  proof (cases "full_capacity_possible p cs")
    case True
    then have "\<not> satisfies \<tau> (route_model p cs True)" for \<tau>
      using assms(5) inf D(3)
      by (auto simp: full_search_def err_simps Let_def)
    then show ?thesis using route_model_complete [OF assms(2-4)] by blast
  next
    case False
    then show ?thesis using capacity_possible [OF assms(2,3)] by blast
  qed
qed

text \<open>What the partial search tells: no steps, or a schedule with exactly its unmet requirements.\<close>

lemma partial_diagnostic_cases:
  assumes "honest_solver solve" and "problem_ok p" and "partial_diagnostic solve p cs w l = Inr d"
  shows "validate_candidates cs = None"
    and "pd_scheduled_steps d \<noteq> [] \<Longrightarrow> schedule_ok p cs (pd_scheduled_steps d)"
    and "pd_scheduled_steps d \<noteq> [] \<Longrightarrow> set (pd_unmet_required_requirement_keys d)
      = required_requirement_keys p - covered cs (route_of_steps (pd_scheduled_steps d))"
proof -
  note build = assms(3) [unfolded partial_diagnostic_def Let_def]
  show val: "validate_candidates cs = None" using build by (auto simp: err_simps)
  let ?reply = "solve (route_model p cs False) l w SOLVER_RANDOM_SEED"
  have fin: "finite (required_requirement_keys p)" using assms(2) by (simp add: problem_ok_def)
  have "schedule_ok p cs (pd_scheduled_steps d) \<and> set (pd_unmet_required_requirement_keys d)
      = required_requirement_keys p - covered cs (route_of_steps (pd_scheduled_steps d))"
    if steps: "pd_scheduled_steps d \<noteq> []"
  proof -
    have "rp_status ?reply \<in> {CP_OPTIMAL, CP_FEASIBLE}"
      using build steps by (auto simp: err_simps split: cp_status.splits)
    from honest_solverD(1) [OF assms(1) this]
    have sat: "satisfies (rp_value ?reply) (route_model p cs False)" .
    from scheduled_steps_realise [OF assms(2) val sat] obtain st where
      st: "scheduled_steps p cs (rp_value ?reply) = Inr st" "schedule_ok p cs st"
        "covered cs (route_of_steps st) = covered cs (route_of p cs (rp_value ?reply))" by blast
    have d: "pd_scheduled_steps d = st" "pd_unmet_required_requirement_keys d
        = filter (\<lambda>k. rp_value ?reply (Covered k) = 0) (sorted_list_of_set (required_requirement_keys p))"
      using build steps st(1) by (auto simp: err_simps split: cp_status.splits)
    have "rp_value ?reply (Covered k) = 0 \<longleftrightarrow> k \<notin> covered cs (route_of_steps st)"
      if "k \<in> required_requirement_keys p" for k
      using route_model_sound(4) [OF assms(2) val sat, of k] that st(3) by simp
    then show ?thesis using d st(2) fin by auto
  qed
  then show "pd_scheduled_steps d \<noteq> [] \<Longrightarrow> schedule_ok p cs (pd_scheduled_steps d)"
    and "pd_scheduled_steps d \<noteq> [] \<Longrightarrow> set (pd_unmet_required_requirement_keys d)
      = required_requirement_keys p - covered cs (route_of_steps (pd_scheduled_steps d))" by auto
qed


subsection \<open>The result of a plan\<close>

lemma plan_cases:
  assumes "plan solve clock w p = Inr res"
  obtains
    (Preflight) "snd (preflight p (solver_candidates p))" "pr_feasibility res = Some INFEASIBLE"
      "pr_scheduled_steps res = []" "pr_optimization_status res = INFEASIBLE_STATUS"
  | (Solved) status vals run where "full_search solve clock w p (solver_candidates p) = Inr (status, vals, run)"
      "status \<in> {CP_OPTIMAL, CP_FEASIBLE}"
      "scheduled_steps p (solver_candidates p) vals = Inr (pr_scheduled_steps res)"
      "pr_feasibility res = Some (route_feasibility p (pr_scheduled_steps res))"
      "pr_optimization_status res = (if status = CP_OPTIMAL then OPTIMAL_STATUS else FEASIBLE_STATUS)"
  | (Infeasible) vals run d l where "full_search solve clock w p (solver_candidates p) = Inr (CP_INFEASIBLE, vals, run)"
      "partial_diagnostic solve p (solver_candidates p) w l = Inr d"
      "pr_scheduled_steps res = pd_scheduled_steps d" "tr_partial_route_diagnostic (pr_trace res) = Some d"
      "pr_feasibility res = Some (if pd_scheduled_steps d = [] then INFEASIBLE else PARTIAL_ROUTE)"
      "pr_optimization_status res = INFEASIBLE_STATUS"
  | (Unknown) d l where "partial_diagnostic solve p (solver_candidates p) w l = Inr d"
      "pr_scheduled_steps res = pd_scheduled_steps d"
      "tr_partial_route_diagnostic (pr_trace res) = (if pd_scheduled_steps d = []
         \<or> pd_unmet_required_requirement_keys d = [] then None else Some d)"
      "pr_feasibility res = (if pd_scheduled_steps d = [] then None
         else if pd_unmet_required_requirement_keys d \<noteq> [] then Some PARTIAL_ROUTE
         else Some (route_feasibility p (pd_scheduled_steps d)))"
      "pr_optimization_status res = (if pd_scheduled_steps d \<noteq> [] \<and> pd_unmet_required_requirement_keys d = []
         then FEASIBLE_STATUS else TIMEOUT_STATUS)"
proof -
  let ?cs = "solver_candidates p"
  let ?l = "max 0 (clk_start clock + time_limit_seconds p - clk_partial clock)"
  note plan = assms [unfolded plan_def Let_def]
  show thesis
  proof (cases "snd (preflight p ?cs)")
    case True
    with plan show thesis
      by (intro Preflight) (auto simp: planning_result_def split: prod.splits)
  next
    case False
    with plan obtain status vals run where fs: "full_search solve clock w p ?cs = Inr (status, vals, run)"
      by (auto simp: err_simps split: prod.splits)
    show thesis
    proof (cases status)
      case CP_UNKNOWN
      with plan False fs obtain d where "partial_diagnostic solve p ?cs w ?l = Inr d"
        by (auto simp: err_simps split: prod.splits)
      with plan False fs CP_UNKNOWN show thesis
        by (intro Unknown) (auto simp: planning_result_def split: prod.splits if_splits)
    next
      case CP_INFEASIBLE
      with plan False fs obtain d where "partial_diagnostic solve p ?cs w ?l = Inr d"
        by (auto simp: err_simps split: prod.splits)
      with plan False fs CP_INFEASIBLE show thesis
        by (intro Infeasible [of vals run ?l d]) (auto simp: planning_result_def split: prod.splits if_splits)
    next
      case CP_OPTIMAL
      with plan False fs show thesis
        by (intro Solved [OF fs]) (auto simp: err_simps planning_result_def split: prod.splits)
    next
      case CP_FEASIBLE
      with plan False fs show thesis
        by (intro Solved [OF fs]) (auto simp: err_simps planning_result_def split: prod.splits)
    next
      case CP_MODEL_INVALID
      with plan False fs show thesis by (auto split: prod.splits)
    qed
  qed
qed

lemma validated_by_full_search:
  assumes "full_search solve clock w p cs = Inr (status, vals, run)" and "status \<noteq> CP_INFEASIBLE"
  shows "validate_candidates cs = None"
  using assms by (auto simp: full_search_def err_simps Let_def split: if_splits)

lemma route_feasibility_range: "route_feasibility p steps \<in> {FEASIBLE, RISKY}"
  by (simp add: route_feasibility_def Let_def)

text \<open>
  C1: A FEASIBLE or RISKY plan is a real plan: its steps are a valid schedule (every step has
  exactly its effort in calendar slots it may use, nothing overlaps, no week exceeds its hours,
  prerequisites end before their dependents start, the budget is kept) and it covers every
  required requirement.
\<close>

theorem plan_full_route_sound:
  assumes "honest_solver solve" and "problem_ok p" and "plan solve clock w p = Inr res"
    and "pr_feasibility res \<in> {Some FEASIBLE, Some RISKY}"
  shows "schedule_ok p (solver_candidates p) (pr_scheduled_steps res)
    \<and> covers_required p (solver_candidates p) (route_of_steps (pr_scheduled_steps res))"
  using assms(3)
proof (cases rule: plan_cases)
  case (Solved status vals run)
  then have val: "validate_candidates (solver_candidates p) = None"
    by (intro validated_by_full_search) auto
  have "satisfies vals (route_model p (solver_candidates p) True)"
    using full_search_cases(1) [OF assms(1,2) val _ Solved(1)] Solved(2) by simp
  from scheduled_steps_realise [OF assms(2) val this] route_model_sound(3) [OF assms(2) val this] Solved(3)
  show ?thesis by (auto simp: covers_required_def)
next
  case (Unknown d l)
  with assms(4) have "pd_scheduled_steps d \<noteq> []" "pd_unmet_required_requirement_keys d = []"
    by (auto split: if_splits)
  with partial_diagnostic_cases [OF assms(1,2) Unknown(1)] Unknown(2) show ?thesis
    by (auto simp: covers_required_def)
qed (use assms(4) in \<open>auto split: if_splits\<close>)

text \<open>
  C4: A PARTIAL plan is a nonempty valid schedule that misses at least one required requirement,
  and its diagnostic lists exactly the required requirements it misses.
\<close>

theorem plan_partial_route_sound:
  assumes "honest_solver solve" and "problem_ok p" and "plan solve clock w p = Inr res"
    and "pr_feasibility res = Some PARTIAL_ROUTE"
  shows "schedule_ok p (solver_candidates p) (pr_scheduled_steps res) \<and> pr_scheduled_steps res \<noteq> []
    \<and> (\<exists>d. tr_partial_route_diagnostic (pr_trace res) = Some d
         \<and> pd_unmet_required_requirement_keys d \<noteq> []
         \<and> set (pd_unmet_required_requirement_keys d) = required_requirement_keys p
             - covered (solver_candidates p) (route_of_steps (pr_scheduled_steps res)))"
  using assms(3)
proof (cases rule: plan_cases)
  case (Solved status vals run)
  with assms(4) route_feasibility_range [of p "pr_scheduled_steps res"] show ?thesis by simp
next
  case (Infeasible vals run d l)
  then have ne: "pd_scheduled_steps d \<noteq> []" using assms(4) by (auto split: if_splits)
  note pd = partial_diagnostic_cases [OF assms(1,2) Infeasible(2)]
  have "\<not> (\<exists>r. valid_route p (solver_candidates p) r \<and> covers_required p (solver_candidates p) r)"
    using full_search_cases(3) [OF assms(1,2) pd(1) _ Infeasible(1)] by simp
  then have "pd_unmet_required_requirement_keys d \<noteq> []"
    using pd(2,3) [OF ne] by (fastforce simp: schedule_ok_def covers_required_def)
  with Infeasible pd ne show ?thesis by simp
next
  case (Unknown d l)
  then have "pd_scheduled_steps d \<noteq> []" "pd_unmet_required_requirement_keys d \<noteq> []"
    using assms(4) route_feasibility_range [of p "pd_scheduled_steps d"] by (auto split: if_splits)
  with partial_diagnostic_cases [OF assms(1,2) Unknown(1)] Unknown show ?thesis by simp
qed (use assms(4) in simp)

text \<open>
  C3: INFEASIBLE is never reported by mistake: unless an input blocker stops the search, no
  valid route covers every required requirement.
\<close>

theorem plan_infeasible_sound:
  assumes "honest_solver solve" and "problem_ok p" and "plan solve clock w p = Inr res"
    and "pr_feasibility res = Some INFEASIBLE"
  shows "pr_scheduled_steps res = [] \<and> (list_ex (blocks_route p) (pp_candidate_blockers p)
    \<or> \<not> (\<exists>r. valid_route p (solver_candidates p) r \<and> covers_required p (solver_candidates p) r))"
  using assms(3)
proof (cases rule: plan_cases)
  case Preflight
  have fin: "finite (required_requirement_keys p)" using assms(2) by (simp add: problem_ok_def)
  with Preflight(1) have "list_ex (blocks_route p) (pp_candidate_blockers p)
      \<or> required_requirement_keys p - candidate_outcomes (solver_candidates p) \<noteq> {}"
    by (auto simp: preflight_def Let_def)
  then show ?thesis
    using Preflight(3) by (auto simp: covers_required_def covered_def candidate_outcomes_def)
next
  case (Solved status vals run)
  with assms(4) route_feasibility_range [of p "pr_scheduled_steps res"] show ?thesis by simp
next
  case (Infeasible vals run d l)
  then have "pd_scheduled_steps d = []" using assms(4) by (auto split: if_splits)
  moreover have "\<not> (\<exists>r. valid_route p (solver_candidates p) r \<and> covers_required p (solver_candidates p) r)"
    using full_search_cases(3) [OF assms(1,2) partial_diagnostic_cases(1) [OF assms(1,2) Infeasible(2)] _
        Infeasible(1)] by simp
  ultimately show ?thesis using Infeasible(3) by simp
next
  case (Unknown d l)
  then show ?thesis
    using assms(4) route_feasibility_range [of p "pd_scheduled_steps d"] by (auto split: if_splits)
qed

text \<open>
  C10: Planning raises in exactly one situation. On a checked problem whose candidates pass the
  model's checks, \<open>plan\<close> ends in an error exactly when the preflight finds no blocker and
  the solver answers MODEL_INVALID: on the model of a full route where the capacity allows one, or
  on the model of a partial route where no full route was found. The error is then
  \<open>UnexpectedCpSatStatusError\<close> with that status. In every other case a result is returned:
  decoding a solution never raises.
\<close>

theorem plan_raises_only_on_model_invalid:
  assumes "honest_solver solve" and "problem_ok p"
    and "validate_candidates (solver_candidates p) = None"
  shows "plan solve clock w p = Inl e \<longleftrightarrow>
    (let cs = solver_candidates p;
         deadline = clk_start clock + time_limit_seconds p;
         full = rp_status (solve (route_model p cs True)
           (min (time_limit_seconds p * (3 / 4)) (max 0 (deadline - clk_full clock))) w SOLVER_RANDOM_SEED);
         partial = rp_status (solve (route_model p cs False)
           (max 0 (deadline - clk_partial clock)) w SOLVER_RANDOM_SEED) in
     e = UnexpectedCpSatStatusError CP_MODEL_INVALID \<and> \<not> snd (preflight p cs)
     \<and> (if full_capacity_possible p cs
        then full = CP_MODEL_INVALID \<or> full \<in> {CP_INFEASIBLE, CP_UNKNOWN} \<and> partial = CP_MODEL_INVALID
        else partial = CP_MODEL_INVALID))"
proof -
  let ?cs = "solver_candidates p"
  let ?limit = "min (time_limit_seconds p * (3 / 4))
    (max 0 (clk_start clock + time_limit_seconds p - clk_full clock))"
  let ?left = "max 0 (clk_start clock + time_limit_seconds p - clk_partial clock)"
  let ?full = "solve (route_model p ?cs True) ?limit w SOLVER_RANDOM_SEED"
  let ?partial = "solve (route_model p ?cs False) ?left w SOLVER_RANDOM_SEED"
  have model: "lift_model (build_route_model p ?cs req) = Inr \<lparr>ra_model = route_model p ?cs req, ra_candidates = ?cs\<rparr>"
    for req using assms(3) by (simp add: build_route_model_Inr)
  have decode: "\<exists>st. scheduled_steps p ?cs (rp_value (solve (route_model p ?cs req) l w SOLVER_RANDOM_SEED)) = Inr st"
    if "rp_status (solve (route_model p ?cs req) l w SOLVER_RANDOM_SEED) \<in> {CP_OPTIMAL, CP_FEASIBLE}" for req l
    using scheduled_steps_realise [OF assms(2,3) honest_solverD(1) [OF assms(1) that]] by blast
  have partial: "partial_diagnostic solve p ?cs w ?left = Inl e'
      \<longleftrightarrow> e' = UnexpectedCpSatStatusError CP_MODEL_INVALID \<and> rp_status ?partial = CP_MODEL_INVALID" for e'
    using decode [of False ?left]
    unfolding partial_diagnostic_def model Let_def by (cases "rp_status ?partial") auto
  have full: "full_search solve clock w p ?cs = Inr (if full_capacity_possible p ?cs
      then (rp_status ?full, rp_value ?full, telemetry ?full ?limit FULL_PHASE)
      else (CP_INFEASIBLE, (\<lambda>_. 0), skipped_run ''REQUIRED_EFFORT_EXCEEDS_CALENDAR_CAPACITY''))"
    by (simp add: full_search_def model Let_def)
  have and_then_Inl: "and_then x f = Inl e' \<longleftrightarrow> x = Inl e' \<or> (\<exists>d. x = Inr d \<and> f d = Inl e')"
    for x :: "plan_error + 'x" and f :: "'x \<Rightarrow> plan_error + 'y" and e'
    by (cases x) auto
  show ?thesis
    using decode [of True ?limit]
    unfolding plan_def full Let_def
    by (cases "rp_status ?full") (auto simp: and_then_Inl partial split: prod.splits if_splits)
qed


subsection \<open>The planner on the example\<close>

text \<open>
  A solver that knows one assignment: it answers FEASIBLE with it where the assignment satisfies
  the model and gives up otherwise. It honours the contract for every model.
\<close>

definition checking_solver :: "assignment \<Rightarrow> cp_solver" where
  "checking_solver \<sigma> = (\<lambda>m limit workers seed.
     \<lparr>rp_status = (if satisfies \<sigma> m then CP_FEASIBLE else CP_UNKNOWN), rp_value = \<sigma>,
      rp_objective_value = of_int (cp_eval \<sigma> (cp_objective m)), rp_statistics = None\<rparr>)"

lemma checking_solver_honest: "honest_solver (checking_solver \<sigma>)"
  by (simp add: honest_solver_def checking_solver_def Let_def)

text \<open>A solver that rejects every model, as CP-SAT rejects one whose objective overflows.\<close>

definition rejecting_solver :: cp_solver where
  "rejecting_solver = (\<lambda>m limit workers seed.
     \<lparr>rp_status = CP_MODEL_INVALID, rp_value = (\<lambda>_. 0), rp_objective_value = 0, rp_statistics = None\<rparr>)"

definition sample_clock :: planner_clock where
  "sample_clock = \<lparr>clk_start = 0, clk_full = 1, clk_partial = 2\<rparr>"

lemma sample_sorted: "solver_candidates sample_problem = sample_candidates"
  by (simp add: sample_defs)

lemma sample_plan:
  "\<exists>res. plan (checking_solver (assign sample_problem sample_candidates sample_route)) sample_clock 1
      sample_problem = Inr res \<and> pr_feasibility res \<in> {Some FEASIBLE, Some RISKY}"
proof -
  let ?\<sigma> = "assign sample_problem sample_candidates sample_route"
  have possible: "full_capacity_possible sample_problem sample_candidates"
    by (rule capacity_possible [OF sample_problem_ok sample_validated sample_route_valid(1,2)])
  obtain st where st: "scheduled_steps sample_problem sample_candidates ?\<sigma> = Inr st"
    using scheduled_steps_realise [OF sample_problem_ok sample_validated sample_assignment(1)] by blast
  have pre: "\<not> snd (preflight sample_problem sample_candidates)"
    by (simp add: preflight_def Let_def candidate_outcomes_def sample_defs)
  have fs: "\<exists>run. full_search (checking_solver ?\<sigma>) sample_clock 1 sample_problem sample_candidates
      = Inr (CP_FEASIBLE, ?\<sigma>, run)"
    using sample_assignment(1) [of True] sample_validated possible
    by (auto simp: full_search_def Let_def lift_model_def build_route_model_def checking_solver_def)
  then show ?thesis
    using pre st route_feasibility_range [of sample_problem st]
    unfolding plan_def Let_def sample_sorted by (auto simp: planning_result_def split: prod.splits)
qed

theorem plan_full_route_sound_witness:
  "\<exists>res. plan (checking_solver (assign sample_problem sample_candidates sample_route)) sample_clock 1
      sample_problem = Inr res
    \<and> schedule_ok sample_problem sample_candidates (pr_scheduled_steps res)
    \<and> covers_required sample_problem sample_candidates (route_of_steps (pr_scheduled_steps res))"
  using sample_plan plan_full_route_sound [OF checking_solver_honest sample_problem_ok]
  unfolding sample_sorted by blast

lemma sample_searched: "\<not> snd (preflight sample_problem sample_candidates)"
  by (simp add: preflight_def Let_def candidate_outcomes_def sample_defs)

theorem plan_raises_only_on_model_invalid_witness:
  "(\<forall>e. plan (checking_solver (\<lambda>_. 0)) sample_clock 1 sample_problem \<noteq> Inl e)
   \<and> plan rejecting_solver sample_clock 1 sample_problem = Inl (UnexpectedCpSatStatusError CP_MODEL_INVALID)"
proof -
  have honest: "honest_solver rejecting_solver"
    by (simp add: honest_solver_def rejecting_solver_def Let_def)
  have checks: "validate_candidates (solver_candidates sample_problem) = None"
    using sample_validated by (simp add: sample_sorted)
  show ?thesis
    using plan_raises_only_on_model_invalid [OF checking_solver_honest sample_problem_ok checks]
      plan_raises_only_on_model_invalid [OF honest sample_problem_ok checks] sample_searched
    unfolding sample_sorted by (simp add: checking_solver_def rejecting_solver_def Let_def)
qed

text \<open>With one hour a week the required effort does not fit; the prerequisite alone does.\<close>

definition tight_problem :: PlanningProblem where
  "tight_problem = sample_problem\<lparr>pp_constraints := sample_constraints\<lparr>available_hours_per_week := 1\<rparr>\<rparr>"

definition tight_route :: route where
  "tight_route = \<lparr>chosen = {''a''}, slots_of = (\<lambda>x. if x = ''a'' then {0} else {})\<rparr>"

lemma tight_problem_ok: "problem_ok tight_problem"
  by (simp add: problem_ok_def problem_post_init_def constraints_valid_def slot_post_init_def
      tight_problem_def sample_defs blank_iff is_space_def non_overlapping_windows_def is_aware_def
      in_utc_def dt_ok_def dt_le_def dt_less_def dt_diff_def instant_def utc_dt_def SLOT_DURATION_def
      HOUR_def)

lemma tight_sorted: "solver_candidates tight_problem = sample_candidates"
  by (simp add: tight_problem_def sample_defs)

lemma tight_route_valid: "valid_route tight_problem sample_candidates tight_route"
proof -
  have "occupied tight_route sample_candidates = {0}"
    by (auto simp: occupied_def tight_route_def sample_candidates_def sample_candidate_def)
  then have "card {i \<in> occupied tight_route sample_candidates. week_of tight_problem i = k} \<le> card {0 :: nat}" for k
    by (intro card_mono) auto
  then have weekly: "weekly_ok tight_problem sample_candidates tight_route"
    by (simp add: weekly_ok_def) (simp add: tight_problem_def sample_problem_def sample_constraints_def)
  have effort: "effort_ok tight_problem sample_candidates tight_route"
    by (simp add: effort_ok_def tight_problem_def sample_defs tight_route_def)
  have available: "available_ok tight_problem sample_candidates tight_route"
    by (simp add: available_ok_def slot_available_def is_available_def availability_of_def
        tight_problem_def sample_defs)
  have exclusive: "exclusive_ok sample_candidates tight_route"
    by (simp add: exclusive_ok_def sample_candidates_def sample_candidate_def tight_route_def)
  have prerequisites: "prerequisites_ok tight_problem sample_candidates tight_route"
    by (simp add: prerequisites_ok_def sample_candidates_def sample_candidate_def tight_route_def)
  have budget: "budget_ok tight_problem sample_candidates tight_route"
    by (simp add: budget_ok_def spend_def known_cost_def tight_problem_def sample_defs tight_route_def)
  show ?thesis
    unfolding valid_route_def using weekly effort available exclusive prerequisites budget by blast
qed

lemma tight_capacity: "\<not> full_capacity_possible tight_problem sample_candidates"
  by (simp add: full_capacity_possible_def cheapest_share_def effort_share_def route_capacity_def
      capped_capacity_def tight_problem_def sample_defs)

theorem capacity_check_sound_witness:
  "\<not> (\<exists>r. valid_route tight_problem sample_candidates r \<and> covers_required tight_problem sample_candidates r)"
  by (rule capacity_check_sound [OF tight_problem_ok sample_validated tight_capacity])


lemma scheduled_steps_length:
  assumes "scheduled_steps p cs \<sigma> = Inr st"
  shows "length st = length (filter (\<lambda>c. \<sigma> (Selected (cd_action_id c)) = 1) cs)"
  using assms
  by (auto simp: scheduled_steps_def Let_def err_simps collect_Inr_iff dest: list_all2_lengthD)

lemma tight_plan:
  "\<exists>res. plan (checking_solver (assign tight_problem sample_candidates tight_route)) sample_clock 1
      tight_problem = Inr res \<and> pr_feasibility res = Some PARTIAL_ROUTE"
proof -
  let ?\<sigma> = "assign tight_problem sample_candidates tight_route"
  have sat: "satisfies ?\<sigma> (route_model tight_problem sample_candidates False)"
    using route_model_complete [OF tight_problem_ok sample_validated _ tight_route_valid]
    by (simp add: tight_problem_def sample_candidates_of)
  obtain st where st: "scheduled_steps tight_problem sample_candidates ?\<sigma> = Inr st"
    using scheduled_steps_realise [OF tight_problem_ok sample_validated sat] by blast
  have "length st = 1"
    using scheduled_steps_length [OF st] by (simp add: sample_candidates_def sample_candidate_def tight_route_def)
  then have ne: "st \<noteq> []" by auto
  have pre: "\<not> snd (preflight tight_problem sample_candidates)"
    by (simp add: preflight_def Let_def candidate_outcomes_def tight_problem_def sample_defs)
  have pd: "\<exists>d. partial_diagnostic (checking_solver ?\<sigma>) tight_problem sample_candidates 1 l = Inr d
      \<and> pd_scheduled_steps d = st" for l
    using sat st sample_validated
    by (simp add: partial_diagnostic_def lift_model_def build_route_model_def checking_solver_def Let_def)
  have fs: "full_search (checking_solver ?\<sigma>) sample_clock 1 tight_problem sample_candidates
      = Inr (CP_INFEASIBLE, (\<lambda>_. 0), skipped_run ''REQUIRED_EFFORT_EXCEEDS_CALENDAR_CAPACITY'')"
    using tight_capacity by (simp add: full_search_def)
  obtain d where "partial_diagnostic (checking_solver ?\<sigma>) tight_problem sample_candidates 1
      (max 0 (clk_start sample_clock + time_limit_seconds tight_problem - clk_partial sample_clock)) = Inr d"
    "pd_scheduled_steps d = st" using pd by blast
  then show ?thesis
    using pre fs ne unfolding plan_def Let_def tight_sorted
    by (auto simp: planning_result_def split: prod.splits)
qed

theorem plan_partial_route_sound_witness:
  "\<exists>res d. plan (checking_solver (assign tight_problem sample_candidates tight_route)) sample_clock 1
      tight_problem = Inr res \<and> pr_scheduled_steps res \<noteq> []
    \<and> tr_partial_route_diagnostic (pr_trace res) = Some d \<and> pd_unmet_required_requirement_keys d \<noteq> []"
  using tight_plan plan_partial_route_sound [OF checking_solver_honest tight_problem_ok] by blast

definition blocked_problem :: PlanningProblem where
  "blocked_problem = sample_problem\<lparr>required_requirement_keys := {''unknown''}\<rparr>"

lemma blocked_problem_ok: "problem_ok blocked_problem"
  by (simp add: problem_ok_def problem_post_init_def constraints_valid_def slot_post_init_def
      blocked_problem_def sample_defs blank_iff is_space_def non_overlapping_windows_def is_aware_def
      in_utc_def dt_ok_def dt_le_def dt_less_def dt_diff_def instant_def utc_dt_def SLOT_DURATION_def
      HOUR_def)

lemma blocked_plan:
  "\<exists>res. plan (checking_solver (\<lambda>_. 0)) sample_clock 1 blocked_problem = Inr res
     \<and> pr_feasibility res = Some INFEASIBLE"
proof -
  have "solver_candidates blocked_problem = sample_candidates"
    by (simp add: blocked_problem_def sample_defs)
  moreover have "snd (preflight blocked_problem sample_candidates)"
    by (simp add: preflight_def Let_def candidate_outcomes_def blocked_problem_def sample_defs)
  ultimately show ?thesis
    unfolding plan_def Let_def by (auto simp: planning_result_def split: prod.splits)
qed

theorem plan_infeasible_sound_witness:
  "\<exists>res. plan (checking_solver (\<lambda>_. 0)) sample_clock 1 blocked_problem = Inr res
     \<and> pr_scheduled_steps res = []
     \<and> \<not> (\<exists>r. valid_route blocked_problem (solver_candidates blocked_problem) r
            \<and> covers_required blocked_problem (solver_candidates blocked_problem) r)"
proof -
  have "\<not> list_ex (blocks_route blocked_problem) (pp_candidate_blockers blocked_problem)"
    by (simp add: blocked_problem_def sample_problem_def)
  with blocked_plan plan_infeasible_sound [OF checking_solver_honest blocked_problem_ok]
  show ?thesis by blast
qed

end
