(* ===== verification/Calendar.thy ===== *)
theory Calendar
  imports Solver_Models
begin

section \<open>The flexible weekly calendar\<close>

text \<open>
  \<open>src/jobtology_be/planning/calendar.py\<close>. Timestamps are microseconds with day 0 chosen so that
  the day number of a wall clock is its proleptic ordinal (\<open>date.toordinal\<close>). A zone is the offset
  in force at each UTC instant; the offset Python uses for a wall clock reading (needed only to
  round a local time down to the hour) is the parameter \<open>wall_off\<close>.
\<close>

subsection \<open>Dates\<close>

definition DAY :: int where "DAY = 24 * HOUR"

definition MAX_FLEXIBLE_CALENDAR_HORIZON :: int where "MAX_FLEXIBLE_CALENDAR_HORIZON = 366 * DAY"

definition date_of :: "int \<Rightarrow> int" where "date_of wall = wall div DAY"

definition hour_of :: "int \<Rightarrow> int" where "hour_of wall = (wall mod DAY) div HOUR"

definition isoweekday :: "int \<Rightarrow> int" where
  "isoweekday ordinal = (if ordinal mod 7 = 0 then 7 else ordinal mod 7)"

definition days_before_year :: "int \<Rightarrow> int" where
  "days_before_year y = (let n = y - 1 in n * 365 + n div 4 - n div 100 + n div 400)"

definition year_of :: "int \<Rightarrow> int" where
  "year_of ordinal =
     (let n = ordinal - 1;
          n400 = n div 146097; r400 = n mod 146097;
          n100 = r400 div 36524; r100 = r400 mod 36524;
          n4 = r100 div 1461; r4 = r100 mod 1461;
          n1 = r4 div 365;
          year = n400 * 400 + n100 * 100 + n4 * 4 + n1 + 1 in
      if n1 = 4 \<or> n100 = 4 then year - 1 else year)"

text \<open>ISO 8601: a week belongs to the year of its Thursday, and is numbered from there.\<close>

definition thursday :: "int \<Rightarrow> int" where
  "thursday ordinal = ordinal - isoweekday ordinal + 4"

definition isocalendar :: "int \<Rightarrow> int \<times> int" where
  "isocalendar ordinal =
     (let t = thursday ordinal; y = year_of t in (y, (t - days_before_year y - 1) div 7 + 1))"

definition pad2 :: "int \<Rightarrow> string" where
  "pad2 n = (if 0 \<le> n \<and> n < 10 then ''0'' @ show_int n else show_int n)"

definition week_key :: "int \<times> int \<Rightarrow> string" where
  "week_key yw = show_int (fst yw) @ ''-W'' @ pad2 (snd yw)"

subsection \<open>Availability of a slot\<close>

datatype calendar_error =
    NaiveTimestamps
  | NonPositiveAvailability
  | HorizonTooLong

definition local_wall :: "zone \<Rightarrow> int \<Rightarrow> int" where
  "local_wall z t = dt_wall (astimezone z (utc_dt t))"

definition in_window :: "WeeklyAvailabilityWindow \<Rightarrow> int \<Rightarrow> bool" where
  "in_window w wall \<longleftrightarrow> weekday w = isoweekday (date_of wall)
     \<and> start_hour w \<le> hour_of wall \<and> hour_of wall < end_hour w"

function segments_available ::
  "zone \<Rightarrow> WeeklyAvailabilityWindow list \<Rightarrow> int set \<Rightarrow> int \<Rightarrow> int \<Rightarrow> bool" where
  "segments_available z windows excluded cursor end =
     (if cursor < end then
        let segment_end = min (cursor + SLOT_DURATION) end;
            local_start = local_wall z cursor;
            local_tail = local_wall z (segment_end - 1) in
        if date_of local_start \<in> excluded \<or> date_of local_tail \<in> excluded then False
        else if windows \<noteq> [] \<and> \<not> list_all (\<lambda>point. list_ex (\<lambda>w. in_window w point) windows)
               [local_start, local_tail] then False
        else segments_available z windows excluded segment_end end
      else True)"
  by pat_completeness auto
termination
  by (relation "measure (\<lambda>(z, windows, excluded, cursor, end). nat (end - cursor))")
    (auto simp: SLOT_DURATION_def HOUR_def)

declare segments_available.simps [simp del]

definition slot_is_available ::
  "zone \<Rightarrow> datetime \<Rightarrow> datetime \<Rightarrow> WeeklyAvailabilityWindow list \<Rightarrow> int set \<Rightarrow> calendar_error + bool" where
  "slot_is_available z starts ends windows excluded =
     (if \<not> is_aware starts \<or> \<not> is_aware ends then Inl NaiveTimestamps
      else
        let start = instant starts; end = instant ends in
        if end \<le> start \<or> end - start > MAX_FLEXIBLE_CALENDAR_HORIZON then Inr False
        else Inr (segments_available z windows excluded start end))"

subsection \<open>The slots of a planning horizon\<close>

definition next_hour :: "(int \<Rightarrow> int) \<Rightarrow> datetime \<Rightarrow> int" where
  "next_hour wall_off v =
     (let wall = dt_wall v - dt_wall v mod HOUR;
          rounded = wall - wall_off wall in
      if rounded = instant v then rounded else rounded + SLOT_DURATION)"

function slots_from ::
  "zone \<Rightarrow> int \<Rightarrow> int \<Rightarrow> WeeklyAvailabilityWindow list \<Rightarrow> int set \<Rightarrow> (int \<times> int \<Rightarrow> int) \<Rightarrow> int
    \<Rightarrow> calendar_error + PlanningSlot list" where
  "slots_from z target hours windows excluded allocated_by_week slot_start =
     (if slot_start + SLOT_DURATION \<le> target then
        let week = isocalendar (date_of (local_wall z slot_start));
            allocated = allocated_by_week week;
            skip = slots_from z target hours windows excluded allocated_by_week (slot_start + SLOT_DURATION) in
        if allocated < hours then
          and_then (slot_is_available z (utc_dt slot_start) (utc_dt (slot_start + SLOT_DURATION)) windows excluded)
            (\<lambda>available. if available then
               and_then (slots_from z target hours windows excluded (allocated_by_week(week := allocated + 1))
                   (slot_start + SLOT_DURATION))
                 (\<lambda>rest. Inr (\<lparr>starts_at = utc_dt slot_start, ends_at = utc_dt (slot_start + SLOT_DURATION),
                    capacity_week_key = week_key week\<rparr> # rest))
             else skip)
        else skip
      else Inr [])"
  by pat_completeness auto
termination
  by (relation "measure (\<lambda>(z, target, hours, windows, excluded, allocated, slot_start). nat (target - slot_start))")
    (auto simp: SLOT_DURATION_def HOUR_def)

declare slots_from.simps [simp del]

definition flexible_weekly_slots ::
  "zone \<Rightarrow> (int \<Rightarrow> int) \<Rightarrow> datetime \<Rightarrow> datetime \<Rightarrow> int \<Rightarrow> WeeklyAvailabilityWindow list \<Rightarrow> int list
    \<Rightarrow> calendar_error + PlanningSlot list" where
  "flexible_weekly_slots z wall_off started target hours windows dates =
     (if \<not> is_aware started \<or> \<not> is_aware target then Inl NaiveTimestamps
      else if hours < 1 then Inl NonPositiveAvailability
      else if instant target \<le> instant started then Inr []
      else if instant target - instant started > MAX_FLEXIBLE_CALENDAR_HORIZON then Inl HorizonTooLong
      else slots_from z (instant target) hours windows (set dates) (\<lambda>_. 0) (next_hour wall_off started))"

subsection \<open>Effort that remains\<close>

text \<open>\<open>src/jobtology_be/planning/effort.py\<close>, over exact rationals.\<close>

definition remaining_learning_hours :: "int \<Rightarrow> rat \<Rightarrow> int" where
  "remaining_learning_hours base_hours credit = max 0 \<lceil>of_int base_hours * (1 - credit)\<rceil>"


subsection \<open>ISO weeks\<close>

lemma thursday_eq: "thursday a = 7 * ((a - 1) div 7) + 4"
  unfolding thursday_def isoweekday_def by presburger

lemma week_number_shift: "(7 * q + 4 - d - 1) div 7 = q + (3 - d) div (7 :: int)"
proof -
  have "7 * q + 4 - d - 1 = (3 - d) + q * 7" by simp
  then show ?thesis by simp
qed

lemma isocalendar_eq_iff: "isocalendar a = isocalendar b \<longleftrightarrow> (a - 1) div 7 = (b - 1) div 7"
proof
  assume eq: "isocalendar a = isocalendar b"
  let ?d = "days_before_year (year_of (thursday a))"
  have "(thursday a - ?d - 1) div 7 = (thursday b - ?d - 1) div 7"
    using eq unfolding isocalendar_def Let_def prod.inject by (metis add_right_cancel)
  then show "(a - 1) div 7 = (b - 1) div 7" unfolding thursday_eq week_number_shift by simp
next
  assume "(a - 1) div 7 = (b - 1) div 7"
  then have "thursday a = thursday b" by (simp add: thursday_eq)
  then show "isocalendar a = isocalendar b" by (simp add: isocalendar_def)
qed

lemma W_notin_show_int: "CHR ''W'' \<notin> set (show_int n)"
  using not_digit_notin_show_nat [of "CHR ''W''"] by (auto simp: show_int_def is_digit_def)

lemma pad2_inject: "pad2 m = pad2 n \<longleftrightarrow> m = n"
proof -
  have "read_nat (''0'' @ show_nat k) = k" for k
  proof -
    have "read_nat (CHR ''0'' # s) = read_nat s" for s by (simp add: read_nat_def)
    then show ?thesis by simp
  qed
  then have pad: "read_nat (pad2 k) = nat k" if "0 \<le> k" for k
    using that by (simp add: pad2_def show_int_def)
  have neg: "pad2 k = ''-'' @ show_nat (nat (- k))" if "k < 0" for k
    using that by (simp add: pad2_def show_int_def)
  have dash: "CHR ''-'' \<notin> set (pad2 k)" if "0 \<le> k" for k
    using that not_digit_notin_show_nat [of "CHR ''-''"] by (auto simp: pad2_def show_int_def is_digit_def)
  have "m = n" if eq: "pad2 m = pad2 n"
  proof (cases "0 \<le> m")
    case True
    with dash [of m] neg [of n] eq have "0 \<le> n" by (cases "n < 0") auto
    with True pad [of m] pad [of n] eq show ?thesis by simp
  next
    case False
    with dash [of n] neg [of m] eq have "n < 0" by (cases "0 \<le> n") auto
    with False neg [of m] neg [of n] eq show ?thesis by simp
  qed
  then show ?thesis by auto
qed

lemma week_key_inject: "week_key v = week_key w \<longleftrightarrow> v = w"
proof -
  have "CHR ''W'' \<notin> set (pad2 n)" for n using W_notin_show_int by (auto simp: pad2_def)
  then have "show_int (fst v) @ ''-'' = show_int (fst w) @ ''-'' \<and> pad2 (snd v) = pad2 (snd w)"
    if "week_key v = week_key w"
    using sep_append_inject [of "show_int (fst v) @ ''-''" "CHR ''W''" "pad2 (snd v)"
        "show_int (fst w) @ ''-''" "pad2 (snd w)"] that by (simp add: week_key_def)
  then have "v = w" if "week_key v = week_key w" using that by (simp add: pad2_inject prod_eq_iff)
  then show ?thesis by blast
qed

text \<open>
  Two days get the same capacity-week key exactly when they lie in the same Monday-to-Sunday
  week, across the turn of the year as well, so weekly hours are counted per calendar week.
\<close>

theorem week_key_identifies_week:
  "week_key (isocalendar a) = week_key (isocalendar b) \<longleftrightarrow> (a - 1) div 7 = (b - 1) div 7"
  by (simp add: week_key_inject isocalendar_eq_iff)

subsection \<open>What a checked hour means\<close>

definition open_at :: "zone \<Rightarrow> WeeklyAvailabilityWindow list \<Rightarrow> int set \<Rightarrow> int \<Rightarrow> bool" where
  "open_at z windows excluded t \<longleftrightarrow> date_of (local_wall z t) \<notin> excluded
     \<and> (windows = [] \<or> (\<exists>w \<in> set windows. in_window w (local_wall z t)))"

text \<open>The offset of the zone does not change inside any of the hours counted from \<open>start\<close>.\<close>

definition steady :: "zone \<Rightarrow> int \<Rightarrow> int \<Rightarrow> bool" where
  "steady z start end \<longleftrightarrow> (\<forall>k t. start + int k * HOUR \<le> t \<and> t < start + int k * HOUR + HOUR \<and> t < end
     \<longrightarrow> zone_off z t = zone_off z (start + int k * HOUR))"

lemma local_wall_eq: "local_wall z t = t + zone_off z t"
  by (simp add: local_wall_def astimezone_def Let_def)

lemma same_hour_same_date:
  assumes "a div HOUR = b div HOUR"
  shows "date_of a = date_of b" and "hour_of a = hour_of b"
proof -
  have H: "HOUR > 0" by (simp add: HOUR_def)
  have day: "x div DAY = (x div HOUR) div 24" for x
    using H zdiv_zmult2_eq [of 24 x HOUR] by (simp add: DAY_def mult.commute)
  have "x mod DAY div HOUR = (x div HOUR) mod 24" for x
    using H zmod_zmult2_eq [of 24 x HOUR] by (simp add: DAY_def mult.commute)
  with day assms show "date_of a = date_of b" and "hour_of a = hour_of b"
    by (simp_all add: date_of_def hour_of_def)
qed

lemma within_hour:
  assumes "a \<le> x" and "x \<le> b" and "b < a + HOUR"
  shows "x div HOUR = a div HOUR \<or> x div HOUR = b div HOUR"
proof -
  have H: "HOUR > 0" by (simp add: HOUR_def)
  have "a div HOUR \<le> x div HOUR" "x div HOUR \<le> b div HOUR" "b div HOUR \<le> (a + HOUR) div HOUR"
    using assms H by (simp_all only: zdiv_mono1)
  moreover have "(a + HOUR) div HOUR = a div HOUR + 1" using H by simp
  ultimately show ?thesis by linarith
qed


lemma open_at_cong:
  assumes "local_wall z t div HOUR = local_wall z u div HOUR"
  shows "open_at z windows excluded t \<longleftrightarrow> open_at z windows excluded u"
  using same_hour_same_date [OF assms] by (simp add: open_at_def in_window_def)

lemma steady_offset:
  assumes "steady z start end" and "start \<le> t" and "t < start + HOUR" and "t < end"
  shows "zone_off z t = zone_off z start"
  using assms unfolding steady_def by (metis add.right_neutral mult_zero_left of_nat_0)

lemma steady_tail:
  assumes "steady z start end"
  shows "steady z (min (start + HOUR) end) end"
proof (cases "start + HOUR \<le> end")
  case True
  have "zone_off z t = zone_off z (start + HOUR + int k * HOUR)"
    if "start + HOUR + int k * HOUR \<le> t" "t < start + HOUR + int k * HOUR + HOUR" "t < end" for k t
  proof -
    have "start + int (Suc k) * HOUR = start + HOUR + int k * HOUR" by (simp add: distrib_right)
    with assms that show ?thesis unfolding steady_def by metis
  qed
  with True show ?thesis by (simp add: steady_def min_absorb1)
next
  case False
  have "0 \<le> int k * HOUR" for k by (simp add: HOUR_def)
  then have "\<not> t < end" if "end + int k * HOUR \<le> t" for k t
    using that by (metis add_increasing2 order_refl linorder_not_le order_trans)
  with False show ?thesis by (auto simp: steady_def min_def)
qed

lemma open_segment_iff:
  assumes "steady z cursor end" and "cursor < end" and "segment_end = min (cursor + HOUR) end"
  shows "open_at z windows excluded cursor \<and> open_at z windows excluded (segment_end - 1)
    \<longleftrightarrow> (\<forall>t. cursor \<le> t \<and> t < segment_end \<longrightarrow> open_at z windows excluded t)"
proof
  assume ends: "open_at z windows excluded cursor \<and> open_at z windows excluded (segment_end - 1)"
  show "\<forall>t. cursor \<le> t \<and> t < segment_end \<longrightarrow> open_at z windows excluded t"
  proof (intro allI impI)
    fix t
    assume t: "cursor \<le> t \<and> t < segment_end"
    have off: "local_wall z u = u + zone_off z cursor" if "cursor \<le> u" "u < segment_end" for u
      using steady_offset [OF assms(1), of u] that assms(3) by (simp add: local_wall_eq)
    have "local_wall z t div HOUR = local_wall z cursor div HOUR
        \<or> local_wall z t div HOUR = local_wall z (segment_end - 1) div HOUR"
    proof (rule within_hour)
      show "local_wall z cursor \<le> local_wall z t" using off [of cursor] off [of t] t by simp
      show "local_wall z t \<le> local_wall z (segment_end - 1)" using off [of t] off [of "segment_end - 1"] t by simp
      show "local_wall z (segment_end - 1) < local_wall z cursor + HOUR"
      proof -
        have "cursor \<le> segment_end - 1" "segment_end - 1 < cursor + HOUR" using t assms(3) by linarith+
        then show ?thesis using off [of cursor] off [of "segment_end - 1"] t by simp
      qed
    qed
    with ends open_at_cong show "open_at z windows excluded t" by blast
  qed
qed (use assms in \<open>auto simp: HOUR_def min_def\<close>)

lemma segments_available_iff:
  assumes "steady z cursor end"
  shows "segments_available z windows excluded cursor end
    \<longleftrightarrow> (\<forall>t. cursor \<le> t \<and> t < end \<longrightarrow> open_at z windows excluded t)"
  using assms
proof (induction z windows excluded cursor "end" rule: segments_available.induct)
  case (1 z windows excluded cursor "end")
  show ?case
  proof (cases "cursor < end")
    case False
    then show ?thesis by (subst segments_available.simps) auto
  next
    case True
    let ?e = "min (cursor + HOUR) end"
    have step: "segments_available z windows excluded cursor end \<longleftrightarrow>
        open_at z windows excluded cursor \<and> open_at z windows excluded (?e - 1)
        \<and> segments_available z windows excluded ?e end"
      using True by (subst segments_available.simps)
        (auto simp: Let_def open_at_def list_ex_iff SLOT_DURATION_def)
    have IH: "segments_available z windows excluded ?e end
        \<longleftrightarrow> (\<forall>t. ?e \<le> t \<and> t < end \<longrightarrow> open_at z windows excluded t)"
      if "open_at z windows excluded cursor \<and> open_at z windows excluded (?e - 1)"
      using that "1.IH" [OF True refl refl refl] steady_tail [OF "1.prems"]
      by (auto simp: open_at_def SLOT_DURATION_def list_ex_iff)
    have "(\<forall>t. cursor \<le> t \<and> t < end \<longrightarrow> open_at z windows excluded t)
        \<longleftrightarrow> (\<forall>t. cursor \<le> t \<and> t < ?e \<longrightarrow> open_at z windows excluded t)
          \<and> (\<forall>t. ?e \<le> t \<and> t < end \<longrightarrow> open_at z windows excluded t)"
    proof -
      have "cursor \<le> ?e" "?e \<le> end" using True by (auto simp: HOUR_def)
      then show ?thesis by (meson linorder_not_less order_less_le_trans order_trans)
    qed
    with step IH open_segment_iff [OF "1.prems" True refl] show ?thesis by blast
  qed
qed

text \<open>
  C26: looking at the first and the last microsecond of every hour is enough. Where the zone's
  offset does not change inside the checked hours, a slot is available exactly when every moment
  of it lies on a permitted date and, if there are weekly windows, inside one of them.
\<close>

theorem slot_is_available_exact:
  assumes "is_aware starts" and "is_aware ends" and "instant starts < instant ends"
    and "instant ends - instant starts \<le> MAX_FLEXIBLE_CALENDAR_HORIZON"
    and "steady z (instant starts) (instant ends)"
  shows "slot_is_available z starts ends windows excluded
    = Inr (\<forall>t. instant starts \<le> t \<and> t < instant ends \<longrightarrow> open_at z windows excluded t)"
  using assms segments_available_iff [OF assms(5)] by (simp add: slot_is_available_def Let_def)


subsection \<open>What the calendar contains\<close>

abbreviation week_at :: "zone \<Rightarrow> int \<Rightarrow> int \<times> int" where
  "week_at z t \<equiv> isocalendar (date_of (local_wall z t))"

definition slot_at :: "zone \<Rightarrow> int \<Rightarrow> PlanningSlot" where
  "slot_at z t = \<lparr>starts_at = utc_dt t, ends_at = utc_dt (t + HOUR), capacity_week_key = week_key (week_at z t)\<rparr>"

definition free_at :: "zone \<Rightarrow> WeeklyAvailabilityWindow list \<Rightarrow> int set \<Rightarrow> int \<Rightarrow> bool" where
  "free_at z windows excluded t \<longleftrightarrow> segments_available z windows excluded t (t + HOUR)"

text \<open>
  Hours \<open>ts\<close> chosen from \<open>start\<close> on: an ordered part of the hourly grid, all free; no week beyond its
  hours; and a free hour is left out only when its week was full by then.
\<close>

definition chosen_hours :: "zone \<Rightarrow> int \<Rightarrow> int \<Rightarrow> WeeklyAvailabilityWindow list \<Rightarrow> int set
    \<Rightarrow> (int \<times> int \<Rightarrow> int) \<Rightarrow> int \<Rightarrow> int list \<Rightarrow> bool" where
  "chosen_hours z target hours windows excluded allocated start ts \<longleftrightarrow>
     sorted_wrt (\<lambda>a b. a + HOUR \<le> b) ts
     \<and> (\<forall>t \<in> set ts. start \<le> t \<and> t + HOUR \<le> target \<and> HOUR dvd t - start \<and> free_at z windows excluded t)
     \<and> (\<forall>wk. allocated wk \<le> hours \<longrightarrow> allocated wk + int (length (filter (\<lambda>t. week_at z t = wk) ts)) \<le> hours)
     \<and> (\<forall>t. start \<le> t \<and> t + HOUR \<le> target \<and> HOUR dvd t - start \<and> free_at z windows excluded t
          \<and> t \<notin> set ts \<longrightarrow> hours \<le> allocated (week_at z t)
            + int (length (filter (\<lambda>u. week_at z u = week_at z t \<and> u < t) ts)))"

lemma slot_is_available_hour:
  "slot_is_available z (utc_dt t) (utc_dt (t + SLOT_DURATION)) windows excluded = Inr (free_at z windows excluded t)"
  by (simp add: slot_is_available_def in_utc_aware free_at_def SLOT_DURATION_def
      MAX_FLEXIBLE_CALENDAR_HORIZON_def DAY_def) (simp add: HOUR_def)

lemma slots_from_step:
  assumes "start + HOUR \<le> target"
  shows "slots_from z target hours windows excluded allocated start =
    (if allocated (week_at z start) < hours \<and> free_at z windows excluded start
     then and_then (slots_from z target hours windows excluded
        (allocated(week_at z start := allocated (week_at z start) + 1)) (start + HOUR))
        (\<lambda>rest. Inr (slot_at z start # rest))
     else slots_from z target hours windows excluded allocated (start + HOUR))"
  using assms
  by (subst slots_from.simps) (simp add: Let_def slot_is_available_hour [unfolded SLOT_DURATION_def]
      SLOT_DURATION_def slot_at_def)

lemma grid_tail:
  assumes "HOUR dvd t - start" and "start \<le> t" and "t \<noteq> start"
  shows "start + HOUR \<le> t" and "HOUR dvd t - (start + HOUR)"
proof -
  have "HOUR \<le> t - start" using assms by (intro zdvd_imp_le) auto
  then show "start + HOUR \<le> t" by simp
  have "HOUR dvd (t - start) - HOUR" using assms(1) by (rule dvd_diff) simp
  then show "HOUR dvd t - (start + HOUR)" by (simp add: algebra_simps)
qed

lemma grid_untail: "HOUR dvd t - (start + HOUR) \<Longrightarrow> HOUR dvd t - start"
  using dvd_add [of HOUR "t - (start + HOUR)" HOUR] by simp

lemma chosen_hours_skip:
  assumes "chosen_hours z target hours windows excluded allocated (start + HOUR) ts"
    and "\<not> (allocated (week_at z start) < hours \<and> free_at z windows excluded start)"
  shows "chosen_hours z target hours windows excluded allocated start ts"
proof -
  note C = assms(1) [unfolded chosen_hours_def]
  have H: "0 < HOUR" by (simp add: HOUR_def)
  have "hours \<le> allocated (week_at z t) + int (length (filter (\<lambda>u. week_at z u = week_at z t \<and> u < t) ts))"
    if t: "start \<le> t" "t + HOUR \<le> target" "HOUR dvd t - start" "free_at z windows excluded t" "t \<notin> set ts" for t
  proof (cases "t = start")
    case True
    with t(4) assms(2) have "hours \<le> allocated (week_at z t)" by simp
    then show ?thesis by (simp add: add_increasing2)
  next
    case False
    with grid_tail [OF t(3,1)] t C show ?thesis by simp
  qed
  moreover have "\<forall>t \<in> set ts. start \<le> t \<and> HOUR dvd t - start"
    using C H grid_untail by fastforce
  ultimately show ?thesis using C by (simp add: chosen_hours_def)
qed

lemma chosen_hours_take:
  assumes "chosen_hours z target hours windows excluded
      (allocated(week_at z start := allocated (week_at z start) + 1)) (start + HOUR) ts"
    and "allocated (week_at z start) < hours" and "free_at z windows excluded start"
    and "start + HOUR \<le> target"
  shows "chosen_hours z target hours windows excluded allocated start (start # ts)"
proof -
  note C = assms(1) [unfolded chosen_hours_def]
  have H: "0 < HOUR" by (simp add: HOUR_def)
  have after: "\<forall>t \<in> set ts. start + HOUR \<le> t" using C by blast
  have cap: "allocated wk + int (length (filter (\<lambda>t. week_at z t = wk) (start # ts))) \<le> hours"
    if "allocated wk \<le> hours" for wk
  proof -
    let ?a = "allocated(week_at z start := allocated (week_at z start) + 1)"
    have "?a wk \<le> hours \<longrightarrow> ?a wk + int (length (filter (\<lambda>t. week_at z t = wk) ts)) \<le> hours"
      using C by blast
    with that assms(2) show ?thesis by (cases "wk = week_at z start") auto
  qed
  have full: "hours \<le> allocated (week_at z t)
      + int (length (filter (\<lambda>u. week_at z u = week_at z t \<and> u < t) (start # ts)))"
    if t: "start \<le> t" "t + HOUR \<le> target" "HOUR dvd t - start" "free_at z windows excluded t"
      "t \<notin> set (start # ts)" for t
  proof -
    from t have "t \<noteq> start" by simp
    from grid_tail [OF t(3,1) this] t C
    have "hours \<le> (allocated(week_at z start := allocated (week_at z start) + 1)) (week_at z t)
        + int (length (filter (\<lambda>u. week_at z u = week_at z t \<and> u < t) ts))" by simp
    with t(1) \<open>t \<noteq> start\<close> show ?thesis by (cases "week_at z t = week_at z start") auto
  qed
  have "\<forall>t \<in> set ts. start \<le> t \<and> HOUR dvd t - start"
    using C H grid_untail by fastforce
  with C after cap full assms(3,4) H show ?thesis
    unfolding chosen_hours_def by (simp add: less_imp_le)
qed

lemma slots_from_spec:
  "\<exists>ts. slots_from z target hours windows excluded allocated start = Inr (map (slot_at z) ts)
     \<and> chosen_hours z target hours windows excluded allocated start ts"
proof (induction z target hours windows excluded allocated start rule: slots_from.induct)
  case (1 z target hours windows excluded allocated start)
  show ?case
  proof (cases "start + HOUR \<le> target")
    case False
    then show ?thesis
      by (intro exI [of _ "[]"], subst slots_from.simps)
        (auto simp: chosen_hours_def SLOT_DURATION_def)
  next
    case True
    show ?thesis
    proof (cases "allocated (week_at z start) < hours \<and> free_at z windows excluded start")
      case take: True
      with "1.IH"(2) [OF _ refl refl refl, of True] True obtain ts where
        "slots_from z target hours windows excluded
          (allocated(week_at z start := allocated (week_at z start) + 1)) (start + HOUR) = Inr (map (slot_at z) ts)"
        "chosen_hours z target hours windows excluded
          (allocated(week_at z start := allocated (week_at z start) + 1)) (start + HOUR) ts"
        unfolding SLOT_DURATION_def by blast
      then show ?thesis
        using take chosen_hours_take [OF _ _ _ True] slots_from_step [OF True]
        by (intro exI [of _ "start # ts"]) simp
    next
      case skip: False
      with "1.IH"(1) [OF _ refl refl] True obtain ts where
        "slots_from z target hours windows excluded allocated (start + HOUR) = Inr (map (slot_at z) ts)"
        "chosen_hours z target hours windows excluded allocated (start + HOUR) ts"
        by (auto simp: SLOT_DURATION_def)
      then show ?thesis
        using chosen_hours_skip [where start = start and allocated = allocated, OF _ skip] slots_from_step [OF True] skip
        by (intro exI [of _ ts]) auto
    qed
  qed
qed


text \<open>Rounding down may change the offset; the next full hour is late enough if it loses at most an hour.\<close>

lemma next_hour_not_before:
  assumes "wall_off (dt_wall v - dt_wall v mod HOUR) - dt_off v \<le> HOUR - dt_wall v mod HOUR"
  shows "instant v \<le> next_hour wall_off v"
  using assms by (auto simp: next_hour_def Let_def instant_def SLOT_DURATION_def)

lemma flexible_weekly_slots_spec:
  assumes "flexible_weekly_slots z wall_off started target hours windows dates = Inr slots"
  shows "\<exists>ts. slots = map (slot_at z) ts
    \<and> chosen_hours z (instant target) hours windows (set dates) (\<lambda>_. 0) (next_hour wall_off started) ts
    \<or> instant target \<le> instant started \<and> slots = []"
proof (cases "instant target \<le> instant started")
  case False
  with assms have "slots_from z (instant target) hours windows (set dates) (\<lambda>_. 0)
      (next_hour wall_off started) = Inr slots"
    by (auto simp: flexible_weekly_slots_def split: if_splits)
  then show ?thesis
    using slots_from_spec [of z "instant target" hours windows "set dates" "\<lambda>_. 0" "next_hour wall_off started"]
    by auto
qed (use assms in \<open>auto simp: flexible_weekly_slots_def split: if_splits\<close>)

text \<open>With an hour a week to give, the calendar is empty only if no hour of the grid is free.\<close>

lemma flexible_weekly_slots_nonempty:
  assumes "flexible_weekly_slots z wall_off started target hours windows dates = Inr slots"
    and "1 \<le> hours" and "instant started < instant target"
  shows "slots \<noteq> [] \<longleftrightarrow> (\<exists>t. next_hour wall_off started \<le> t \<and> t + HOUR \<le> instant target
    \<and> HOUR dvd t - next_hour wall_off started \<and> free_at z windows (set dates) t)"
proof -
  from flexible_weekly_slots_spec [OF assms(1)] assms(3) obtain ts where
    slots: "slots = map (slot_at z) ts" and C: "chosen_hours z (instant target) hours windows (set dates)
      (\<lambda>_. 0) (next_hour wall_off started) ts" by auto
  show ?thesis
  proof
    assume "slots \<noteq> []"
    then obtain t where "t \<in> set ts" using slots by (cases ts) auto
    with C show "\<exists>t. next_hour wall_off started \<le> t \<and> t + HOUR \<le> instant target
        \<and> HOUR dvd t - next_hour wall_off started \<and> free_at z windows (set dates) t"
      unfolding chosen_hours_def by blast
  next
    assume "\<exists>t. next_hour wall_off started \<le> t \<and> t + HOUR \<le> instant target
      \<and> HOUR dvd t - next_hour wall_off started \<and> free_at z windows (set dates) t"
    with C assms(2) show "slots \<noteq> []" unfolding slots by (cases ts) (auto simp: chosen_hours_def)
  qed
qed

text \<open>The week keys of the chosen hours, counted.\<close>

lemma count_week_keys:
  "count_list (map (\<lambda>s. capacity_week_key s) (map (slot_at z) ts)) (week_key wk)
     = length (filter (\<lambda>t. week_at z t = wk) ts)"
  by (induction ts) (auto simp: slot_at_def week_key_inject)

text \<open>
  C24: the calendar never offers more hours in a week than the user has, and it is greedy: a free
  hour of the grid inside the horizon is missing only if the hours of its week were already all
  taken by earlier slots.
\<close>

theorem calendar_respects_weekly_hours:
  assumes "flexible_weekly_slots z wall_off started target hours windows dates = Inr slots"
    and "instant started < instant target"
  shows "(\<forall>k. int (count_list (map capacity_week_key slots) k) \<le> hours)
    \<and> (\<forall>t. next_hour wall_off started \<le> t \<and> t + HOUR \<le> instant target
         \<and> HOUR dvd t - next_hour wall_off started \<and> free_at z windows (set dates) t
         \<and> slot_at z t \<notin> set slots
         \<longrightarrow> int (count_list (map capacity_week_key slots) (week_key (week_at z t))) = hours)"
proof -
  from flexible_weekly_slots_spec [OF assms(1)] assms(2) obtain ts where
    slots: "slots = map (slot_at z) ts" and C: "chosen_hours z (instant target) hours windows (set dates)
      (\<lambda>_. 0) (next_hour wall_off started) ts" by auto
  have hours: "0 \<le> hours" using assms by (auto simp: flexible_weekly_slots_def split: if_splits)
  have cap: "int (length (filter (\<lambda>t. week_at z t = wk) ts)) \<le> hours" for wk
    using C hours by (cases wk) (simp add: chosen_hours_def)
  have count: "count_list (map capacity_week_key slots) (week_key wk) = length (filter (\<lambda>t. week_at z t = wk) ts)"
    for wk using count_week_keys [of z ts wk] by (simp add: slots)
  have "int (count_list (map capacity_week_key slots) k) \<le> hours" for k
  proof (cases "k \<in> set (map capacity_week_key slots)")
    case True
    then obtain t where "k = week_key (week_at z t)" by (auto simp: slots slot_at_def)
    then show ?thesis using cap by (simp add: count)
  qed (use hours in \<open>simp add: count_list_0_iff\<close>)
  moreover have "int (count_list (map capacity_week_key slots) (week_key (week_at z t))) = hours"
    if t: "next_hour wall_off started \<le> t" "t + HOUR \<le> instant target" "HOUR dvd t - next_hour wall_off started"
      "free_at z windows (set dates) t" "slot_at z t \<notin> set slots" for t
  proof -
    have "t \<notin> set ts" using t(5) by (auto simp: slots)
    with t C have "hours \<le> int (length (filter (\<lambda>u. week_at z u = week_at z t \<and> u < t) ts))"
      by (simp add: chosen_hours_def)
    also have "\<dots> \<le> int (length (filter (\<lambda>u. week_at z u = week_at z t) ts))"
      by (induction ts) auto
    finally show ?thesis using cap [of "week_at z t"] by (simp add: count)
  qed
  ultimately show ?thesis by blast
qed


subsection \<open>The calendar is accepted by the planning problem\<close>

lemma week_key_not_blank: "\<not> blank (week_key wk)"
  by (simp add: blank_iff week_key_def is_space_def)

lemma slot_at_valid: "slot_post_init (slot_at z t) = None"
  by (simp add: slot_post_init_def slot_at_def in_utc_aware week_key_not_blank dt_simps in_utc_ok
      SLOT_DURATION_def)

lemma slots_at_ordered:
  assumes "sorted_wrt (\<lambda>a b. a + HOUR \<le> b) ts"
  shows "slots_ordered (map (slot_at z) ts)" and "\<not> slots_overlap (map (slot_at z) ts)"
proof -
  have "\<not> dt_less (starts_at (slot_at z b)) (starts_at (slot_at z a))" if "a + HOUR \<le> b" for a b
    using that by (simp add: dt_less_def slot_at_def dt_simps in_utc_ok HOUR_def)
  with assms show "slots_ordered (map (slot_at z) ts)"
    by (induction ts) (auto simp: list_all_iff)
  have "\<not> dt_less (starts_at (slot_at z b)) (ends_at (slot_at z a))" if "a + HOUR \<le> b" for a b
    using that by (simp add: dt_less_def slot_at_def dt_simps in_utc_ok)
  with assms show "\<not> slots_overlap (map (slot_at z) ts)"
  proof (induction ts)
    case (Cons a ts)
    then show ?case by (cases ts) auto
  qed simp
qed

text \<open>
  C25: the slots of a nonempty calendar are one-hour UTC slots with a week key, in order and without
  overlap, and none ends past the target: the checks \<open>PlanningProblem\<close> makes of them. Its remaining
  check, that no slot lies before the start of planning, holds when rounding the start down to the
  hour loses at most one hour of real time: the offset of the rounded wall clock may exceed the
  offset at the start by no more than what is left of the hour. It fails otherwise, see
  \<open>calendar_may_start_early\<close>.
\<close>

theorem calendar_fits_planning_problem:
  assumes "flexible_weekly_slots z wall_off started target hours windows dates = Inr slots"
    and "slots \<noteq> []" and "dt_ok started" and "dt_ok target"
  shows "list_all (\<lambda>s. slot_post_init s = None \<and> in_utc (starts_at s) \<and> in_utc (ends_at s)) slots
    \<and> slots_ordered slots \<and> \<not> slots_overlap slots \<and> \<not> dt_less target (ends_at (last slots))
    \<and> (wall_off (dt_wall started - dt_wall started mod HOUR) - dt_off started
          \<le> HOUR - dt_wall started mod HOUR
        \<longrightarrow> \<not> dt_less (starts_at (hd slots)) started)"
proof -
  from flexible_weekly_slots_spec [OF assms(1)] assms(2) obtain ts where
    slots: "slots = map (slot_at z) ts" and C: "chosen_hours z (instant target) hours windows (set dates)
      (\<lambda>_. 0) (next_hour wall_off started) ts" by auto
  have ne: "ts \<noteq> []" using assms(2) slots by simp
  have bounds: "next_hour wall_off started \<le> t \<and> t + HOUR \<le> instant target" if "t \<in> set ts" for t
    using C that by (simp add: chosen_hours_def)
  have sorted: "sorted_wrt (\<lambda>a b. a + HOUR \<le> b) ts" using C by (simp add: chosen_hours_def)
  have first: "\<not> dt_less (starts_at (hd slots)) started"
    if "wall_off (dt_wall started - dt_wall started mod HOUR) - dt_off started \<le> HOUR - dt_wall started mod HOUR"
    using bounds [OF hd_in_set [OF ne]] next_hour_not_before [of wall_off started, OF that] assms(3) ne
    by (simp add: slots hd_map dt_less_def slot_at_def dt_simps)
  have final: "\<not> dt_less target (ends_at (last slots))"
    using bounds [OF last_in_set [OF ne]] assms(4) ne
    by (simp add: slots last_map dt_less_def slot_at_def dt_simps)
  have "list_all (\<lambda>s. slot_post_init s = None \<and> in_utc (starts_at s) \<and> in_utc (ends_at s)) slots"
    by (auto simp: slots list_all_iff slot_at_valid) (simp_all add: slot_at_def)
  with first final slots_at_ordered [OF sorted] show ?thesis by (simp add: slots)
qed

text \<open>
  Australia/Lord_Howe goes back from +11:00 to +10:30 at 2026-04-04 15:00 UTC. Planning that starts a
  quarter of an hour later starts at 01:45 in the repeated half hour; 01:00 of that wall clock is
  still at +11:00, so rounding down loses an hour and a quarter and the next full hour is 15:00 UTC.
\<close>

definition lord_howe :: zone where
  "lord_howe = \<lparr>zone_tz = TzZone ''Australia/Lord_Howe'',
     zone_off = (\<lambda>t. if t < 63910998000000000 then 39600000000 else 37800000000)\<rparr>"

definition lord_howe_wall :: "int \<Rightarrow> int" where
  "lord_howe_wall wall = (if wall < 63911035800000000 then 39600000000 else 37800000000)"

definition lord_howe_start :: datetime where
  "lord_howe_start = astimezone lord_howe (utc_dt 63910998900000000)"

lemma lord_howe_next_hour: "next_hour lord_howe_wall lord_howe_start = 63910998000000000"
  by (simp add: next_hour_def Let_def lord_howe_start_def lord_howe_wall_def lord_howe_def astimezone_def
      instant_def utc_dt_def HOUR_def SLOT_DURATION_def)

lemma calendar_may_start_early:
  "\<exists>slots. flexible_weekly_slots lord_howe lord_howe_wall lord_howe_start (utc_dt 63911001600000000) 1 [] [] = Inr slots
     \<and> slots \<noteq> [] \<and> dt_less (starts_at (hd slots)) lord_howe_start"
proof -
  have instant: "instant lord_howe_start = 63910998900000000"
    by (simp add: lord_howe_start_def astimezone_def Let_def instant_def utc_dt_def)
  have aware: "is_aware lord_howe_start" by (simp add: lord_howe_start_def astimezone_def Let_def is_aware_def)
  have free: "free_at lord_howe [] {} 63910998000000000"
    unfolding free_at_def
    by (subst segments_available.simps, subst segments_available.simps) (simp add: HOUR_def SLOT_DURATION_def)
  have "slots_from lord_howe 63911001600000000 1 [] {} (\<lambda>_. 0) 63910998000000000
      = Inr [slot_at lord_howe 63910998000000000]"
  proof -
    have stop: "slots_from lord_howe 63911001600000000 1 [] {} alloc 63911001600000000 = Inr []" for alloc
      by (subst slots_from.simps) (simp add: SLOT_DURATION_def HOUR_def)
    show ?thesis
      using slots_from_step [of 63910998000000000 63911001600000000 lord_howe 1 "[]" "{}" "\<lambda>_. 0"] free stop
      by (simp add: HOUR_def)
  qed
  then have "flexible_weekly_slots lord_howe lord_howe_wall lord_howe_start (utc_dt 63911001600000000) 1 [] []
      = Inr [slot_at lord_howe 63910998000000000]"
    unfolding flexible_weekly_slots_def lord_howe_next_hour instant
    using aware by (simp add: in_utc_aware MAX_FLEXIBLE_CALENDAR_HORIZON_def DAY_def HOUR_def)
  then show ?thesis
    by (simp add: dt_less_def dt_diff_def slot_at_def instant)
      (simp add: lord_howe_start_def lord_howe_def astimezone_def Let_def utc_dt_def)
qed

subsection \<open>Remaining effort\<close>

text \<open>
  For a credit between 0 and 1 the remaining effort is the least whole number of hours that
  covers the uncredited share, never more than the base effort, and it is zero only with full
  credit or no base effort.
\<close>

theorem remaining_learning_hours_least:
  assumes "0 \<le> credit" and "credit \<le> 1" and "0 \<le> base"
  shows "(\<forall>h. remaining_learning_hours base credit \<le> h \<longleftrightarrow> of_int base * (1 - credit) \<le> of_int h)
    \<and> remaining_learning_hours base credit \<le> base
    \<and> (remaining_learning_hours base credit = 0 \<longleftrightarrow> credit = 1 \<or> base = 0)"
proof -
  let ?x = "of_int base * (1 - credit) :: rat"
  have nonneg: "0 \<le> ?x" using assms by simp
  then have eq: "remaining_learning_hours base credit = \<lceil>?x\<rceil>"
    by (simp add: remaining_learning_hours_def max_def)
  have "?x \<le> of_int base * 1" using assms by (intro mult_left_mono) auto
  then have "\<lceil>?x\<rceil> \<le> base" by (simp add: ceiling_le_iff)
  moreover have "\<lceil>?x\<rceil> = 0 \<longleftrightarrow> ?x = 0" using nonneg by (auto simp: ceiling_eq_iff)
  ultimately show ?thesis unfolding eq by (auto simp: ceiling_le_iff)
qed


theorem remaining_learning_hours_least_witness:
  "remaining_learning_hours 10 (1 / 4) \<le> 10 \<and> remaining_learning_hours 10 (1 / 4) \<noteq> 0
   \<and> remaining_learning_hours 10 (1 / 4) \<le> 8"
  using remaining_learning_hours_least [of "1 / 4" 10] by auto

subsection \<open>A calendar by example\<close>

text \<open>Planning from 00:30 to 04:00 UTC with two hours a week: the hours from 01:00 and 02:00.\<close>

definition utc_zone :: zone where
  "utc_zone = \<lparr>zone_tz = TzUTC, zone_off = (\<lambda>_. 0)\<rparr>"

abbreviation half_past :: datetime where
  "half_past \<equiv> utc_dt 1800000000"

lemma steady_utc: "steady utc_zone a b"
  by (simp add: steady_def utc_zone_def)

lemma free_always: "free_at utc_zone [] {} t"
  unfolding free_at_def segments_available_iff [OF steady_utc] by (simp add: open_at_def)

lemma example_next_hour: "next_hour (\<lambda>_. 0) half_past = 3600000000"
  by (simp add: next_hour_def Let_def utc_dt_def instant_def HOUR_def SLOT_DURATION_def)

lemma example_week: "0 \<le> t \<Longrightarrow> t < 86400000000 \<Longrightarrow> week_at utc_zone t = isocalendar 0"
  by (simp add: local_wall_eq utc_zone_def date_of_def DAY_def HOUR_def)

lemma example_slots:
  "flexible_weekly_slots utc_zone (\<lambda>_. 0) half_past (utc_dt 14400000000) 2 [] []
     = Inr (map (slot_at utc_zone) [3600000000, 7200000000])"
proof -
  let ?f = "\<lambda>alloc t. slots_from utc_zone 14400000000 2 [] {} alloc t"
  have step: "?f alloc t = (if alloc (isocalendar 0) < 2
      then and_then (?f (alloc(isocalendar 0 := alloc (isocalendar 0) + 1)) (t + 3600000000))
        (\<lambda>rest. Inr (slot_at utc_zone t # rest))
      else ?f alloc (t + 3600000000))" if "0 \<le> t" "t + 3600000000 \<le> 14400000000" for alloc t
    using slots_from_step [of t 14400000000 utc_zone 2 "[]" "{}" alloc] that example_week [of t] free_always
    by (simp add: HOUR_def)
  have stop: "?f alloc 14400000000 = Inr []" for alloc
    by (subst slots_from.simps) (simp add: SLOT_DURATION_def HOUR_def)
  have "?f (\<lambda>_. 0) 3600000000 = Inr (map (slot_at utc_zone) [3600000000, 7200000000])"
    by (simp add: step stop)
  then show ?thesis
    unfolding flexible_weekly_slots_def example_next_hour
    by (simp add: in_utc_aware MAX_FLEXIBLE_CALENDAR_HORIZON_def DAY_def HOUR_def)
qed

theorem calendar_respects_weekly_hours_witness:
  "int (count_list (map capacity_week_key (map (slot_at utc_zone) [3600000000, 7200000000]))
     (week_key (week_at utc_zone 10800000000))) = 2"
proof -
  have "slot_at utc_zone 10800000000 \<notin> set (map (slot_at utc_zone) [3600000000, 7200000000])"
    by (simp add: slot_at_def utc_dt_def)
  with calendar_respects_weekly_hours [OF example_slots] show ?thesis
    unfolding example_next_hour by (simp add: free_always HOUR_def)
qed

theorem calendar_fits_planning_problem_witness:
  "slots_ordered (map (slot_at utc_zone) [3600000000, 7200000000])
   \<and> \<not> slots_overlap (map (slot_at utc_zone) [3600000000, 7200000000])
   \<and> \<not> dt_less (starts_at (hd (map (slot_at utc_zone) [3600000000, 7200000000]))) half_past"
  using calendar_fits_planning_problem [OF example_slots]
  by (simp add: dt_ok_def utc_dt_def HOUR_def)

theorem slot_is_available_exact_witness:
  "slot_is_available utc_zone (utc_dt 0) (utc_dt 7200000000)
     [\<lparr>weekday = 7, start_hour = 0, end_hour = 2\<rparr>] {} = Inr True"
proof -
  have "open_at utc_zone [\<lparr>weekday = 7, start_hour = 0, end_hour = 2\<rparr>] {} t"
    if "0 \<le> t" "t < 7200000000" for t
  proof -
    have "t div 3600000000 < 2" "0 \<le> t div 3600000000" using that by auto
    then show ?thesis
      using that by (simp add: open_at_def in_window_def local_wall_eq utc_zone_def date_of_def hour_of_def
          DAY_def HOUR_def isoweekday_def)
  qed
  with slot_is_available_exact [of "utc_dt 0" "utc_dt 7200000000" utc_zone
      "[\<lparr>weekday = 7, start_hour = 0, end_hour = 2\<rparr>]" "{}"] show ?thesis
    by (simp add: in_utc_aware steady_utc MAX_FLEXIBLE_CALENDAR_HORIZON_def DAY_def HOUR_def)
qed

end
