(* ===== verification/Goal_Validation.thy ===== *)
theory Goal_Validation
  imports Calendar
begin

section \<open>Goals and their deadlines\<close>

text \<open>
  \<open>src/jobtology_be/modules/goals/validation.py\<close> and \<open>write_validation.py\<close>. The time-zone
  database behind \<open>ZoneInfo\<close> is a parameter \<open>known_zone\<close>; the time \<open>now\<close> is an argument.
\<close>

subsection \<open>Planning input\<close>

datatype GoalPlanningValidationError =
    InvalidMinimumLeadTimeError int
  | NaiveReferenceTimeError
  | TargetByTooSoonError int
  | UnknownTimezoneError string
  | InvalidPlanningConstraints

definition policy_post_init :: "int \<Rightarrow> GoalPlanningValidationError option" where
  "policy_post_init minimum_lead_time =
     (if minimum_lead_time < 0 then Some (InvalidMinimumLeadTimeError minimum_lead_time) else None)"

record GoalPlanningInput =
  gi_target_by :: datetime
  gi_timezone :: string
  gi_original_time_phrase :: string
  gi_available_hours_per_week :: int
  gi_budget_mode :: BudgetMode
  gi_max_out_of_pocket_krw :: "int option"
  gi_fastest_path :: bool
  gi_needs_portfolio :: bool
  gi_career_switch :: bool

definition goal_input_valid :: "GoalPlanningInput \<Rightarrow> bool" where
  "goal_input_valid r \<longleftrightarrow> is_aware (gi_target_by r)
     \<and> 1 \<le> length (gi_timezone r) \<and> length (gi_timezone r) \<le> 100
     \<and> 1 \<le> length (gi_original_time_phrase r) \<and> length (gi_original_time_phrase r) \<le> 500"

record ValidatedGoalDeadline =
  vd_target_by :: datetime
  vd_timezone :: string
  vd_original_time_phrase :: string

record ValidatedGoalPlanningInput =
  vg_deadline :: ValidatedGoalDeadline
  vg_constraints :: PlanningConstraints

definition constraints_of_input :: "GoalPlanningInput \<Rightarrow> PlanningConstraints" where
  "constraints_of_input r =
     \<lparr>target_by = gi_target_by r, available_hours_per_week = gi_available_hours_per_week r,
      budget_mode = gi_budget_mode r, max_out_of_pocket_krw = gi_max_out_of_pocket_krw r,
      fastest_path = gi_fastest_path r, needs_portfolio = gi_needs_portfolio r,
      career_switch = gi_career_switch r, weekly_availability = [], unavailable_dates = []\<rparr>"

definition validate_goal_planning_input ::
  "(string \<Rightarrow> bool) \<Rightarrow> GoalPlanningInput \<Rightarrow> datetime \<Rightarrow> int
    \<Rightarrow> GoalPlanningValidationError + ValidatedGoalPlanningInput" where
  "validate_goal_planning_input known_zone request reference_time minimum_lead_time =
     (let constraints = constraints_of_input request in
      if \<not> constraints_valid constraints then Inl InvalidPlanningConstraints
      else if \<not> is_aware reference_time then Inl NaiveReferenceTimeError
      else if \<not> known_zone (gi_timezone request) then Inl (UnknownTimezoneError (gi_timezone request))
      else if instant (gi_target_by request) \<le> instant reference_time + minimum_lead_time
        then Inl (TargetByTooSoonError minimum_lead_time)
      else Inr \<lparr>vg_deadline = \<lparr>vd_target_by = gi_target_by request, vd_timezone = gi_timezone request,
                  vd_original_time_phrase = gi_original_time_phrase request\<rparr>,
               vg_constraints = constraints\<rparr>)"

subsection \<open>Before a goal is written\<close>

record GoalWriteValidationError =
  gw_field :: string
  gw_code :: string
  gw_message :: string

definition validate_goal_schedule ::
  "(string \<Rightarrow> bool) \<Rightarrow> datetime \<Rightarrow> string \<Rightarrow> datetime \<Rightarrow> bool \<Rightarrow> GoalWriteValidationError option" where
  "validate_goal_schedule known_zone target timezone now validate_deadline =
     (if \<not> known_zone timezone
        then Some \<lparr>gw_field = ''timezone'', gw_code = ''unknown_timezone'',
          gw_message = ''Choose a valid IANA timezone, such as Asia/Seoul or UTC.''\<rparr>
      else if \<not> is_aware target
        then Some \<lparr>gw_field = ''target_by'', gw_code = ''timezone_required'',
          gw_message = ''Include a timezone offset in the goal deadline.''\<rparr>
      else if \<not> validate_deadline then None
      else
        let elapsed = instant target - instant now in
        if elapsed \<le> 0
          then Some \<lparr>gw_field = ''target_by'', gw_code = ''deadline_not_future'',
            gw_message = ''Choose a goal deadline in the future.''\<rparr>
        else if elapsed > MAX_FLEXIBLE_CALENDAR_HORIZON
          then Some \<lparr>gw_field = ''target_by'', gw_code = ''deadline_out_of_range'',
            gw_message = ''Choose a goal deadline within the next 366 days.''\<rparr>
        else None)"

subsection \<open>Properties\<close>

text \<open>
  C29: planning a goal that passed \<open>validate_goal_schedule\<close> never fails to compute a calendar, and the
  calendar is empty only when there is nothing to offer. From the validation on, with at least one hour
  a week and in any time zone, \<open>flexible_weekly_slots\<close> returns slots, and it returns at least one
  exactly when the start lies before the deadline and a full hour of the grid between them is inside
  the weekly windows and on no excluded date. The validation itself does not promise such an hour: a
  deadline half an hour ahead passes it and has an empty calendar, which \<open>PlanningProblem\<close> rejects.
\<close>

theorem validated_schedule_calendar_exact:
  assumes "validate_goal_schedule known_zone target timezone now True = None"
    and "is_aware started" and "instant now \<le> instant started" and "1 \<le> hours"
  shows "\<exists>slots. flexible_weekly_slots z wall_off started target hours windows dates = Inr slots
    \<and> (slots \<noteq> [] \<longleftrightarrow> instant started < instant target
         \<and> (\<exists>t. next_hour wall_off started \<le> t \<and> t + HOUR \<le> instant target
              \<and> HOUR dvd t - next_hour wall_off started \<and> free_at z windows (set dates) t))"
proof -
  from assms(1) have target: "is_aware target"
    "instant target - instant now \<le> MAX_FLEXIBLE_CALENDAR_HORIZON"
    by (auto simp: validate_goal_schedule_def Let_def split: if_splits)
  then have "instant target - instant started \<le> MAX_FLEXIBLE_CALENDAR_HORIZON"
    using assms(3) by linarith
  then have "\<exists>slots. flexible_weekly_slots z wall_off started target hours windows dates = Inr slots"
    using assms(2,4) target(1) slots_from_spec [of z "instant target" hours windows "set dates" "\<lambda>_. 0"
        "next_hour wall_off started"]
    by (auto simp: flexible_weekly_slots_def)
  then obtain slots where slots: "flexible_weekly_slots z wall_off started target hours windows dates = Inr slots" ..
  show ?thesis
  proof (cases "instant started < instant target")
    case True
    with slots flexible_weekly_slots_nonempty [OF slots assms(4)] show ?thesis by blast
  next
    case False
    with slots show ?thesis by (auto simp: flexible_weekly_slots_def split: if_splits)
  qed
qed

text \<open>Half an hour before the deadline the calendar is empty, although the goal is accepted.\<close>

theorem validated_schedule_calendar_exact_witness:
  "(\<exists>slots. flexible_weekly_slots utc_zone (\<lambda>_. 0) half_past (utc_dt 14400000000) 2 [] [] = Inr slots \<and> slots \<noteq> [])
   \<and> validate_goal_schedule (\<lambda>_. True) (utc_dt 1800000000) ''UTC'' (utc_dt 0) True = None
   \<and> flexible_weekly_slots utc_zone (\<lambda>_. 0) (utc_dt 0) (utc_dt 1800000000) 2 [] [] = Inr []"
proof -
  have ok: "validate_goal_schedule (\<lambda>_. True) (utc_dt t) ''UTC'' (utc_dt 0) True = None"
    if "0 < t" "t \<le> 14400000000" for t
    using that by (simp add: validate_goal_schedule_def in_utc_aware MAX_FLEXIBLE_CALENDAR_HORIZON_def DAY_def HOUR_def)
  have start: "next_hour (\<lambda>_. 0) (utc_dt 0) = 0"
    by (simp add: next_hour_def utc_dt_def instant_def HOUR_def)
  have "\<exists>t \<ge> next_hour (\<lambda>_. 0) half_past. t + HOUR \<le> 14400000000 \<and> HOUR dvd t - next_hour (\<lambda>_. 0) half_past"
    unfolding example_next_hour by (intro exI [of _ 3600000000]) (simp add: HOUR_def)
  then have some: "\<exists>slots. flexible_weekly_slots utc_zone (\<lambda>_. 0) half_past (utc_dt 14400000000) 2 [] [] = Inr slots \<and> slots \<noteq> []"
    using validated_schedule_calendar_exact [OF ok [of 14400000000], of half_past 2 utc_zone "\<lambda>_. 0" "[]" "[]"]
    by (auto simp: in_utc_aware free_always)
  have "flexible_weekly_slots utc_zone (\<lambda>_. 0) (utc_dt 0) (utc_dt 1800000000) 2 [] [] = Inr []"
    using validated_schedule_calendar_exact [OF ok [of 1800000000], of "utc_dt 0" 2 utc_zone "\<lambda>_. 0" "[]" "[]"]
    by (auto simp: in_utc_aware start) (simp add: HOUR_def)
  with some ok [of 1800000000] show ?thesis by simp
qed

text \<open>
  A goal's planning input is accepted exactly when its constraints are valid, the time zone is
  known and the deadline lies strictly beyond the minimum lead time; the validated input carries
  the request's own deadline and constraints, which are valid planning constraints.
\<close>

theorem validate_goal_planning_input_exact:
  assumes "is_aware reference_time"
  shows "validate_goal_planning_input known_zone r reference_time lead = Inr v \<longleftrightarrow>
    constraints_valid (vg_constraints v) \<and> known_zone (gi_timezone r)
    \<and> instant reference_time + lead < instant (target_by (vg_constraints v))
    \<and> vg_constraints v = constraints_of_input r
    \<and> vg_deadline v = \<lparr>vd_target_by = gi_target_by r, vd_timezone = gi_timezone r,
        vd_original_time_phrase = gi_original_time_phrase r\<rparr>"
  using assms
  by (cases v) (auto simp: validate_goal_planning_input_def Let_def constraints_of_input_def)

definition sample_goal_input :: GoalPlanningInput where
  "sample_goal_input = \<lparr>gi_target_by = utc_dt 100, gi_timezone = ''UTC'', gi_original_time_phrase = ''soon'',
     gi_available_hours_per_week = 5, gi_budget_mode = REGULAR, gi_max_out_of_pocket_krw = None,
     gi_fastest_path = False, gi_needs_portfolio = False, gi_career_switch = False\<rparr>"

theorem validate_goal_planning_input_exact_witness:
  "\<exists>v. validate_goal_planning_input (\<lambda>_. True) sample_goal_input (utc_dt 0) 10 = Inr v
     \<and> vg_constraints v = constraints_of_input sample_goal_input"
proof -
  let ?v = "\<lparr>vg_deadline = \<lparr>vd_target_by = utc_dt 100, vd_timezone = ''UTC'',
     vd_original_time_phrase = ''soon''\<rparr>, vg_constraints = constraints_of_input sample_goal_input\<rparr>"
  have "constraints_valid (constraints_of_input sample_goal_input)"
    by (simp add: constraints_valid_def constraints_of_input_def sample_goal_input_def in_utc_aware
        non_overlapping_windows_def)
  then have "validate_goal_planning_input (\<lambda>_. True) sample_goal_input (utc_dt 0) 10 = Inr ?v"
    using validate_goal_planning_input_exact [of "utc_dt 0" "\<lambda>_. True" sample_goal_input 10 ?v]
    by (simp add: in_utc_aware) (simp add: sample_goal_input_def constraints_of_input_def)
  then show ?thesis by force
qed

end
