(* ===== verification/Profile_Normalizer.thy ===== *)
theory Profile_Normalizer
  imports Contracts
begin

section \<open>Normalizing a profile\<close>

text \<open>
  \<open>src/jobtology_be/modules/profiles/normalizer.py\<close>: resolving the capabilities a user entered
  against the capability catalog. The alias dictionary is the function from a lookup key to the
  entities that carry it; an absent key and an empty entry are both the empty set.
\<close>

subsection \<open>The normalizer\<close>

record CapabilityCatalogEntry =
  ce_entity_id :: string
  ce_aliases :: "string set"

datatype NormalizationError =
    UnknownEntityIdError string
  | ConflictingEntityIdError string string
  | UnknownExperienceCodeError string

record CatalogProfileNormalizer =
  cn_aliases :: "string \<Rightarrow> string list"
  cn_entity_ids :: "string set"
  cn_allowed_experience_codes :: "string set"

definition lookup_key :: "string \<Rightarrow> string" where
  "lookup_key v = casefold (py_strip v)"

definition alias_entity_ids :: "CapabilityCatalogEntry list \<Rightarrow> string \<Rightarrow> string set" where
  "alias_entity_ids entries key =
     ce_entity_id ` set (filter (\<lambda>e. key \<in> lookup_key ` ce_aliases e) entries)"

definition make_normalizer ::
  "CapabilityCatalogEntry list \<Rightarrow> string set \<Rightarrow> CatalogProfileNormalizer" where
  "make_normalizer entries allowed =
     \<lparr>cn_aliases = (\<lambda>key. sorted_list_of_set (alias_entity_ids entries key)),
      cn_entity_ids = ce_entity_id ` set entries,
      cn_allowed_experience_codes = allowed\<rparr>"

definition capability_as ::
  "CapabilityInput \<Rightarrow> string option \<Rightarrow> Resolution \<Rightarrow> NormalizedCapability" where
  "capability_as c entity resolution =
     \<lparr>nc_raw_text = ci_raw_text c, nc_entity_id = entity,
      nc_experience_codes = ci_experience_codes c, nc_resolution = resolution,
      nc_credit = ci_credit c\<rparr>"

definition normalize_capability ::
  "CatalogProfileNormalizer \<Rightarrow> CapabilityInput \<Rightarrow> NormalizationError + NormalizedCapability" where
  "normalize_capability n c =
     (case find (\<lambda>code. code \<notin> cn_allowed_experience_codes n) (ci_experience_codes c) of
        Some code \<Rightarrow> Inl (UnknownExperienceCodeError code)
      | None \<Rightarrow>
          let key = lookup_key (ci_raw_text c);
              candidates = (if key \<noteq> [] then cn_aliases n key else []) in
          (case ci_entity_id c of
             Some entity \<Rightarrow>
               if entity \<notin> cn_entity_ids n then Inl (UnknownEntityIdError entity)
               else if entity \<notin> set candidates
                 then Inl (ConflictingEntityIdError entity (ci_raw_text c))
               else Inr (capability_as c (Some entity) RESOLVED)
           | None \<Rightarrow>
               if length candidates = 1 then Inr (capability_as c (Some (hd candidates)) RESOLVED)
               else if length candidates > 1 then Inr (capability_as c None AMBIGUOUS)
               else Inr (capability_as c None UNRESOLVED)))"

definition normalize ::
  "CatalogProfileNormalizer \<Rightarrow> string \<Rightarrow> int \<Rightarrow> CapabilityInput list
    \<Rightarrow> NormalizationError + NormalizedProfile" where
  "normalize n user_id profile_version capabilities =
     and_then (collect (normalize_capability n) capabilities) (\<lambda>normalized.
       Inr \<lparr>np_user_id = user_id, np_profile_version = profile_version, np_capabilities = normalized\<rparr>)"

subsection \<open>What a normalized capability means\<close>

lemma capability_as_simps [simp]:
  "nc_raw_text (capability_as c e r) = ci_raw_text c" "nc_entity_id (capability_as c e r) = e"
  "nc_experience_codes (capability_as c e r) = ci_experience_codes c"
  "nc_resolution (capability_as c e r) = r" "nc_credit (capability_as c e r) = ci_credit c"
  by (simp_all add: capability_as_def)

lemma finite_alias_ids [simp]: "finite (alias_entity_ids entries key)"
  by (simp add: alias_entity_ids_def)

text \<open>The entities a raw text may stand for.\<close>

definition meanings :: "CapabilityCatalogEntry list \<Rightarrow> string \<Rightarrow> string set" where
  "meanings entries raw = (if lookup_key raw = [] then {} else alias_entity_ids entries (lookup_key raw))"

lemma candidates_set:
  "set (if lookup_key raw \<noteq> [] then cn_aliases (make_normalizer entries codes) (lookup_key raw) else [])
     = meanings entries raw"
  by (simp add: meanings_def make_normalizer_def)

lemma meanings_known: "meanings entries raw \<subseteq> ce_entity_id ` set entries"
  by (auto simp: meanings_def alias_entity_ids_def)

definition resolve :: "CapabilityCatalogEntry list \<Rightarrow> CapabilityInput \<Rightarrow> string option \<times> Resolution" where
  "resolve entries c =
     (case ci_entity_id c of
        Some e \<Rightarrow> (Some e, RESOLVED)
      | None \<Rightarrow>
          if card (meanings entries (ci_raw_text c)) = 1
          then (Some (the_elem (meanings entries (ci_raw_text c))), RESOLVED)
          else if meanings entries (ci_raw_text c) = {} then (None, UNRESOLVED) else (None, AMBIGUOUS))"

definition acceptable :: "CapabilityCatalogEntry list \<Rightarrow> string set \<Rightarrow> CapabilityInput \<Rightarrow> bool" where
  "acceptable entries codes c \<longleftrightarrow> set (ci_experience_codes c) \<subseteq> codes
     \<and> (case ci_entity_id c of None \<Rightarrow> True | Some e \<Rightarrow> e \<in> meanings entries (ci_raw_text c))"

lemma length_sorted_list: "length (sorted_list_of_set A) = card A"
  by (cases "finite A") (simp_all add: distinct_card [symmetric])

lemma hd_sorted_singleton: "card A = 1 \<Longrightarrow> hd (sorted_list_of_set A) = the_elem A"
  by (auto simp: card_1_singleton_iff)

lemma normalize_capability_Inr_iff:
  "normalize_capability (make_normalizer entries codes) c = Inr nc \<longleftrightarrow>
     acceptable entries codes c
     \<and> nc = capability_as c (fst (resolve entries c)) (snd (resolve entries c))"
proof (cases "find (\<lambda>code. code \<notin> codes) (ci_experience_codes c)")
  case (Some code)
  then have "code \<in> set (ci_experience_codes c)" "code \<notin> codes" by (auto dest: find_SomeD)
  with Some show ?thesis
    by (auto simp: normalize_capability_def make_normalizer_def acceptable_def)
next
  case None
  then have codes: "set (ci_experience_codes c) \<subseteq> codes" by (auto simp: find_None_iff_all)
  let ?m = "meanings entries (ci_raw_text c)"
  have cand: "(if lookup_key (ci_raw_text c) \<noteq> [] then cn_aliases (make_normalizer entries codes)
      (lookup_key (ci_raw_text c)) else []) = sorted_list_of_set ?m"
    by (simp add: meanings_def make_normalizer_def)
  have fin: "finite ?m" using meanings_known finite_subset by blast
  have base: "normalize_capability (make_normalizer entries codes) c =
      (case ci_entity_id c of
         Some entity \<Rightarrow>
           if entity \<notin> ce_entity_id ` set entries then Inl (UnknownEntityIdError entity)
           else if entity \<notin> ?m then Inl (ConflictingEntityIdError entity (ci_raw_text c))
           else Inr (capability_as c (Some entity) RESOLVED)
       | None \<Rightarrow>
           if card ?m = 1 then Inr (capability_as c (Some (the_elem ?m)) RESOLVED)
           else if card ?m > 1 then Inr (capability_as c None AMBIGUOUS)
           else Inr (capability_as c None UNRESOLVED))"
    using None fin unfolding normalize_capability_def Let_def cand
    by (auto simp: make_normalizer_def length_sorted_list hd_sorted_singleton split: option.split)
  show ?thesis
  proof (cases "ci_entity_id c")
    case None
    have "card ?m > 1 \<longleftrightarrow> card ?m \<noteq> 1 \<and> ?m \<noteq> {}" using fin card_0_eq [OF fin] by linarith
    then show ?thesis unfolding base using None codes by (auto simp: acceptable_def resolve_def)
  next
    case (Some e)
    then show ?thesis
      unfolding base using codes meanings_known [of entries "ci_raw_text c"]
      by (auto simp: acceptable_def resolve_def)
  qed
qed

text \<open>
  \<open>normalize\<close> accepts a profile exactly when every experience code is allowed and every given
  entity ID is one the raw text stands for, and then keeps each capability's text, codes and
  credit in order; a capability without an ID is RESOLVED exactly when its text, up to case and
  surrounding blanks, stands for a single catalog entity, AMBIGUOUS when for several.
\<close>

theorem normalize_exact:
  "normalize (make_normalizer entries codes) u v cs = Inr p \<longleftrightarrow>
     list_all (acceptable entries codes) cs
     \<and> p = \<lparr>np_user_id = u, np_profile_version = v,
            np_capabilities = map (\<lambda>c. capability_as c (fst (resolve entries c)) (snd (resolve entries c))) cs\<rparr>"
proof -
  have "collect (normalize_capability (make_normalizer entries codes)) cs = Inr ncs \<longleftrightarrow>
      list_all (acceptable entries codes) cs
      \<and> ncs = map (\<lambda>c. capability_as c (fst (resolve entries c)) (snd (resolve entries c))) cs" for ncs
  proof (induction cs arbitrary: ncs)
    case (Cons c cs)
    then show ?case by (auto simp: err_simps normalize_capability_Inr_iff)
  qed auto
  then show ?thesis by (auto simp: normalize_def err_simps)
qed

definition as_input :: "NormalizedCapability \<Rightarrow> CapabilityInput" where
  "as_input c = \<lparr>ci_raw_text = nc_raw_text c, ci_entity_id = nc_entity_id c,
     ci_experience_codes = nc_experience_codes c, ci_credit = nc_credit c\<rparr>"

lemma renormalize_capability:
  assumes "normalize_capability (make_normalizer entries codes) c = Inr nc"
  shows "normalize_capability (make_normalizer entries codes) (as_input nc) = Inr nc"
proof -
  note n = assms [unfolded normalize_capability_Inr_iff]
  let ?m = "meanings entries (ci_raw_text c)"
  have elem: "the_elem ?m \<in> ?m" if one: "card ?m = 1"
  proof -
    obtain x where "?m = {x}" by (rule card_1_singletonE [OF one])
    then show ?thesis by simp
  qed
  show ?thesis
  proof (cases "fst (resolve entries c)")
    case None
    with n have "ci_entity_id c = None" "as_input nc = c"
      by (auto simp: resolve_def as_input_def split: option.splits if_splits)
    with assms show ?thesis by simp
  next
    case (Some e)
    with n elem have "e \<in> ?m" "snd (resolve entries c) = RESOLVED"
      by (auto simp: resolve_def acceptable_def split: option.splits if_splits)
    with Some n show ?thesis
      unfolding normalize_capability_Inr_iff
      by (auto simp: acceptable_def resolve_def as_input_def capability_as_def)
  qed
qed

text \<open>
  C28: normalizing is idempotent: entering a normalized profile again, with the entity IDs found,
  gives the same profile, so stored resolutions survive an edit that does not touch them.
\<close>

theorem normalize_idempotent:
  assumes "normalize (make_normalizer entries codes) u v cs = Inr p"
  shows "normalize (make_normalizer entries codes) u v (map as_input (np_capabilities p)) = Inr p"
proof -
  from assms obtain ncs where ncs: "collect (normalize_capability (make_normalizer entries codes)) cs = Inr ncs"
    and p: "p = \<lparr>np_user_id = u, np_profile_version = v, np_capabilities = ncs\<rparr>"
    by (auto simp: normalize_def err_simps)
  have "collect (normalize_capability (make_normalizer entries codes)) (map as_input ncs) = Inr ncs"
    using ncs unfolding collect_Inr_iff list_all2_conv_all_nth
    using renormalize_capability by auto
  then show ?thesis by (simp add: normalize_def p)
qed

theorem normalize_idempotent_witness:
  "\<exists>p. normalize (make_normalizer [\<lparr>ce_entity_id = ''sql'', ce_aliases = {''SQL''}\<rparr>] {''prod''}) ''u'' 1
      [\<lparr>ci_raw_text = '' sql'', ci_entity_id = None, ci_experience_codes = [''prod''], ci_credit = 1\<rparr>] = Inr p
    \<and> normalize (make_normalizer [\<lparr>ce_entity_id = ''sql'', ce_aliases = {''SQL''}\<rparr>] {''prod''}) ''u'' 1
      (map as_input (np_capabilities p)) = Inr p"
proof -
  let ?n = "make_normalizer [\<lparr>ce_entity_id = ''sql'', ce_aliases = {''SQL''}\<rparr>] {''prod''}"
  let ?cs = "[\<lparr>ci_raw_text = '' sql'', ci_entity_id = None, ci_experience_codes = [''prod''], ci_credit = 1\<rparr>]"
  obtain p where "normalize ?n ''u'' 1 ?cs = Inr p"
  proof -
    have "\<exists>nc. normalize_capability ?n (hd ?cs) = Inr nc"
      unfolding normalize_capability_Inr_iff by (simp add: acceptable_def)
    then show thesis using that by (auto simp: normalize_def)
  qed
  from this normalize_idempotent [OF this] show ?thesis by blast
qed

end
