(* ===== verification/Next_Actions.thy ===== *)
theory Next_Actions
  imports Contracts
begin

section \<open>Next actions on the dashboard\<close>

text \<open>
  \<open>src/jobtology_be/modules/dashboard/next_actions.py\<close>: which deadlines and roadmap steps are
  recommended, and in which order. Timestamps are compared as UTC instants, as \<open>_as_utc\<close> does.
\<close>

subsection \<open>The request\<close>

record RoadmapCandidate =
  rc_roadmap_id :: string
  rc_roadmap_version :: int
  rc_is_active :: bool

record DeadlineActionCandidate =
  da_action_id :: string
  da_title :: string
  da_due_at :: datetime
  da_source_is_valid :: bool
  da_prerequisite_step_ids :: "string list"
  da_support_refs :: "string list"

record RoadmapStepCandidate =
  rs_roadmap_id :: string
  rs_roadmap_version :: int
  rs_step_id :: string
  rs_title :: string
  rs_state :: StepState
  rs_roadmap_position :: int
  rs_due_at :: "datetime option"
  rs_expires_at :: "datetime option"
  rs_source_is_valid :: bool
  rs_prerequisite_step_ids :: "string list"
  rs_support_refs :: "string list"

record NextActionRequest =
  nr_reference_at :: datetime
  nr_urgency_window :: int
  nr_rule_version :: string
  nr_roadmap :: RoadmapCandidate
  nr_completed_step_ids :: "string set"
  nr_deadline_actions :: "DeadlineActionCandidate list"
  nr_roadmap_steps :: "RoadmapStepCandidate list"

datatype ActionKind = CONTINUE_STEP | START_STEP | REVIEW_DEADLINE

datatype ActionReason = URGENT_DEADLINE | IN_PROGRESS_STEP | NEXT_ROADMAP_STEP

datatype NavigationTarget = DEADLINE_ACTION | ROADMAP_STEP

record NextActionRecommendation =
  na_kind :: ActionKind
  na_roadmap_id :: "string option"
  na_roadmap_version :: "int option"
  na_step_id :: "string option"
  na_title :: string
  na_reason_code :: ActionReason
  na_due_at :: "datetime option"
  na_blocked_by :: "string list"
  na_support_refs :: "string list"
  na_navigation_target :: NavigationTarget
  na_navigation_target_id :: string

record NextActionSelection =
  ns_rule_version :: string
  ns_reference_at :: datetime
  ns_recommendations :: "NextActionRecommendation list"

subsection \<open>The selection\<close>

definition is_urgent_deadline :: "DeadlineActionCandidate \<Rightarrow> NextActionRequest \<Rightarrow> bool" where
  "is_urgent_deadline a r \<longleftrightarrow>
     (let reference = instant (nr_reference_at r); due = instant (da_due_at a) in
      da_source_is_valid a
      \<and> set (da_prerequisite_step_ids a) \<subseteq> nr_completed_step_ids r
      \<and> reference < due \<and> due \<le> reference + nr_urgency_window r)"

definition is_eligible_step :: "RoadmapStepCandidate \<Rightarrow> NextActionRequest \<Rightarrow> bool" where
  "is_eligible_step s r \<longleftrightarrow>
     (let is_current = (case rs_expires_at s of None \<Rightarrow> True
            | Some e \<Rightarrow> instant e > instant (nr_reference_at r));
          belongs = rs_roadmap_id s = rc_roadmap_id (nr_roadmap r)
            \<and> rs_roadmap_version s = rc_roadmap_version (nr_roadmap r) in
      belongs \<and> rs_source_is_valid s \<and> is_current
      \<and> set (rs_prerequisite_step_ids s) \<subseteq> nr_completed_step_ids r)"

definition step_sort_key :: "datetime \<Rightarrow> RoadmapStepCandidate \<Rightarrow> int \<times> bool \<times> int \<times> string" where
  "step_sort_key reference s =
     (rs_roadmap_position s, rs_due_at s = None,
      (case rs_due_at s of Some d \<Rightarrow> instant d | None \<Rightarrow> instant reference), rs_step_id s)"

definition eligible_roadmap_steps ::
  "NextActionRequest \<Rightarrow> RoadmapStepCandidate list \<times> RoadmapStepCandidate list" where
  "eligible_roadmap_steps r =
     (if \<not> rc_is_active (nr_roadmap r) then ([], [])
      else
        let steps = filter (\<lambda>s. is_eligible_step s r) (nr_roadmap_steps r);
            ordered = (\<lambda>st. sort_key (step_sort_key (nr_reference_at r)) (filter (\<lambda>s. rs_state s = st) steps)) in
        (ordered IN_PROGRESS, ordered TODO))"

definition recommend_deadline :: "DeadlineActionCandidate \<Rightarrow> NextActionRecommendation" where
  "recommend_deadline a =
     \<lparr>na_kind = REVIEW_DEADLINE, na_roadmap_id = None, na_roadmap_version = None, na_step_id = None,
      na_title = da_title a, na_reason_code = URGENT_DEADLINE, na_due_at = Some (da_due_at a),
      na_blocked_by = [], na_support_refs = da_support_refs a,
      na_navigation_target = DEADLINE_ACTION, na_navigation_target_id = da_action_id a\<rparr>"

definition recommend_step ::
  "ActionKind \<Rightarrow> ActionReason \<Rightarrow> RoadmapStepCandidate \<Rightarrow> NextActionRecommendation" where
  "recommend_step kind reason s =
     \<lparr>na_kind = kind, na_roadmap_id = Some (rs_roadmap_id s),
      na_roadmap_version = Some (rs_roadmap_version s), na_step_id = Some (rs_step_id s),
      na_title = rs_title s, na_reason_code = reason, na_due_at = rs_due_at s, na_blocked_by = [],
      na_support_refs = rs_support_refs s, na_navigation_target = ROADMAP_STEP,
      na_navigation_target_id = rs_step_id s\<rparr>"

definition select_next_actions :: "NextActionRequest \<Rightarrow> NextActionSelection" where
  "select_next_actions r =
     (let urgent_deadlines = sort_key (\<lambda>a. (instant (da_due_at a), da_action_id a))
            (filter (\<lambda>a. is_urgent_deadline a r) (nr_deadline_actions r));
          (in_progress_steps, todo_steps) = eligible_roadmap_steps r in
      \<lparr>ns_rule_version = nr_rule_version r,
       ns_reference_at = nr_reference_at r,
       ns_recommendations =
         map recommend_deadline urgent_deadlines
         @ map (recommend_step CONTINUE_STEP IN_PROGRESS_STEP) in_progress_steps
         @ map (recommend_step START_STEP NEXT_ROADMAP_STEP) todo_steps\<rparr>)"

subsection \<open>What is recommended\<close>

fun kind_rank :: "ActionKind \<Rightarrow> nat" where
  "kind_rank REVIEW_DEADLINE = 0"
| "kind_rank CONTINUE_STEP = 1"
| "kind_rank START_STEP = 2"

lemma recommend_simps [simp]:
  "na_kind (recommend_deadline a) = REVIEW_DEADLINE" "na_kind (recommend_step k rc s) = k"
  "na_navigation_target (recommend_deadline a) = DEADLINE_ACTION"
  "na_navigation_target (recommend_step k rc s) = ROADMAP_STEP"
  "na_step_id (recommend_deadline a) = None" "na_step_id (recommend_step k rc s) = Some (rs_step_id s)"
  by (simp_all add: recommend_deadline_def recommend_step_def)

definition step_recommendation :: "RoadmapStepCandidate \<Rightarrow> NextActionRecommendation" where
  "step_recommendation s = (if rs_state s = IN_PROGRESS then recommend_step CONTINUE_STEP IN_PROGRESS_STEP s
     else recommend_step START_STEP NEXT_ROADMAP_STEP s)"

lemma set_eligible_steps:
  "set (fst (eligible_roadmap_steps r)) = {s \<in> set (nr_roadmap_steps r). rc_is_active (nr_roadmap r)
     \<and> is_eligible_step s r \<and> rs_state s = IN_PROGRESS}"
  "set (snd (eligible_roadmap_steps r)) = {s \<in> set (nr_roadmap_steps r). rc_is_active (nr_roadmap r)
     \<and> is_eligible_step s r \<and> rs_state s = TODO}"
  by (auto simp: eligible_roadmap_steps_def Let_def)

lemma step_state_cases: "st \<noteq> COMPLETED \<longleftrightarrow> st = IN_PROGRESS \<or> st = TODO"
  by (cases st) auto

lemma split_states:
  fixes M :: "RoadmapStepCandidate multiset"
  shows "{#s \<in># M. Q s \<and> rs_state s = IN_PROGRESS#} + {#s \<in># M. Q s \<and> rs_state s = TODO#}
    = {#s \<in># M. Q s \<and> rs_state s \<noteq> COMPLETED#}"
  unfolding step_state_cases by (induction M) auto

text \<open>
  A step is recommended exactly when the roadmap is active and the step belongs to that version
  of it, comes from a valid source, has not expired, is not completed and has all its
  prerequisites completed; a deadline exactly when it is valid, unblocked, still ahead and within
  the urgency window. Deadlines come first, then steps in progress, then steps to start.
\<close>

theorem select_next_actions_exact:
  "set (ns_recommendations (select_next_actions r)) =
     recommend_deadline ` {a \<in> set (nr_deadline_actions r). is_urgent_deadline a r}
     \<union> step_recommendation ` {s \<in> set (nr_roadmap_steps r). rc_is_active (nr_roadmap r)
          \<and> is_eligible_step s r \<and> rs_state s \<noteq> COMPLETED}
   \<and> sorted (map (kind_rank \<circ> na_kind) (ns_recommendations (select_next_actions r)))"
proof
  show "set (ns_recommendations (select_next_actions r)) =
     recommend_deadline ` {a \<in> set (nr_deadline_actions r). is_urgent_deadline a r}
     \<union> step_recommendation ` {s \<in> set (nr_roadmap_steps r). rc_is_active (nr_roadmap r)
          \<and> is_eligible_step s r \<and> rs_state s \<noteq> COMPLETED}"
    unfolding step_state_cases select_next_actions_def Let_def
    using set_eligible_steps [of r]
    by (cases "eligible_roadmap_steps r") (auto simp: step_recommendation_def image_Un split: if_splits)
  show "sorted (map (kind_rank \<circ> na_kind) (ns_recommendations (select_next_actions r)))"
    by (auto simp: select_next_actions_def sorted_append comp_def map_replicate_const split: prod.splits)
qed

text \<open>
  The order inside each group is the intended one: recommended steps follow the roadmap
  position, then due dates (dated steps before undated ones), then the step ID.
\<close>

theorem next_steps_ordered:
  "sorted (map (step_sort_key (nr_reference_at r)) (fst (eligible_roadmap_steps r)))
   \<and> sorted (map (step_sort_key (nr_reference_at r)) (snd (eligible_roadmap_steps r)))
   \<and> mset (fst (eligible_roadmap_steps r) @ snd (eligible_roadmap_steps r))
     = (if rc_is_active (nr_roadmap r)
        then mset (filter (\<lambda>s. is_eligible_step s r \<and> rs_state s \<noteq> COMPLETED) (nr_roadmap_steps r)) else {#})"
  using split_states [of "\<lambda>s. is_eligible_step s r" "mset (nr_roadmap_steps r)"]
  by (simp add: eligible_roadmap_steps_def Let_def)

end
