(* ===== verification/Json.thy ===== *)
theory Json
  imports Prelude
begin

section \<open>JSON values\<close>

text \<open>
  \<open>JsonValue\<close> of \<open>src/jobtology_be/infrastructure/persistence/contracts.py\<close>, with the SQL accessors
  the queries use, and the canonical text of a \<open>UUID\<close>.
\<close>

type_synonym uuid = string

datatype JsonValue = JStr string | JInt int | JFloat rat | JBool bool | JNull
  | JSeq "JsonValue list" | JMap "(string \<times> JsonValue) list"

type_synonym json_object = "(string \<times> JsonValue) list"

text \<open>\<open>payload[k]\<close> and \<open>.astext\<close>: a missing key and a JSON null are both SQL \<open>NULL\<close>.\<close>

fun json_get :: "string \<Rightarrow> JsonValue option \<Rightarrow> JsonValue option" where
  "json_get k (Some (JMap m)) = map_of m k"
| "json_get k _ = None"

fun astext :: "(JsonValue \<Rightarrow> string) \<Rightarrow> JsonValue option \<Rightarrow> string option" where
  "astext show None = None"
| "astext show (Some JNull) = None"
| "astext show (Some (JStr s)) = Some s"
| "astext show (Some j) = Some (show j)"

end
