(* ===== verification/Self_Reports.thy ===== *)
theory Self_Reports
  imports Contracts Json
begin

section \<open>Self-reported capabilities\<close>

text \<open>
  The records and the planning credit of \<open>src/jobtology_be/application/specs.py\<close>: the validators of
  the structured details of a capability and the inputs it gives to the gap analysis. A date is its day
  number. Parsing a stored document into \<open>SpecDetails\<close> is pydantic's: a parameter that is \<open>None\<close> where
  validation fails.
\<close>

datatype SpecSource = MANUAL | LLM_ASSISTED | DOCUMENT_IMPORT

record DocumentEvidence =
  de_document_sha256 :: string
  de_parser_revision :: string
  de_block_id :: string
  de_text_hash :: string
  de_quote :: string
  de_start :: int
  de_end :: int
  de_method :: string

definition valid_span :: "DocumentEvidence \<Rightarrow> bool" where
  "valid_span d \<longleftrightarrow> de_end d - de_start d = int (length (de_quote d))"

record SpecDetails =
  sx_competency_ids :: "string list"
  sx_evidence :: string
  sx_source :: SpecSource
  sx_document_evidence :: "DocumentEvidence option"
  sx_started_on :: "int option"
  sx_ended_on :: "int option"
  sx_ongoing :: bool
  sx_issuer :: "string option"
  sx_credential_code :: "string option"
  sx_issued_on :: "int option"
  sx_expires_on :: "int option"
  sx_score :: "rat option"
  sx_score_max :: "rat option"
  sx_score_unit :: "string option"
  sx_organization :: "string option"
  sx_role :: "string option"
  sx_school :: "string option"
  sx_degree :: "string option"
  sx_major :: "string option"
  sx_imported_fields :: "(string \<times> string) list"
  sx_url :: "string option"

fun prefix_of :: "string \<Rightarrow> string \<Rightarrow> bool" where
  "prefix_of [] s = True"
| "prefix_of (c # cs) (d # ds) = (c = d \<and> prefix_of cs ds)"
| "prefix_of (c # cs) [] = False"

fun substring_of :: "string \<Rightarrow> string \<Rightarrow> bool" where
  "substring_of p [] = (p = [])"
| "substring_of p (c # cs) = (prefix_of p (c # cs) \<or> substring_of p cs)"

definition precedes :: "int option \<Rightarrow> int option \<Rightarrow> bool" where
  "precedes a b = (case (a, b) of (Some x, Some y) \<Rightarrow> y < x | _ \<Rightarrow> False)"

text \<open>The checks of \<open>valid_details\<close>; the result is the message of the first that fails.\<close>

definition valid_details :: "SpecDetails \<Rightarrow> string option" where
  "valid_details d =
     (let imported = sx_imported_fields d; ids = sx_competency_ids d in
      if (sx_source d = DOCUMENT_IMPORT) \<noteq> (sx_document_evidence d \<noteq> None)
      then Some ''document imports require source evidence''
      else if imported \<noteq> [] \<and> (case sx_document_evidence d of None \<Rightarrow> True
          | Some ev \<Rightarrow> list_ex (\<lambda>(_, v). v = [] \<or> 500 < length v \<or> \<not> substring_of v (de_quote ev)) imported)
      then Some ''imported fields require exact source evidence''
      else if \<not> distinct ids then Some ''choose each competency once''
      else if list_ex (\<lambda>v. v = [] \<or> 128 < length v) ids then Some ''invalid competency identity''
      else if precedes (sx_started_on d) (sx_ended_on d) then Some ''end precedes start''
      else if sx_ongoing d \<and> sx_ended_on d \<noteq> None then Some ''ongoing experience cannot have an end''
      else if precedes (sx_issued_on d) (sx_expires_on d) then Some ''expiry precedes issue''
      else case (sx_score_max d, sx_score d) of
          (Some m, Some s) \<Rightarrow> if m < s then Some ''score exceeds maximum'' else None
        | _ \<Rightarrow> None)"

definition CREDIT :: "(string \<times> rat) list" where
  "CREDIT = [(''FAMILIAR'', 1/4), (''GUIDED'', 1/2), (''INDEPENDENT'', 3/4), (''PRODUCTION'', 1)]"

definition MIN_EVIDENCE_LENGTH :: nat where
  "MIN_EVIDENCE_LENGTH = 20"

definition spec_credit :: "SpecDetails \<Rightarrow> string option \<Rightarrow> string \<Rightarrow> int \<Rightarrow> rat" where
  "spec_credit details proficiency category today =
     (if category \<in> {''education'', ''other''} then 0
      else if category \<in> {''certification'', ''test''}
          \<and> (case sx_expires_on details of None \<Rightarrow> False | Some d \<Rightarrow> d < today) then 0
      else if category \<in> {''certification'', ''test''}
          \<and> (case sx_issued_on details of None \<Rightarrow> False | Some d \<Rightarrow> today < d) then 0
      else if sx_competency_ids details = [] \<or> length (py_strip (sx_evidence details)) < MIN_EVIDENCE_LENGTH then 0
      else case map_of CREDIT (case proficiency of None \<Rightarrow> [] | Some p \<Rightarrow> p) of None \<Rightarrow> 0 | Some c \<Rightarrow> c)"

text \<open>\<open>key.rsplit(':', 1)[-1]\<close>.\<close>

definition after_last_colon :: "string \<Rightarrow> string" where
  "after_last_colon s = rev (takeWhile (\<lambda>c. c \<noteq> CHR '':'') (rev s))"

text \<open>
  \<open>list(...)\<close> of the stored codes: the members of a list, the characters of a string, the keys of an
  object. \<open>None\<close> is an exception: \<open>CapabilityInput\<close> refuses members that are not strings, and a number,
  a truth value or a null cannot be listed (\<open>TypeError\<close>). A completed step stores a list of strings.
\<close>

definition stored_codes :: "JsonValue option \<Rightarrow> string list option" where
  "stored_codes v = (case v of
       None \<Rightarrow> Some []
     | Some (JSeq xs) \<Rightarrow> those (map (\<lambda>x. case x of JStr s \<Rightarrow> Some s | _ \<Rightarrow> None) xs)
     | Some (JStr s) \<Rightarrow> Some (map (\<lambda>c. [c]) s)
     | Some (JMap m) \<Rightarrow> Some (map fst m)
     | Some _ \<Rightarrow> None)"

definition capability_valid :: "CapabilityInput \<Rightarrow> bool" where
  "capability_valid ci \<longleftrightarrow> 1 \<le> length (ci_raw_text ci) \<and> length (ci_raw_text ci) \<le> 500 \<and> credit_valid (ci_credit ci)"

text \<open>\<open>None\<close> is the \<open>ValidationError\<close> of an input.\<close>

definition validated :: "CapabilityInput list \<Rightarrow> CapabilityInput list option" where
  "validated xs = (if list_all capability_valid xs then Some xs else None)"

definition unused_report :: "string \<Rightarrow> CapabilityInput" where
  "unused_report raw_text = \<lparr>ci_raw_text = raw_text, ci_entity_id = None, ci_experience_codes = [], ci_credit = 0\<rparr>"

definition capability_inputs ::
  "(json_object \<Rightarrow> SpecDetails option) \<Rightarrow> string \<Rightarrow> string option \<Rightarrow> string \<Rightarrow> string option \<Rightarrow> json_object
    \<Rightarrow> bool \<Rightarrow> int \<Rightarrow> CapabilityInput list option" where
  "capability_inputs spec_of raw_text entity_id category proficiency details is_completion today =
     (if is_completion \<and> category = ''ROADMAP_OUTCOME''
      then (case stored_codes (map_of details ''experience_codes'') of
          None \<Rightarrow> None
        | Some codes \<Rightarrow> validated [\<lparr>ci_raw_text = raw_text, ci_entity_id = entity_id,
             ci_experience_codes = codes, ci_credit = 1\<rparr>])
      else case spec_of details of
          None \<Rightarrow> validated [unused_report raw_text]
        | Some spec \<Rightarrow>
            let credit = spec_credit spec proficiency category today;
                mapped = filter (prefix_of ''ncs:unit:'') (sx_competency_ids spec)
            in if mapped = [] then validated [unused_report raw_text]
               else validated (map (\<lambda>key. \<lparr>ci_raw_text = after_last_colon key, ci_entity_id = Some key,
                      ci_experience_codes = [], ci_credit = credit\<rparr>) mapped))"

subsection \<open>Credit is earned\<close>

lemma spec_credit_range: "spec_credit d p c t \<in> {0, 1/4, 1/2, 3/4, 1}"
  by (auto simp: spec_credit_def CREDIT_def split: option.splits)

lemma spec_credit_pos:
  assumes "0 < spec_credit spec p cat today"
  shows "MIN_EVIDENCE_LENGTH \<le> length (py_strip (sx_evidence spec))" "cat \<notin> {''education'', ''other''}"
    "cat \<in> {''certification'', ''test''} \<Longrightarrow> sx_expires_on spec = Some d \<Longrightarrow> today \<le> d"
    "cat \<in> {''certification'', ''test''} \<Longrightarrow> sx_issued_on spec = Some d \<Longrightarrow> d \<le> today"
  using assms unfolding spec_credit_def by (force split: if_splits)+

lemma validated_SomeD: "validated xs = Some ys \<Longrightarrow> ys = xs"
  by (auto simp: validated_def split: if_splits)

lemma unused_credit [simp]: "ci_credit (unused_report raw) = 0"
  by (simp add: unused_report_def)

text \<open>What earns credit apart from a completed step.\<close>

definition earned :: "(json_object \<Rightarrow> SpecDetails option) \<Rightarrow> string \<Rightarrow> json_object \<Rightarrow> int \<Rightarrow> CapabilityInput \<Rightarrow> bool" where
  "earned spec_of cat details today ci \<longleftrightarrow>
     (\<exists>spec. spec_of details = Some spec \<and> cat \<notin> {''education'', ''other''}
        \<and> (\<exists>key \<in> set (sx_competency_ids spec). prefix_of ''ncs:unit:'' key \<and> ci_entity_id ci = Some key)
        \<and> MIN_EVIDENCE_LENGTH \<le> length (py_strip (sx_evidence spec))
        \<and> (cat \<in> {''certification'', ''test''} \<longrightarrow>
             (\<forall>d. sx_expires_on spec = Some d \<longrightarrow> today \<le> d) \<and> (\<forall>d. sx_issued_on spec = Some d \<longrightarrow> d \<le> today)))"

text \<open>
  C23: apart from completed roadmap steps, positive planning credit only goes to a chosen NCS competency of a
  well-formed self-report of a creditable category, with at least the minimal evidence, and for
  certificates and tests only while they are issued and not expired.
\<close>

theorem credit_is_earned:
  assumes inputs: "capability_inputs spec_of raw ent cat prof details is_completion today = Some found"
    and ci: "ci \<in> set found" and pos: "0 < ci_credit ci" and no_step: "\<not> (is_completion \<and> cat = ''ROADMAP_OUTCOME'')"
  shows "earned spec_of cat details today ci"
proof (cases "spec_of details")
  case None
  with assms show ?thesis by (auto simp: capability_inputs_def dest!: validated_SomeD)
next
  case (Some spec)
  let ?mapped = "filter (prefix_of ''ncs:unit:'') (sx_competency_ids spec)"
  have "?mapped \<noteq> []" using assms Some by (auto simp: capability_inputs_def Let_def simp del: prefix_of.simps dest!: validated_SomeD)
  with inputs no_step Some have "found = map (\<lambda>key. \<lparr>ci_raw_text = after_last_colon key, ci_entity_id = Some key,
      ci_experience_codes = [], ci_credit = spec_credit spec prof cat today\<rparr>) ?mapped"
    by (auto simp: capability_inputs_def Let_def simp del: prefix_of.simps dest!: validated_SomeD)
  with ci obtain key where key: "key \<in> set (sx_competency_ids spec)" "prefix_of ''ncs:unit:'' key"
    and k: "ci_entity_id ci = Some key" "ci_credit ci = spec_credit spec prof cat today"
    by (auto simp del: prefix_of.simps)
  have credit: "0 < spec_credit spec prof cat today" using pos k(2) by simp
  show ?thesis unfolding earned_def
    by (intro exI [of _ spec] conjI impI allI bexI [of _ key])
      (use Some key k spec_credit_pos [OF credit] in auto)
qed

definition sample_spec :: SpecDetails where
  "sample_spec = \<lparr>sx_competency_ids = [''ncs:unit:7'', ''onet:1''], sx_evidence = ''built and ran the course database'',
     sx_source = MANUAL, sx_document_evidence = None, sx_started_on = None, sx_ended_on = None, sx_ongoing = False,
     sx_issuer = None, sx_credential_code = None, sx_issued_on = Some 3, sx_expires_on = Some 9, sx_score = None,
     sx_score_max = None, sx_score_unit = None, sx_organization = None, sx_role = None, sx_school = None,
     sx_degree = None, sx_major = None, sx_imported_fields = [], sx_url = None\<rparr>"

definition sample_input :: CapabilityInput where
  "sample_input = \<lparr>ci_raw_text = ''7'', ci_entity_id = Some ''ncs:unit:7'', ci_experience_codes = [], ci_credit = 1/2\<rparr>"

lemma sample_inputs:
  "capability_inputs (\<lambda>_. Some sample_spec) ''sql'' None ''test'' (Some ''GUIDED'') [] False 5 = Some [sample_input]"
  by code_simp

theorem credit_is_earned_witness: "earned (\<lambda>_. Some sample_spec) ''test'' [] 5 sample_input"
  by (rule credit_is_earned [OF sample_inputs]) (simp_all add: sample_input_def)

end
