(* ===== verification/Tables.thy ===== *)
theory Tables
  imports Prelude
begin

section \<open>Tables\<close>

text \<open>
  The relational operations the persistence layer is written in. A table is the list of its rows;
  \<open>update_where\<close> and \<open>delete_where\<close> are \<open>UPDATE ... WHERE\<close> and \<open>DELETE ... WHERE\<close>,
  \<open>rows_where\<close> is \<open>SELECT ... WHERE\<close>, \<open>one_or_none\<close> reads a query by primary key and
  \<open>keyed\<close> says that a column (or tuple of columns) is unique. The lemmas say which rows a
  statement touches, and are collected in \<open>table_simps\<close>.
\<close>

named_theorems table_simps \<open>effect of a statement on the rows of a table\<close>

definition update_where :: "('r \<Rightarrow> bool) \<Rightarrow> ('r \<Rightarrow> 'r) \<Rightarrow> 'r list \<Rightarrow> 'r list" where
  "update_where P f t = map (\<lambda>r. if P r then f r else r) t"

definition delete_where :: "('r \<Rightarrow> bool) \<Rightarrow> 'r list \<Rightarrow> 'r list" where
  "delete_where P t = filter (\<lambda>r. \<not> P r) t"

definition rows_where :: "('r \<Rightarrow> bool) \<Rightarrow> 'r list \<Rightarrow> 'r list" where
  "rows_where P t = filter P t"

definition row_exists :: "('r \<Rightarrow> bool) \<Rightarrow> 'r list \<Rightarrow> bool" where
  "row_exists P t \<longleftrightarrow> list_ex P t"

definition one_or_none :: "('r \<Rightarrow> bool) \<Rightarrow> 'r list \<Rightarrow> 'r option" where
  "one_or_none P t = find P t"

definition rowcount :: "('r \<Rightarrow> bool) \<Rightarrow> 'r list \<Rightarrow> nat" where
  "rowcount P t = length (filter P t)"

definition keyed :: "('r \<Rightarrow> 'k) \<Rightarrow> 'r list \<Rightarrow> bool" where
  "keyed k t \<longleftrightarrow> distinct (map k t)"

lemma set_update_where [table_simps]:
  "r \<in> set (update_where P f t) \<longleftrightarrow> (\<exists>r' \<in> set t. r = (if P r' then f r' else r'))"
  by (auto simp: update_where_def)

lemma update_whereI:
  "r \<in> set t \<Longrightarrow> P r \<Longrightarrow> f r \<in> set (update_where P f t)"
  "r \<in> set t \<Longrightarrow> \<not> P r \<Longrightarrow> r \<in> set (update_where P f t)"
  by (auto simp: set_update_where intro: bexI [of _ r])

lemma set_delete_where [table_simps]: "r \<in> set (delete_where P t) \<longleftrightarrow> r \<in> set t \<and> \<not> P r"
  by (auto simp: delete_where_def)

lemma set_rows_where [table_simps]: "r \<in> set (rows_where P t) \<longleftrightarrow> r \<in> set t \<and> P r"
  by (auto simp: rows_where_def)

lemma row_exists_iff [table_simps]: "row_exists P t \<longleftrightarrow> (\<exists>r \<in> set t. P r)"
  by (simp add: row_exists_def list_ex_iff)

lemma one_or_none_None [table_simps]: "one_or_none P t = None \<longleftrightarrow> (\<forall>r \<in> set t. \<not> P r)"
  by (simp add: one_or_none_def find_None_iff_all)

lemma one_or_none_SomeD: "one_or_none P t = Some r \<Longrightarrow> r \<in> set t \<and> P r"
  unfolding one_or_none_def by (rule find_SomeD)

lemma keyed_inject: "keyed k t \<Longrightarrow> r \<in> set t \<Longrightarrow> r' \<in> set t \<Longrightarrow> k r = k r' \<Longrightarrow> r = r'"
  unfolding keyed_def by (auto simp: distinct_map dest: inj_onD)

lemma one_or_none_Some_iff:
  assumes "keyed k t" and "\<And>r. P r \<Longrightarrow> k r = v"
  shows "one_or_none P t = Some r \<longleftrightarrow> r \<in> set t \<and> P r"
proof
  assume "r \<in> set t \<and> P r"
  then obtain s where s: "one_or_none P t = Some s"
    by (cases "one_or_none P t") (auto simp: table_simps)
  have "s \<in> set t" "P s" using one_or_none_SomeD [OF s] by auto
  with s show "one_or_none P t = Some r"
    using keyed_inject [OF assms(1), of r s] assms(2) \<open>r \<in> set t \<and> P r\<close> by auto
qed (rule one_or_none_SomeD)

lemma keyed_update [table_simps]: "(\<And>r. k (f r) = k r) \<Longrightarrow> keyed k (update_where P f t) = keyed k t"
  by (simp add: keyed_def update_where_def comp_def if_distrib [of k] cong: if_cong)

lemma keyed_delete [intro]: "keyed k t \<Longrightarrow> keyed k (delete_where P t)"
  by (simp add: keyed_def delete_where_def distinct_map_filter)

lemma keyed_Nil [simp]: "keyed k []"
  by (simp add: keyed_def)

lemma keyed_snoc [table_simps]: "keyed k (t @ [r]) \<longleftrightarrow> keyed k t \<and> (\<forall>r' \<in> set t. k r' \<noteq> k r)"
  unfolding keyed_def by (auto simp: image_iff)

lemma rowcount_pos: "0 < rowcount P t \<longleftrightarrow> (\<exists>r \<in> set t. P r)"
  by (auto simp: rowcount_def filter_empty_conv)

lemma rowcount_zero [table_simps]: "rowcount P t = 0 \<longleftrightarrow> (\<forall>r \<in> set t. \<not> P r)"
  by (auto simp: rowcount_def filter_empty_conv)

lemma rowcount_keyed_le:
  assumes "keyed k t" and "\<And>r. P r \<Longrightarrow> k r = v"
  shows "rowcount P t \<le> 1"
proof -
  have "distinct (map k (filter P t))" using assms(1) by (simp add: keyed_def distinct_map_filter)
  moreover have "set (map k (filter P t)) \<subseteq> {v}" using assms(2) by auto
  ultimately show ?thesis
    unfolding rowcount_def using card_mono [of "{v}" "set (map k (filter P t))"]
    by (simp add: distinct_card del: set_map)
qed

lemma rowcount_one:
  assumes "keyed k t" and "\<And>r. P r \<Longrightarrow> k r = v"
  shows "rowcount P t = 1 \<longleftrightarrow> (\<exists>r \<in> set t. P r)"
proof -
  have "rowcount P t \<le> 1" using assms by (rule rowcount_keyed_le)
  then have "rowcount P t = 1 \<longleftrightarrow> 0 < rowcount P t" by auto
  then show ?thesis by (simp only: rowcount_pos)
qed

lemma update_where_none: "(\<And>r. r \<in> set t \<Longrightarrow> \<not> P r) \<Longrightarrow> update_where P f t = t"
  unfolding update_where_def by (induction t) auto

lemma delete_where_none: "(\<And>r. r \<in> set t \<Longrightarrow> \<not> P r) \<Longrightarrow> delete_where P t = t"
  unfolding delete_where_def by (simp add: filter_id_conv)

lemma length_update_where [simp]: "length (update_where P f t) = length t"
  by (simp add: update_where_def)

lemma map_update_where: "(\<And>r. k (f r) = k r) \<Longrightarrow> map k (update_where P f t) = map k t"
  by (simp add: update_where_def comp_def if_distrib [of k] cong: if_cong)

lemma key_exists_update:
  assumes "\<And>r. k (f r) = k r"
  shows "(\<exists>r \<in> set (update_where P f t). k r = v) \<longleftrightarrow> (\<exists>r \<in> set t. k r = v)"
proof -
  have "v \<in> set (map k (update_where P f t)) \<longleftrightarrow> v \<in> set (map k t)"
    using map_update_where [of k f P t] assms by simp
  then show ?thesis by auto
qed

lemma update_where_id [simp]: "update_where P (\<lambda>r. r) t = t"
  by (simp add: update_where_def)

end
