(* ===== verification/Fixed_Window.thy ===== *)
theory Fixed_Window
  imports Prelude
begin

section \<open>Fixed-window counters\<close>

text \<open>
  \<open>src/jobtology_be/infrastructure/persistence/compute_budget.py\<close> and \<open>rate_limit.py\<close>: the
  counters of the table \<open>account_rate_limits\<close>, one row per account and scope. A statement runs at
  one reading of the database clock, in microseconds; the two places where the source reads the
  clock again after it take a second reading as an argument. The table is a map from (account,
  scope) to the row.
\<close>

subsection \<open>The table and the clock\<close>

type_synonym uid = string

record counter =
  window_started_at :: int
  request_count :: int

type_synonym account_rate_limits = "uid \<times> string \<Rightarrow> counter option"

datatype time_unit = MINUTE | HOUR_UNIT

fun unit_length :: "time_unit \<Rightarrow> int" where
  "unit_length MINUTE = 60000000"
| "unit_length HOUR_UNIT = 3600000000"

definition date_trunc :: "time_unit \<Rightarrow> int \<Rightarrow> int" where
  "date_trunc u t = t - t mod unit_length u"

definition ceil_seconds :: "int \<Rightarrow> int" where
  "ceil_seconds d = - ((- d) div 1000000)"

lemma unit_length_pos [simp]: "0 < unit_length u"
  by (cases u) simp_all

lemma date_trunc_bounds: "date_trunc u t \<le> t" "t < date_trunc u t + unit_length u"
  by (simp_all add: date_trunc_def pos_mod_bound algebra_simps)

lemma date_trunc_mono: "s \<le> t \<Longrightarrow> date_trunc u s \<le> date_trunc u t"
proof -
  have eq: "date_trunc u x = (x div unit_length u) * unit_length u" for x
    by (simp add: date_trunc_def minus_mod_eq_div_mult)
  assume "s \<le> t"
  then have "s div unit_length u \<le> t div unit_length u" by (simp add: zdiv_mono1)
  then show ?thesis unfolding eq by (intro mult_right_mono) (simp_all add: less_imp_le)
qed

lemma ceil_seconds_ge: "d \<le> ceil_seconds d * 1000000"
proof -
  have "(- d) div 1000000 * 1000000 + (- d) mod 1000000 = - d" by (rule div_mult_mod_eq)
  moreover have "0 \<le> (- d) mod 1000000" by simp
  ultimately show ?thesis unfolding ceil_seconds_def by linarith
qed

subsection \<open>Analysis budgets\<close>

datatype budget_error = AnalysisBudgetExceeded int

record AnalysisBudgetPolicy =
  requests_per_hour :: int
  executions_per_hour :: int
  executions_per_minute :: int

definition policy_valid :: "AnalysisBudgetPolicy \<Rightarrow> bool" where
  "policy_valid p \<longleftrightarrow> list_all (\<lambda>v. 1 \<le> v \<and> v < 2147483647)
     [requests_per_hour p, executions_per_hour p, executions_per_minute p]"

text \<open>\<open>INSERT ... ON CONFLICT DO UPDATE ... WHERE ...\<close>: \<open>None\<close> where the guard excludes the update.\<close>

definition budget_upsert :: "int \<Rightarrow> int \<Rightarrow> counter option \<Rightarrow> counter option" where
  "budget_upsert limit bucket row =
     (case row of
        None \<Rightarrow> Some \<lparr>window_started_at = bucket, request_count = 1\<rparr>
      | Some c \<Rightarrow>
          if window_started_at c < bucket \<or> request_count c < limit
          then Some \<lparr>window_started_at = max (window_started_at c) bucket,
                     request_count = (if window_started_at c < bucket then 1 else request_count c + 1)\<rparr>
          else None)"

definition reserve_budget ::
  "uid \<Rightarrow> string \<Rightarrow> int \<Rightarrow> time_unit \<Rightarrow> int \<Rightarrow> int \<Rightarrow> account_rate_limits
    \<Rightarrow> budget_error + account_rate_limits" where
  "reserve_budget user_id scope limit unit now checked_at t =
     (let bucket = date_trunc unit now in
      case budget_upsert limit bucket (t (user_id, scope)) of
        Some c \<Rightarrow> Inr (t((user_id, scope) \<mapsto> c))
      | None \<Rightarrow> Inl (AnalysisBudgetExceeded (max 1 (ceil_seconds
          (window_started_at (the (t (user_id, scope))) + unit_length unit - checked_at)))))"

definition reserve_request ::
  "AnalysisBudgetPolicy \<Rightarrow> uid \<Rightarrow> int \<Rightarrow> int \<Rightarrow> account_rate_limits \<Rightarrow> budget_error + account_rate_limits" where
  "reserve_request policy user_id now checked_at t =
     reserve_budget user_id ''analysis_request_hour'' (requests_per_hour policy) HOUR_UNIT now checked_at t"

definition reserve_execution ::
  "AnalysisBudgetPolicy \<Rightarrow> uid \<Rightarrow> int \<Rightarrow> int \<Rightarrow> account_rate_limits \<Rightarrow> budget_error + account_rate_limits" where
  "reserve_execution policy user_id now checked_at t =
     and_then (reserve_budget user_id ''analysis_compute_hour'' (executions_per_hour policy) HOUR_UNIT
        now checked_at t)
       (reserve_budget user_id ''analysis_compute_minute'' (executions_per_minute policy) MINUTE now checked_at)"

subsection \<open>Chat quota\<close>

record RateLimitDecision =
  rl_allowed :: bool
  retry_after_seconds :: int

definition limiter_valid :: "int \<Rightarrow> bool" where
  "limiter_valid limit \<longleftrightarrow> 1 \<le> limit \<and> limit < 2147483647"

definition chat_upsert :: "int \<Rightarrow> int \<Rightarrow> counter option \<Rightarrow> counter" where
  "chat_upsert limit bucket row =
     (case row of
        None \<Rightarrow> \<lparr>window_started_at = bucket, request_count = 1\<rparr>
      | Some c \<Rightarrow>
          \<lparr>window_started_at = max (window_started_at c) bucket,
           request_count = (if window_started_at c < bucket then 1 else min (request_count c) limit + 1)\<rparr>)"

definition consume ::
  "int \<Rightarrow> uid \<Rightarrow> int \<Rightarrow> int \<Rightarrow> account_rate_limits \<Rightarrow> RateLimitDecision \<times> account_rate_limits" where
  "consume limit user_id now checked_at t =
     (let c = chat_upsert limit (date_trunc MINUTE now) (t (user_id, ''chat'')) in
      (\<lparr>rl_allowed = request_count c \<le> limit,
        retry_after_seconds = max 1 (ceil_seconds (window_started_at c + 60000000 - checked_at))\<rparr>,
       t((user_id, ''chat'') \<mapsto> c)))"

subsection \<open>The contract of a window counter\<close>

text \<open>
  What both implementations promise: a request either is admitted, and then counts in the window
  that is current afterwards, or is refused because that window already holds \<open>limit\<close> admissions.
  \<open>admitted\<close> reads the number of admissions of the current window off the row.
\<close>

locale window_counter =
  fixes take_one :: "int \<Rightarrow> counter option \<Rightarrow> bool \<times> counter option"
    and admitted :: "counter \<Rightarrow> int"
    and limit :: int
    and wf :: "counter \<Rightarrow> bool"
  assumes limit_pos: "1 \<le> limit"
    and first: "take_one b None = (True, Some c') \<Longrightarrow> window_started_at c' = b \<and> admitted c' = 1"
    and first_admits: "\<exists>c'. take_one b None = (True, Some c')"
    and total: "\<exists>ok c'. take_one b (Some c) = (ok, Some c')"
    and fresh: "wf c \<Longrightarrow> window_started_at c < b \<Longrightarrow> take_one b (Some c) = (ok, Some c')
      \<Longrightarrow> ok \<and> window_started_at c' = b \<and> admitted c' = 1"
    and same: "wf c \<Longrightarrow> b \<le> window_started_at c \<Longrightarrow> take_one b (Some c) = (ok, Some c')
      \<Longrightarrow> window_started_at c' = window_started_at c
        \<and> (ok \<longleftrightarrow> admitted c < limit) \<and> admitted c' = (if ok then admitted c + 1 else admitted c)"
    and wf_first: "take_one b None = (ok, Some c') \<Longrightarrow> wf c'"
    and wf_take: "wf c \<Longrightarrow> take_one b (Some c) = (ok, Some c') \<Longrightarrow> wf c'"
    and wf_bound: "wf c \<Longrightarrow> 0 \<le> admitted c \<and> admitted c \<le> limit"
begin

text \<open>The decisions for the requests of a list of buckets, each with the window it was counted in.\<close>

fun decisions :: "counter option \<Rightarrow> int list \<Rightarrow> (int \<times> bool) list" where
  "decisions row [] = []"
| "decisions row (b # bs) =
     (case take_one b row of (ok, row') \<Rightarrow>
        (case row' of None \<Rightarrow> b | Some c \<Rightarrow> window_started_at c, ok) # decisions row' bs)"

definition admissions :: "int \<Rightarrow> (int \<times> bool) list \<Rightarrow> int" where
  "admissions w ds = int (length (filter (\<lambda>d. d = (w, True)) ds))"

lemma admissions_Cons [simp]: "admissions w (d # ds) = (if d = (w, True) then 1 else 0) + admissions w ds"
  by (simp add: admissions_def)

lemma take_SomeE:
  assumes "wf c"
  obtains ok c' where "take_one b (Some c) = (ok, Some c')" "wf c'"
    "window_started_at c' = max (window_started_at c) b"
    "window_started_at c < b \<Longrightarrow> ok \<and> admitted c' = 1"
    "b \<le> window_started_at c \<Longrightarrow> (ok \<longleftrightarrow> admitted c < limit) \<and> admitted c' = (if ok then admitted c + 1 else admitted c)"
proof -
  obtain ok c' where t: "take_one b (Some c) = (ok, Some c')" using total by blast
  show thesis
    by (rule that [OF t wf_take [OF assms t]])
      (use fresh [OF assms _ t] same [OF assms _ t] in \<open>cases "window_started_at c < b"; auto\<close>)+
qed

lemma past_windows_closed:
  assumes "wf c" and "w < window_started_at c"
  shows "admissions w (decisions (Some c) bs) = 0"
  using assms
proof (induction bs arbitrary: c)
  case (Cons b bs)
  from take_SomeE [OF Cons.prems(1), of b] obtain ok c' where
    "take_one b (Some c) = (ok, Some c')" "wf c'" "window_started_at c' = max (window_started_at c) b"
    by metis
  with Cons show ?case by auto
qed (simp add: admissions_def)

lemma admissions_from:
  assumes "wf c" and "window_started_at c \<le> w"
  shows "admissions w (decisions (Some c) bs) \<le> limit - (if window_started_at c = w then admitted c else 0)"
  using assms
proof (induction bs arbitrary: c)
  case Nil
  then show ?case using wf_bound [of c] by (simp add: admissions_def)
next
  case (Cons b bs)
  from take_SomeE [OF Cons.prems(1), of b] obtain ok c' where
    t: "take_one b (Some c) = (ok, Some c')" "wf c'" "window_started_at c' = max (window_started_at c) b"
    "window_started_at c < b \<Longrightarrow> ok \<and> admitted c' = 1"
    "b \<le> window_started_at c \<Longrightarrow> (ok \<longleftrightarrow> admitted c < limit) \<and> admitted c' = (if ok then admitted c + 1 else admitted c)"
    by metis
  note bounds = wf_bound [OF Cons.prems(1)] limit_pos
  show ?case
  proof (cases "window_started_at c' \<le> w")
    case True
    with Cons.IH [OF t(2)] have "admissions w (decisions (Some c') bs)
        \<le> limit - (if window_started_at c' = w then admitted c' else 0)" by simp
    with t bounds True show ?thesis by (cases "window_started_at c < b") (auto split: if_splits)
  next
    case False
    with past_windows_closed [OF t(2)] t bounds show ?thesis by auto
  qed
qed

text \<open>No window ever admits more than \<open>limit\<close> requests, whatever the order the requests arrive in.\<close>

lemma window_admissions_bounded: "admissions w (decisions None bs) \<le> limit"
proof (cases bs)
  case (Cons b rest)
  obtain c' where t: "take_one b None = (True, Some c')" using first_admits by blast
  note c' = first [OF t] wf_first [OF t]
  show ?thesis
  proof (cases "b \<le> w")
    case True
    with admissions_from [of c' w rest] c' Cons t show ?thesis by (auto split: if_splits)
  next
    case False
    with past_windows_closed [of c' w rest] c' Cons t limit_pos show ?thesis by auto
  qed
qed (use limit_pos in \<open>simp add: admissions_def\<close>)

text \<open>The first request of a later window is admitted.\<close>

lemma new_window_admits:
  assumes "wf c" and "window_started_at c < b"
  shows "fst (take_one b (Some c))"
  using take_SomeE [OF assms(1), of b] assms(2) by fastforce

end


subsection \<open>Both counters keep the contract\<close>

definition budget_take :: "int \<Rightarrow> int \<Rightarrow> counter option \<Rightarrow> bool \<times> counter option" where
  "budget_take limit bucket row =
     (case budget_upsert limit bucket row of Some c \<Rightarrow> (True, Some c) | None \<Rightarrow> (False, row))"

definition chat_take :: "int \<Rightarrow> int \<Rightarrow> counter option \<Rightarrow> bool \<times> counter option" where
  "chat_take limit bucket row =
     (let c = chat_upsert limit bucket row in (request_count c \<le> limit, Some c))"

locale positive_limit =
  fixes limit :: int
  assumes limit_pos: "1 \<le> limit"

sublocale positive_limit \<subseteq> budget: window_counter "budget_take limit" request_count limit
  "\<lambda>c. 1 \<le> request_count c \<and> request_count c \<le> limit"
  using limit_pos
  by unfold_locales (auto simp: budget_take_def budget_upsert_def split: if_splits option.splits)

sublocale positive_limit \<subseteq> chat: window_counter "chat_take limit" "\<lambda>c. min (request_count c) limit" limit
  "\<lambda>c. 1 \<le> request_count c \<and> request_count c \<le> limit + 1"
  using limit_pos
  by unfold_locales (auto simp: chat_take_def chat_upsert_def Let_def split: if_splits)


text \<open>The limits the program starts with.\<close>

interpretation request_hour: positive_limit 10
  by unfold_locales simp

interpretation compute_hour: positive_limit 30
  by unfold_locales simp

interpretation compute_minute: positive_limit 2
  by unfold_locales simp

interpretation chat_minute: positive_limit 20
  by unfold_locales simp

subsection \<open>Sequences of requests\<close>

text \<open>
  The outcome of a sequence of reservations: for each the window it was counted in (or refused
  for) and whether it was granted.
\<close>

fun budget_log :: "uid \<Rightarrow> string \<Rightarrow> int \<Rightarrow> time_unit \<Rightarrow> int list \<Rightarrow> account_rate_limits \<Rightarrow> (int \<times> bool) list" where
  "budget_log u scope limit unit [] t = []"
| "budget_log u scope limit unit (now # nows) t =
     (case reserve_budget u scope limit unit now now t of
        Inr t' \<Rightarrow> (window_started_at (the (t' (u, scope))), True) # budget_log u scope limit unit nows t'
      | Inl _ \<Rightarrow> (window_started_at (the (t (u, scope))), False) # budget_log u scope limit unit nows t)"

fun chat_log :: "uid \<Rightarrow> int \<Rightarrow> int list \<Rightarrow> account_rate_limits \<Rightarrow> (int \<times> bool) list" where
  "chat_log u limit [] t = []"
| "chat_log u limit (now # nows) t =
     (case consume limit u now now t of
        (d, t') \<Rightarrow> (window_started_at (the (t' (u, ''chat''))), rl_allowed d) # chat_log u limit nows t')"

context positive_limit
begin

lemma budget_log_decisions:
  "budget_log u scope limit unit nows t = budget.decisions (t (u, scope)) (map (date_trunc unit) nows)"
  by (induction nows arbitrary: t)
    (auto simp: reserve_budget_def budget_take_def Let_def budget_upsert_def split: option.splits)

lemma chat_log_decisions:
  "chat_log u limit nows t = chat.decisions (t (u, ''chat'')) (map (date_trunc MINUTE) nows)"
  by (induction nows arbitrary: t) (auto simp: consume_def chat_take_def Let_def)

lemma budget_log_bounded:
  assumes "t (u, scope) = None"
  shows "int (length (filter (\<lambda>d. d = (w, True)) (budget_log u scope limit unit nows t))) \<le> limit"
  using budget.window_admissions_bounded [of w "map (date_trunc unit) nows"]
  by (simp add: budget.admissions_def budget_log_decisions assms)

lemma chat_log_bounded:
  assumes "t (u, ''chat'') = None"
  shows "int (length (filter (\<lambda>d. d = (w, True)) (chat_log u limit nows t))) \<le> limit"
  using chat.window_admissions_bounded [of w "map (date_trunc MINUTE) nows"]
  by (simp add: chat.admissions_def chat_log_decisions assms)

end

text \<open>
  C30: an account never gets more than \<open>limit\<close> reservations in one window: in any sequence of
  reservations, also one whose clock readings arrive out of order, at most \<open>limit\<close> are granted in
  each minute or hour.
\<close>

theorem budget_never_exceeded:
  assumes "1 \<le> limit" and "t (u, scope) = None"
  shows "int (length (filter (\<lambda>d. d = (w, True)) (budget_log u scope limit unit nows t))) \<le> limit"
proof -
  have "positive_limit limit" using assms(1) by unfold_locales
  then show ?thesis by (rule positive_limit.budget_log_bounded) (rule assms(2))
qed

theorem budget_never_exceeded_witness:
  "int (length (filter (\<lambda>d. d = (0, True)) (budget_log ''u'' ''s'' 2 MINUTE [1, 2, 3, 60000001, 4] (\<lambda>_. None)))) \<le> 2"
  by (rule budget_never_exceeded) simp_all

text \<open>
  The chat quota admits at most its limit of requests per minute and account, and the stored
  count never exceeds the limit by more than one, however many requests are refused.
\<close>

theorem chat_quota_never_exceeded:
  assumes "1 \<le> limit" and "t (u, ''chat'') = None"
  shows "int (length (filter (\<lambda>d. d = (w, True)) (chat_log u limit nows t))) \<le> limit"
proof -
  have "positive_limit limit" using assms(1) by unfold_locales
  then show ?thesis by (rule positive_limit.chat_log_bounded) (rule assms(2))
qed

theorem chat_quota_never_exceeded_witness:
  "int (length (filter (\<lambda>d. d = (0, True)) (chat_log ''u'' 1 [1, 2, 3] (\<lambda>_. None)))) \<le> 1"
  by (rule chat_quota_never_exceeded) simp_all

subsection \<open>A refused reservation can be retried\<close>

definition aligned :: "time_unit \<Rightarrow> counter option \<Rightarrow> bool" where
  "aligned unit row \<longleftrightarrow> (case row of None \<Rightarrow> True | Some c \<Rightarrow> window_started_at c mod unit_length unit = 0)"

lemma date_trunc_aligned: "date_trunc u t mod unit_length u = 0"
  by (simp add: date_trunc_def mod_diff_right_eq)

lemma reserve_budget_aligned:
  assumes "aligned unit (t (u, scope))" and "reserve_budget u scope limit unit now chk t = Inr t'"
  shows "aligned unit (t' (u, scope))"
  using assms date_trunc_aligned [of unit now]
  by (auto simp: reserve_budget_def budget_upsert_def aligned_def Let_def max_def
      split: option.splits if_splits)

lemma next_window_later:
  assumes "w mod unit_length u = 0" and "w + unit_length u \<le> t"
  shows "w < date_trunc u t"
proof -
  have "date_trunc u (w + unit_length u) = w + unit_length u"
    using assms(1) by (simp add: date_trunc_def)
  then have "w + unit_length u \<le> date_trunc u t" using date_trunc_mono [OF assms(2), of u] by simp
  then show ?thesis using unit_length_pos [of u] by linarith
qed

text \<open>
  C31: the advertised wait is long enough: after a refused reservation that reports
  \<open>retry_after_seconds\<close>, a reservation made that many seconds later or at any time after is granted,
  as long as no other request has used the account's counter meanwhile.
\<close>

theorem budget_retry_succeeds:
  assumes "aligned unit (t (u, scope))"
    and "reserve_budget u scope limit unit now checked_at t = Inl (AnalysisBudgetExceeded retry)"
    and "checked_at + retry * 1000000 \<le> later"
  shows "\<exists>t'. reserve_budget u scope limit unit later chk t = Inr t'"
proof -
  from assms(2) obtain c where c: "t (u, scope) = Some c"
    and retry: "retry = max 1 (ceil_seconds (window_started_at c + unit_length unit - checked_at))"
    by (auto simp: reserve_budget_def budget_upsert_def Let_def split: option.splits if_splits)
  have "window_started_at c + unit_length unit - checked_at \<le> retry * 1000000"
    using ceil_seconds_ge [of "window_started_at c + unit_length unit - checked_at"] retry by linarith
  then have "window_started_at c < date_trunc unit later"
    using assms(1,3) c by (intro next_window_later) (auto simp: aligned_def)
  then show ?thesis by (simp add: reserve_budget_def budget_upsert_def c Let_def)
qed

theorem budget_retry_succeeds_witness:
  "\<exists>t'. reserve_budget ''u'' ''s'' 1 MINUTE 61000000 61000000
      [(''u'', ''s'') \<mapsto> \<lparr>window_started_at = 0, request_count = 1\<rparr>] = Inr t'"
  by (rule budget_retry_succeeds [of _ _ _ _ _ 1000000 1000000 59])
    (simp_all add: aligned_def reserve_budget_def budget_upsert_def date_trunc_def ceil_seconds_def)

end
