(* ===== verification/Weekly_Plan_Models.thy ===== *)
theory Weekly_Plan_Models
  imports Calendar Json "HOL-Library.AList"
begin

section \<open>The weekly plan: its data\<close>

text \<open>
  \<open>src/jobtology_be/application/weekly_plan_models.py\<close> with the views it builds on
  (\<open>application/queries.py\<close>, \<open>application/requirement_metadata.py\<close>). A step of a plan is identified
  by its UUID, which is also its key in the order, hours and schedules of the stored overrides. The
  sentences shown to the user (\<open>reason\<close>, the warning messages) are kept as what they are built
  from. A Python dictionary is an association list in insertion order.
\<close>

subsection \<open>Dictionaries and dates\<close>

definition py_dict :: "('k \<times> 'v) list \<Rightarrow> ('k \<times> 'v) list" where
  "py_dict kvs = foldl (\<lambda>d (k, v). AList.update k v d) [] kvs"

definition dict_get :: "('k \<times> 'v) list \<Rightarrow> 'k \<Rightarrow> 'v \<Rightarrow> 'v" where
  "dict_get d k v = (case map_of d k of None \<Rightarrow> v | Some x \<Rightarrow> x)"

text \<open>\<open>ceil(delta.total_seconds() / 3600)\<close>; \<open>min\<close> and \<open>max\<close> of timestamps keep the first of equals.\<close>

definition ceil_hours :: "int \<Rightarrow> int" where
  "ceil_hours us = - ((- us) div HOUR)"

definition dt_min :: "datetime \<Rightarrow> datetime list \<Rightarrow> datetime" where
  "dt_min d ds = foldl (\<lambda>m x. if dt_less x m then x else m) d ds"

definition dt_max :: "datetime \<Rightarrow> datetime list \<Rightarrow> datetime" where
  "dt_max d ds = foldl (\<lambda>m x. if dt_less m x then x else m) d ds"

text \<open>
  \<open>value.astimezone(timezone).date()\<close>, which leaves a value of that very zone alone, and
  \<open>datetime.combine(day, datetime.min.time(), timezone)\<close> with the offset Python gives a wall clock.
\<close>

definition local_date :: "zone \<Rightarrow> datetime \<Rightarrow> int" where
  "local_date z d = (if dt_tz d = Some (zone_tz z) then date_of (dt_wall d) else date_of (local_wall z (instant d)))"

definition midnight :: "zone \<Rightarrow> (int \<Rightarrow> int) \<Rightarrow> int \<Rightarrow> datetime" where
  "midnight z wall_off day = \<lparr>dt_wall = day * DAY, dt_off = wall_off (day * DAY), dt_tz = Some (zone_tz z)\<rparr>"

definition weekday_of :: "int \<Rightarrow> int" where
  "weekday_of day = isoweekday day - 1"

subsection \<open>Requirement metadata\<close>

datatype HoursBasis = OFFICIAL | ESTIMATED | CUSTOM_BASIS

datatype QualificationKind = NATIONAL_TECHNICAL | WORK_LEARNING

record RequirementQualification =
  ql_code :: string
  ql_name :: "string option"
  ql_display_name :: string
  ql_kind :: "QualificationKind option"

record RequirementMetadata =
  md_ncs_level :: "int option"
  md_demand_pct :: "int option"
  md_estimated_hours :: "int option"
  md_hours_basis :: "HoursBasis option"
  md_demand_postings :: "int option"
  md_demand_base :: "int option"
  md_ncs_base_code :: "string option"
  md_qualifications :: "RequirementQualification list"
  md_field_code :: "string option"
  md_field_name :: "string option"

subsection \<open>Steps, plans and overrides\<close>

record RoadmapStepView =
  vw_step_id :: uuid
  vw_step_key :: string
  vw_position :: int
  vw_action_id :: string
  vw_template_revision :: int
  vw_state :: StepState
  vw_planned_start :: "datetime option"
  vw_planned_end :: "datetime option"
  vw_outcomes :: "JsonValue list"
  vw_criteria :: "JsonValue list"
  vw_prerequisite_step_ids :: "uuid list"
  vw_title :: "string option"

record PlanContext =
  px_roadmap_id :: uuid
  px_created_at :: datetime
  px_recommended_weekly_hours :: int
  px_target_date :: "int option"
  px_timezone :: string
  px_step_hours :: "(string \<times> int) list"
  px_step_allocations :: "(string \<times> datetime list) list"
  px_requirement_metadata :: "(string \<times> RequirementMetadata option) list"
  px_as_of :: "datetime option"
  px_step_metadata :: "(string \<times> RequirementMetadata option) list"
  px_weekly_availability :: "WeeklyAvailabilityWindow list"
  px_unavailable_dates :: "int list"

record PlanStepInput =
  in_step :: RoadmapStepView
  in_metadata :: "RequirementMetadata option"

record WeeklyPlanAllocation =
  wa_week :: int
  wa_hours :: int

datatype Phase = BASIC | CORE | ADVANCED

datatype StepReason = AfterSteps "string list" "int option" | SavedOrder "int option"

record WeeklyPlanStep =
  wp_step_id :: uuid
  wp_number :: int
  wp_recommended_number :: int
  wp_title :: string
  wp_name :: string
  wp_requirement_key :: "string option"
  wp_state :: StepState
  wp_phase :: Phase
  wp_ncs_level :: "int option"
  wp_field_code :: "string option"
  wp_field_name :: "string option"
  wp_hours :: int
  wp_recommended_hours :: int
  wp_hours_basis :: HoursBasis
  wp_demand_pct :: "int option"
  wp_start_week :: int
  wp_end_week :: int
  wp_start_date :: int
  wp_end_date :: int
  wp_reason :: StepReason
  wp_moved :: bool
  wp_prerequisite_step_ids :: "uuid list"
  wp_unmet_prerequisite_step_ids :: "uuid list"
  wp_completion_criteria :: "string list"
  wp_week_allocations :: "WeeklyPlanAllocation list"
  wp_planned_start_at :: "datetime option"
  wp_planned_end_at :: "datetime option"

record PlanOverrides =
  po_weekly_hours :: int
  po_rest_weeks :: "int list"
  po_order :: "uuid list"
  po_hours :: "(uuid \<times> int) list"
  po_saved_at :: "datetime option"
  po_version :: int
  po_is_customized :: bool
  po_step_schedules :: "(uuid \<times> WeeklyPlanStep) list"

datatype WeeklyPlanWarning =
    MISSING_SOLVER_SCHEDULE "uuid list"
  | PREREQUISITE_VIOLATION string uuid "uuid list"
  | TARGET_DATE_EXCEEDED int "int option" int

datatype ScheduleSource = SOLVER_SCHEDULE | CUSTOM_SCHEDULE | FALLBACK_SCHEDULE

record WeeklyPlanResponse =
  wr_version :: int
  wr_roadmap_id :: uuid
  wr_start_date :: int
  wr_target_date :: "int option"
  wr_weekly_hours :: int
  wr_recommended_weekly_hours :: int
  wr_rest_weeks :: "int list"
  wr_is_customized :: bool
  wr_saved_at :: "datetime option"
  wr_total_hours :: int
  wr_total_weeks :: int
  wr_completion_date :: int
  wr_recommended_completion_date :: int
  wr_schedule_source :: ScheduleSource
  wr_deadline_exceeded :: bool
  wr_days_past_target :: int
  wr_has_dependency_violations :: bool
  wr_warnings :: "WeeklyPlanWarning list"
  wr_steps :: "WeeklyPlanStep list"

abbreviation step_id_of :: "PlanStepInput \<Rightarrow> uuid" where
  "step_id_of item \<equiv> vw_step_id (in_step item)"

subsection \<open>Lemmas on dictionaries\<close>

lemma py_dict_snoc: "py_dict (kvs @ [(k, v)]) = AList.update k v (py_dict kvs)"
  by (simp add: py_dict_def)

lemma update_fresh: "k \<notin> fst ` set d \<Longrightarrow> AList.update k v d = d @ [(k, v)]"
  by (induction d) auto

lemma py_dict_distinct: "distinct (map fst kvs) \<Longrightarrow> py_dict kvs = kvs"
proof (induction kvs rule: rev_induct)
  case (snoc kv kvs)
  then show ?case by (cases kv) (simp add: py_dict_snoc update_fresh)
qed (simp add: py_dict_def)

lemma ceil_hours_le_iff: "ceil_hours us \<le> h \<longleftrightarrow> us \<le> h * HOUR"
  unfolding ceil_hours_def HOUR_def by linarith

lemma dict_get_update: "dict_get (AList.update k v d) j x = (if j = k then v else dict_get d j x)"
  by (simp add: dict_get_def update_conv')

lemma dict_get_keys: "dict_get d k x \<noteq> x \<Longrightarrow> k \<in> fst ` set d"
  by (auto simp: dict_get_def map_of_eq_None_iff [symmetric] split: option.splits dest: map_of_SomeD)
    (metis fst_conv image_eqI map_of_SomeD)

lemma update_keys_same: "k \<in> fst ` set d \<Longrightarrow> map fst (AList.update k v d) = map fst d"
  by (simp add: update_keys)

lemma dict_get_eq: "distinct (map fst d) \<Longrightarrow> (k, v) \<in> set d \<Longrightarrow> dict_get d k x = v"
  by (simp add: dict_get_def)

lemma sum_update:
  fixes d :: "('k \<times> int) list"
  assumes "distinct (map fst d)" and "k \<in> fst ` set d"
  shows "sum_list (map snd (AList.update k v d)) = sum_list (map snd d) - dict_get d k 0 + v"
  using assms
proof (induction d)
  case (Cons p d)
  then show ?case
  proof (cases "fst p = k")
    case False
    with Cons show ?thesis by (cases p) (auto simp: dict_get_def)
  qed (cases p, simp add: dict_get_def)
qed simp

lemma sum_dict_pos:
  fixes d :: "('k \<times> int) list"
  assumes "\<And>k v. (k, v) \<in> set d \<Longrightarrow> 0 \<le> v"
  shows "0 \<le> sum_list (map snd d)" and "sum_list (map snd d) = 0 \<longleftrightarrow> (\<forall>(k, v) \<in> set d. v = 0)"
proof -
  have nonneg: "x \<in> set (map snd d) \<Longrightarrow> 0 \<le> x" for x using assms by auto
  then show "0 \<le> sum_list (map snd d)" by (rule sum_list_nonneg)
  show "sum_list (map snd d) = 0 \<longleftrightarrow> (\<forall>(k, v) \<in> set d. v = 0)"
    using sum_list_nonneg_eq_0_iff [of "map snd d"] nonneg by auto
qed

end
