(* ===== verification/Database.thy ===== *)
theory Database
  imports Tables Contracts Fixed_Window Weekly_Plan_Models
begin

section \<open>The database\<close>

text \<open>
  The tables of \<open>src/jobtology_be/infrastructure/persistence/schema.py\<close> that the modelled
  transactions read or write, one record per row, and the commands, snapshots and errors of
  \<open>contracts.py\<close>. A \<open>timestamptz\<close> is its UTC instant in microseconds, a \<open>date\<close> its day
  number, a \<open>UUID\<close> its canonical text.

  A transaction is a function of the database that returns an error or a result with the new
  database: an exception inside \<open>sessions.begin()\<close> rolls everything back, so an error carries no
  database. What a transaction reads from outside is its environment \<open>env\<close>: \<open>CURRENT_TIMESTAMP\<close>
  (\<open>e_started\<close>), the successive readings of \<open>clock_timestamp()\<close> (\<open>e_clock\<close>), the application
  clock, \<open>uuid4\<close>, the rows other transactions hold (which \<open>SKIP LOCKED\<close> leaves out), the text
  order of the database and its rendering of JSON scalars. A JSONB column whose reader is a typed
  model (the weekly overrides) holds what that model reads back. Transactions are serial; column length
  limits are not modelled.
\<close>

subsection \<open>Rows\<close>

datatype UserStatus = USER_ACTIVE | USER_DEACTIVATED

record users_row =
  u_id :: uuid
  u_status :: UserStatus
  u_display_name :: "string option"

record profiles_row =
  p_user_id :: uuid
  p_version :: int
  p_major_raw :: string
  p_major_concept_id :: "string option"
  p_year :: "int option"
  p_enrollment_status :: "string option"
  p_expected_graduation_on :: "int option"
  p_latest_analysis_id :: "uuid option"
  p_updated_at :: int

record google_identities_row =
  g_issuer :: string
  g_subject :: string
  g_user_id :: uuid

record user_state_events_row =
  ev_id :: uuid
  ev_user_id :: uuid
  ev_aggregate_id :: uuid
  ev_aggregate_type :: string
  ev_version :: int
  ev_kind :: string
  ev_payload :: json_object

datatype Lifecycle = DRAFT | ACTIVE | ARCHIVED

record goals_row =
  go_id :: uuid
  go_user_id :: uuid
  go_goal_mode :: string
  go_occupation_id :: "string option"
  go_target_by :: int
  go_timezone :: string
  go_original_time_phrase :: string
  go_status :: Lifecycle
  go_updated_at :: int

record analyses_row =
  an_id :: uuid
  an_user_id :: uuid
  an_goal_id :: uuid
  an_profile_version :: int
  an_basis_type :: string
  an_basis_version :: string
  an_release_id :: "string option"
  an_methodology_version :: string
  an_status :: string
  an_reference_at :: int
  an_input_snapshot :: json_object
  an_input_hash :: string
  an_results :: "json_object option"
  an_is_fixture :: bool
  an_generated_at :: "int option"

record calculation_traces_row =
  ct_id :: uuid
  ct_user_id :: uuid
  ct_kind :: string
  ct_input_hash :: string
  ct_versions :: json_object
  ct_release_id :: "string option"
  ct_outputs :: json_object

record route_proposals_row =
  rp_id :: uuid
  rp_analysis_id :: uuid
  rp_user_id :: uuid
  rp_proposal_hash :: string
  rp_profile_version :: int
  rp_constraints_snapshot :: json_object
  rp_feasibility :: string
  rp_optimization_status :: string
  rp_steps :: "json_object list"
  rp_decision_trace_id :: uuid

datatype RequestState = REQ_PENDING | REQ_RUNNING | REQ_READY | REQ_FAILED

record recompute_requests_row =
  rr_id :: uuid
  rr_user_id :: uuid
  rr_profile_version :: int
  rr_trigger_event_id :: uuid
  rr_state :: RequestState
  rr_resulting_analysis_id :: "uuid option"
  rr_proposal_id :: "uuid option"
  rr_auto_roadmap_pending :: bool
  rr_error_code :: "string option"
  rr_failure_details :: "json_object option"
  rr_created_at :: int
  rr_updated_at :: int

record recompute_contexts_row =
  cx_request_id :: uuid
  cx_payload :: json_object

datatype JobState = JOB_READY | JOB_LEASED | JOB_COMPLETED | JOB_FAILED

record outbox_jobs_row =
  jb_id :: uuid
  jb_kind :: string
  jb_payload :: json_object
  jb_recompute_request_id :: "uuid option"
  jb_dedupe_key :: string
  jb_state :: JobState
  jb_attempt_count :: int
  jb_available_at :: int
  jb_lease_until :: "int option"
  jb_lease_token :: "uuid option"

record idempotency_records_row =
  id_user_id :: uuid
  id_method :: string
  id_path :: string
  id_key :: string
  id_request_hash :: string
  id_response_status :: "int option"
  id_response :: "json_object option"
  id_expires_at :: int

record user_capabilities_row =
  uc_id :: uuid
  uc_user_id :: uuid
  uc_category :: string
  uc_raw_text :: string
  uc_entity_id :: "string option"
  uc_proficiency :: "string option"
  uc_verification :: string
  uc_lifecycle :: string
  uc_details :: json_object
  uc_source_completion_event_id :: "uuid option"
  uc_created_at :: int

record route_preferences_row =
  pf_user_id :: uuid
  pf_available_hours_per_week :: int
  pf_availability_source :: string
  pf_budget_mode :: BudgetMode
  pf_max_out_of_pocket_krw :: "int option"
  pf_fastest_path :: bool
  pf_needs_portfolio :: bool
  pf_career_switch :: bool
  pf_weekly_availability :: "WeeklyAvailabilityWindow list"
  pf_unavailable_dates :: "int list"

record roadmaps_row =
  rm_id :: uuid
  rm_user_id :: uuid
  rm_goal_id :: uuid
  rm_proposal_id :: uuid
  rm_title :: string
  rm_state :: Lifecycle
  rm_version :: int
  rm_profile_version :: int
  rm_release_id :: "string option"
  rm_validity :: json_object
  rm_created_at :: int

record roadmap_plan_overrides_row =
  ov_roadmap_id :: uuid
  ov_weekly_hours :: int
  ov_rest_weeks :: "int list"
  ov_step_order :: "uuid list"
  ov_step_hours :: "(uuid \<times> int) list"
  ov_version :: int
  ov_is_customized :: bool
  ov_step_schedules :: "(uuid \<times> WeeklyPlanStep) list"
  ov_updated_at :: int

record roadmap_steps_row =
  st_id :: uuid
  st_roadmap_id :: uuid
  st_step_key :: string
  st_position :: int
  st_action_id :: string
  st_template_revision :: int
  st_state :: StepState
  st_planned_start :: "int option"
  st_planned_end :: "int option"
  st_outcomes :: "JsonValue list"
  st_criteria :: "JsonValue list"

record step_dependencies_row =
  sd_roadmap_id :: uuid
  sd_step_id :: uuid
  sd_prerequisite_step_id :: uuid

record step_completion_inheritances_row =
  si_step_id :: uuid
  si_original_completion_event_id :: uuid

record auth_sessions_row =
  as_id :: uuid
  as_user_id :: uuid
  as_token_hash :: string
  as_csrf_hash :: string
  as_expires_at :: int
  as_revoked_at :: "int option"

record invitation_codes_row =
  iv_id :: uuid
  iv_code_hash :: string
  iv_code_hint :: string
  iv_label :: string
  iv_created_at :: int
  iv_expires_at :: "int option"
  iv_access_hours :: "rat option"
  iv_max_uses :: "int option"
  iv_use_count :: int
  iv_revoked_at :: "int option"

datatype AccessSource = LEGACY | INVITATION

record account_access_row =
  aa_subject_hash :: string
  aa_user_id :: "uuid option"
  aa_invitation_id :: "uuid option"
  aa_source :: AccessSource
  aa_granted_at :: int
  aa_expires_at :: "int option"
  aa_revoked_at :: "int option"

record oauth_login_attempts_row =
  oa_state_hash :: string
  oa_browser_binding_hash :: string
  oa_nonce :: string
  oa_pkce_verifier :: string
  oa_invitation_hash :: "string option"
  oa_expires_at :: int

record management_audit_row =
  ma_id :: uuid
  ma_action :: string
  ma_target_id :: uuid

record database =
  users :: "users_row list"
  profiles :: "profiles_row list"
  google_identities :: "google_identities_row list"
  rate_limits :: account_rate_limits
  user_state_events :: "user_state_events_row list"
  goals :: "goals_row list"
  analyses :: "analyses_row list"
  calculation_traces :: "calculation_traces_row list"
  route_proposals :: "route_proposals_row list"
  recompute_requests :: "recompute_requests_row list"
  recompute_contexts :: "recompute_contexts_row list"
  outbox_jobs :: "outbox_jobs_row list"
  idempotency_records :: "idempotency_records_row list"
  user_capabilities :: "user_capabilities_row list"
  route_preferences :: "route_preferences_row list"
  roadmaps :: "roadmaps_row list"
  roadmap_plan_overrides :: "roadmap_plan_overrides_row list"
  roadmap_steps :: "roadmap_steps_row list"
  step_dependencies :: "step_dependencies_row list"
  step_completion_inheritances :: "step_completion_inheritances_row list"
  auth_sessions :: "auth_sessions_row list"
  invitation_codes :: "invitation_codes_row list"
  account_access :: "account_access_row list"
  oauth_login_attempts :: "oauth_login_attempts_row list"
  management_audit :: "management_audit_row list"

definition empty_db :: database where
  "empty_db = \<lparr>users = [], profiles = [], google_identities = [], rate_limits = (\<lambda>_. None),
     user_state_events = [], goals = [], analyses = [], calculation_traces = [], route_proposals = [],
     recompute_requests = [], recompute_contexts = [], outbox_jobs = [], idempotency_records = [],
     user_capabilities = [], route_preferences = [], roadmaps = [], roadmap_plan_overrides = [], roadmap_steps = [],
     step_dependencies = [], step_completion_inheritances = [], auth_sessions = [], invitation_codes = [],
     account_access = [], oauth_login_attempts = [], management_audit = []\<rparr>"

subsection \<open>Errors and the environment of a transaction\<close>

datatype persistence_error =
    PersistenceConflictError string
  | OwnershipError string
  | MissingRecordError string
  | IdempotencyConflictError string
  | IdempotencyInProgressError string
  | IntegrityError string
  | BudgetExceeded budget_error
  | ContextTypeError
  | StoredDocumentError string

type_synonym idempotency_identity = "uuid \<times> string \<times> string \<times> string"

record env =
  e_started :: int
  e_clock :: "nat \<Rightarrow> int"
  e_app_now :: int
  e_uuid :: "nat \<Rightarrow> uuid"
  e_locked :: "uuid \<Rightarrow> bool"
  e_record_locked :: "idempotency_identity \<Rightarrow> bool"
  e_collate :: "idempotency_identity \<Rightarrow> int"
  e_json_text :: "JsonValue \<Rightarrow> string"

type_synonym 'a transaction = "database \<Rightarrow> persistence_error + ('a \<times> database)"

text \<open>\<open>raise ... if not ok\<close> as a step of a transaction.\<close>

definition require :: "bool \<Rightarrow> 'e \<Rightarrow> 'e + unit" where
  "require ok e = (if ok then Inr () else Inl e)"

lemma require_simps [simp, err_simps]:
  "require True e = Inr ()" "require False e = Inl e"
  by (simp_all add: require_def)

lemma require_Inr_iff [err_simps]: "require ok e = Inr u \<longleftrightarrow> ok"
  by (cases ok) (simp_all add: require_def)

lemma require_Inl_iff [err_simps]: "require ok e = Inl e' \<longleftrightarrow> \<not> ok \<and> e' = e"
  by (cases ok) (auto simp: require_def)

definition sample_env :: "int \<Rightarrow> env" where
  "sample_env t = \<lparr>e_started = t, e_clock = (\<lambda>_. t), e_app_now = t, e_uuid = (\<lambda>n. ''u'' @ show_nat n),
     e_locked = (\<lambda>_. False), e_record_locked = (\<lambda>_. False), e_collate = (\<lambda>_. 0), e_json_text = (\<lambda>_. [])\<rparr>"

end
