(* ===== verification/Outbox.thy ===== *)
theory Outbox
  imports Database
begin

section \<open>The recompute queue\<close>

text \<open>
  \<open>src/jobtology_be/infrastructure/persistence/outbox.py\<close>: recompute requests, their outbox jobs
  and the leases under which workers run them. Reading number \<open>n\<close> of \<open>clock_timestamp()\<close> in a
  transaction is \<open>e_clock env n\<close>; the loop of \<open>claim_recompute_work\<close> makes five readings per row.
\<close>

subsection \<open>Commands and results\<close>

record RecomputeRequestCreate =
  rq_user_id :: uuid
  rq_profile_version :: int
  rq_trigger_event_id :: uuid
  rq_dedupe_key :: string
  rq_payload :: json_object
  rq_context :: "json_object option"

record RecomputeRequestSnapshot =
  rs_request_id :: uuid
  rs_request_state :: RequestState

record OutboxLease =
  le_job_id :: uuid
  le_lease_token :: uuid
  le_kind :: string
  le_payload :: json_object

record RecomputeWorkItem =
  wi_request_id :: uuid
  wi_user_id :: uuid
  wi_profile_version :: int
  wi_lease :: OutboxLease

definition MISSING_RECOMPUTE_CONTEXT :: string where
  "MISSING_RECOMPUTE_CONTEXT = ''MISSING_RECOMPUTE_CONTEXT''"

definition RECOMPUTE_LEASE_FOR :: int where
  "RECOMPUTE_LEASE_FOR = 300000000"

definition STALE_RECOMPUTE_BATCH_LIMIT :: nat where
  "STALE_RECOMPUTE_BATCH_LIMIT = 1000"

subsection \<open>Requests\<close>

definition same_request :: "RecomputeRequestCreate \<Rightarrow> recompute_requests_row \<Rightarrow> bool" where
  "same_request q r \<longleftrightarrow> rr_user_id r = rq_user_id q \<and> rr_profile_version r = rq_profile_version q
     \<and> rr_trigger_event_id r = rq_trigger_event_id q"

text \<open>\<open>INSERT ... ON CONFLICT DO NOTHING\<close>; a missing owner or event violates a foreign key.\<close>

definition insert_request ::
  "env \<Rightarrow> uuid \<Rightarrow> RecomputeRequestCreate \<Rightarrow> database \<Rightarrow> persistence_error + database" where
  "insert_request env request_id q db =
     (if row_exists (\<lambda>r. rr_id r = request_id \<or> same_request q r) (recompute_requests db) then Inr db
      else and_then (require (row_exists (\<lambda>u. u_id u = rq_user_id q) (users db)
             \<and> row_exists (\<lambda>e. ev_id e = rq_trigger_event_id q) (user_state_events db))
             (IntegrityError ''recompute_requests''))
        (\<lambda>_. Inr (db\<lparr>recompute_requests := recompute_requests db @
          [\<lparr>rr_id = request_id, rr_user_id = rq_user_id q, rr_profile_version = rq_profile_version q,
            rr_trigger_event_id = rq_trigger_event_id q,
            rr_state = (if rq_context q \<noteq> None then REQ_PENDING else REQ_FAILED),
            rr_resulting_analysis_id = None, rr_proposal_id = None, rr_auto_roadmap_pending = False,
            rr_error_code = (if rq_context q \<noteq> None then None else Some MISSING_RECOMPUTE_CONTEXT),
            rr_failure_details = None, rr_created_at = e_started env, rr_updated_at = e_started env\<rparr>]\<rparr>)))"

definition insert_context :: "uuid \<Rightarrow> json_object \<Rightarrow> database \<Rightarrow> database" where
  "insert_context request_id context db =
     (if row_exists (\<lambda>c. cx_request_id c = request_id) (recompute_contexts db) then db
      else db\<lparr>recompute_contexts := recompute_contexts db
             @ [\<lparr>cx_request_id = request_id, cx_payload = context\<rparr>]\<rparr>)"

text \<open>\<open>id\<close>, \<open>dedupe_key\<close> and \<open>recompute_request_id\<close> are unique: any of them is a conflict.\<close>

definition job_conflict :: "uuid \<Rightarrow> string \<Rightarrow> uuid \<Rightarrow> outbox_jobs_row \<Rightarrow> bool" where
  "job_conflict job_id dedupe_key request_id j \<longleftrightarrow>
     jb_id j = job_id \<or> jb_dedupe_key j = dedupe_key \<or> jb_recompute_request_id j = Some request_id"

definition persist_recompute_request ::
  "env \<Rightarrow> uuid \<Rightarrow> uuid \<Rightarrow> RecomputeRequestCreate \<Rightarrow> RecomputeRequestSnapshot transaction" where
  "persist_recompute_request env request_id job_id q db =
     and_then (insert_request env request_id q db)
       (\<lambda>db. case one_or_none (same_request q) (recompute_requests db) of
          None \<Rightarrow> Inl (MissingRecordError ''recompute request'')
        | Some row \<Rightarrow>
            (let snapshot = \<lparr>rs_request_id = rr_id row, rs_request_state = rr_state row\<rparr> in
             case rq_context q of
               None \<Rightarrow> Inr (snapshot, db)
             | Some context \<Rightarrow>
                 if rr_state row \<noteq> REQ_PENDING then Inr (snapshot, db)
                 else
                   let db = insert_context (rr_id row) context db in
                   if row_exists (job_conflict job_id (rq_dedupe_key q) (rr_id row)) (outbox_jobs db)
                   then (if Option.bind (one_or_none (\<lambda>j. jb_dedupe_key j = rq_dedupe_key q) (outbox_jobs db))
                              jb_recompute_request_id \<noteq> Some (rr_id row)
                         then Inl (PersistenceConflictError ''recompute dedupe'')
                         else Inr (snapshot, db))
                   else Inr (snapshot, db\<lparr>outbox_jobs := outbox_jobs db @
                     [\<lparr>jb_id = job_id, jb_kind = ''RECOMPUTE'',
                       jb_payload = AList.update ''recompute_request_id'' (JStr (rr_id row)) (rq_payload q),
                       jb_recompute_request_id = Some (rr_id row), jb_dedupe_key = rq_dedupe_key q,
                       jb_state = JOB_READY, jb_attempt_count = 0, jb_available_at = e_started env,
                       jb_lease_until = None, jb_lease_token = None\<rparr>]\<rparr>)))"

definition enqueue_recompute :: "env \<Rightarrow> uuid \<Rightarrow> int \<Rightarrow> uuid \<Rightarrow> uuid \<Rightarrow> uuid \<Rightarrow> unit transaction" where
  "enqueue_recompute env user_id profile_version event_id request_id job_id db =
     and_then (persist_recompute_request env request_id job_id
        \<lparr>rq_user_id = user_id, rq_profile_version = profile_version, rq_trigger_event_id = event_id,
         rq_dedupe_key = ''missing-context:'' @ event_id, rq_payload = [], rq_context = None\<rparr> db)
       (\<lambda>(_, db). Inr ((), db))"

subsection \<open>Leases of other jobs\<close>

definition claimable :: "int \<Rightarrow> outbox_jobs_row \<Rightarrow> bool" where
  "claimable now j \<longleftrightarrow> jb_state j = JOB_READY \<and> jb_available_at j \<le> now
     \<or> jb_state j = JOB_LEASED \<and> (case jb_lease_until j of None \<Rightarrow> False | Some u \<Rightarrow> u < now)"

definition take_lease :: "uuid \<Rightarrow> int \<Rightarrow> outbox_jobs_row \<Rightarrow> outbox_jobs_row" where
  "take_lease token until_at j = j\<lparr>jb_state := JOB_LEASED, jb_lease_token := Some token,
     jb_lease_until := Some until_at, jb_attempt_count := jb_attempt_count j + 1\<rparr>"

definition end_lease :: "JobState \<Rightarrow> outbox_jobs_row \<Rightarrow> outbox_jobs_row" where
  "end_lease state j = j\<lparr>jb_state := state, jb_lease_token := None, jb_lease_until := None\<rparr>"

fun lease_rows :: "env \<Rightarrow> int \<Rightarrow> nat \<Rightarrow> outbox_jobs_row list \<Rightarrow> database \<Rightarrow> OutboxLease list \<times> database" where
  "lease_rows env lease_for n [] db = ([], db)"
| "lease_rows env lease_for n (row # rows) db =
     (let db = db\<lparr>outbox_jobs := update_where (\<lambda>j. jb_id j = jb_id row)
            (take_lease (e_uuid env n) (e_clock env (Suc n) + lease_for)) (outbox_jobs db)\<rparr>;
          (leases, db) = lease_rows env lease_for (Suc n) rows db
      in (\<lparr>le_job_id = jb_id row, le_lease_token = e_uuid env n, le_kind = jb_kind row,
           le_payload = jb_payload row\<rparr> # leases, db))"

definition claim_outbox_jobs :: "env \<Rightarrow> nat \<Rightarrow> int \<Rightarrow> database \<Rightarrow> OutboxLease list \<times> database" where
  "claim_outbox_jobs env limit lease_for db =
     lease_rows env lease_for 0
       (take limit (sort_key (\<lambda>j. (jb_available_at j, jb_id j))
          (rows_where (\<lambda>j. jb_kind j \<noteq> ''RECOMPUTE'' \<and> claimable (e_clock env 0) j
             \<and> \<not> e_locked env (jb_id j)) (outbox_jobs db)))) db"

definition complete_outbox_job :: "env \<Rightarrow> OutboxLease \<Rightarrow> unit transaction" where
  "complete_outbox_job env lease db =
     (let held = (\<lambda>j. jb_id j = le_job_id lease \<and> jb_kind j \<noteq> ''RECOMPUTE''
          \<and> jb_lease_token j = Some (le_lease_token lease) \<and> jb_state j = JOB_LEASED
          \<and> (case jb_lease_until j of None \<Rightarrow> False | Some u \<Rightarrow> e_clock env 0 < u))
      in and_then (require (rowcount held (outbox_jobs db) = 1) (PersistenceConflictError ''outbox lease''))
           (\<lambda>_. Inr ((), db\<lparr>outbox_jobs := update_where held (end_lease JOB_COMPLETED) (outbox_jobs db)\<rparr>)))"

subsection \<open>Recompute work\<close>

type_synonym joined_row =
  "outbox_jobs_row \<times> recompute_requests_row \<times> recompute_contexts_row \<times> profiles_row"

definition joined_rows :: "database \<Rightarrow> joined_row list" where
  "joined_rows db =
     [(j, r, c, p). j \<leftarrow> outbox_jobs db, r \<leftarrow> recompute_requests db, jb_recompute_request_id j = Some (rr_id r),
        c \<leftarrow> recompute_contexts db, cx_request_id c = rr_id r,
        p \<leftarrow> profiles db, p_user_id p = rr_user_id r]"

definition claim_conditions :: "env \<Rightarrow> int \<Rightarrow> string set option \<Rightarrow> joined_row \<Rightarrow> bool" where
  "claim_conditions env now eligible_corpus_sources = (\<lambda>(j, r, c, p).
     jb_kind j = ''RECOMPUTE'' \<and> (rr_state r = REQ_PENDING \<or> rr_state r = REQ_RUNNING) \<and> claimable now j
     \<and> (case eligible_corpus_sources of None \<Rightarrow> True
        | Some sources \<Rightarrow>
            (case astext (e_json_text env)
                (json_get ''source'' (json_get ''snapshot_selection'' (Some (JMap (cx_payload c))))) of
               None \<Rightarrow> False
             | Some source \<Rightarrow> source \<in> sources)))"

definition retire_stale :: "env \<Rightarrow> string set option \<Rightarrow> database \<Rightarrow> database" where
  "retire_stale env eligible db =
     (let stale = take STALE_RECOMPUTE_BATCH_LIMIT (sort_key (\<lambda>(j, r, c, p). jb_id j)
            (filter (\<lambda>row. claim_conditions env (e_clock env 0) eligible row
               \<and> (case row of (j, r, c, p) \<Rightarrow> rr_profile_version r < p_version p \<and> \<not> e_locked env (jb_id j)))
             (joined_rows db)));
          jobs = (\<lambda>(j, r, c, p). jb_id j) ` set stale;
          requests = (\<lambda>(j, r, c, p). rr_id r) ` set stale
      in db\<lparr>outbox_jobs := update_where (\<lambda>j. jb_id j \<in> jobs) (end_lease JOB_COMPLETED) (outbox_jobs db),
            recompute_requests := update_where (\<lambda>r. rr_id r \<in> requests)
              (\<lambda>r. r\<lparr>rr_state := REQ_FAILED, rr_error_code := Some ''STALE_PROFILE'',
                     rr_updated_at := e_clock env 1\<rparr>) (recompute_requests db)\<rparr>)"

definition current_rows :: "env \<Rightarrow> string set option \<Rightarrow> nat \<Rightarrow> database \<Rightarrow> joined_row list" where
  "current_rows env eligible limit db =
     take limit (sort_key (\<lambda>(j, r, c, p). (jb_available_at j, jb_id j))
       (filter (\<lambda>row. claim_conditions env (e_clock env 2) eligible row
          \<and> (case row of (j, r, c, p) \<Rightarrow> rr_profile_version r = p_version p
               \<and> row_exists (\<lambda>u. u_id u = rr_user_id r) (users db)
               \<and> \<not> e_locked env (jb_id j) \<and> \<not> e_locked env (rr_user_id r)))
        (joined_rows db)))"

text \<open>Another request of the account that a worker is running now.\<close>

definition already_running :: "int \<Rightarrow> recompute_requests_row \<Rightarrow> database \<Rightarrow> bool" where
  "already_running now r db \<longleftrightarrow>
     row_exists (\<lambda>j. jb_state j = JOB_LEASED
       \<and> (case jb_lease_until j of None \<Rightarrow> False | Some u \<Rightarrow> now < u)
       \<and> row_exists (\<lambda>r'. jb_recompute_request_id j = Some (rr_id r') \<and> rr_user_id r' = rr_user_id r
           \<and> rr_id r' \<noteq> rr_id r \<and> rr_state r' = REQ_RUNNING) (recompute_requests db)) (outbox_jobs db)"

definition defer_job :: "uuid \<Rightarrow> int \<Rightarrow> database \<Rightarrow> database" where
  "defer_job job_id available db =
     db\<lparr>outbox_jobs := update_where (\<lambda>j. jb_id j = job_id)
       (\<lambda>j. (end_lease JOB_READY j)\<lparr>jb_available_at := available\<rparr>) (outbox_jobs db)\<rparr>"

definition lease_recompute :: "env \<Rightarrow> nat \<Rightarrow> outbox_jobs_row \<Rightarrow> recompute_requests_row
    \<Rightarrow> RecomputeWorkItem transaction" where
  "lease_recompute env n j r db =
     (let token = e_uuid env n;
          the_job = (\<lambda>j'. jb_id j' = jb_id j \<and> jb_recompute_request_id j' = Some (rr_id r)
            \<and> jb_kind j' = ''RECOMPUTE'');
          the_request = (\<lambda>r'. rr_id r' = rr_id r \<and> rr_user_id r' = rr_user_id r
            \<and> rr_profile_version r' = rr_profile_version r
            \<and> (rr_state r' = REQ_PENDING \<or> rr_state r' = REQ_RUNNING))
      in and_then (require (rowcount the_job (outbox_jobs db) = 1) (PersistenceConflictError ''outbox lease''))
         (\<lambda>_. and_then (require (rowcount the_request (recompute_requests db) = 1)
            (PersistenceConflictError ''recompute request''))
         (\<lambda>_. Inr (\<lparr>wi_request_id = rr_id r, wi_user_id = rr_user_id r, wi_profile_version = rr_profile_version r,
               wi_lease = \<lparr>le_job_id = jb_id j, le_lease_token = token, le_kind = jb_kind j,
                 le_payload = jb_payload j\<rparr>\<rparr>,
            db\<lparr>outbox_jobs := update_where the_job
                 (take_lease token (e_clock env (5 * n + 6) + RECOMPUTE_LEASE_FOR)) (outbox_jobs db),
               recompute_requests := update_where the_request
                 (\<lambda>r. r\<lparr>rr_state := REQ_RUNNING, rr_updated_at := e_clock env (5 * n + 7)\<rparr>)
                 (recompute_requests db)\<rparr>))))"

definition claim_row :: "env \<Rightarrow> AnalysisBudgetPolicy \<Rightarrow> nat \<Rightarrow> joined_row \<Rightarrow> RecomputeWorkItem list transaction" where
  "claim_row env policy n = (\<lambda>(j, r, c, p) db.
     if already_running (e_clock env (5 * n + 3)) r db
     then Inr ([], defer_job (jb_id j) (e_clock env (5 * n + 6) + 5000000) db)
     else case reserve_execution policy (rr_user_id r) (e_clock env (5 * n + 4)) (e_clock env (5 * n + 5))
            (rate_limits db) of
        Inl (AnalysisBudgetExceeded retry_after) \<Rightarrow>
          Inr ([], defer_job (jb_id j) (e_clock env (5 * n + 6) + retry_after * 1000000) db)
      | Inr limits \<Rightarrow>
          and_then (lease_recompute env n j r (db\<lparr>rate_limits := limits\<rparr>)) (\<lambda>(item, db). Inr ([item], db)))"

fun claim_rows :: "env \<Rightarrow> AnalysisBudgetPolicy \<Rightarrow> nat \<Rightarrow> joined_row list \<Rightarrow> RecomputeWorkItem list transaction" where
  "claim_rows env policy n [] db = Inr ([], db)"
| "claim_rows env policy n (row # rows) db =
     and_then (claim_row env policy n row db)
       (\<lambda>(items, db). and_then (claim_rows env policy (Suc n) rows db)
         (\<lambda>(more, db). Inr (items @ more, db)))"

definition claim_recompute_work ::
  "env \<Rightarrow> AnalysisBudgetPolicy \<Rightarrow> nat \<Rightarrow> string set option \<Rightarrow> RecomputeWorkItem list transaction" where
  "claim_recompute_work env policy limit eligible_corpus_sources db =
     (let db = retire_stale env eligible_corpus_sources db
      in claim_rows env policy 0 (current_rows env eligible_corpus_sources limit db) db)"

end
