(* ===== verification/Configured_Recompute.thy ===== *)
theory Configured_Recompute
  imports Self_Reports Outbox Calendar Gap_Analysis
begin

section \<open>Recomputation after a change of the user's state\<close>

text \<open>
  \<open>configured_recompute.py\<close> and \<open>context_carryforward.py\<close> of
  \<open>src/jobtology_be/infrastructure/persistence\<close>: after a change, the latest context of the active goal
  is carried forward to the new profile version and queued; where that is impossible a failed request
  records it. The parsed document is \<open>RecomputeContextDocument\<close> of \<open>workers/context.py\<close>; pydantic's
  parsing and serialization, \<open>ZoneInfo\<close> and the validation of self-reports are parameters
  (\<open>context_lib\<close>), \<open>None\<close> where they raise.
\<close>

record RecomputeContextDocument =
  cd_user_id :: uuid
  cd_profile_version :: int
  cd_goal_id :: uuid
  cd_occupation_id :: string
  cd_basis_version :: string
  cd_release_id :: string
  cd_source :: string
  cd_capabilities :: "CapabilityInput list"
  cd_completeness :: InputCompleteness
  cd_constraints :: PlanningConstraints
  cd_reference_at :: datetime
  cd_planning_started_at :: datetime
  cd_calendar :: "PlanningSlot list"
  cd_candidate_availability :: "CandidateAvailability list"
  cd_time_limit_seconds :: rat
  cd_requirement_metadata :: "(string \<times> RequirementMetadata) list"
  cd_calendar_policy :: string

record context_lib =
  cl_parse :: "json_object \<Rightarrow> RecomputeContextDocument option"
  cl_dump :: "RecomputeContextDocument \<Rightarrow> json_object option"
  cl_zone :: "string \<Rightarrow> zone option"
  cl_wall_off :: "string \<Rightarrow> int \<Rightarrow> int"
  cl_spec :: "json_object \<Rightarrow> SpecDetails option"
  cl_capability_list_authoritative :: bool

subsection \<open>Carrying a context forward\<close>

record ContextCarryforwardInput =
  cy_user_id :: uuid
  cy_goal_id :: uuid
  cy_goal_occupation_id :: string
  cy_profile_version :: int
  cy_goal_target_by :: datetime
  cy_capabilities :: "CapabilityInput list"
  cy_completeness :: InputCompleteness
  cy_now :: datetime
  cy_current_constraints :: "PlanningConstraints option"

definition carried_constraints :: "RecomputeContextDocument \<Rightarrow> ContextCarryforwardInput \<Rightarrow> PlanningConstraints" where
  "carried_constraints previous cy = (case cy_current_constraints cy of
       Some c \<Rightarrow> c | None \<Rightarrow> (cd_constraints previous)\<lparr>target_by := cy_goal_target_by cy\<rparr>)"

definition carried_availability :: "datetime \<Rightarrow> CandidateAvailability list \<Rightarrow> CandidateAvailability list" where
  "carried_availability now avs =
     map (\<lambda>a. a\<lparr>available_from := (if dt_less (available_from a) now then now else available_from a)\<rparr>)
       (filter (\<lambda>a. dt_le now (available_until a)) avs)"

text \<open>\<open>None\<close> is \<open>ContextCarryforwardError\<close>.\<close>

definition carry_forward_recompute_context ::
  "context_lib \<Rightarrow> zone \<Rightarrow> (int \<Rightarrow> int) \<Rightarrow> json_object \<Rightarrow> ContextCarryforwardInput \<Rightarrow> json_object option" where
  "carry_forward_recompute_context lib z wall_off previous_payload cy =
     (case cl_parse lib previous_payload of
        None \<Rightarrow> None
      | Some previous \<Rightarrow>
          let c = carried_constraints previous cy in
          if cd_user_id previous \<noteq> cy_user_id cy \<or> cd_goal_id previous \<noteq> cy_goal_id cy
             \<or> cd_occupation_id previous \<noteq> cy_goal_occupation_id cy
             \<or> dt_diff (target_by c) (cy_goal_target_by cy) \<noteq> 0 then None
          else case flexible_weekly_slots z wall_off (cy_now cy) (target_by c) (available_hours_per_week c)
              (weekly_availability c) (unavailable_dates c) of
            Inl _ \<Rightarrow> None
          | Inr [] \<Rightarrow> None
          | Inr slots \<Rightarrow> cl_dump lib (previous\<lparr>cd_user_id := cy_user_id cy, cd_profile_version := cy_profile_version cy,
                cd_goal_id := cy_goal_id cy, cd_capabilities := cy_capabilities cy,
                cd_completeness := cy_completeness cy, cd_constraints := c, cd_reference_at := cy_now cy,
                cd_planning_started_at := cy_now cy, cd_calendar_policy := ''FLEXIBLE_WEEKLY_V1'',
                cd_calendar := slots,
                cd_candidate_availability := carried_availability (cy_now cy) (cd_candidate_availability previous)\<rparr>))"

subsection \<open>The current state of the user\<close>

definition active_capability_rows :: "uuid \<Rightarrow> database \<Rightarrow> user_capabilities_row list" where
  "active_capability_rows user_id db = sort_key (\<lambda>c. (uc_created_at c, uc_id c))
     (rows_where (\<lambda>c. uc_user_id c = user_id \<and> uc_lifecycle c = ''ACTIVE'') (user_capabilities db))"

text \<open>\<open>None\<close> is a capability whose input fails validation.\<close>

definition active_capabilities ::
  "context_lib \<Rightarrow> uuid \<Rightarrow> int \<Rightarrow> database \<Rightarrow> (CapabilityInput list \<times> InputCompleteness) option" where
  "active_capabilities lib user_id today db =
     (let rows = active_capability_rows user_id db in
      case those (map (\<lambda>c. capability_inputs (cl_spec lib) (uc_raw_text c) (uc_entity_id c) (uc_category c)
            (uc_proficiency c) (uc_details c) (uc_source_completion_event_id c \<noteq> None) today) rows) of
        None \<Rightarrow> None
      | Some found \<Rightarrow> let inputs = concat found in
          Some (inputs, \<lparr>entities_complete = (cl_capability_list_authoritative lib
             \<or> inputs \<noteq> [] \<and> list_all (\<lambda>ci. ci_entity_id ci \<noteq> None) inputs),
           experience_complete_entity_ids = set (List.map_filter (\<lambda>c.
             if map_of (uc_details c) ''experience_codes'' \<noteq> None then uc_entity_id c else None) rows)\<rparr>))"

text \<open>\<open>None\<close> is a preference row that the constraints refuse.\<close>

definition current_constraints :: "uuid \<Rightarrow> datetime \<Rightarrow> database \<Rightarrow> PlanningConstraints option option" where
  "current_constraints user_id target db =
     (case one_or_none (\<lambda>p. pf_user_id p = user_id) (route_preferences db) of
        None \<Rightarrow> Some None
      | Some p \<Rightarrow>
          let c = \<lparr>target_by = target, available_hours_per_week = pf_available_hours_per_week p,
                budget_mode = pf_budget_mode p, max_out_of_pocket_krw = pf_max_out_of_pocket_krw p,
                fastest_path = pf_fastest_path p, needs_portfolio = pf_needs_portfolio p,
                career_switch = pf_career_switch p, weekly_availability = pf_weekly_availability p,
                unavailable_dates = pf_unavailable_dates p\<rparr>
          in if constraints_valid c then Some (Some c) else None)"

subsection \<open>Queueing\<close>

definition latest_context :: "env \<Rightarrow> uuid \<Rightarrow> int \<Rightarrow> uuid \<Rightarrow> database \<Rightarrow> json_object option" where
  "latest_context env user_id profile_version goal_id db =
     (case sort_key (\<lambda>(r, c). (- rr_profile_version r, - rr_created_at r))
         [(r, c). r \<leftarrow> recompute_requests db, rr_user_id r = user_id
            \<and> rr_state r \<in> {REQ_PENDING, REQ_RUNNING, REQ_READY} \<and> rr_profile_version r < profile_version,
            c \<leftarrow> recompute_contexts db, cx_request_id c = rr_id r
            \<and> astext (e_json_text env) (map_of (cx_payload c) ''goal_id'') = Some goal_id] of
        [] \<Rightarrow> None | (r, c) # _ \<Rightarrow> Some (cx_payload c))"

text \<open>The context for the new version, if the goal and the user's state still give one.\<close>

definition carried_context :: "context_lib \<Rightarrow> env \<Rightarrow> uuid \<Rightarrow> int \<Rightarrow> uuid \<Rightarrow> database \<Rightarrow> json_object option" where
  "carried_context lib env user_id profile_version goal_id db =
     (case (latest_context env user_id profile_version goal_id db,
            one_or_none (\<lambda>g. go_id g = goal_id \<and> go_user_id g = user_id) (goals db)) of
        (Some payload, Some g) \<Rightarrow>
          (case (go_status g, go_occupation_id g, cl_zone lib (go_timezone g)) of
             (ACTIVE, Some occupation, Some z) \<Rightarrow>
               let target = astimezone z (utc_dt (go_target_by g)); now = astimezone z (utc_dt (e_app_now env))
               in (case (active_capabilities lib user_id (local_date z now) db, current_constraints user_id target db) of
                     (Some (capabilities, completeness), Some constraints) \<Rightarrow>
                       carry_forward_recompute_context lib z (cl_wall_off lib (go_timezone g)) payload
                       \<lparr>cy_user_id = user_id, cy_goal_id = goal_id, cy_goal_occupation_id = occupation,
                        cy_profile_version = profile_version, cy_goal_target_by = target,
                        cy_capabilities = capabilities, cy_completeness = completeness, cy_now = now,
                        cy_current_constraints = constraints\<rparr>
                   | _ \<Rightarrow> None)
           | _ \<Rightarrow> None)
      | _ \<Rightarrow> None)"

definition enqueue_for_goal ::
  "context_lib \<Rightarrow> env \<Rightarrow> uuid \<Rightarrow> int \<Rightarrow> uuid \<Rightarrow> uuid \<Rightarrow> uuid \<Rightarrow> uuid \<Rightarrow> unit transaction" where
  "enqueue_for_goal lib env user_id profile_version event_id goal_id request_id job_id db =
     (case carried_context lib env user_id profile_version goal_id db of
        None \<Rightarrow> enqueue_recompute env user_id profile_version event_id request_id job_id db
      | Some ctx \<Rightarrow>
          and_then (persist_recompute_request env request_id job_id
              \<lparr>rq_user_id = user_id, rq_profile_version = profile_version, rq_trigger_event_id = event_id,
               rq_dedupe_key = ''configured-context:'' @ event_id,
               rq_payload = [(''source'', JStr ''configured-context'')], rq_context = Some ctx\<rparr> db)
            (\<lambda>(_, db). Inr ((), db)))"

definition enqueue_for_active_user ::
  "context_lib \<Rightarrow> env \<Rightarrow> uuid \<Rightarrow> int \<Rightarrow> uuid \<Rightarrow> uuid \<Rightarrow> uuid \<Rightarrow> unit transaction" where
  "enqueue_for_active_user lib env user_id profile_version event_id request_id job_id db =
     (case rows_where (\<lambda>g. go_user_id g = user_id \<and> go_status g = ACTIVE) (goals db) of
        [g] \<Rightarrow> enqueue_for_goal lib env user_id profile_version event_id (go_id g) request_id job_id db
      | _ \<Rightarrow> enqueue_recompute env user_id profile_version event_id request_id job_id db)"

subsection \<open>What queueing leaves alone\<close>

text \<open>Queueing only writes requests, contexts and jobs.\<close>

definition queue_only :: "database \<Rightarrow> database \<Rightarrow> bool" where
  "queue_only db db' \<longleftrightarrow> db'\<lparr>recompute_requests := [], recompute_contexts := [], outbox_jobs := []\<rparr>
     = db\<lparr>recompute_requests := [], recompute_contexts := [], outbox_jobs := []\<rparr>"

lemma queue_only_refl: "queue_only db db"
  by (simp add: queue_only_def)

lemma queue_only_trans: "queue_only db db1 \<Longrightarrow> queue_only db1 db2 \<Longrightarrow> queue_only db db2"
  by (simp add: queue_only_def)

lemma queue_only_insert:
  "queue_only db (db\<lparr>recompute_requests := rs\<rparr>)" "queue_only db (insert_context r ctx db)"
  "queue_only db (db\<lparr>outbox_jobs := js\<rparr>)"
  by (simp_all add: queue_only_def insert_context_def)

lemma queue_only_fields:
  assumes "queue_only db db'"
  shows "users db' = users db" "profiles db' = profiles db" "goals db' = goals db" "analyses db' = analyses db"
    "user_state_events db' = user_state_events db" "user_capabilities db' = user_capabilities db"
    "route_proposals db' = route_proposals db" "roadmaps db' = roadmaps db" "roadmap_steps db' = roadmap_steps db"
    "step_completion_inheritances db' = step_completion_inheritances db" "route_preferences db' = route_preferences db"
  using assms [unfolded queue_only_def, THEN arg_cong, of users] assms [unfolded queue_only_def, THEN arg_cong, of profiles]
    assms [unfolded queue_only_def, THEN arg_cong, of goals] assms [unfolded queue_only_def, THEN arg_cong, of analyses]
    assms [unfolded queue_only_def, THEN arg_cong, of user_state_events]
    assms [unfolded queue_only_def, THEN arg_cong, of user_capabilities]
    assms [unfolded queue_only_def, THEN arg_cong, of route_proposals]
    assms [unfolded queue_only_def, THEN arg_cong, of roadmaps] assms [unfolded queue_only_def, THEN arg_cong, of roadmap_steps]
    assms [unfolded queue_only_def, THEN arg_cong, of step_completion_inheritances]
    assms [unfolded queue_only_def, THEN arg_cong, of route_preferences]
  by simp_all

lemma persist_queue_only:
  assumes "persist_recompute_request env request_id job_id q db = Inr (snapshot, db')"
  shows "queue_only db db'"
proof -
  from assms obtain db1 where db1: "insert_request env request_id q db = Inr db1"
    by (auto simp: persist_recompute_request_def err_simps)
  have first: "queue_only db db1"
    using db1 queue_only_insert(1) queue_only_refl by (auto simp: insert_request_def err_simps split: if_splits)
  have second: "queue_only db1 (insert_context r ctx db1)" for r ctx by (rule queue_only_insert)
  have third: "queue_only (insert_context r ctx db1) ((insert_context r ctx db1)\<lparr>outbox_jobs := js\<rparr>)" for r ctx js
    by (rule queue_only_insert)
  note * = queue_only_trans [OF first second] queue_only_trans [OF queue_only_trans [OF first second] third]
  from assms db1 first show ?thesis
    by (auto simp: persist_recompute_request_def err_simps Let_def * split: option.splits if_splits)
qed

lemma enqueue_queue_only:
  "enqueue_recompute env user version event request job db = Inr (u, db') \<Longrightarrow> queue_only db db'"
  "enqueue_for_goal lib env user version event goal request job db = Inr (u, db') \<Longrightarrow> queue_only db db'"
  "enqueue_for_active_user lib env user version event request job db = Inr (u, db') \<Longrightarrow> queue_only db db'"
proof -
  show e: "enqueue_recompute env user version event request job db = Inr (u, db') \<Longrightarrow> queue_only db db'" for u
    by (auto simp: enqueue_recompute_def err_simps dest: persist_queue_only)
  show g: "enqueue_for_goal lib env user version event goal request job db = Inr (u, db') \<Longrightarrow> queue_only db db'" for goal u
    using e by (auto simp: enqueue_for_goal_def err_simps split: option.splits dest: persist_queue_only)
  show "enqueue_for_active_user lib env user version event request job db = Inr (u, db') \<Longrightarrow> queue_only db db'"
    using e g by (auto simp: enqueue_for_active_user_def split: list.splits)
qed

end
