(* ===== verification/Worker.thy ===== *)
theory Worker
  imports Outbox
begin

section \<open>Workers\<close>

text \<open>
  \<open>src/jobtology_be/infrastructure/persistence/worker.py\<close>: reading the context of leased work,
  storing its result and recording its failure.
\<close>

subsection \<open>Results\<close>

record AnalysisPersist =
  ap_user_id :: uuid
  ap_analysis_id :: uuid
  ap_goal_id :: uuid
  ap_profile_version :: int
  ap_basis_type :: string
  ap_basis_version :: string
  ap_release_id :: "string option"
  ap_methodology_version :: string
  ap_status :: string
  ap_reference_at :: int
  ap_input_snapshot :: json_object
  ap_input_hash :: string
  ap_results :: "json_object option"
  ap_is_fixture :: bool

record RouteProposalPersist =
  pp_user_id :: uuid
  pp_proposal_id :: uuid
  pp_analysis_id :: uuid
  pp_profile_version :: int
  pp_proposal_hash :: string
  pp_constraints_snapshot :: json_object
  pp_feasibility :: string
  pp_optimization_status :: string
  pp_steps :: "json_object list"
  pp_trace_id :: uuid
  pp_trace_versions :: json_object
  pp_trace_outputs :: json_object
  pp_release_id :: "string option"

record RecomputeArtifacts =
  ra_analysis :: AnalysisPersist
  ra_proposal :: "RouteProposalPersist option"

record RecomputeFinalization =
  rf_request_id :: uuid
  rf_analysis_id :: uuid
  rf_proposal_id :: "uuid option"
  rf_updated_latest_analysis :: bool

subsection \<open>Holding a lease\<close>

definition leased_job :: "RecomputeWorkItem \<Rightarrow> outbox_jobs_row \<Rightarrow> bool" where
  "leased_job w j \<longleftrightarrow> jb_id j = le_job_id (wi_lease w) \<and> jb_kind j = ''RECOMPUTE''
     \<and> jb_recompute_request_id j = Some (wi_request_id w)"

definition lease_held :: "int \<Rightarrow> RecomputeWorkItem \<Rightarrow> outbox_jobs_row \<Rightarrow> bool" where
  "lease_held now w j \<longleftrightarrow> jb_state j = JOB_LEASED \<and> jb_lease_token j = Some (le_lease_token (wi_lease w))
     \<and> (case jb_lease_until j of None \<Rightarrow> False | Some u \<Rightarrow> now < u)"

definition load_recompute_context :: "env \<Rightarrow> RecomputeWorkItem \<Rightarrow> database \<Rightarrow> persistence_error + json_object" where
  "load_recompute_context env w db =
     (case [cx_payload c. j \<leftarrow> outbox_jobs db, r \<leftarrow> recompute_requests db,
              jb_recompute_request_id j = Some (rr_id r), c \<leftarrow> recompute_contexts db, cx_request_id c = rr_id r,
              leased_job w j \<and> lease_held (e_clock env 0) w j \<and> rr_user_id r = wi_user_id w
              \<and> rr_profile_version r = wi_profile_version w \<and> rr_state r = REQ_RUNNING] of
        [] \<Rightarrow> Inl (PersistenceConflictError ''recompute context'')
      | payload # _ \<Rightarrow> Inr payload)"

text \<open>The lease and the running request, as both endings of a job check them.\<close>

definition check_lease :: "env \<Rightarrow> RecomputeWorkItem \<Rightarrow> database \<Rightarrow> persistence_error + unit" where
  "check_lease env w db =
     require (case one_or_none (leased_job w) (outbox_jobs db) of
         None \<Rightarrow> False | Some j \<Rightarrow> lease_held (e_app_now env) w j) (PersistenceConflictError ''outbox lease'')"

definition check_request :: "RecomputeWorkItem \<Rightarrow> database \<Rightarrow> persistence_error + unit" where
  "check_request w db =
     require (case one_or_none (\<lambda>r. rr_id r = wi_request_id w \<and> rr_state r = REQ_RUNNING
            \<and> row_exists (\<lambda>c. cx_request_id c = rr_id r) (recompute_contexts db)) (recompute_requests db) of
         None \<Rightarrow> False
       | Some r \<Rightarrow> rr_user_id r = wi_user_id w \<and> rr_profile_version r = wi_profile_version w)
       (MissingRecordError ''recompute request'')"

definition end_request ::
  "RecomputeWorkItem \<Rightarrow> (recompute_requests_row \<Rightarrow> recompute_requests_row) \<Rightarrow> unit transaction" where
  "end_request w f db =
     (let running = (\<lambda>r. rr_id r = wi_request_id w \<and> rr_state r = REQ_RUNNING)
      in and_then (require (rowcount running (recompute_requests db) = 1)
            (PersistenceConflictError ''recompute request''))
           (\<lambda>_. Inr ((), db\<lparr>recompute_requests := update_where running f (recompute_requests db)\<rparr>)))"

definition complete_job :: "env \<Rightarrow> RecomputeWorkItem \<Rightarrow> unit transaction" where
  "complete_job env w db =
     (let held = (\<lambda>j. leased_job w j \<and> lease_held (e_clock env 0) w j)
      in and_then (require (rowcount held (outbox_jobs db) = 1) (PersistenceConflictError ''outbox lease''))
           (\<lambda>_. Inr ((), db\<lparr>outbox_jobs := update_where held (end_lease JOB_COMPLETED) (outbox_jobs db)\<rparr>)))"

subsection \<open>Storing a result\<close>

definition insert_analysis :: "env \<Rightarrow> AnalysisPersist \<Rightarrow> database \<Rightarrow> persistence_error + database" where
  "insert_analysis env a db =
     and_then (require (\<not> row_exists (\<lambda>x. an_id x = ap_analysis_id a) (analyses db)
         \<and> 1 \<le> ap_profile_version a \<and> ap_basis_type a \<in> {''EDITORIAL'', ''MARKET''}) (IntegrityError ''analyses''))
       (\<lambda>_. Inr (db\<lparr>analyses := analyses db @
         [\<lparr>an_id = ap_analysis_id a, an_user_id = ap_user_id a, an_goal_id = ap_goal_id a,
           an_profile_version = ap_profile_version a, an_basis_type = ap_basis_type a,
           an_basis_version = ap_basis_version a, an_release_id = ap_release_id a,
           an_methodology_version = ap_methodology_version a, an_status = ap_status a,
           an_reference_at = ap_reference_at a, an_input_snapshot = ap_input_snapshot a,
           an_input_hash = ap_input_hash a, an_results = ap_results a, an_is_fixture = ap_is_fixture a,
           an_generated_at = Some (e_app_now env)\<rparr>]\<rparr>))"

definition insert_proposal :: "RouteProposalPersist \<Rightarrow> database \<Rightarrow> persistence_error + database" where
  "insert_proposal p db =
     and_then (require (\<not> row_exists (\<lambda>t. ct_id t = pp_trace_id p) (calculation_traces db))
         (IntegrityError ''calculation_traces''))
     (\<lambda>_. and_then (require (\<not> row_exists (\<lambda>x. rp_id x = pp_proposal_id p) (route_proposals db)
         \<and> row_exists (\<lambda>a. an_id a = pp_analysis_id p) (analyses db) \<and> 1 \<le> pp_profile_version p
         \<and> pp_feasibility p \<in> {''FEASIBLE'', ''RISKY'', ''PARTIAL'', ''INFEASIBLE''})
         (IntegrityError ''route_proposals''))
     (\<lambda>_. Inr (db\<lparr>calculation_traces := calculation_traces db @
          [\<lparr>ct_id = pp_trace_id p, ct_user_id = pp_user_id p, ct_kind = ''ROUTE'',
            ct_input_hash = pp_proposal_hash p, ct_versions = pp_trace_versions p,
            ct_release_id = pp_release_id p, ct_outputs = pp_trace_outputs p\<rparr>],
        route_proposals := route_proposals db @
          [\<lparr>rp_id = pp_proposal_id p, rp_analysis_id = pp_analysis_id p, rp_user_id = pp_user_id p,
            rp_proposal_hash = pp_proposal_hash p, rp_profile_version = pp_profile_version p,
            rp_constraints_snapshot = pp_constraints_snapshot p, rp_feasibility = pp_feasibility p,
            rp_optimization_status = pp_optimization_status p, rp_steps = pp_steps p,
            rp_decision_trace_id = pp_trace_id p\<rparr>]\<rparr>)))"

definition artifacts_match :: "RecomputeWorkItem \<Rightarrow> RecomputeArtifacts \<Rightarrow> persistence_error + unit" where
  "artifacts_match w art =
     (let a = ra_analysis art in
      and_then (require (ap_user_id a = wi_user_id w \<and> ap_profile_version a = wi_profile_version w)
          (PersistenceConflictError ''analysis work item''))
        (\<lambda>_. require (case ra_proposal art of None \<Rightarrow> True
            | Some p \<Rightarrow> pp_user_id p = wi_user_id w \<and> pp_profile_version p = wi_profile_version w
                \<and> pp_analysis_id p = ap_analysis_id a)
          (PersistenceConflictError ''route proposal work item'')))"

definition update_pointer :: "RecomputeWorkItem \<Rightarrow> uuid \<Rightarrow> database \<Rightarrow> bool \<times> database" where
  "update_pointer w analysis_id db =
     (let current = (\<lambda>p. p_user_id p = wi_user_id w \<and> p_version p = wi_profile_version w)
      in (rowcount current (profiles db) = 1,
          db\<lparr>profiles := update_where current (\<lambda>p. p\<lparr>p_latest_analysis_id := Some analysis_id\<rparr>) (profiles db)\<rparr>))"

definition finalize_recompute ::
  "env \<Rightarrow> RecomputeWorkItem \<Rightarrow> RecomputeArtifacts \<Rightarrow> RecomputeFinalization transaction" where
  "finalize_recompute env w art db =
     (let a = ra_analysis art; proposal_id = map_option pp_proposal_id (ra_proposal art) in
      and_then (artifacts_match w art)
      (\<lambda>_. and_then (require (row_exists (\<lambda>u. u_id u = wi_user_id w) (users db))
          (PersistenceConflictError ''deleted account''))
      (\<lambda>_. and_then (check_lease env w db)
      (\<lambda>_. and_then (check_request w db)
      (\<lambda>_. and_then (require (map_option go_user_id (one_or_none (\<lambda>g. go_id g = ap_goal_id a) (goals db))
            = Some (wi_user_id w)) (MissingRecordError ''goal''))
      (\<lambda>_. and_then (insert_analysis env a db)
      (\<lambda>db. and_then (case ra_proposal art of None \<Rightarrow> Inr db | Some p \<Rightarrow> insert_proposal p db)
      (\<lambda>db. and_then (end_request w (\<lambda>r. r\<lparr>rr_state := REQ_READY,
            rr_resulting_analysis_id := Some (ap_analysis_id a), rr_proposal_id := proposal_id,
            rr_auto_roadmap_pending := proposal_id \<noteq> None, rr_updated_at := e_app_now env\<rparr>) db)
      (\<lambda>(_, db). let (updated, db) = update_pointer w (ap_analysis_id a) db in
        and_then (complete_job env w db)
          (\<lambda>(_, db). Inr (\<lparr>rf_request_id = wi_request_id w, rf_analysis_id = ap_analysis_id a,
            rf_proposal_id = proposal_id, rf_updated_latest_analysis = updated\<rparr>, db)))))))))))"

subsection \<open>Recording a failure\<close>

definition fail_recompute ::
  "env \<Rightarrow> RecomputeWorkItem \<Rightarrow> string \<Rightarrow> json_object option \<Rightarrow> unit transaction" where
  "fail_recompute env w error_code failure_details db =
     (if \<not> row_exists (\<lambda>u. u_id u = wi_user_id w) (users db) then Inr ((), db)
      else if one_or_none (leased_job w) (outbox_jobs db) = None
           \<and> \<not> row_exists (\<lambda>j. jb_id j = le_job_id (wi_lease w)) (outbox_jobs db)
           \<and> \<not> row_exists (\<lambda>r. rr_id r = wi_request_id w) (recompute_requests db)
        then Inr ((), db)
      else and_then (check_lease env w db)
      (\<lambda>_. and_then (check_request w db)
      (\<lambda>_. and_then (end_request w (\<lambda>r. r\<lparr>rr_state := REQ_FAILED, rr_error_code := Some error_code,
            rr_updated_at := e_app_now env, rr_failure_details := failure_details\<rparr>) db)
      (\<lambda>(_, db). complete_job env w db))))"

end
