(* ===== verification/Transitions.thy ===== *)
theory Transitions
  imports Main
begin

section \<open>Runs of a step relation\<close>

text \<open>
  The persistence layer is a set of transactions that any number of processes commit in any order.
  Its theories give a labelled step relation on the database; a run is a sequence of such steps.
  The locales hold what an invariant, and a relation that every step keeps, give for runs.
\<close>

inductive run :: "('l \<Rightarrow> 's \<Rightarrow> 's \<Rightarrow> bool) \<Rightarrow> 'l list \<Rightarrow> 's \<Rightarrow> 's \<Rightarrow> bool"
  for step :: "'l \<Rightarrow> 's \<Rightarrow> 's \<Rightarrow> bool" where
  run_nil: "run step [] s s"
| run_step: "step l s s1 \<Longrightarrow> run step tr s1 s2 \<Longrightarrow> run step (l # tr) s s2"

inductive_simps run_Nil_iff [simp]: "run step [] s s'"
inductive_cases run_ConsE: "run step (l # tr) s s'"

lemma run_append: "run step tr s s1 \<Longrightarrow> run step tr' s1 s2 \<Longrightarrow> run step (tr @ tr') s s2"
  by (induction rule: run.induct) (auto intro: run_step)

lemma run_snoc: "run step tr s s1 \<Longrightarrow> step l s1 s2 \<Longrightarrow> run step (tr @ [l]) s s2"
  by (rule run_append) (auto intro: run.intros)

text \<open>An invariant of the states.\<close>

locale invariant_system =
  fixes step :: "'l \<Rightarrow> 's \<Rightarrow> 's \<Rightarrow> bool" and inv :: "'s \<Rightarrow> bool"
  assumes step_inv: "step l s s' \<Longrightarrow> inv s \<Longrightarrow> inv s'"
begin

lemma run_inv: "run step tr s s' \<Longrightarrow> inv s \<Longrightarrow> inv s'"
  by (induction rule: run.induct) (auto dest: step_inv)

lemma run_prefix_inv: "run step (tr @ tr') s s' \<Longrightarrow> inv s \<Longrightarrow> \<exists>s1. run step tr s s1 \<and> inv s1 \<and> run step tr' s1 s'"
proof (induction tr arbitrary: s)
  case (Cons l tr)
  from Cons.prems(1) obtain s1 where s1: "step l s s1" "run step (tr @ tr') s1 s'"
    by (auto elim: run_ConsE)
  with Cons.IH [OF s1(2)] Cons.prems(2) step_inv show ?case by (blast intro: run_step)
qed auto

end

text \<open>A relation between a state and every later state.\<close>

locale monotone_system = invariant_system step inv
  for step :: "'l \<Rightarrow> 's \<Rightarrow> 's \<Rightarrow> bool" and inv :: "'s \<Rightarrow> bool" +
  fixes later :: "'s \<Rightarrow> 's \<Rightarrow> bool"
  assumes later_refl: "later s s"
    and later_trans: "later s s1 \<Longrightarrow> later s1 s2 \<Longrightarrow> later s s2"
    and step_later: "step l s s' \<Longrightarrow> inv s \<Longrightarrow> later s s'"
begin

lemma run_later: "run step tr s s' \<Longrightarrow> inv s \<Longrightarrow> later s s'"
proof (induction rule: run.induct)
  case (run_step l s s1 tr s2)
  then have "later s s1" "inv s1" by (auto dest: step_later step_inv)
  with run_step.IH show ?case by (blast intro: later_trans)
qed (rule later_refl)

end

end
