(* ===== verification/Queue_Safety.thy ===== *)
theory Queue_Safety
  imports Worker Transitions
begin

section \<open>Safety of the recompute queue\<close>

text \<open>
  The invariant of the job and request tables, and that the transactions of \<open>Outbox\<close> and \<open>Worker\<close>
  keep it: leases are exclusive per account and a request that has ended stays as it is. The other
  transactions that write these tables follow in \<open>Queue_Transactions\<close>, the runs of all of them in
  \<open>Queue_Guarantees\<close>.
\<close>

subsection \<open>The invariant\<close>

fun agree :: "JobState \<Rightarrow> RequestState \<Rightarrow> bool" where
  "agree JOB_READY s = (s = REQ_PENDING \<or> s = REQ_RUNNING)"
| "agree JOB_LEASED s = (s = REQ_RUNNING)"
| "agree JOB_COMPLETED s = (s = REQ_READY \<or> s = REQ_FAILED)"
| "agree JOB_FAILED s = False"

definition lease_shape :: "outbox_jobs_row \<Rightarrow> bool" where
  "lease_shape j \<longleftrightarrow> (jb_state j = JOB_LEASED \<longleftrightarrow> jb_lease_token j \<noteq> None)
     \<and> (jb_state j = JOB_LEASED \<longleftrightarrow> jb_lease_until j \<noteq> None)"

definition job_ok :: "recompute_requests_row list \<Rightarrow> outbox_jobs_row \<Rightarrow> bool" where
  "job_ok requests j \<longleftrightarrow> lease_shape j \<and> (jb_kind j = ''RECOMPUTE'' \<longrightarrow>
     (\<exists>r \<in> set requests. jb_recompute_request_id j = Some (rr_id r) \<and> agree (jb_state j) (rr_state r)))"

definition one_job :: "outbox_jobs_row list \<Rightarrow> bool" where
  "one_job jobs \<longleftrightarrow> (\<forall>j \<in> set jobs. \<forall>j' \<in> set jobs.
     jb_recompute_request_id j \<noteq> None \<longrightarrow> jb_recompute_request_id j = jb_recompute_request_id j' \<longrightarrow> j = j')"

definition queue_ok :: "database \<Rightarrow> bool" where
  "queue_ok db \<longleftrightarrow> keyed jb_id (outbox_jobs db) \<and> keyed rr_id (recompute_requests db)
     \<and> one_job (outbox_jobs db) \<and> (\<forall>j \<in> set (outbox_jobs db). job_ok (recompute_requests db) j)"

text \<open>An unexpired lease on work of an account; and that an account has at most one.\<close>

definition live_lease :: "int \<Rightarrow> outbox_jobs_row \<Rightarrow> bool" where
  "live_lease now j \<longleftrightarrow> jb_kind j = ''RECOMPUTE'' \<and> jb_state j = JOB_LEASED
     \<and> (case jb_lease_until j of None \<Rightarrow> False | Some u \<Rightarrow> now < u)"

definition running_for :: "int \<Rightarrow> database \<Rightarrow> uuid \<Rightarrow> outbox_jobs_row \<Rightarrow> bool" where
  "running_for now db user j \<longleftrightarrow> live_lease now j
     \<and> row_exists (\<lambda>r. jb_recompute_request_id j = Some (rr_id r) \<and> rr_user_id r = user) (recompute_requests db)"

definition exclusive :: "int \<Rightarrow> database \<Rightarrow> bool" where
  "exclusive now db \<longleftrightarrow> (\<forall>user. \<forall>j \<in> set (outbox_jobs db). \<forall>j' \<in> set (outbox_jobs db).
     running_for now db user j \<longrightarrow> running_for now db user j' \<longrightarrow> j = j')"

lemma exclusive_later: "exclusive now db \<Longrightarrow> now \<le> later \<Longrightarrow> exclusive later db"
proof -
  have "live_lease later j \<Longrightarrow> now \<le> later \<Longrightarrow> live_lease now j" for j
    by (auto simp: live_lease_def split: option.splits)
  then show "exclusive now db \<Longrightarrow> now \<le> later \<Longrightarrow> exclusive later db"
    unfolding exclusive_def running_for_def by blast
qed

text \<open>The two tables after an update that keeps the keys of their rows.\<close>

definition job_update :: "(outbox_jobs_row \<Rightarrow> outbox_jobs_row) \<Rightarrow> bool" where
  "job_update f \<longleftrightarrow> (\<forall>j. jb_id (f j) = jb_id j \<and> jb_kind (f j) = jb_kind j
     \<and> jb_recompute_request_id (f j) = jb_recompute_request_id j)"

definition request_update :: "(recompute_requests_row \<Rightarrow> recompute_requests_row) \<Rightarrow> bool" where
  "request_update g \<longleftrightarrow> (\<forall>r. rr_id (g r) = rr_id r \<and> rr_user_id (g r) = rr_user_id r
     \<and> rr_profile_version (g r) = rr_profile_version r)"

lemma job_update_lease [simp]: "job_update (take_lease token t)" "job_update (end_lease s)"
  "job_update (\<lambda>j. (end_lease s j)\<lparr>jb_available_at := t\<rparr>)"
  by (simp_all add: job_update_def take_lease_def end_lease_def)

lemma lease_shape_update [simp]:
  "lease_shape (take_lease token t j)" "s \<noteq> JOB_LEASED \<Longrightarrow> lease_shape (end_lease s j)"
  "s \<noteq> JOB_LEASED \<Longrightarrow> lease_shape ((end_lease s j)\<lparr>jb_available_at := t\<rparr>)"
  by (simp_all add: lease_shape_def take_lease_def end_lease_def)

lemma lease_state [simp]:
  "jb_state (take_lease token t j) = JOB_LEASED" "jb_state (end_lease s j) = s"
  "jb_lease_until (take_lease token t j) = Some t" "jb_lease_token (take_lease token t j) = Some token"
  "jb_lease_until (end_lease s j) = None"
  "jb_id (take_lease token t j) = jb_id j" "jb_id (end_lease s j) = jb_id j"
  "jb_kind (take_lease token t j) = jb_kind j" "jb_kind (end_lease s j) = jb_kind j"
  "jb_recompute_request_id (take_lease token t j) = jb_recompute_request_id j"
  "jb_recompute_request_id (end_lease s j) = jb_recompute_request_id j"
  by (simp_all add: take_lease_def end_lease_def)

lemma queue_update:
  assumes ok: "queue_ok db" and f: "job_update f" and g: "request_update g"
    and jobs: "outbox_jobs db' = update_where P f (outbox_jobs db)"
    and requests: "recompute_requests db' = update_where Q g (recompute_requests db)"
    and rows: "\<And>j. j \<in> set (outbox_jobs db) \<Longrightarrow> job_ok (recompute_requests db') (if P j then f j else j)"
  shows "queue_ok db'"
proof -
  let ?f = "\<lambda>j. if P j then f j else j"
  have same: "jb_id (?f j) = jb_id j" "jb_recompute_request_id (?f j) = jb_recompute_request_id j" for j
    using f by (simp_all add: job_update_def)
  have "keyed jb_id (outbox_jobs db')" "keyed rr_id (recompute_requests db')"
    using ok f g by (simp_all add: jobs requests queue_ok_def keyed_update job_update_def request_update_def)
  moreover have "one_job (outbox_jobs db')"
    unfolding one_job_def
  proof (intro ballI impI)
    fix a a' assume a: "a \<in> set (outbox_jobs db')" "a' \<in> set (outbox_jobs db')"
      and eq: "jb_recompute_request_id a \<noteq> None" "jb_recompute_request_id a = jb_recompute_request_id a'"
    from a obtain j j' where j: "j \<in> set (outbox_jobs db)" "a = ?f j" "j' \<in> set (outbox_jobs db)" "a' = ?f j'"
      by (auto simp: jobs set_update_where)
    with eq same have "jb_recompute_request_id j \<noteq> None"
      "jb_recompute_request_id j = jb_recompute_request_id j'" by metis+
    with ok j have "j = j'" unfolding queue_ok_def one_job_def by blast
    with j show "a = a'" by simp
  qed
  moreover have "\<forall>j \<in> set (outbox_jobs db'). job_ok (recompute_requests db') j"
    using rows by (auto simp: jobs set_update_where)
  ultimately show ?thesis by (simp add: queue_ok_def)
qed

lemma job_ok_kept:
  assumes "job_ok t j" and "\<And>r. jb_recompute_request_id j = Some (rr_id r) \<Longrightarrow> \<not> Q r"
  shows "job_ok (update_where Q g t) j"
proof -
  have "\<exists>r \<in> set (update_where Q g t). jb_recompute_request_id j = Some (rr_id r) \<and> agree (jb_state j) (rr_state r)"
    if "r \<in> set t" "jb_recompute_request_id j = Some (rr_id r)" "agree (jb_state j) (rr_state r)" for r
    using that assms(2) [OF that(2)] update_whereI(2) [of r t Q g] by blast
  then show ?thesis using assms(1) by (auto simp: job_ok_def simp del: option.inject)
qed

text \<open>Exclusiveness survives a change that grants no new lease and keeps the owners of requests.\<close>

lemma owner_update:
  assumes "request_update g"
  shows "row_exists (\<lambda>r. x = Some (rr_id r) \<and> rr_user_id r = user) (update_where Q g t)
    \<longleftrightarrow> row_exists (\<lambda>r. x = Some (rr_id r) \<and> rr_user_id r = user) t"
proof -
  have "rr_id (if Q r then g r else r) = rr_id r" "rr_user_id (if Q r then g r else r) = rr_user_id r" for r
    using assms by (simp_all add: request_update_def)
  then show ?thesis
    unfolding row_exists_def update_where_def by (induction t) (simp_all del: if_image_distrib)
qed

lemma exclusive_update:
  assumes ex: "exclusive now db" and f: "job_update f" and g: "request_update g"
    and jobs: "outbox_jobs db' = update_where P f (outbox_jobs db)"
    and requests: "recompute_requests db' = update_where Q g (recompute_requests db)"
    and ended: "\<And>j. j \<in> set (outbox_jobs db) \<Longrightarrow> P j \<Longrightarrow> live_lease now (f j) \<Longrightarrow> live_lease now j"
  shows "exclusive now db'"
  unfolding exclusive_def
proof (intro allI ballI impI)
  fix user a a'
  let ?f = "\<lambda>j. if P j then f j else j"
  have owner: "running_for now db user j" if "j \<in> set (outbox_jobs db)" "running_for now db' user (?f j)" for j
    using that ended [of j] f
    by (auto simp: running_for_def requests owner_update [OF g] job_update_def split: if_splits)
  assume a: "a \<in> set (outbox_jobs db')" "a' \<in> set (outbox_jobs db')"
    "running_for now db' user a" "running_for now db' user a'"
  from a(1,2) obtain j j' where j: "j \<in> set (outbox_jobs db)" "a = ?f j" "j' \<in> set (outbox_jobs db)" "a' = ?f j'"
    by (auto simp: jobs set_update_where)
  with a(3,4) owner have "running_for now db user j" "running_for now db user j'" by auto
  with ex j show "a = a'" unfolding exclusive_def by blast
qed

lemma request_update_id [simp]: "request_update (\<lambda>r. r)"
  by (simp add: request_update_def)

subsection \<open>Every transaction keeps it\<close>

definition safe :: "int \<Rightarrow> database \<Rightarrow> bool" where
  "safe now db \<longleftrightarrow> queue_ok db \<and> exclusive now db"

lemma safe_cong_iff:
  "outbox_jobs db' = outbox_jobs db \<Longrightarrow> recompute_requests db' = recompute_requests db
     \<Longrightarrow> safe now db' = safe now db"
  by (simp only: safe_def queue_ok_def exclusive_def running_for_def)

lemmas safe_cong = safe_cong_iff [THEN iffD2]

lemma safe_later: "safe now db \<Longrightarrow> now \<le> later \<Longrightarrow> safe later db"
  unfolding safe_def using exclusive_later by blast

text \<open>An update that grants no recompute lease.\<close>

lemma safe_update:
  assumes "safe now db" and "job_update f" and "request_update g"
    and "outbox_jobs db' = update_where P f (outbox_jobs db)"
    and "recompute_requests db' = update_where Q g (recompute_requests db)"
    and "\<And>j. j \<in> set (outbox_jobs db) \<Longrightarrow> job_ok (recompute_requests db') (if P j then f j else j)"
    and "\<And>j. j \<in> set (outbox_jobs db) \<Longrightarrow> P j \<Longrightarrow> live_lease now (f j) \<Longrightarrow> live_lease now j"
  shows "safe now db'"
proof -
  have "queue_ok db'" by (rule queue_update [OF _ assms(2-6)]) (use assms(1) safe_def in auto)
  moreover have "exclusive now db'"
    by (rule exclusive_update [OF _ assms(2-5)]) (use assms(1,7) safe_def in auto)
  ultimately show ?thesis by (simp add: safe_def)
qed

lemma insert_request_safe:
  assumes ok: "safe now db" and run: "insert_request env request_id q db = Inr db'"
  shows "safe now db' \<and> outbox_jobs db' = outbox_jobs db
    \<and> set (recompute_requests db) \<subseteq> set (recompute_requests db')"
proof (cases "row_exists (\<lambda>r. rr_id r = request_id \<or> same_request q r) (recompute_requests db)")
  case True
  with run ok show ?thesis by (simp add: insert_request_def)
next
  case False
  with run obtain new where db': "db' = db\<lparr>recompute_requests := recompute_requests db @ [new]\<rparr>"
    and new: "rr_id new = request_id"
    by (fastforce simp: insert_request_def err_simps)
  have jobs: "outbox_jobs db' = outbox_jobs db"
    and reqs: "set (recompute_requests db') = insert new (set (recompute_requests db))"
    by (simp_all add: db')
  have fresh: "rr_id r \<noteq> rr_id new" if "r \<in> set (recompute_requests db)" for r
    using False that new by (auto simp: table_simps)
  have known: "\<exists>r \<in> set (recompute_requests db). jb_recompute_request_id j = Some (rr_id r)"
    if "j \<in> set (outbox_jobs db)" "jb_kind j = ''RECOMPUTE''" for j
    using ok that by (auto simp: safe_def queue_ok_def job_ok_def)
  have "queue_ok db'"
    using ok fresh by (auto simp: safe_def queue_ok_def job_ok_def db' table_simps)
  moreover have "running_for now db user j"
    if j: "j \<in> set (outbox_jobs db)" and running: "running_for now db' user j" for user j
  proof -
    from running have live: "live_lease now j" by (simp add: running_for_def)
    then obtain r where "r \<in> set (recompute_requests db)" "jb_recompute_request_id j = Some (rr_id r)"
      using known [OF j] by (auto simp: live_lease_def)
    with running live fresh show ?thesis by (auto simp: running_for_def row_exists_iff reqs)
  qed
  then have "exclusive now db'"
    using ok unfolding safe_def exclusive_def jobs by blast
  ultimately show ?thesis by (auto simp: safe_def jobs reqs)
qed

lemma persist_safe:
  assumes ok: "safe now db" and run: "persist_recompute_request env request_id job_id q db = Inr (s, db')"
  shows "safe now db' \<and> set (recompute_requests db) \<subseteq> set (recompute_requests db')"
proof -
  from run obtain db1 row where db1: "insert_request env request_id q db = Inr db1"
    and row: "one_or_none (same_request q) (recompute_requests db1) = Some row"
    by (auto simp: persist_recompute_request_def err_simps split: option.splits)
  note one = insert_request_safe [OF ok db1]
  have ctx: "outbox_jobs (insert_context i c d) = outbox_jobs d"
    "recompute_requests (insert_context i c d) = recompute_requests d" for i c d
    by (simp_all add: insert_context_def)
  have "(outbox_jobs db' = outbox_jobs db1 \<and> recompute_requests db' = recompute_requests db1)
    \<or> (\<exists>new. rr_state row = REQ_PENDING \<and> outbox_jobs db' = outbox_jobs db1 @ [new]
        \<and> recompute_requests db' = recompute_requests db1
        \<and> jb_recompute_request_id new = Some (rr_id row) \<and> jb_state new = JOB_READY \<and> lease_shape new
        \<and> \<not> row_exists (job_conflict (jb_id new) (jb_dedupe_key new) (rr_id row)) (outbox_jobs db1))"
    using run
    by (simp add: persist_recompute_request_def db1 row Let_def ctx lease_shape_def split: option.splits if_splits)
      (auto simp: ctx)
  then show ?thesis
  proof (elim disjE exE conjE)
    fix new
    assume new: "rr_state row = REQ_PENDING" "outbox_jobs db' = outbox_jobs db1 @ [new]"
      "recompute_requests db' = recompute_requests db1"
      "jb_recompute_request_id new = Some (rr_id row)" "jb_state new = JOB_READY" "lease_shape new"
      "\<not> row_exists (job_conflict (jb_id new) (jb_dedupe_key new) (rr_id row)) (outbox_jobs db1)"
    have "row \<in> set (recompute_requests db1)" using one_or_none_SomeD [OF row] by simp
    with new have "job_ok (recompute_requests db1) new" by (auto simp: job_ok_def)
    moreover have "jb_id j \<noteq> jb_id new" "jb_recompute_request_id j \<noteq> Some (rr_id row)"
      if "j \<in> set (outbox_jobs db1)" for j
      using new(7) that by (auto simp: table_simps job_conflict_def)
    ultimately have "queue_ok db'"
      using one new unfolding safe_def queue_ok_def one_job_def by (auto simp: table_simps) metis+
    moreover have "exclusive now db'"
      using one new(5) unfolding safe_def exclusive_def new(2) running_for_def new(3)
      by (auto simp: live_lease_def)
    ultimately show ?thesis using one new(3) by (simp add: safe_def)
  next
    assume "outbox_jobs db' = outbox_jobs db1" "recompute_requests db' = recompute_requests db1"
    then show ?thesis using one safe_cong [of db' db1 now] by simp
  qed
qed

lemma lease_rows_safe:
  assumes "safe now db" and "\<forall>row \<in> set rows. \<forall>j \<in> set (outbox_jobs db). jb_id j = jb_id row \<longrightarrow> jb_kind j \<noteq> ''RECOMPUTE''"
    and "lease_rows env lease_for n rows db = (leases, db')"
  shows "safe now db' \<and> recompute_requests db' = recompute_requests db"
  using assms
proof (induction rows arbitrary: n db leases)
  case (Cons row rows)
  let ?f = "take_lease (e_uuid env n) (e_clock env (Suc n) + lease_for)"
  let ?db = "db\<lparr>outbox_jobs := update_where (\<lambda>j. jb_id j = jb_id row) ?f (outbox_jobs db)\<rparr>"
  have "safe now ?db"
  proof (rule safe_update [OF Cons.prems(1), where f = ?f and g = "\<lambda>r. r" and Q = "\<lambda>_. False"])
    fix j assume j: "j \<in> set (outbox_jobs db)"
    show "job_ok (recompute_requests ?db) (if jb_id j = jb_id row then ?f j else j)"
      using Cons.prems(1,2) j by (auto simp: safe_def queue_ok_def job_ok_def)
    assume "jb_id j = jb_id row" "live_lease now (?f j)"
    with Cons.prems(2) j show "live_lease now j" by (simp add: live_lease_def)
  qed simp_all
  moreover have "\<forall>row' \<in> set rows. \<forall>j \<in> set (outbox_jobs ?db). jb_id j = jb_id row' \<longrightarrow> jb_kind j \<noteq> ''RECOMPUTE''"
    using Cons.prems(2) by (auto simp: set_update_where split: if_splits)
  ultimately show ?case
    using Cons.IH [of ?db "Suc n" "tl leases"] Cons.prems(3) by (auto simp: Let_def split: prod.splits)
qed simp

lemma claim_outbox_safe:
  assumes ok: "safe now db" and run: "claim_outbox_jobs env limit lease_for db = (leases, db')"
  shows "safe now db' \<and> recompute_requests db' = recompute_requests db"
proof (rule lease_rows_safe [OF ok _ run [unfolded claim_outbox_jobs_def]])
  have "keyed jb_id (outbox_jobs db)" using ok by (simp add: safe_def queue_ok_def)
  then show "\<forall>row \<in> set (take limit (sort_key (\<lambda>j. (jb_available_at j, jb_id j))
          (rows_where (\<lambda>j. jb_kind j \<noteq> ''RECOMPUTE'' \<and> claimable (e_clock env 0) j
             \<and> \<not> e_locked env (jb_id j)) (outbox_jobs db)))).
      \<forall>j \<in> set (outbox_jobs db). jb_id j = jb_id row \<longrightarrow> jb_kind j \<noteq> ''RECOMPUTE''"
    by (auto dest!: in_set_takeD simp: set_rows_where) (metis keyed_inject)
qed

lemma end_lease_not_live: "s \<noteq> JOB_LEASED \<Longrightarrow> \<not> live_lease now (end_lease s j)"
  "s \<noteq> JOB_LEASED \<Longrightarrow> \<not> live_lease now ((end_lease s j)\<lparr>jb_available_at := t\<rparr>)"
  by (simp_all add: live_lease_def)

lemma complete_outbox_safe:
  assumes ok: "safe now db" and run: "complete_outbox_job env lease db = Inr (u, db')"
  shows "safe now db' \<and> recompute_requests db' = recompute_requests db"
proof -
  let ?held = "\<lambda>j. jb_id j = le_job_id lease \<and> jb_kind j \<noteq> ''RECOMPUTE''
          \<and> jb_lease_token j = Some (le_lease_token lease) \<and> jb_state j = JOB_LEASED
          \<and> (case jb_lease_until j of None \<Rightarrow> False | Some u \<Rightarrow> e_clock env 0 < u)"
  have db': "db' = db\<lparr>outbox_jobs := update_where ?held (end_lease JOB_COMPLETED) (outbox_jobs db)\<rparr>"
    using run by (simp add: complete_outbox_job_def Let_def err_simps)
  have "safe now db'"
  proof (rule safe_update [OF ok, where P = ?held and f = "end_lease JOB_COMPLETED" and g = "\<lambda>r. r" and Q = "\<lambda>_. False"])
    fix j assume "j \<in> set (outbox_jobs db)"
    then show "job_ok (recompute_requests db') (if ?held j then end_lease JOB_COMPLETED j else j)"
      using ok by (auto simp: safe_def queue_ok_def job_ok_def db')
  qed (simp_all add: db' end_lease_not_live)
  then show ?thesis by (simp add: db')
qed

text \<open>Requests that have ended, and transactions that leave them as they are.\<close>

definition ended :: "recompute_requests_row \<Rightarrow> bool" where
  "ended r \<longleftrightarrow> rr_state r = REQ_READY \<or> rr_state r = REQ_FAILED"

definition keeps_ended :: "database \<Rightarrow> database \<Rightarrow> bool" where
  "keeps_ended db db' \<longleftrightarrow> (\<forall>r \<in> set (recompute_requests db). ended r \<longrightarrow> r \<in> set (recompute_requests db'))"

lemma keeps_ended_refl: "recompute_requests db' = recompute_requests db \<Longrightarrow> keeps_ended db db'"
  by (simp add: keeps_ended_def)

lemma keeps_ended_trans: "keeps_ended db db' \<Longrightarrow> keeps_ended db' db'' \<Longrightarrow> keeps_ended db db''"
  by (auto simp: keeps_ended_def)

lemma keeps_ended_update:
  assumes "recompute_requests db' = update_where Q g (recompute_requests db)"
    and "\<And>r. r \<in> set (recompute_requests db) \<Longrightarrow> Q r \<Longrightarrow> \<not> ended r"
  shows "keeps_ended db db'"
  using assms by (auto simp: keeps_ended_def set_update_where)

lemma joined_rowsD:
  "(j, r, c, p) \<in> set (joined_rows db) \<Longrightarrow> j \<in> set (outbox_jobs db) \<and> r \<in> set (recompute_requests db)
     \<and> c \<in> set (recompute_contexts db) \<and> p \<in> set (profiles db) \<and> jb_recompute_request_id j = Some (rr_id r)
     \<and> cx_request_id c = rr_id r \<and> p_user_id p = rr_user_id r"
  by (auto simp: joined_rows_def split: if_splits)

lemma claim_conditionsD:
  "claim_conditions env now eligible (j, r, c, p) \<Longrightarrow> jb_kind j = ''RECOMPUTE''
     \<and> (rr_state r = REQ_PENDING \<or> rr_state r = REQ_RUNNING) \<and> claimable now j"
  by (simp add: claim_conditions_def)

lemma retire_stale_safe:
  assumes ok: "safe now db"
  shows "safe now (retire_stale env eligible db)" and "keeps_ended db (retire_stale env eligible db)"
proof -
  define stale where "stale = set (take STALE_RECOMPUTE_BATCH_LIMIT (sort_key (\<lambda>(j, r, c, p). jb_id j)
            (filter (\<lambda>row. claim_conditions env (e_clock env 0) eligible row
               \<and> (case row of (j, r, c, p) \<Rightarrow> rr_profile_version r < p_version p \<and> \<not> e_locked env (jb_id j)))
             (joined_rows db))))"
  let ?db = "retire_stale env eligible db"
  let ?P = "\<lambda>j. jb_id j \<in> (\<lambda>(j, r, c, p). jb_id j) ` stale"
  let ?Q = "\<lambda>r. rr_id r \<in> (\<lambda>(j, r, c, p). rr_id r) ` stale"
  let ?g = "\<lambda>r. r\<lparr>rr_state := REQ_FAILED, rr_error_code := Some ''STALE_PROFILE'', rr_updated_at := e_clock env 1\<rparr>"
  have db: "outbox_jobs ?db = update_where ?P (end_lease JOB_COMPLETED) (outbox_jobs db)"
    "recompute_requests ?db = update_where ?Q ?g (recompute_requests db)"
    by (simp_all add: retire_stale_def Let_def stale_def)
  have keys: "keyed jb_id (outbox_jobs db)" "keyed rr_id (recompute_requests db)" "one_job (outbox_jobs db)"
    using ok by (auto simp: safe_def queue_ok_def)
  have stale: "j \<in> set (outbox_jobs db) \<and> r \<in> set (recompute_requests db) \<and> jb_recompute_request_id j = Some (rr_id r)
      \<and> (rr_state r = REQ_PENDING \<or> rr_state r = REQ_RUNNING)" if "(j, r, c, p) \<in> stale" for j r c p
    using that joined_rowsD [of j r c p db] claim_conditionsD [of env "e_clock env 0" eligible j r c p]
    by (auto simp: stale_def dest!: in_set_takeD)
  show "safe now ?db"
  proof (rule safe_update [OF ok _ _ db])
    show "request_update ?g" by (simp add: request_update_def)
  next
    fix j assume j: "j \<in> set (outbox_jobs db)"
    then have jok: "job_ok (recompute_requests db) j" using ok by (simp add: safe_def queue_ok_def)
    show "job_ok (recompute_requests ?db) (if ?P j then end_lease JOB_COMPLETED j else j)"
    proof (cases "?P j")
      case True
      then obtain j' r c p where "(j', r, c, p) \<in> stale" "jb_id j' = jb_id j" by auto
      with stale j keys have "r \<in> set (recompute_requests db)" "jb_recompute_request_id j = Some (rr_id r)" "?Q r"
        using keyed_inject [OF keys(1), of j' j] by force+
      then have "\<exists>r' \<in> set (recompute_requests ?db). jb_recompute_request_id j = Some (rr_id r') \<and> rr_state r' = REQ_FAILED"
        using update_whereI(1) [of r _ ?Q ?g] by (intro bexI [of _ "?g r"]) (simp_all add: db)
      then show ?thesis using True by (auto simp: job_ok_def)
    next
      case False
      have "\<not> ?Q r" if "jb_recompute_request_id j = Some (rr_id r)" for r
      proof
        assume "?Q r"
        then obtain j' r' c p where s: "(j', r', c, p) \<in> stale" "rr_id r' = rr_id r" by auto
        with stale [OF s(1)] that have "j' = j"
          using keys(3) j unfolding one_job_def by (metis option.distinct(1))
        with s(1) False show False by force
      qed
      then have "job_ok (recompute_requests ?db) j" unfolding db by (rule job_ok_kept [OF jok])
      with False show ?thesis by (simp only: if_False)
    qed
  qed (simp_all add: end_lease_not_live)
  show "keeps_ended db ?db"
  proof (rule keeps_ended_update [OF db(2)])
    fix r assume r: "r \<in> set (recompute_requests db)" "?Q r"
    then obtain j' r' c p where s: "(j', r', c, p) \<in> stale" "rr_id r' = rr_id r" by auto
    with stale [OF s(1)] r keyed_inject [OF keys(2), of r' r] show "\<not> ended r" by (auto simp: ended_def)
  qed
qed

text \<open>
  Ending a job with its request: both \<open>finalize_recompute\<close> and \<open>fail_recompute\<close>. The held lease is
  the only job of the request, so the two tables change together.
\<close>

lemma end_work_safe:
  assumes ok: "safe now db"
    and req: "end_request w g db = Inr (u, db1)" and g: "request_update g" "\<And>r. ended (g r)"
    and between: "outbox_jobs db2 = outbox_jobs db1" "recompute_requests db2 = recompute_requests db1"
    and job: "complete_job env w db2 = Inr (v, db')"
  shows "safe now db' \<and> keeps_ended db db' \<and> (\<exists>r \<in> set (recompute_requests db).
    rr_id r = wi_request_id w \<and> rr_state r = REQ_RUNNING \<and> g r \<in> set (recompute_requests db'))"
proof -
  let ?Q = "\<lambda>r. rr_id r = wi_request_id w \<and> rr_state r = REQ_RUNNING"
  let ?P = "\<lambda>j. leased_job w j \<and> lease_held (e_clock env 0) w j"
  have d1: "db1 = db\<lparr>recompute_requests := update_where ?Q g (recompute_requests db)\<rparr>"
    and one_request: "rowcount ?Q (recompute_requests db) = 1"
    using req by (simp_all add: end_request_def Let_def err_simps)
  have d': "db' = db2\<lparr>outbox_jobs := update_where ?P (end_lease JOB_COMPLETED) (outbox_jobs db2)\<rparr>"
    and one: "rowcount ?P (outbox_jobs db) = 1"
    using job between by (simp_all add: complete_job_def Let_def err_simps d1)
  have db: "outbox_jobs db' = update_where ?P (end_lease JOB_COMPLETED) (outbox_jobs db)"
    "recompute_requests db' = update_where ?Q g (recompute_requests db)"
    using between by (simp_all add: d' d1)
  obtain r where r: "r \<in> set (recompute_requests db)" "?Q r"
    using one_request rowcount_pos [of ?Q "recompute_requests db"] by auto
  obtain j0 where j0: "j0 \<in> set (outbox_jobs db)" "?P j0"
    using one rowcount_pos [of ?P "outbox_jobs db"] by auto
  have gr: "g r \<in> set (recompute_requests db')" "rr_id (g r) = rr_id r"
    using r g(1) by (auto simp: db set_update_where request_update_def)
  have "safe now db'"
  proof (rule safe_update [OF ok _ g(1) db])
    fix j assume j: "j \<in> set (outbox_jobs db)"
    then have jok: "job_ok (recompute_requests db) j" using ok by (simp add: safe_def queue_ok_def)
    show "job_ok (recompute_requests db') (if ?P j then end_lease JOB_COMPLETED j else j)"
    proof (cases "?P j")
      case True
      then have "jb_recompute_request_id j = Some (rr_id (g r))" using r gr by (simp add: leased_job_def)
      with gr(1) g(2) [of r] have "\<exists>r \<in> set (recompute_requests db'). jb_recompute_request_id j = Some (rr_id r)
          \<and> agree JOB_COMPLETED (rr_state r)" by (auto simp: ended_def simp del: option.inject)
      then show ?thesis using True by (simp add: job_ok_def)
    next
      case False
      have "\<not> ?Q r'" if "jb_recompute_request_id j = Some (rr_id r')" for r'
        using that j j0 False ok unfolding safe_def queue_ok_def one_job_def leased_job_def
        by (metis option.distinct(1))
      then have "job_ok (recompute_requests db') j" unfolding db by (rule job_ok_kept [OF jok])
      with False show ?thesis by (simp only: if_False)
    qed
  qed (simp_all add: end_lease_not_live)
  moreover have "keeps_ended db db'"
    by (rule keeps_ended_update [OF db(2)]) (simp add: ended_def)
  ultimately show ?thesis using r gr by blast
qed

lemma insert_results_frame:
  "insert_analysis env a db = Inr db' \<Longrightarrow>
     outbox_jobs db' = outbox_jobs db \<and> recompute_requests db' = recompute_requests db \<and> profiles db' = profiles db"
  "insert_proposal p db = Inr db' \<Longrightarrow>
     outbox_jobs db' = outbox_jobs db \<and> recompute_requests db' = recompute_requests db \<and> profiles db' = profiles db"
  by (auto simp: insert_analysis_def insert_proposal_def err_simps)

lemma update_pointer_frame:
  "update_pointer w a db = (b, db') \<Longrightarrow>
     outbox_jobs db' = outbox_jobs db \<and> recompute_requests db' = recompute_requests db"
  by (auto simp: update_pointer_def Let_def)

text \<open>The stages of a successful \<open>finalize_recompute\<close>.\<close>

lemma finalize_stages:
  assumes run: "finalize_recompute env w art db = Inr (f, db')"
  obtains db1 db2 db3 db4 where
    "artifacts_match w art = Inr ()" "check_lease env w db = Inr ()" "check_request w db = Inr ()"
    "insert_analysis env (ra_analysis art) db = Inr db1"
    "(case ra_proposal art of None \<Rightarrow> Inr db1 | Some p \<Rightarrow> insert_proposal p db1) = Inr db2"
    "end_request w (\<lambda>r. r\<lparr>rr_state := REQ_READY,
        rr_resulting_analysis_id := Some (ap_analysis_id (ra_analysis art)),
        rr_proposal_id := map_option pp_proposal_id (ra_proposal art),
        rr_auto_roadmap_pending := map_option pp_proposal_id (ra_proposal art) \<noteq> None,
        rr_updated_at := e_app_now env\<rparr>) db2 = Inr ((), db3)"
    "update_pointer w (ap_analysis_id (ra_analysis art)) db3 = (rf_updated_latest_analysis f, db4)"
    "complete_job env w db4 = Inr ((), db')"
    "rf_request_id f = wi_request_id w" "rf_analysis_id f = ap_analysis_id (ra_analysis art)"
    "rf_proposal_id f = map_option pp_proposal_id (ra_proposal art)"
proof -
  let ?a = "ap_analysis_id (ra_analysis art)"
  let ?g = "\<lambda>r. r\<lparr>rr_state := REQ_READY, rr_resulting_analysis_id := Some ?a,
        rr_proposal_id := map_option pp_proposal_id (ra_proposal art),
        rr_auto_roadmap_pending := map_option pp_proposal_id (ra_proposal art) \<noteq> None,
        rr_updated_at := e_app_now env\<rparr>"
  from run obtain db1 db2 db3 where
    "artifacts_match w art = Inr ()" "check_lease env w db = Inr ()" "check_request w db = Inr ()"
    "insert_analysis env (ra_analysis art) db = Inr db1"
    "(case ra_proposal art of None \<Rightarrow> Inr db1 | Some p \<Rightarrow> insert_proposal p db1) = Inr db2"
    "end_request w ?g db2 = Inr ((), db3)"
    and rest: "(case update_pointer w ?a db3 of (updated, db4) \<Rightarrow> and_then (complete_job env w db4)
          (\<lambda>(_, db). Inr (\<lparr>rf_request_id = wi_request_id w, rf_analysis_id = ?a,
            rf_proposal_id = map_option pp_proposal_id (ra_proposal art),
            rf_updated_latest_analysis = updated\<rparr>, db))) = Inr (f, db')"
    unfolding finalize_recompute_def Let_def by (auto simp: and_then_Inr_iff require_Inr_iff)
  moreover obtain updated db4 where "update_pointer w ?a db3 = (updated, db4)" by fastforce
  moreover from rest this have "complete_job env w db4 = Inr ((), db')"
    "f = \<lparr>rf_request_id = wi_request_id w, rf_analysis_id = ?a,
            rf_proposal_id = map_option pp_proposal_id (ra_proposal art),
            rf_updated_latest_analysis = updated\<rparr>"
    by (auto simp: err_simps)
  ultimately show thesis by (intro that) simp_all
qed

lemma finalize_safe:
  assumes ok: "safe now db" and run: "finalize_recompute env w art db = Inr (f, db')"
  shows "safe now db' \<and> keeps_ended db db' \<and> (\<exists>r \<in> set (recompute_requests db').
    rr_id r = wi_request_id w \<and> rr_state r = REQ_READY
    \<and> rr_resulting_analysis_id r = Some (ap_analysis_id (ra_analysis art)))"
proof (rule finalize_stages [OF run])
  fix db1 db2 db3 db4
  let ?g = "\<lambda>r. r\<lparr>rr_state := REQ_READY,
        rr_resulting_analysis_id := Some (ap_analysis_id (ra_analysis art)),
        rr_proposal_id := map_option pp_proposal_id (ra_proposal art),
        rr_auto_roadmap_pending := map_option pp_proposal_id (ra_proposal art) \<noteq> None,
        rr_updated_at := e_app_now env\<rparr>"
  assume ins: "insert_analysis env (ra_analysis art) db = Inr db1"
    "(case ra_proposal art of None \<Rightarrow> Inr db1 | Some p \<Rightarrow> insert_proposal p db1) = Inr db2"
    and req: "end_request w ?g db2 = Inr ((), db3)"
    and ptr: "update_pointer w (ap_analysis_id (ra_analysis art)) db3 = (rf_updated_latest_analysis f, db4)"
    and job: "complete_job env w db4 = Inr ((), db')"
  have same: "outbox_jobs db2 = outbox_jobs db" "recompute_requests db2 = recompute_requests db"
    using ins insert_results_frame by (auto split: option.splits)
  have "safe now db2" using same ok by (rule safe_cong)
  from end_work_safe [OF this req _ _ _ _ job] update_pointer_frame [OF ptr]
  have "safe now db' \<and> keeps_ended db2 db' \<and> (\<exists>r \<in> set (recompute_requests db2).
    rr_id r = wi_request_id w \<and> rr_state r = REQ_RUNNING \<and> ?g r \<in> set (recompute_requests db'))"
    by (simp add: request_update_def ended_def)
  then obtain r where "safe now db'" "keeps_ended db db'" "rr_id r = wi_request_id w"
    "?g r \<in> set (recompute_requests db')" by (auto simp: same keeps_ended_def)
  then show ?thesis by (intro conjI bexI [of _ "?g r"]) simp_all
qed

lemma fail_safe:
  assumes ok: "safe now db" and run: "fail_recompute env w code details db = Inr (u, db')"
  shows "safe now db' \<and> keeps_ended db db'"
proof (cases "db' = db")
  case True
  then show ?thesis using ok keeps_ended_refl by simp
next
  case False
  let ?g = "\<lambda>r. r\<lparr>rr_state := REQ_FAILED, rr_error_code := Some code,
            rr_updated_at := e_app_now env, rr_failure_details := details\<rparr>"
  from run False obtain db1 where req: "end_request w ?g db = Inr ((), db1)"
    and job: "complete_job env w db1 = Inr ((), db')"
    by (auto simp: fail_recompute_def err_simps split: if_splits)
  from end_work_safe [OF ok req _ _ refl refl job] show ?thesis
    by (simp add: request_update_def ended_def)
qed

text \<open>A row of the claim: its job is waiting or under a lease that may be taken over.\<close>

fun row_open :: "database \<Rightarrow> joined_row \<Rightarrow> bool" where
  "row_open db (j, r, c, p) \<longleftrightarrow> (\<exists>j' \<in> set (outbox_jobs db). jb_id j' = jb_id j \<and> jb_kind j' = ''RECOMPUTE''
     \<and> jb_recompute_request_id j' = Some (rr_id r) \<and> (jb_state j' = JOB_READY \<or> jb_state j' = JOB_LEASED))"

lemma row_open_update:
  assumes "outbox_jobs db' = update_where P f (outbox_jobs db)" and "job_update f"
    and "\<And>j. jb_state (f j) = JOB_READY \<or> jb_state (f j) = JOB_LEASED" and "row_open db row"
  shows "row_open db' row"
proof -
  obtain j r c p where row: "row = (j, r, c, p)" by (cases row)
  with assms(4) obtain j' where j': "j' \<in> set (outbox_jobs db)" "jb_id j' = jb_id j" "jb_kind j' = ''RECOMPUTE''"
    "jb_recompute_request_id j' = Some (rr_id r)" "jb_state j' = JOB_READY \<or> jb_state j' = JOB_LEASED" by auto
  let ?j = "if P j' then f j' else j'"
  have "?j \<in> set (outbox_jobs db')" unfolding assms(1) using j'(1) update_whereI by auto
  moreover have "jb_id ?j = jb_id j" "jb_kind ?j = ''RECOMPUTE''" "jb_recompute_request_id ?j = Some (rr_id r)"
    "jb_state ?j = JOB_READY \<or> jb_state ?j = JOB_LEASED"
    using j' assms(2,3) by (simp_all add: job_update_def)
  ultimately show ?thesis unfolding row row_open.simps by blast
qed

lemma defer_job_safe:
  assumes ok: "safe now db" and row: "row_open db (j, r, c, p)"
  shows "safe now (defer_job (jb_id j) t db)"
proof -
  let ?f = "\<lambda>j. (end_lease JOB_READY j)\<lparr>jb_available_at := t\<rparr>"
  let ?P = "\<lambda>j'. jb_id j' = jb_id j"
  have jobs: "outbox_jobs (defer_job (jb_id j) t db) = update_where ?P ?f (outbox_jobs db)"
    and reqs: "recompute_requests (defer_job (jb_id j) t db) = update_where (\<lambda>_. False) (\<lambda>r. r) (recompute_requests db)"
    by (simp_all add: defer_job_def)
  show ?thesis
  proof (rule safe_update [OF ok _ _ jobs reqs])
    fix x assume x: "x \<in> set (outbox_jobs db)"
    then have xok: "job_ok (recompute_requests db) x" using ok by (simp add: safe_def queue_ok_def)
    have key: "keyed jb_id (outbox_jobs db)" using ok by (simp add: safe_def queue_ok_def)
    from row obtain y where y: "y \<in> set (outbox_jobs db)" "jb_id y = jb_id j"
      "jb_state y = JOB_READY \<or> jb_state y = JOB_LEASED" by auto
    then have "jb_state x = JOB_READY \<or> jb_state x = JOB_LEASED" if "jb_id x = jb_id j"
      using keyed_inject [OF key x y(1)] that by simp
    then have "job_ok (recompute_requests db) (?f x)" if "?P x"
      using that xok by (auto simp: job_ok_def)
    with xok show "job_ok (recompute_requests (defer_job (jb_id j) t db)) (if ?P x then ?f x else x)"
      unfolding reqs update_where_id by (cases "?P x") simp_all
  qed (simp_all add: end_lease_not_live)
qed

text \<open>One lease is granted to an account that has no other.\<close>

lemma exclusive_grant:
  assumes ex: "exclusive now db" and f: "job_update f" and g: "request_update g"
    and jobs: "outbox_jobs db' = update_where P f (outbox_jobs db)"
    and requests: "recompute_requests db' = update_where Q g (recompute_requests db)"
    and j0: "j0 \<in> set (outbox_jobs db)" and only: "\<And>j. j \<in> set (outbox_jobs db) \<Longrightarrow> P j \<longleftrightarrow> j = j0"
    and owner: "\<And>user. running_for now db' user (f j0) \<Longrightarrow> user = user0"
    and idle: "\<And>j. j \<in> set (outbox_jobs db) \<Longrightarrow> running_for now db user0 j \<Longrightarrow> j = j0"
  shows "exclusive now db'"
  unfolding exclusive_def
proof (intro allI ballI impI)
  fix user a a' assume a: "a \<in> set (outbox_jobs db')" "a' \<in> set (outbox_jobs db')"
    "running_for now db' user a" "running_for now db' user a'"
  have row: "a = f j0 \<and> user = user0 \<or> (a \<in> set (outbox_jobs db) \<and> a \<noteq> j0 \<and> running_for now db user a)"
    if "a \<in> set (outbox_jobs db')" "running_for now db' user a" for a
  proof -
    from that(1) obtain x where x: "x \<in> set (outbox_jobs db)" "a = (if P x then f x else x)"
      by (auto simp: jobs set_update_where)
    show ?thesis
    proof (cases "x = j0")
      case True
      with x only [OF x(1)] that(2) owner show ?thesis by simp
    next
      case False
      with x only [OF x(1)] have "a = x" by simp
      with that(2) have "running_for now db user x"
        unfolding running_for_def requests owner_update [OF g] by simp
      with x False \<open>a = x\<close> show ?thesis by simp
    qed
  qed
  show "a = a'"
    using row [OF a(1,3)] row [OF a(2,4)] idle ex unfolding exclusive_def by blast
qed

lemma lease_recompute_safe:
  assumes ok: "safe now db" and idle: "\<not> already_running now r db"
    and run: "lease_recompute env n j r db = Inr (item, db')"
  shows "safe now db' \<and> keeps_ended db db' \<and> (\<forall>row. row_open db row \<longrightarrow> row_open db' row)"
proof -
  let ?P = "\<lambda>j'. jb_id j' = jb_id j \<and> jb_recompute_request_id j' = Some (rr_id r) \<and> jb_kind j' = ''RECOMPUTE''"
  let ?Q = "\<lambda>r'. rr_id r' = rr_id r \<and> rr_user_id r' = rr_user_id r \<and> rr_profile_version r' = rr_profile_version r
            \<and> (rr_state r' = REQ_PENDING \<or> rr_state r' = REQ_RUNNING)"
  let ?f = "take_lease (e_uuid env n) (e_clock env (5 * n + 6) + RECOMPUTE_LEASE_FOR)"
  let ?g = "\<lambda>r. r\<lparr>rr_state := REQ_RUNNING, rr_updated_at := e_clock env (5 * n + 7)\<rparr>"
  have db: "outbox_jobs db' = update_where ?P ?f (outbox_jobs db)"
    "recompute_requests db' = update_where ?Q ?g (recompute_requests db)"
    and count: "rowcount ?P (outbox_jobs db) = 1" "rowcount ?Q (recompute_requests db) = 1"
    using run by (auto simp: lease_recompute_def Let_def err_simps)
  obtain r0 where r0: "r0 \<in> set (recompute_requests db)" "?Q r0"
    using count(2) rowcount_pos [of ?Q "recompute_requests db"] by auto
  obtain j0 where j0: "j0 \<in> set (outbox_jobs db)" "?P j0"
    using count(1) rowcount_pos [of ?P "outbox_jobs db"] by auto
  have g: "request_update ?g" by (simp add: request_update_def)
  have keys: "keyed rr_id (recompute_requests db)" "one_job (outbox_jobs db)"
    using ok by (auto simp: safe_def queue_ok_def)
  have only: "x = j0" if "x \<in> set (outbox_jobs db)" "jb_recompute_request_id x = Some (rr_id r)" for x
    using that j0 keys(2) unfolding one_job_def by (metis option.distinct(1))
  have queue: "queue_ok db'"
  proof (rule queue_update [OF _ _ g db])
    fix x assume x: "x \<in> set (outbox_jobs db)"
    then have xok: "job_ok (recompute_requests db) x" using ok by (simp add: safe_def queue_ok_def)
    show "job_ok (recompute_requests db') (if ?P x then ?f x else x)"
    proof (cases "?P x")
      case True
      have "?g r0 \<in> set (recompute_requests db')" using update_whereI(1) [OF r0(1), of ?Q ?g] r0(2) by (simp add: db)
      then have "\<exists>r' \<in> set (recompute_requests db'). jb_recompute_request_id x = Some (rr_id r') \<and> rr_state r' = REQ_RUNNING"
        using True r0(2) by (intro bexI [of _ "?g r0"]) simp_all
      with True show ?thesis by (simp add: job_ok_def)
    next
      case False
      then have "\<not> ?Q r'" if "jb_recompute_request_id x = Some (rr_id r')" for r'
        using that only [OF x] j0(2) by auto
      then have "job_ok (recompute_requests db') x" unfolding db by (rule job_ok_kept [OF xok])
      with False show ?thesis by (simp only: if_False)
    qed
  qed (use ok safe_def in simp_all)
  have idle_user: "x = j0" if x: "x \<in> set (outbox_jobs db)" and live: "running_for now db (rr_user_id r) x" for x
  proof -
    from x live have xl: "jb_kind x = ''RECOMPUTE''" "jb_state x = JOB_LEASED"
      "case jb_lease_until x of None \<Rightarrow> False | Some u \<Rightarrow> now < u"
      by (auto simp: running_for_def live_lease_def)
    from live obtain r1 where r1: "r1 \<in> set (recompute_requests db)"
      "jb_recompute_request_id x = Some (rr_id r1)" "rr_user_id r1 = rr_user_id r"
      by (auto simp: running_for_def row_exists_iff)
    have "job_ok (recompute_requests db) x" using ok x by (simp add: safe_def queue_ok_def)
    with xl obtain r2 where r2: "r2 \<in> set (recompute_requests db)" "jb_recompute_request_id x = Some (rr_id r2)"
      "rr_state r2 = REQ_RUNNING" by (auto simp: job_ok_def)
    have "r1 = r2" using r1(2) r2(2) by (intro keyed_inject [OF keys(1) r1(1) r2(1)]) simp
    with r2(3) have "rr_state r1 = REQ_RUNNING" by simp
    with x xl r1 have "already_running now r db" if "rr_id r1 \<noteq> rr_id r"
      unfolding already_running_def row_exists_iff using that by (intro bexI [of _ x] conjI bexI [of _ r1]) simp_all
    with idle have "rr_id r1 = rr_id r" by blast
    then show ?thesis using only [OF x] r1(2) by metis
  qed
  have "exclusive now db'"
  proof (rule exclusive_grant [OF _ _ g db j0(1) _ _ idle_user])
    show "exclusive now db" using ok by (simp add: safe_def)
    show "?P y \<longleftrightarrow> y = j0" if "y \<in> set (outbox_jobs db)" for y using only [OF that] j0 by blast
    fix user assume "running_for now db' user (?f j0)"
    then obtain r1 where "r1 \<in> set (recompute_requests db)" "rr_id r1 = rr_id r" "rr_user_id r1 = user"
      using j0(2) unfolding running_for_def db owner_update [OF g] by (auto simp: row_exists_iff)
    with r0 keyed_inject [OF keys(1), of r1 r0] show "user = rr_user_id r" by simp
  qed simp
  with queue have "safe now db'" by (simp add: safe_def)
  moreover have "keeps_ended db db'"
    by (rule keeps_ended_update [OF db(2)]) (auto simp: ended_def)
  moreover have "row_open db row \<longrightarrow> row_open db' row" for row
    using row_open_update [OF db(1)] by simp
  ultimately show ?thesis by blast
qed

lemma defer_job_frame:
  "recompute_requests (defer_job i t db) = recompute_requests db"
  "row_open db row \<Longrightarrow> row_open (defer_job i t db) row"
  by (simp add: defer_job_def)
    (rule row_open_update [where P = "\<lambda>j. jb_id j = i" and f = "\<lambda>j. (end_lease JOB_READY j)\<lparr>jb_available_at := t\<rparr>"],
      simp_all add: defer_job_def)

lemma claim_row_safe:
  assumes ok: "safe (e_clock env (5 * n + 3)) db" and row: "row_open db row"
    and run: "claim_row env policy n row db = Inr (items, db')"
  shows "safe (e_clock env (5 * n + 3)) db' \<and> keeps_ended db db' \<and> (\<forall>row. row_open db row \<longrightarrow> row_open db' row)"
proof -
  obtain j r c p where r: "row = (j, r, c, p)" by (cases row)
  let ?now = "e_clock env (5 * n + 3)"
  have deferred: ?thesis if "db' = defer_job (jb_id j) t db" for t
    using that ok row defer_job_safe [of ?now db j r c p t] keeps_ended_refl
    by (simp add: r defer_job_frame del: row_open.simps)
  show ?thesis
  proof (cases "already_running ?now r db")
    case True
    with run have "db' = defer_job (jb_id j) (e_clock env (5 * n + 6) + 5000000) db"
      by (simp add: claim_row_def r)
    then show ?thesis by (rule deferred)
  next
    case False
    show ?thesis
    proof (cases "reserve_execution policy (rr_user_id r) (e_clock env (5 * n + 4)) (e_clock env (5 * n + 5)) (rate_limits db)")
      case (Inl e)
      then obtain s where "reserve_execution policy (rr_user_id r) (e_clock env (5 * n + 4))
          (e_clock env (5 * n + 5)) (rate_limits db) = Inl (AnalysisBudgetExceeded s)" by (cases e) simp
      with False run have "db' = defer_job (jb_id j) (e_clock env (5 * n + 6) + s * 1000000) db"
        by (simp add: claim_row_def r)
      then show ?thesis by (rule deferred)
    next
      case (Inr limits)
      let ?db = "db\<lparr>rate_limits := limits\<rparr>"
      from Inr False run obtain item where lease: "lease_recompute env n j r ?db = Inr (item, db')"
        by (auto simp: claim_row_def r err_simps)
      have "safe ?now ?db" using ok by (rule safe_cong [rotated 2]) simp_all
      moreover have "\<not> already_running ?now r ?db" using False by (simp add: already_running_def)
      ultimately have "safe ?now db' \<and> keeps_ended ?db db' \<and> (\<forall>row. row_open ?db row \<longrightarrow> row_open db' row)"
        using lease by (rule lease_recompute_safe)
      moreover have "row_open ?db row = row_open db row" for row by (cases row) simp
      ultimately show ?thesis by (simp add: keeps_ended_def del: row_open.simps)
    qed
  qed
qed

lemma claim_rows_safe:
  assumes "mono (e_clock env)" and "safe (e_clock env (5 * n + 3)) db" and "\<forall>row \<in> set rows. row_open db row"
    and "claim_rows env policy n rows db = Inr (items, db')" and "\<And>k. e_clock env k \<le> later"
  shows "safe later db' \<and> keeps_ended db db'"
  using assms(2-4)
proof (induction rows arbitrary: n db items)
  case Nil
  then show ?case using safe_later assms(5) keeps_ended_refl by auto
next
  case (Cons row rows)
  from Cons.prems(3) obtain more items1 db1 where one: "claim_row env policy n row db = Inr (items1, db1)"
    and rest: "claim_rows env policy (Suc n) rows db1 = Inr (more, db')"
    by (auto simp: err_simps)
  have step: "safe (e_clock env (5 * n + 3)) db1 \<and> keeps_ended db db1 \<and> (\<forall>row. row_open db row \<longrightarrow> row_open db1 row)"
    using Cons.prems(1,2) one by (intro claim_row_safe) simp_all
  moreover have "e_clock env (5 * n + 3) \<le> e_clock env (5 * Suc n + 3)"
    using assms(1) by (rule monoD) simp
  ultimately have "safe (e_clock env (5 * Suc n + 3)) db1" using safe_later by blast
  then have "safe later db' \<and> keeps_ended db1 db'"
    using step Cons.prems(2) rest by (intro Cons.IH) auto
  with step keeps_ended_trans show ?case by blast
qed

lemma current_rows_open:
  assumes "row \<in> set (current_rows env eligible limit db)"
  shows "row_open db row"
proof -
  obtain j r c p where row: "row = (j, r, c, p)" by (cases row)
  with assms have "claim_conditions env (e_clock env 2) eligible (j, r, c, p)" "(j, r, c, p) \<in> set (joined_rows db)"
    by (auto simp: current_rows_def dest!: in_set_takeD)
  with joined_rowsD [of j r c p db] claim_conditionsD [of env _ eligible j r c p]
  have "j \<in> set (outbox_jobs db)" "jb_kind j = ''RECOMPUTE''" "jb_recompute_request_id j = Some (rr_id r)"
    "jb_state j = JOB_READY \<or> jb_state j = JOB_LEASED"
    by (auto simp: claimable_def)
  then show ?thesis unfolding row row_open.simps by blast
qed

lemma claim_recompute_safe:
  assumes "mono (e_clock env)" and ok: "safe now db" and "now \<le> e_clock env 0" and "\<And>k. e_clock env k \<le> later"
    and run: "claim_recompute_work env policy limit eligible db = Inr (items, db')"
  shows "safe later db' \<and> keeps_ended db db'"
proof -
  let ?db = "retire_stale env eligible db"
  have "e_clock env 0 \<le> e_clock env 3" using assms(1) by (rule monoD) simp
  then have "safe (e_clock env (5 * 0 + 3)) ?db"
    using safe_later [OF retire_stale_safe(1) [OF ok]] assms(3) by simp
  then have "safe later db' \<and> keeps_ended ?db db'"
    using run current_rows_open assms(4) unfolding claim_recompute_work_def Let_def
    by (intro claim_rows_safe [OF assms(1)]) auto
  then show ?thesis using retire_stale_safe(2) [OF ok] keeps_ended_trans by blast
qed

subsection \<open>Runs of the queue\<close>

lemma empty_safe: "safe now empty_db"
  by (simp add: safe_def queue_ok_def exclusive_def one_job_def empty_db_def)

subsection \<open>A sample request\<close>

definition sample_analysis :: AnalysisPersist where
  "sample_analysis = \<lparr>ap_user_id = ''alice'', ap_analysis_id = ''a1'', ap_goal_id = ''g1'', ap_profile_version = 1,
     ap_basis_type = ''EDITORIAL'', ap_basis_version = ''1'', ap_release_id = None, ap_methodology_version = ''1'',
     ap_status = ''READY'', ap_reference_at = 5, ap_input_snapshot = [], ap_input_hash = ''h'',
     ap_results = None, ap_is_fixture = False\<rparr>"

definition sample_artifacts :: RecomputeArtifacts where
  "sample_artifacts = \<lparr>ra_analysis = sample_analysis, ra_proposal = None\<rparr>"

definition sample_queue_db :: database where
  "sample_queue_db = empty_db\<lparr>
     users := [\<lparr>u_id = ''alice'', u_status = USER_ACTIVE, u_display_name = None\<rparr>],
     profiles := [\<lparr>p_user_id = ''alice'', p_version = 1, p_major_raw = [], p_major_concept_id = None, p_year = None,
       p_enrollment_status = None, p_expected_graduation_on = None, p_latest_analysis_id = None, p_updated_at = 0\<rparr>],
     user_state_events := [\<lparr>ev_id = ''e1'', ev_user_id = ''alice'', ev_aggregate_id = ''e1'', ev_aggregate_type = ''PROFILE'',
       ev_version = 1, ev_kind = ''ANALYSIS_REQUESTED'', ev_payload = []\<rparr>],
     goals := [\<lparr>go_id = ''g1'', go_user_id = ''alice'', go_goal_mode = ''TARGETED'', go_occupation_id = Some ''o1'',
       go_target_by = 1000, go_timezone = ''UTC'', go_original_time_phrase = ''soon'', go_status = ACTIVE, go_updated_at = 0\<rparr>]\<rparr>"

definition sample_create :: RecomputeRequestCreate where
  "sample_create = \<lparr>rq_user_id = ''alice'', rq_profile_version = 1, rq_trigger_event_id = ''e1'', rq_dedupe_key = ''d1'',
     rq_payload = [], rq_context = Some []\<rparr>"

definition sample_job :: "JobState \<Rightarrow> int \<Rightarrow> int option \<Rightarrow> uuid option \<Rightarrow> outbox_jobs_row" where
  "sample_job state attempts until_at token = \<lparr>jb_id = ''j1'', jb_kind = ''RECOMPUTE'',
     jb_payload = [(''recompute_request_id'', JStr ''r1'')], jb_recompute_request_id = Some ''r1'', jb_dedupe_key = ''d1'',
     jb_state = state, jb_attempt_count = attempts, jb_available_at = 1, jb_lease_until = until_at, jb_lease_token = token\<rparr>"

definition sample_rr :: "RequestState \<Rightarrow> uuid option \<Rightarrow> int \<Rightarrow> recompute_requests_row" where
  "sample_rr state analysis updated = \<lparr>rr_id = ''r1'', rr_user_id = ''alice'', rr_profile_version = 1,
     rr_trigger_event_id = ''e1'', rr_state = state, rr_resulting_analysis_id = analysis, rr_proposal_id = None,
     rr_auto_roadmap_pending = False, rr_error_code = None, rr_failure_details = None, rr_created_at = 1,
     rr_updated_at = updated\<rparr>"

definition sample_item :: RecomputeWorkItem where
  "sample_item = \<lparr>wi_request_id = ''r1'', wi_user_id = ''alice'', wi_profile_version = 1,
     wi_lease = \<lparr>le_job_id = ''j1'', le_lease_token = ''u0'', le_kind = ''RECOMPUTE'',
       le_payload = [(''recompute_request_id'', JStr ''r1'')]\<rparr>\<rparr>"

definition sample_policy :: AnalysisBudgetPolicy where
  "sample_policy = \<lparr>requests_per_hour = 10, executions_per_hour = 30, executions_per_minute = 2\<rparr>"

definition sample_queued :: database where
  "sample_queued = sample_queue_db\<lparr>recompute_requests := [sample_rr REQ_PENDING None 1],
     recompute_contexts := [\<lparr>cx_request_id = ''r1'', cx_payload = []\<rparr>],
     outbox_jobs := [sample_job JOB_READY 0 None None]\<rparr>"

definition sample_claimed :: database where
  "sample_claimed = sample_queued\<lparr>
     rate_limits := ((\<lambda>_. None)((''alice'', ''analysis_compute_hour'') \<mapsto> \<lparr>window_started_at = 0, request_count = 1\<rparr>,
       (''alice'', ''analysis_compute_minute'') \<mapsto> \<lparr>window_started_at = 0, request_count = 1\<rparr>)),
     recompute_requests := [sample_rr REQ_RUNNING None 2],
     outbox_jobs := [sample_job JOB_LEASED 1 (Some 300000002) (Some ''u0'')]\<rparr>"

lemmas sample_queue_defs = sample_queue_db_def sample_create_def sample_job_def sample_rr_def sample_item_def
  sample_policy_def sample_queued_def sample_claimed_def sample_env_def empty_db_def sample_analysis_def
  sample_artifacts_def

lemmas statement_defs = update_where_def row_exists_def rows_where_def one_or_none_def rowcount_def

lemma sample_persist:
  "persist_recompute_request (sample_env 1) ''r1'' ''j1'' sample_create sample_queue_db
     = Inr (\<lparr>rs_request_id = ''r1'', rs_request_state = REQ_PENDING\<rparr>, sample_queued)"
  by (simp add: persist_recompute_request_def insert_request_def insert_context_def same_request_def
      job_conflict_def statement_defs sample_queue_defs Let_def)

lemma sample_claim:
  "claim_recompute_work (sample_env 2) sample_policy 5 None sample_queued = Inr ([sample_item], sample_claimed)"
proof -
  have stale: "retire_stale (sample_env 2) None sample_queued = sample_queued"
    by (simp add: retire_stale_def joined_rows_def claim_conditions_def claimable_def statement_defs sample_queue_defs Let_def)
  have rows: "current_rows (sample_env 2) None 5 sample_queued
      = [(sample_job JOB_READY 0 None None, sample_rr REQ_PENDING None 1, \<lparr>cx_request_id = ''r1'', cx_payload = []\<rparr>,
          hd (profiles sample_queue_db))]"
    by (simp add: current_rows_def joined_rows_def claim_conditions_def claimable_def statement_defs sample_queue_defs)
  have token: "show_nat 0 = ''0''" by code_simp
  show ?thesis
    unfolding claim_recompute_work_def Let_def stale rows
    by (simp add: claim_row_def already_running_def reserve_execution_def reserve_budget_def budget_upsert_def
        date_trunc_def lease_recompute_def take_lease_def RECOMPUTE_LEASE_FOR_def statement_defs
        sample_queue_defs Let_def token)
qed

lemma sample_env_clock: "e_clock (sample_env t) = (\<lambda>_. t)" "mono (e_clock (sample_env t))"
  by (simp_all add: sample_env_def mono_def)

lemma sample_finalize:
  "\<exists>f db'. finalize_recompute (sample_env 3) sample_item sample_artifacts sample_claimed = Inr (f, db')
     \<and> recompute_requests db' = [sample_rr REQ_READY (Some ''a1'') 3]"
  by (simp add: finalize_recompute_def artifacts_match_def check_lease_def check_request_def insert_analysis_def
      end_request_def update_pointer_def complete_job_def leased_job_def lease_held_def statement_defs
      sample_queue_defs Let_def)

end
