(* ===== verification/Recompute_Requests.thy ===== *)
theory Recompute_Requests
  imports Queue_Safety
begin

section \<open>Submitting an analysis\<close>

text \<open>
  \<open>src/jobtology_be/infrastructure/persistence/recompute_requests.py\<close> and the context identity of
  \<open>src/jobtology_be/application/recompute_freshness.py\<close>. The parameters are library calls:
  \<open>dumps_item\<close> is \<open>json.dumps(..., sort_keys=True)\<close>, the sort key of a capability, \<open>dumps_stable\<close> the
  compact ASCII encoding with sorted keys that is hashed, \<open>digest\<close> the SHA-256 hex digest of a text and
  \<open>utc_day\<close> the UTC date of an ISO timestamp (\<open>None\<close> where \<open>fromisoformat\<close> raises \<open>ValueError\<close>).
\<close>

record freshness_lib =
  dumps_item :: "JsonValue \<Rightarrow> string"
  dumps_stable :: "JsonValue \<Rightarrow> string"
  digest :: "string \<Rightarrow> string"
  utc_day :: "string \<Rightarrow> string option"

subsection \<open>Context identity\<close>

definition reference_day :: "freshness_lib \<Rightarrow> JsonValue option \<Rightarrow> JsonValue" where
  "reference_day lib reference =
     (case reference of
        Some (JStr s) \<Rightarrow> (case utc_day lib s of Some day \<Rightarrow> JStr day | None \<Rightarrow> JStr s)
      | _ \<Rightarrow> JNull)"

fun slot_week :: "JsonValue \<Rightarrow> string option" where
  "slot_week (JMap slot) = (case map_of slot ''capacity_week_key'' of Some (JStr k) \<Rightarrow> Some k | _ \<Rightarrow> None)"
| "slot_week _ = None"

definition week_capacities :: "JsonValue option \<Rightarrow> JsonValue" where
  "week_capacities slots_of =
     (let weeks = (case slots_of of Some (JSeq slots) \<Rightarrow> List.map_filter slot_week slots | _ \<Rightarrow> [])
      in JMap (map (\<lambda>w. (w, JInt (int (count_list weeks w)))) (sort (remdups weeks))))"

fun json_string :: "JsonValue \<Rightarrow> string option" where
  "json_string (JStr s) = Some s"
| "json_string _ = None"

fun json_number :: "JsonValue \<Rightarrow> rat option" where
  "json_number (JInt n) = Some (of_int n)"
| "json_number (JFloat q) = Some q"
| "json_number (JBool b) = Some (if b then 1 else 0)"
| "json_number _ = None"

text \<open>
  \<open>sorted(...)\<close> of JSON values: strings by code point, numbers (truth values count as 0 and 1) by
  value, a single value as it is; \<open>None\<close> is the \<open>TypeError\<close> of a mixed list, of two nulls or of two
  objects. Lists of lists, which Python compares item by item, are not told apart from these.
\<close>

definition sorted_values :: "JsonValue list \<Rightarrow> JsonValue list option" where
  "sorted_values xs =
     (if length xs \<le> 1 then Some xs
      else if list_all (\<lambda>x. json_string x \<noteq> None) xs
      then Some (map JStr (sort (List.map_filter json_string xs)))
      else if list_all (\<lambda>x. json_number x \<noteq> None) xs then Some (sort_key (the \<circ> json_number) xs)
      else None)"

text \<open>What is sorted: a list, the characters of a string or the keys of an object; nothing else can be.\<close>

definition sorted_ids :: "JsonValue option \<Rightarrow> JsonValue option" where
  "sorted_ids found =
     (case found of
        None \<Rightarrow> Some (JSeq [])
      | Some (JSeq xs) \<Rightarrow> map_option JSeq (sorted_values xs)
      | Some (JStr s) \<Rightarrow> Some (JSeq (map (\<lambda>c. JStr [c]) (sort s)))
      | Some (JMap m) \<Rightarrow> Some (JSeq (map JStr (sort (map fst m))))
      | _ \<Rightarrow> None)"

definition stable_context :: "freshness_lib \<Rightarrow> json_object \<Rightarrow> json_object option" where
  "stable_context lib context =
     (let reference = map_of context ''reference_at'';
          stable = AList.update ''reference_day'' (reference_day lib reference)
            (AList.delete ''planning_started_at'' (AList.delete ''reference_at'' context));
          stable = (if map_of stable ''calendar_policy'' = Some (JStr ''FLEXIBLE_WEEKLY_V1'')
            then AList.update ''calendar_week_capacities'' (week_capacities (map_of stable ''calendar''))
                   (AList.delete ''calendar'' stable)
            else stable);
          stable = (case map_of stable ''capabilities'' of
              Some (JSeq items) \<Rightarrow> AList.update ''capabilities'' (JSeq (sort_key (dumps_item lib) items)) stable
            | _ \<Rightarrow> stable)
      in case map_of stable ''completeness'' of
           Some (JMap completeness) \<Rightarrow>
             map_option (\<lambda>ids. AList.update ''completeness''
                 (JMap (AList.update ''experience_complete_entity_ids'' ids completeness)) stable)
               (sorted_ids (map_of completeness ''experience_complete_entity_ids''))
         | _ \<Rightarrow> Some stable)"

definition analysis_context_fingerprint :: "freshness_lib \<Rightarrow> json_object \<Rightarrow> string option" where
  "analysis_context_fingerprint lib context =
     map_option (\<lambda>stable. digest lib (dumps_stable lib (JMap stable))) (stable_context lib context)"

subsection \<open>Requests\<close>

definition create_recompute_request ::
  "env \<Rightarrow> uuid \<Rightarrow> uuid \<Rightarrow> RecomputeRequestCreate \<Rightarrow> RecomputeRequestSnapshot transaction" where
  "create_recompute_request env request_id job_id q db =
     (case one_or_none (\<lambda>e. ev_id e = rq_trigger_event_id q) (user_state_events db) of
        None \<Rightarrow> Inl (MissingRecordError ''trigger event'')
      | Some e \<Rightarrow>
          if ev_user_id e \<noteq> rq_user_id q then Inl (MissingRecordError ''trigger event'')
          else if ev_version e \<noteq> rq_profile_version q then Inl (PersistenceConflictError ''trigger event version'')
          else persist_recompute_request env request_id job_id q db)"

record AnalysisRecomputeSubmission =
  sb_user_id :: uuid
  sb_goal_id :: uuid
  sb_expected_profile_version :: int
  sb_dedupe_key :: string
  sb_payload :: json_object
  sb_context :: json_object

definition REUSABLE_RECOMPUTE_STATES :: "RequestState list" where
  "REUSABLE_RECOMPUTE_STATES = [REQ_PENDING, REQ_RUNNING, REQ_READY]"

definition matching_requests ::
  "env \<Rightarrow> AnalysisRecomputeSubmission \<Rightarrow> database \<Rightarrow> (recompute_requests_row \<times> json_object) list" where
  "matching_requests env s db =
     [(r, cx_payload c). r \<leftarrow> recompute_requests db, c \<leftarrow> recompute_contexts db, cx_request_id c = rr_id r
        \<and> rr_user_id r = sb_user_id s \<and> rr_profile_version r = sb_expected_profile_version s
        \<and> rr_state r \<in> set REUSABLE_RECOMPUTE_STATES
        \<and> astext (e_json_text env) (map_of (cx_payload c) ''goal_id'') = Some (sb_goal_id s)]"

definition reusable_requests ::
  "env \<Rightarrow> AnalysisRecomputeSubmission \<Rightarrow> database \<Rightarrow> (recompute_requests_row \<times> json_object) list" where
  "reusable_requests env s db =
     take 100 (sort_key (\<lambda>(r, payload). - rr_created_at r) (matching_requests env s db))"

text \<open>The loop over the candidates: the first one with the same fingerprint, unless a refresh is asked for.\<close>

fun first_reusable :: "freshness_lib \<Rightarrow> bool \<Rightarrow> string \<Rightarrow> (recompute_requests_row \<times> json_object) list
    \<Rightarrow> persistence_error + recompute_requests_row option" where
  "first_reusable lib refresh fingerprint [] = Inr None"
| "first_reusable lib refresh fingerprint ((r, payload) # rest) =
     (case analysis_context_fingerprint lib payload of
        None \<Rightarrow> Inl ContextTypeError
      | Some f \<Rightarrow>
          if f \<noteq> fingerprint then first_reusable lib refresh fingerprint rest
          else if rr_state r = REQ_READY \<and> refresh then first_reusable lib refresh fingerprint rest
          else Inr (Some r))"

definition insert_event :: "user_state_events_row \<Rightarrow> database \<Rightarrow> persistence_error + database" where
  "insert_event e db =
     and_then (require (\<not> row_exists (\<lambda>x. ev_id x = ev_id e \<or> ev_aggregate_id x = ev_aggregate_id e
           \<and> ev_version x = ev_version e) (user_state_events db)
         \<and> row_exists (\<lambda>u. u_id u = ev_user_id e) (users db) \<and> 1 \<le> ev_version e)
         (IntegrityError ''user_state_events''))
       (\<lambda>_. Inr (db\<lparr>user_state_events := user_state_events db @ [e]\<rparr>))"

definition submit_analysis_recompute ::
  "freshness_lib \<Rightarrow> AnalysisBudgetPolicy \<Rightarrow> env \<Rightarrow> AnalysisRecomputeSubmission
    \<Rightarrow> RecomputeRequestSnapshot transaction" where
  "submit_analysis_recompute lib policy env s db =
     and_then (require (map_option p_version (one_or_none (\<lambda>p. p_user_id p = sb_user_id s) (profiles db))
         = Some (sb_expected_profile_version s)) (PersistenceConflictError ''profile''))
     (\<lambda>_. and_then (require (map_option go_user_id (one_or_none (\<lambda>g. go_id g = sb_goal_id s) (goals db))
         = Some (sb_user_id s)) (MissingRecordError ''goal''))
     (\<lambda>_. and_then (case analysis_context_fingerprint lib (sb_context s) of
          None \<Rightarrow> Inl ContextTypeError
        | Some fingerprint \<Rightarrow> first_reusable lib (map_of (sb_payload s) ''refresh'' = Some (JBool True)) fingerprint
            (reusable_requests env s db))
     (\<lambda>existing. case existing of
        Some r \<Rightarrow> Inr (\<lparr>rs_request_id = rr_id r, rs_request_state = rr_state r\<rparr>, db)
      | None \<Rightarrow>
          (case reserve_request policy (sb_user_id s) (e_clock env 0) (e_clock env 1) (rate_limits db) of
             Inl e \<Rightarrow> Inl (BudgetExceeded e)
           | Inr limits \<Rightarrow>
               (let event_id = e_uuid env 0 in
                and_then (insert_event \<lparr>ev_id = event_id, ev_user_id = sb_user_id s, ev_aggregate_id = event_id,
                    ev_aggregate_type = ''PROFILE'', ev_version = sb_expected_profile_version s,
                    ev_kind = ''ANALYSIS_REQUESTED'', ev_payload = [(''goal_id'', JStr (sb_goal_id s))]\<rparr>
                    (db\<lparr>rate_limits := limits\<rparr>))
                  (persist_recompute_request env (e_uuid env 1) (e_uuid env 2)
                     \<lparr>rq_user_id = sb_user_id s, rq_profile_version = sb_expected_profile_version s,
                      rq_trigger_event_id = event_id, rq_dedupe_key = sb_dedupe_key s,
                      rq_payload = sb_payload s, rq_context = Some (sb_context s)\<rparr>))))))"

subsection \<open>What a submission stores\<close>

lemma first_reusable_Cons_same:
  assumes "analysis_context_fingerprint lib payload = Some f" and "rr_state r \<noteq> REQ_READY"
  shows "first_reusable lib refresh f ((r, payload) # rest) = Inr (Some r)"
  using assms by simp

lemma first_reusable_in: "first_reusable lib refresh f rows = Inr (Some r) \<Longrightarrow> \<exists>payload. (r, payload) \<in> set rows"
  by (induction rows) (auto split: option.splits if_splits)

text \<open>The row that sorts first among the candidates.\<close>

lemma sort_key_snoc_first: "(\<And>y. y \<in> set xs \<Longrightarrow> f x < f y) \<Longrightarrow> sort_key f (xs @ [x]) = x # sort_key f xs"
  by (induction xs) (simp_all add: not_le [symmetric])

text \<open>A new submission: the event, the request, its context and its job.\<close>

lemma submit_new:
  assumes run: "submit_analysis_recompute lib policy env s db = Inr (snap, db1)"
    and fp: "analysis_context_fingerprint lib (sb_context s) = Some f"
    and none: "first_reusable lib refresh f (reusable_requests env s db) = Inr None"
      "refresh = (map_of (sb_payload s) ''refresh'' = Some (JBool True))"
    and fresh: "\<And>r. r \<in> set (recompute_requests db) \<Longrightarrow> rr_trigger_event_id r \<noteq> e_uuid env 0"
    and contexts: "\<And>c. c \<in> set (recompute_contexts db) \<Longrightarrow> cx_request_id c \<noteq> e_uuid env 1"
  obtains new where "recompute_requests db1 = recompute_requests db @ [new]"
    "\<And>r. r \<in> set (recompute_requests db) \<Longrightarrow> rr_id r \<noteq> rr_id new"
    "\<And>c. c \<in> set (recompute_contexts db) \<Longrightarrow> cx_request_id c \<noteq> rr_id new"
    "recompute_contexts db1 = recompute_contexts db @ [\<lparr>cx_request_id = rr_id new, cx_payload = sb_context s\<rparr>]"
    "profiles db1 = profiles db" "goals db1 = goals db"
    "rr_state new = REQ_PENDING" "rr_user_id new = sb_user_id s"
    "rr_profile_version new = sb_expected_profile_version s" "rr_created_at new = e_started env"
    "snap = \<lparr>rs_request_id = rr_id new, rs_request_state = REQ_PENDING\<rparr>"
proof -
  let ?q = "\<lparr>rq_user_id = sb_user_id s, rq_profile_version = sb_expected_profile_version s,
      rq_trigger_event_id = e_uuid env 0, rq_dedupe_key = sb_dedupe_key s,
      rq_payload = sb_payload s, rq_context = Some (sb_context s)\<rparr>"
  from run none fp obtain db0 limits e where db0: "insert_event e (db\<lparr>rate_limits := limits\<rparr>) = Inr db0"
    and persist: "persist_recompute_request env (e_uuid env 1) (e_uuid env 2) ?q db0 = Inr (snap, db1)"
    by (auto simp: submit_analysis_recompute_def err_simps Let_def split: sum.splits)
  have frame: "recompute_requests db0 = recompute_requests db" "recompute_contexts db0 = recompute_contexts db"
    "profiles db0 = profiles db" "goals db0 = goals db"
    using db0 by (auto simp: insert_event_def err_simps)
  have nosame: "\<not> same_request ?q r" if "r \<in> set (recompute_requests db)" for r
    using fresh [OF that] by (simp add: same_request_def)
  from persist obtain db' row where ins: "insert_request env (e_uuid env 1) ?q db0 = Inr db'"
    and row: "one_or_none (same_request ?q) (recompute_requests db') = Some row"
    by (auto simp: persist_recompute_request_def err_simps split: option.splits)
  have nokey: "\<not> row_exists (\<lambda>r. rr_id r = e_uuid env 1 \<or> same_request ?q r) (recompute_requests db0)"
  proof
    assume "row_exists (\<lambda>r. rr_id r = e_uuid env 1 \<or> same_request ?q r) (recompute_requests db0)"
    then have "db' = db0" using ins by (simp add: insert_request_def)
    then have "row \<in> set (recompute_requests db) \<and> same_request ?q row"
      using one_or_none_SomeD [OF row] frame by simp
    with nosame show False by blast
  qed
  then obtain new where new: "db' = db0\<lparr>recompute_requests := recompute_requests db0 @ [new]\<rparr>"
    "rr_state new = REQ_PENDING" "rr_user_id new = sb_user_id s" "rr_id new = e_uuid env 1"
    "rr_profile_version new = sb_expected_profile_version s" "rr_created_at new = e_started env"
    using ins by (fastforce simp: insert_request_def err_simps)
  have "row = new" using one_or_none_SomeD [OF row] nosame by (auto simp: new(1) frame)
  with row have row': "one_or_none (same_request ?q) (recompute_requests db') = Some new" by simp
  have "\<not> row_exists (\<lambda>c. cx_request_id c = rr_id new) (recompute_contexts db')"
    using contexts by (simp add: new frame row_exists_iff)
  then have stored: "insert_context (rr_id new) (sb_context s) db' = db'\<lparr>recompute_contexts := recompute_contexts db
      @ [\<lparr>cx_request_id = rr_id new, cx_payload = sb_context s\<rparr>]\<rparr>"
    by (simp add: insert_context_def) (simp add: new(1) frame)
  have "recompute_requests db1 = recompute_requests db @ [new]"
    "recompute_contexts db1 = recompute_contexts db @ [\<lparr>cx_request_id = rr_id new, cx_payload = sb_context s\<rparr>]"
    "profiles db1 = profiles db" "goals db1 = goals db"
    "snap = \<lparr>rs_request_id = rr_id new, rs_request_state = REQ_PENDING\<rparr>"
    using persist
    by (simp_all add: persist_recompute_request_def ins row' stored new(2) Let_def
        split: if_splits del: One_nat_def)
      (auto simp: new(1) frame)
  moreover have "rr_id r \<noteq> rr_id new" if "r \<in> set (recompute_requests db)" for r
    using nokey that by (auto simp: row_exists_iff frame new(4))
  moreover have "cx_request_id c \<noteq> rr_id new" if "c \<in> set (recompute_contexts db)" for c
    using contexts [OF that] by (simp add: new(4))
  ultimately show thesis using new that by blast
qed

lemma matching_append:
  assumes "recompute_requests db1 = recompute_requests db @ [new]"
    and "recompute_contexts db1 = recompute_contexts db @ [\<lparr>cx_request_id = rr_id new, cx_payload = payload\<rparr>]"
    and "\<And>r. r \<in> set (recompute_requests db) \<Longrightarrow> rr_id r \<noteq> rr_id new"
    and "\<And>c. c \<in> set (recompute_contexts db) \<Longrightarrow> cx_request_id c \<noteq> rr_id new"
    and "rr_user_id new = sb_user_id s" and "rr_profile_version new = sb_expected_profile_version s"
    and "rr_state new = REQ_PENDING" and "map_of payload ''goal_id'' = Some (JStr (sb_goal_id s))"
  shows "matching_requests env s db1 = matching_requests env s db @ [(new, payload)]"
proof -
  define P where "P r c \<longleftrightarrow> cx_request_id c = rr_id r
        \<and> rr_user_id r = sb_user_id s \<and> rr_profile_version r = sb_expected_profile_version s
        \<and> rr_state r \<in> set REUSABLE_RECOMPUTE_STATES
        \<and> astext (e_json_text env) (map_of (cx_payload c) ''goal_id'') = Some (sb_goal_id s)"
    for r :: recompute_requests_row and c :: recompute_contexts_row
  define F where "F cs r = concat (map (\<lambda>c. if P r c then [(r, cx_payload c)] else []) cs)" for cs r
  let ?c = "\<lparr>cx_request_id = rr_id new, cx_payload = payload\<rparr>"
  have rows: "matching_requests env s d = concat (map (F (recompute_contexts d)) (recompute_requests d))" for d
    by (simp add: matching_requests_def F_def [abs_def] P_def)
  have old: "F (recompute_contexts db @ [?c]) r = F (recompute_contexts db) r" if "r \<in> set (recompute_requests db)" for r
    using assms(3) [OF that] by (simp add: F_def P_def)
  have "F (recompute_contexts db) new = []" using assms(4) by (auto simp: F_def P_def)
  then have "F (recompute_contexts db @ [?c]) new = [(new, payload)]"
    using assms(5-8) by (simp add: F_def P_def REUSABLE_RECOMPUTE_STATES_def)
  then show ?thesis
    unfolding rows assms(1,2) using old by (simp cong: map_cong)
qed

subsection \<open>Property\<close>

text \<open>
  C40: submitting the same analysis again is free. Once a submission has been accepted, repeating it
  on the resulting database returns the same request and changes nothing: no new event, request or
  job, and no unit of the account's budget.
\<close>

theorem resubmission_reuses_request:
  assumes run: "submit_analysis_recompute lib policy env s db = Inr (snap, db1)"
    and goal: "map_of (sb_context s) ''goal_id'' = Some (JStr (sb_goal_id s))"
    and fresh: "\<And>r. r \<in> set (recompute_requests db) \<Longrightarrow> rr_trigger_event_id r \<noteq> e_uuid env 0"
      "\<And>c. c \<in> set (recompute_contexts db) \<Longrightarrow> cx_request_id c \<noteq> e_uuid env 1"
    and time: "\<And>r. r \<in> set (recompute_requests db) \<Longrightarrow> rr_created_at r < e_started env"
    and rendering: "e_json_text env' = e_json_text env"
  shows "submit_analysis_recompute lib policy' env' s db1 = Inr (snap, db1)"
proof -
  let ?refresh = "map_of (sb_payload s) ''refresh'' = Some (JBool True)"
  from run obtain f existing where fp: "analysis_context_fingerprint lib (sb_context s) = Some f"
    and first: "first_reusable lib ?refresh f (reusable_requests env s db) = Inr existing"
    and guards: "map_option p_version (one_or_none (\<lambda>p. p_user_id p = sb_user_id s) (profiles db))
         = Some (sb_expected_profile_version s)"
      "map_option go_user_id (one_or_none (\<lambda>g. go_id g = sb_goal_id s) (goals db)) = Some (sb_user_id s)"
    unfolding submit_analysis_recompute_def by (auto simp: err_simps split: option.splits)
  have same: "reusable_requests env' s d = reusable_requests env s d" for d
    by (simp add: reusable_requests_def matching_requests_def rendering)
  show ?thesis
  proof (cases existing)
    case (Some r)
    with run fp first guards have "db1 = db" "snap = \<lparr>rs_request_id = rr_id r, rs_request_state = rr_state r\<rparr>"
      by (simp_all add: submit_analysis_recompute_def)
    with Some fp first guards same show ?thesis by (simp add: submit_analysis_recompute_def)
  next
    case None
    show ?thesis
    proof (rule submit_new [OF run fp first [unfolded None] refl fresh])
      fix new
      assume new: "recompute_requests db1 = recompute_requests db @ [new]"
        "\<And>r. r \<in> set (recompute_requests db) \<Longrightarrow> rr_id r \<noteq> rr_id new"
        "\<And>c. c \<in> set (recompute_contexts db) \<Longrightarrow> cx_request_id c \<noteq> rr_id new"
        "recompute_contexts db1 = recompute_contexts db @ [\<lparr>cx_request_id = rr_id new, cx_payload = sb_context s\<rparr>]"
        "profiles db1 = profiles db" "goals db1 = goals db"
        "rr_state new = REQ_PENDING" "rr_user_id new = sb_user_id s"
        "rr_profile_version new = sb_expected_profile_version s" "rr_created_at new = e_started env"
        "snap = \<lparr>rs_request_id = rr_id new, rs_request_state = REQ_PENDING\<rparr>"
      have "matching_requests env s db1 = matching_requests env s db @ [(new, sb_context s)]"
        using new goal by (intro matching_append) simp_all
      moreover have "r \<in> set (recompute_requests db)" if "(r, c) \<in> set (matching_requests env s db)" for r c
        using that by (auto simp: matching_requests_def split: if_splits)
      ultimately have "reusable_requests env s db1 = (new, sb_context s) # take 99
          (sort_key (\<lambda>(r, payload). - rr_created_at r) (matching_requests env s db))"
        using time new(10) by (simp add: reusable_requests_def) (subst sort_key_snoc_first, auto)
      then have "first_reusable lib ?refresh f (reusable_requests env' s db1) = Inr (Some new)"
        using fp new(7) by (simp add: same)
      with fp guards new(5-7,11) show ?thesis by (simp add: submit_analysis_recompute_def)
    qed
  qed
qed

definition sample_lib :: freshness_lib where
  "sample_lib = \<lparr>dumps_item = (\<lambda>_. []), dumps_stable = (\<lambda>_. []), digest = (\<lambda>s. s), utc_day = (\<lambda>_. None)\<rparr>"

definition sample_submission :: AnalysisRecomputeSubmission where
  "sample_submission = \<lparr>sb_user_id = ''alice'', sb_goal_id = ''g1'', sb_expected_profile_version = 1,
     sb_dedupe_key = ''d2'', sb_payload = [], sb_context = [(''goal_id'', JStr ''g1'')]\<rparr>"

lemma sample_submit:
  "\<exists>snap db1. submit_analysis_recompute sample_lib sample_policy (sample_env 3) sample_submission sample_queue_db
     = Inr (snap, db1)"
proof -
  have u: "e_uuid (sample_env 3) 0 = ''u0''" "e_uuid (sample_env 3) 1 = ''u1''" "e_uuid (sample_env 3) 2 = ''u2''"
    by code_simp+
  show ?thesis
    by (simp add: submit_analysis_recompute_def u analysis_context_fingerprint_def stable_context_def
        reusable_requests_def matching_requests_def reserve_request_def reserve_budget_def budget_upsert_def
        insert_event_def persist_recompute_request_def insert_request_def insert_context_def same_request_def
        job_conflict_def statement_defs sample_lib_def sample_submission_def Let_def sample_queue_db_def
        empty_db_def sample_policy_def reference_day_def del: One_nat_def)
qed

theorem resubmission_reuses_request_witness:
  "\<exists>snap db1. submit_analysis_recompute sample_lib sample_policy (sample_env 3) sample_submission sample_queue_db
       = Inr (snap, db1)
     \<and> submit_analysis_recompute sample_lib sample_policy (sample_env 4) sample_submission db1 = Inr (snap, db1)"
proof -
  obtain snap db1 where first:
    "submit_analysis_recompute sample_lib sample_policy (sample_env 3) sample_submission sample_queue_db = Inr (snap, db1)"
    using sample_submit by blast
  have "submit_analysis_recompute sample_lib sample_policy (sample_env 4) sample_submission db1 = Inr (snap, db1)"
    by (rule resubmission_reuses_request [OF first])
      (simp_all add: sample_submission_def sample_queue_db_def empty_db_def sample_env_def)
  with first show ?thesis by blast
qed

end
