(* ===== verification/Idempotency.thy ===== *)
theory Idempotency
  imports Database Transitions
begin

section \<open>Idempotent requests\<close>

text \<open>
  \<open>src/jobtology_be/infrastructure/persistence/idempotency.py\<close> with the account lock and
  \<open>execute_idempotency\<close> of \<open>store.py\<close>, whose argument \<open>operation\<close> is the transaction that a request
  wraps. Runs of these transactions, and of those that erase records, are in
  \<open>Idempotency_Guarantees\<close>.
\<close>

subsection \<open>Commands\<close>

record IdempotencyAcquire =
  ia_user_id :: uuid
  ia_method :: string
  ia_path :: string
  ia_key :: string
  ia_request_hash :: string
  ia_expires_at :: int

record IdempotencyComplete =
  ic_request :: IdempotencyAcquire
  ic_response_status :: int
  ic_response :: json_object

record IdempotencySnapshot =
  is_response_status :: "int option"
  is_response :: "json_object option"

definition identity_of :: "idempotency_records_row \<Rightarrow> idempotency_identity" where
  "identity_of r = (id_user_id r, id_method r, id_path r, id_key r)"

definition requested :: "IdempotencyAcquire \<Rightarrow> idempotency_identity" where
  "requested q = (ia_user_id q, ia_method q, ia_path q, ia_key q)"

subsection \<open>The record table\<close>

definition prune_idempotency_records :: "env \<Rightarrow> nat \<Rightarrow> database \<Rightarrow> database" where
  "prune_idempotency_records env limit db =
     (let expired = take limit (sort_key (\<lambda>r. (id_expires_at r, e_collate env (identity_of r)))
        (rows_where (\<lambda>r. id_response_status r \<noteq> None \<and> id_expires_at r \<le> e_started env
           \<and> \<not> e_record_locked env (identity_of r)) (idempotency_records db)))
      in db\<lparr>idempotency_records :=
           delete_where (\<lambda>r. identity_of r \<in> identity_of ` set expired) (idempotency_records db)\<rparr>)"

definition acquire_idempotency :: "env \<Rightarrow> IdempotencyAcquire \<Rightarrow> IdempotencySnapshot transaction" where
  "acquire_idempotency env request db =
     (let db = prune_idempotency_records env 1000 db;
          records = delete_where (\<lambda>r. identity_of r = requested request \<and> id_response_status r \<noteq> None
            \<and> id_expires_at r \<le> e_app_now env) (idempotency_records db);
          db = db\<lparr>idempotency_records := records\<rparr>
      in and_then (require (row_exists (\<lambda>u. u_id u = ia_user_id request) (users db))
           (IntegrityError ''idempotency_records.user_id''))
         (\<lambda>_. case one_or_none (\<lambda>r. identity_of r = requested request) records of
            None \<Rightarrow> Inr (\<lparr>is_response_status = None, is_response = None\<rparr>,
              db\<lparr>idempotency_records := records @ [\<lparr>id_user_id = ia_user_id request,
                id_method = ia_method request, id_path = ia_path request, id_key = ia_key request,
                id_request_hash = ia_request_hash request, id_response_status = None,
                id_response = None, id_expires_at = ia_expires_at request\<rparr>]\<rparr>)
          | Some row \<Rightarrow>
              if id_request_hash row \<noteq> ia_request_hash request
                then Inl (IdempotencyConflictError (ia_key request))
              else if id_response_status row = None
                then Inl (IdempotencyInProgressError (ia_key request))
              else Inr (\<lparr>is_response_status = id_response_status row,
                is_response = id_response row\<rparr>, db)))"

definition complete_idempotency :: "IdempotencyComplete \<Rightarrow> unit transaction" where
  "complete_idempotency command db =
     (let q = ic_request command;
          matches = (\<lambda>r. identity_of r = requested q \<and> id_request_hash r = ia_request_hash q)
      in and_then (require (row_exists matches (idempotency_records db))
           (MissingRecordError ''idempotency record''))
         (\<lambda>_. Inr ((), db\<lparr>idempotency_records := update_where matches
            (\<lambda>r. r\<lparr>id_response_status := Some (ic_response_status command),
                   id_response := Some (ic_response command)\<rparr>) (idempotency_records db)\<rparr>)))"

subsection \<open>The store\<close>

definition lock_google_account :: "uuid \<Rightarrow> database \<Rightarrow> persistence_error + int" where
  "lock_google_account user_id db =
     and_then (require (row_exists (\<lambda>u. u_id u = user_id \<and> u_status u = USER_ACTIVE
          \<and> row_exists (\<lambda>g. g_user_id g = u_id u \<and> g_issuer g = ''https://accounts.google.com'')
              (google_identities db)) (users db)) (MissingRecordError ''account''))
       (\<lambda>_. case one_or_none (\<lambda>p. p_user_id p = user_id) (profiles db) of
          None \<Rightarrow> Inl (MissingRecordError ''profile'')
        | Some p \<Rightarrow> Inr (p_version p))"

definition account_lock :: "bool \<Rightarrow> uuid \<Rightarrow> database \<Rightarrow> persistence_error + unit" where
  "account_lock google_accounts_only user_id db =
     (if google_accounts_only then and_then (lock_google_account user_id db) (\<lambda>_. Inr ()) else Inr ())"

definition store_acquire :: "bool \<Rightarrow> env \<Rightarrow> IdempotencyAcquire \<Rightarrow> IdempotencySnapshot transaction" where
  "store_acquire google_accounts_only env request db =
     and_then (account_lock google_accounts_only (ia_user_id request) db)
       (\<lambda>_. acquire_idempotency env request db)"

definition execute_idempotency ::
  "bool \<Rightarrow> env \<Rightarrow> IdempotencyAcquire \<Rightarrow> int \<Rightarrow> json_object transaction \<Rightarrow> IdempotencySnapshot transaction" where
  "execute_idempotency google_accounts_only env request response_status operation db =
     and_then (store_acquire google_accounts_only env request db)
       (\<lambda>(snapshot, db). if is_response_status snapshot \<noteq> None then Inr (snapshot, db)
         else and_then (operation db)
           (\<lambda>(response, db). and_then (complete_idempotency \<lparr>ic_request = request,
                ic_response_status = response_status, ic_response = response\<rparr> db)
              (\<lambda>(_, db). Inr (\<lparr>is_response_status = Some response_status,
                 is_response = Some response\<rparr>, db))))"

subsection \<open>What each transaction does to a record\<close>

definition record_of :: "idempotency_identity \<Rightarrow> database \<Rightarrow> idempotency_records_row option" where
  "record_of i db = one_or_none (\<lambda>r. identity_of r = i) (idempotency_records db)"

definition expired_in :: "env \<Rightarrow> idempotency_records_row \<Rightarrow> bool" where
  "expired_in env r \<longleftrightarrow> id_response_status r \<noteq> None
     \<and> (id_expires_at r \<le> e_started env \<or> id_expires_at r \<le> e_app_now env)"

abbreviation records_ok :: "database \<Rightarrow> bool" where
  "records_ok db \<equiv> keyed identity_of (idempotency_records db)"

lemma record_of_iff:
  "records_ok db \<Longrightarrow> record_of i db = Some r \<longleftrightarrow> r \<in> set (idempotency_records db) \<and> identity_of r = i"
  unfolding record_of_def by (rule one_or_none_Some_iff [where k = identity_of and v = i]) auto

lemma record_of_None: "record_of i db = None \<longleftrightarrow> (\<forall>r \<in> set (idempotency_records db). identity_of r \<noteq> i)"
  by (simp add: record_of_def table_simps)

lemma prune_keyed: "records_ok db \<Longrightarrow> records_ok (prune_idempotency_records env n db)"
  by (simp add: prune_idempotency_records_def Let_def keyed_delete)

lemma prune_frame:
  "prune_idempotency_records env n db
     = db\<lparr>idempotency_records := idempotency_records (prune_idempotency_records env n db)\<rparr>"
  by (simp add: prune_idempotency_records_def Let_def)

lemma prune_record:
  assumes "records_ok db"
  shows "record_of i (prune_idempotency_records env n db) = Some r \<Longrightarrow> record_of i db = Some r"
    and "record_of i db = Some r \<Longrightarrow> \<not> expired_in env r
      \<Longrightarrow> record_of i (prune_idempotency_records env n db) = Some r"
proof -
  let ?E = "take n (sort_key (\<lambda>r. (id_expires_at r, e_collate env (identity_of r)))
        (rows_where (\<lambda>r. id_response_status r \<noteq> None \<and> id_expires_at r \<le> e_started env
           \<and> \<not> e_record_locked env (identity_of r)) (idempotency_records db)))"
  have rec: "idempotency_records (prune_idempotency_records env n db)
      = delete_where (\<lambda>r. identity_of r \<in> identity_of ` set ?E) (idempotency_records db)"
    by (simp add: prune_idempotency_records_def Let_def)
  have E: "e \<in> set (idempotency_records db) \<and> expired_in env e" if "e \<in> set ?E" for e
    using in_set_takeD [OF that] by (auto simp: table_simps expired_in_def)
  show "record_of i db = Some r" if "record_of i (prune_idempotency_records env n db) = Some r"
    using that
    by (simp add: record_of_iff [OF assms] record_of_iff [OF prune_keyed [OF assms]] rec set_delete_where)
  show "record_of i (prune_idempotency_records env n db) = Some r"
    if r: "record_of i db = Some r" and live: "\<not> expired_in env r"
  proof -
    have "identity_of r \<notin> identity_of ` set ?E"
      using r live E keyed_inject [OF assms, of r] by (auto simp: record_of_iff [OF assms])
    with r show ?thesis
      by (simp add: record_of_iff [OF assms] record_of_iff [OF prune_keyed [OF assms]] rec set_delete_where)
  qed
qed

lemma acquire_cases:
  assumes ok: "records_ok db" and run: "acquire_idempotency env q db = Inr (s, db')"
  shows "records_ok db'"
    and "db' = db\<lparr>idempotency_records := idempotency_records db'\<rparr>"
    and "record_of i db = Some r \<Longrightarrow> \<not> expired_in env r \<Longrightarrow> record_of i db' = Some r"
    and "is_response_status s = None \<Longrightarrow> record_of (requested q) db = Some r \<Longrightarrow> expired_in env r"
    and "is_response_status s = None \<Longrightarrow> record_of (requested q) db' =
      Some \<lparr>id_user_id = ia_user_id q, id_method = ia_method q, id_path = ia_path q, id_key = ia_key q,
        id_request_hash = ia_request_hash q, id_response_status = None, id_response = None,
        id_expires_at = ia_expires_at q\<rparr>"
    and "is_response_status s \<noteq> None \<Longrightarrow> \<exists>r. record_of (requested q) db' = Some r
      \<and> id_request_hash r = ia_request_hash q
      \<and> s = \<lparr>is_response_status = id_response_status r, is_response = id_response r\<rparr>"
proof -
  define d1 where "d1 = prune_idempotency_records env 1000 db"
  define t where "t = delete_where (\<lambda>r. identity_of r = requested q \<and> id_response_status r \<noteq> None
            \<and> id_expires_at r \<le> e_app_now env) (idempotency_records d1)"
  define new where "new = \<lparr>id_user_id = ia_user_id q, id_method = ia_method q, id_path = ia_path q,
      id_key = ia_key q, id_request_hash = ia_request_hash q, id_response_status = None,
      id_response = None, id_expires_at = ia_expires_at q\<rparr>"
  have d1: "records_ok d1" unfolding d1_def using ok by (rule prune_keyed)
  have frame: "d1\<lparr>idempotency_records := x\<rparr> = db\<lparr>idempotency_records := x\<rparr>" for x
    unfolding d1_def by (subst prune_frame) simp
  have t: "keyed identity_of t" unfolding t_def using d1 by auto
  have new: "identity_of new = requested q"
    by (simp add: new_def identity_of_def requested_def)
  have kept: "r \<in> set t \<and> identity_of r = i" if "record_of i db = Some r" "\<not> expired_in env r" for i r
    using prune_record(2) [OF ok that, of 1000] that(2)
    by (auto simp: d1_def [symmetric] record_of_iff [OF d1] t_def table_simps expired_in_def)
  have cases: "(one_or_none (\<lambda>r. identity_of r = requested q) t = None
        \<and> s = \<lparr>is_response_status = None, is_response = None\<rparr> \<and> db' = db\<lparr>idempotency_records := t @ [new]\<rparr>)
      \<or> (\<exists>row. one_or_none (\<lambda>r. identity_of r = requested q) t = Some row \<and> id_response_status row \<noteq> None
        \<and> id_request_hash row = ia_request_hash q
        \<and> s = \<lparr>is_response_status = id_response_status row, is_response = id_response row\<rparr>
        \<and> db' = db\<lparr>idempotency_records := t\<rparr>)"
    using run unfolding acquire_idempotency_def Let_def d1_def [symmetric] t_def [symmetric] new_def [symmetric]
    by (auto simp: err_simps frame new_def split: option.splits if_splits)
  from cases show ok': "records_ok db'"
    using t new by (auto simp: table_simps)
  from cases show "db' = db\<lparr>idempotency_records := idempotency_records db'\<rparr>" by auto
  show "record_of i db' = Some r" if "record_of i db = Some r" "\<not> expired_in env r"
    using cases kept [OF that] by (auto simp: record_of_iff [OF ok'])
  show "expired_in env r" if "is_response_status s = None" "record_of (requested q) db = Some r"
    using cases that(1) kept [OF that(2)] by (auto simp: table_simps)
  show "record_of (requested q) db' = Some new" if "is_response_status s = None"
    using cases that new by (auto simp: record_of_iff [OF ok'])
  show "\<exists>r. record_of (requested q) db' = Some r \<and> id_request_hash r = ia_request_hash q
      \<and> s = \<lparr>is_response_status = id_response_status r, is_response = id_response r\<rparr>"
    if "is_response_status s \<noteq> None"
  proof -
    from cases that obtain row where row: "one_or_none (\<lambda>r. identity_of r = requested q) t = Some row"
      "id_request_hash row = ia_request_hash q"
      "s = \<lparr>is_response_status = id_response_status row, is_response = id_response row\<rparr>"
      "idempotency_records db' = t" by auto
    then have "record_of (requested q) db' = Some row" by (simp add: record_of_def)
    with row show ?thesis by blast
  qed
qed

lemma complete_cases:
  assumes ok: "records_ok db" and run: "complete_idempotency c db = Inr (u, db')"
  shows "records_ok db'"
    and "db' = db\<lparr>idempotency_records := idempotency_records db'\<rparr>"
    and "i \<noteq> requested (ic_request c) \<Longrightarrow> record_of i db' = record_of i db"
    and "record_of (requested (ic_request c)) db = Some r \<Longrightarrow>
      id_request_hash r = ia_request_hash (ic_request c)
      \<and> record_of (requested (ic_request c)) db' = Some (r\<lparr>id_response_status := Some (ic_response_status c),
          id_response := Some (ic_response c)\<rparr>)"
proof -
  let ?P = "\<lambda>r. identity_of r = requested (ic_request c) \<and> id_request_hash r = ia_request_hash (ic_request c)"
  let ?f = "\<lambda>r. r\<lparr>id_response_status := Some (ic_response_status c), id_response := Some (ic_response c)\<rparr>"
  have db': "db' = db\<lparr>idempotency_records := update_where ?P ?f (idempotency_records db)\<rparr>"
    and ex: "\<exists>r \<in> set (idempotency_records db). ?P r"
    using run by (auto simp: complete_idempotency_def Let_def err_simps table_simps)
  have rec: "idempotency_records db' = update_where ?P ?f (idempotency_records db)" by (simp add: db')
  have id: "identity_of (?f r) = identity_of r" for r by (simp add: identity_of_def)
  show ok': "records_ok db'" using ok by (simp add: rec keyed_update id)
  show "db' = db\<lparr>idempotency_records := idempotency_records db'\<rparr>" by (simp add: db')
  show "record_of i db' = record_of i db" if "i \<noteq> requested (ic_request c)"
  proof -
    have "record_of i db' = Some x \<longleftrightarrow> record_of i db = Some x" for x
      using that by (auto simp: record_of_iff [OF ok] record_of_iff [OF ok'] rec set_update_where id)
    then show ?thesis by (metis option.exhaust)
  qed
  assume r: "record_of (requested (ic_request c)) db = Some r"
  then have P: "?P r" using ex keyed_inject [OF ok, of r] by (auto simp: record_of_iff [OF ok])
  then show "id_request_hash r = ia_request_hash (ic_request c)
      \<and> record_of (requested (ic_request c)) db' = Some (?f r)"
    using r by (auto simp: record_of_iff [OF ok] record_of_iff [OF ok'] rec set_update_where id)
qed

lemma record_of_cong: "idempotency_records db' = idempotency_records db \<Longrightarrow> record_of i db' = record_of i db"
  by (simp add: record_of_def)

lemma acquire_existing:
  assumes ok: "records_ok db" and r: "record_of (requested q) db = Some r" and live: "\<not> expired_in env r"
    and user: "row_exists (\<lambda>u. u_id u = ia_user_id q) (users db)"
  shows "id_request_hash r \<noteq> ia_request_hash q
      \<Longrightarrow> acquire_idempotency env q db = Inl (IdempotencyConflictError (ia_key q))"
    and "id_request_hash r = ia_request_hash q \<Longrightarrow> id_response_status r = None
      \<Longrightarrow> acquire_idempotency env q db = Inl (IdempotencyInProgressError (ia_key q))"
    and "id_request_hash r = ia_request_hash q \<Longrightarrow> id_response_status r \<noteq> None
      \<Longrightarrow> \<exists>db'. acquire_idempotency env q db
            = Inr (\<lparr>is_response_status = id_response_status r, is_response = id_response r\<rparr>, db')
          \<and> db' = db\<lparr>idempotency_records := idempotency_records db'\<rparr>"
proof -
  define d1 where "d1 = prune_idempotency_records env 1000 db"
  define t where "t = delete_where (\<lambda>r. identity_of r = requested q \<and> id_response_status r \<noteq> None
            \<and> id_expires_at r \<le> e_app_now env) (idempotency_records d1)"
  have d1: "records_ok d1" unfolding d1_def using ok by (rule prune_keyed)
  have frame: "d1\<lparr>idempotency_records := x\<rparr> = db\<lparr>idempotency_records := x\<rparr>" "users d1 = users db" for x
    unfolding d1_def by (subst prune_frame, simp)+
  have t: "keyed identity_of t" unfolding t_def using d1 by auto
  have "record_of (requested q) d1 = Some r"
    unfolding d1_def using prune_record(2) [OF ok r live] .
  then have "r \<in> set t \<and> identity_of r = requested q"
    using live by (auto simp: record_of_iff [OF d1] t_def table_simps expired_in_def)
  then have found: "one_or_none (\<lambda>r. identity_of r = requested q) t = Some r"
    by (subst one_or_none_Some_iff [OF t, where v = "requested q"]) auto
  have eq: "acquire_idempotency env q db =
    (if id_request_hash r \<noteq> ia_request_hash q then Inl (IdempotencyConflictError (ia_key q))
     else if id_response_status r = None then Inl (IdempotencyInProgressError (ia_key q))
     else Inr (\<lparr>is_response_status = id_response_status r, is_response = id_response r\<rparr>,
       db\<lparr>idempotency_records := t\<rparr>))"
    unfolding acquire_idempotency_def Let_def d1_def [symmetric] t_def [symmetric] found
    using user by (simp add: frame)
  show "id_request_hash r \<noteq> ia_request_hash q
      \<Longrightarrow> acquire_idempotency env q db = Inl (IdempotencyConflictError (ia_key q))"
    and "id_request_hash r = ia_request_hash q \<Longrightarrow> id_response_status r = None
      \<Longrightarrow> acquire_idempotency env q db = Inl (IdempotencyInProgressError (ia_key q))"
    and "id_request_hash r = ia_request_hash q \<Longrightarrow> id_response_status r \<noteq> None
      \<Longrightarrow> \<exists>db'. acquire_idempotency env q db
            = Inr (\<lparr>is_response_status = id_response_status r, is_response = id_response r\<rparr>, db')
          \<and> db' = db\<lparr>idempotency_records := idempotency_records db'\<rparr>"
    unfolding eq by auto
qed

subsection \<open>A sample key\<close>

text \<open>A key that is granted, completed, expired and granted again; and a replayed response.\<close>

definition sample_users_db :: database where
  "sample_users_db = empty_db\<lparr>users := [\<lparr>u_id = ''alice'', u_status = USER_ACTIVE, u_display_name = None\<rparr>]\<rparr>"

definition sample_request :: IdempotencyAcquire where
  "sample_request = \<lparr>ia_user_id = ''alice'', ia_method = ''POST'', ia_path = ''/goals'', ia_key = ''k1'',
     ia_request_hash = ''h'', ia_expires_at = 10\<rparr>"

definition sample_record :: "int option \<Rightarrow> json_object option \<Rightarrow> idempotency_records_row" where
  "sample_record status response = \<lparr>id_user_id = ''alice'', id_method = ''POST'', id_path = ''/goals'',
     id_key = ''k1'', id_request_hash = ''h'', id_response_status = status, id_response = response,
     id_expires_at = 10\<rparr>"

definition sample_records_db :: "idempotency_records_row list \<Rightarrow> database" where
  "sample_records_db rs = sample_users_db\<lparr>idempotency_records := rs\<rparr>"

lemmas sample_idempotency = sample_users_db_def sample_request_def sample_record_def sample_records_db_def
  sample_env_def empty_db_def prune_idempotency_records_def delete_where_def rows_where_def
  update_where_def row_exists_def one_or_none_def identity_of_def requested_def

lemma sample_acquire:
  "acquire_idempotency (sample_env 0) sample_request (sample_records_db [])
     = Inr (\<lparr>is_response_status = None, is_response = None\<rparr>, sample_records_db [sample_record None None])"
  by (simp add: acquire_idempotency_def Let_def sample_idempotency)

lemma sample_complete:
  "complete_idempotency \<lparr>ic_request = sample_request, ic_response_status = 201, ic_response = []\<rparr>
     (sample_records_db [sample_record None None])
     = Inr ((), sample_records_db [sample_record (Some 201) (Some [])])"
  by (simp add: complete_idempotency_def Let_def sample_idempotency)

lemma sample_acquire_again:
  "acquire_idempotency (sample_env 10) sample_request (sample_records_db [sample_record (Some 201) (Some [])])
     = Inr (\<lparr>is_response_status = None, is_response = None\<rparr>, sample_records_db [sample_record None None])"
  by (simp add: acquire_idempotency_def Let_def sample_idempotency)

lemma sample_keyed: "records_ok (sample_records_db [])" "records_ok (sample_records_db [r])"
  by (simp_all add: sample_records_db_def keyed_def)

end
