(* ===== verification/User_State.thy ===== *)
theory User_State
  imports Configured_Recompute Recompute_Requests Idempotency
begin

section \<open>The user's profile, goals, capabilities and preferences\<close>

text \<open>
  The transactions of \<open>PostgresApplicationStore\<close> (\<open>src/jobtology_be/infrastructure/persistence/store.py\<close>)
  that change what the user states about themselves. Each of them names the profile version it was
  based on, advances it, appends an event under the new version and queues a recomputation. The unique
  partial indexes of \<open>schema.py\<close> are checked after the statements that write the indexed column;
  the successive results of \<open>uuid4()\<close> are distinct members of \<open>e_uuid\<close>.
\<close>

subsection \<open>Commands and snapshots\<close>

record ProfileSnapshot =
  ps_user_id :: uuid
  ps_version :: int

record CapabilitySnapshot =
  cs_capability_id :: uuid
  cs_profile_version :: int

record GoalSnapshot =
  gs_goal_id :: uuid
  gs_user_id :: uuid
  gs_status :: Lifecycle

record ProfileMutation =
  pm_user_id :: uuid
  pm_expected_version :: int
  pm_major_raw :: string
  pm_major_concept_id :: "string option"
  pm_year :: "int option"
  pm_enrollment_status :: "string option"
  pm_expected_graduation_on :: "int option"

record CapabilityMutation =
  cm_user_id :: uuid
  cm_expected_profile_version :: int
  cm_capability_id :: "uuid option"
  cm_category :: string
  cm_raw_text :: string
  cm_entity_id :: "string option"
  cm_proficiency :: "string option"
  cm_details :: json_object

record OnboardingCapabilityUnit =
  ou_item_id :: string
  ou_raw_text :: string

record OnboardingCapabilityReplace =
  oc_user_id :: uuid
  oc_expected_profile_version :: int
  oc_occupation_id :: string
  oc_checklist_version :: int
  oc_units :: "OnboardingCapabilityUnit list"

record CapabilityDelete =
  cdel_user_id :: uuid
  cdel_capability_id :: uuid
  cdel_expected_profile_version :: int

record GoalMutation =
  gm_user_id :: uuid
  gm_expected_profile_version :: int
  gm_goal_id :: "uuid option"
  gm_goal_mode :: string
  gm_occupation_id :: "string option"
  gm_target_by :: int
  gm_timezone :: string
  gm_original_time_phrase :: string
  gm_status :: Lifecycle

record RoutePreferenceMutation =
  rpm_user_id :: uuid
  rpm_expected_profile_version :: int
  rpm_available_hours_per_week :: int
  rpm_availability_source :: string
  rpm_budget_mode :: BudgetMode
  rpm_max_out_of_pocket_krw :: "int option"
  rpm_fastest_path :: bool
  rpm_needs_portfolio :: bool
  rpm_career_switch :: bool
  rpm_weekly_availability :: "WeeklyAvailabilityWindow list"
  rpm_unavailable_dates :: "int list"

subsection \<open>Versions and events\<close>

definition profile_version :: "uuid \<Rightarrow> database \<Rightarrow> int option" where
  "profile_version user_id db = map_option p_version (one_or_none (\<lambda>p. p_user_id p = user_id) (profiles db))"

definition require_version :: "uuid \<Rightarrow> int \<Rightarrow> database \<Rightarrow> persistence_error + unit" where
  "require_version user_id expected db =
     require (profile_version user_id db = Some expected) (PersistenceConflictError ''profile'')"

text \<open>\<open>UPDATE profiles ... WHERE user_id = ... AND version = ...\<close>, a conflict unless it found one row.\<close>

definition update_profile ::
  "(profiles_row \<Rightarrow> profiles_row) \<Rightarrow> env \<Rightarrow> uuid \<Rightarrow> int \<Rightarrow> database \<Rightarrow> persistence_error + database" where
  "update_profile f env user_id expected db =
     (let current = (\<lambda>p. p_user_id p = user_id \<and> p_version p = expected) in
      and_then (require (rowcount current (profiles db) = 1) (PersistenceConflictError ''profile''))
        (\<lambda>_. Inr (db\<lparr>profiles := update_where current
           (\<lambda>p. (f p)\<lparr>p_version := p_version p + 1, p_updated_at := e_app_now env\<rparr>) (profiles db)\<rparr>)))"

definition bump_profile :: "env \<Rightarrow> uuid \<Rightarrow> int \<Rightarrow> database \<Rightarrow> persistence_error + database" where
  "bump_profile = update_profile (\<lambda>p. p)"

definition append_event ::
  "uuid \<Rightarrow> uuid \<Rightarrow> uuid \<Rightarrow> int \<Rightarrow> string \<Rightarrow> json_object \<Rightarrow> database \<Rightarrow> persistence_error + database" where
  "append_event event_id user_id aggregate_id version kind payload db =
     insert_event \<lparr>ev_id = event_id, ev_user_id = user_id, ev_aggregate_id = aggregate_id,
       ev_aggregate_type = ''PROFILE'', ev_version = version, ev_kind = kind, ev_payload = payload\<rparr> db"

text \<open>The end of most transactions: the event of the new version and the recomputation it triggers.\<close>

definition record_change ::
  "context_lib \<Rightarrow> env \<Rightarrow> uuid \<Rightarrow> uuid \<Rightarrow> int \<Rightarrow> string \<Rightarrow> json_object \<Rightarrow> database \<Rightarrow> persistence_error + database" where
  "record_change lib env user_id aggregate_id version kind payload db =
     and_then (append_event (e_uuid env 0) user_id aggregate_id version kind payload db)
     (\<lambda>db. and_then (enqueue_for_active_user lib env user_id version (e_uuid env 0) (e_uuid env 1) (e_uuid env 2) db)
     (\<lambda>(_, db). Inr db))"

subsection \<open>Account and profile\<close>

definition new_profile :: "env \<Rightarrow> uuid \<Rightarrow> profiles_row" where
  "new_profile env user_id = \<lparr>p_user_id = user_id, p_version = 1, p_major_raw = [], p_major_concept_id = None,
     p_year = None, p_enrollment_status = None, p_expected_graduation_on = None, p_latest_analysis_id = None,
     p_updated_at = e_started env\<rparr>"

definition create_user :: "bool \<Rightarrow> env \<Rightarrow> uuid \<Rightarrow> ProfileSnapshot transaction" where
  "create_user google_accounts_only env user_id db =
     (if google_accounts_only then
        and_then (lock_google_account user_id db)
          (\<lambda>version. Inr (\<lparr>ps_user_id = user_id, ps_version = version\<rparr>, db))
      else
        let db = (if row_exists (\<lambda>u. u_id u = user_id) (users db) then db
              else db\<lparr>users := users db @ [\<lparr>u_id = user_id, u_status = USER_ACTIVE, u_display_name = None\<rparr>]\<rparr>);
            db = (if row_exists (\<lambda>p. p_user_id p = user_id) (profiles db) then db
              else db\<lparr>profiles := profiles db @ [new_profile env user_id]\<rparr>)
        in (case profile_version user_id db of
              None \<Rightarrow> Inl (MissingRecordError ''profile'')
            | Some version \<Rightarrow> Inr (\<lparr>ps_user_id = user_id, ps_version = version\<rparr>, db)))"

definition mutate_profile :: "context_lib \<Rightarrow> env \<Rightarrow> ProfileMutation \<Rightarrow> ProfileSnapshot transaction" where
  "mutate_profile lib env q db =
     and_then (update_profile (\<lambda>p. p\<lparr>p_major_raw := pm_major_raw q, p_major_concept_id := pm_major_concept_id q,
         p_year := pm_year q, p_enrollment_status := pm_enrollment_status q,
         p_expected_graduation_on := pm_expected_graduation_on q\<rparr>) env (pm_user_id q) (pm_expected_version q) db)
     (\<lambda>db. and_then (record_change lib env (pm_user_id q) (pm_user_id q) (pm_expected_version q + 1)
         ''PROFILE_UPDATED'' [] db)
     (\<lambda>db. Inr (\<lparr>ps_user_id = pm_user_id q, ps_version = pm_expected_version q + 1\<rparr>, db)))"

subsection \<open>Goals\<close>

definition goal_checks :: "goals_row \<Rightarrow> bool" where
  "goal_checks g \<longleftrightarrow> go_goal_mode g \<in> {''TARGETED'', ''DISCOVERY''}
     \<and> (go_goal_mode g = ''DISCOVERY'' \<or> go_occupation_id g \<noteq> None)"

text \<open>\<open>goals_one_active_per_user\<close> and \<open>roadmaps_one_active_per_user\<close>.\<close>

definition one_active_goal :: "database \<Rightarrow> bool" where
  "one_active_goal db \<longleftrightarrow> keyed go_user_id (rows_where (\<lambda>g. go_status g = ACTIVE) (goals db))"

definition one_active_roadmap :: "database \<Rightarrow> bool" where
  "one_active_roadmap db \<longleftrightarrow> keyed rm_user_id (rows_where (\<lambda>r. rm_state r = ACTIVE) (roadmaps db))"

definition set_goal :: "env \<Rightarrow> GoalMutation \<Rightarrow> goals_row \<Rightarrow> goals_row" where
  "set_goal env q g = g\<lparr>go_goal_mode := gm_goal_mode q, go_occupation_id := gm_occupation_id q,
     go_target_by := gm_target_by q, go_timezone := gm_timezone q,
     go_original_time_phrase := gm_original_time_phrase q, go_status := gm_status q,
     go_updated_at := e_app_now env\<rparr>"

definition write_goal :: "env \<Rightarrow> GoalMutation \<Rightarrow> uuid \<Rightarrow> database \<Rightarrow> persistence_error + database" where
  "write_goal env q goal_id db =
     (let this = (\<lambda>g. go_id g = goal_id \<and> go_user_id g = gm_user_id q);
          new = \<lparr>go_id = goal_id, go_user_id = gm_user_id q, go_goal_mode = gm_goal_mode q,
            go_occupation_id = gm_occupation_id q, go_target_by = gm_target_by q, go_timezone = gm_timezone q,
            go_original_time_phrase = gm_original_time_phrase q, go_status = gm_status q,
            go_updated_at = e_started env\<rparr>
      in and_then (if gm_goal_id q = None then
            and_then (require (\<not> row_exists (\<lambda>g. go_id g = goal_id) (goals db)
                \<and> row_exists (\<lambda>u. u_id u = gm_user_id q) (users db) \<and> goal_checks new) (IntegrityError ''goals''))
              (\<lambda>_. Inr (db\<lparr>goals := goals db @ [new]\<rparr>))
          else
            and_then (require (rowcount this (goals db) = 1) (MissingRecordError ''goal''))
            (\<lambda>_. and_then (require (goal_checks new) (IntegrityError ''goals''))
            (\<lambda>_. Inr (db\<lparr>goals := update_where this (set_goal env q) (goals db)\<rparr>))))
         (\<lambda>db. and_then (require (one_active_goal db) (IntegrityError ''goals_one_active_per_user''))
            (\<lambda>_. Inr db)))"

definition archive :: "roadmaps_row \<Rightarrow> roadmaps_row" where
  "archive r = r\<lparr>rm_state := ARCHIVED, rm_version := rm_version r + 1\<rparr>"

definition previous_goal :: "GoalMutation \<Rightarrow> database \<Rightarrow> persistence_error + goals_row option" where
  "previous_goal q db =
     (case gm_goal_id q of None \<Rightarrow> Inr None
      | Some goal_id \<Rightarrow>
          (case one_or_none (\<lambda>g. go_id g = goal_id \<and> go_user_id g = gm_user_id q) (goals db) of
             None \<Rightarrow> Inl (MissingRecordError ''goal'') | Some g \<Rightarrow> Inr (Some g)))"

text \<open>A route belongs to the target it was planned for.\<close>

definition target_changed :: "goals_row option \<Rightarrow> GoalMutation \<Rightarrow> bool" where
  "target_changed previous q = (case previous of None \<Rightarrow> False
     | Some g \<Rightarrow> (go_goal_mode g, go_occupation_id g) \<noteq> (gm_goal_mode q, gm_occupation_id q)
         \<or> go_status g = ACTIVE \<and> gm_status q \<noteq> ACTIVE)"

definition mutate_goal :: "context_lib \<Rightarrow> env \<Rightarrow> GoalMutation \<Rightarrow> GoalSnapshot transaction" where
  "mutate_goal lib env q db =
     (let user = gm_user_id q; version = gm_expected_profile_version q + 1;
          goal_id = (case gm_goal_id q of Some g \<Rightarrow> g | None \<Rightarrow> e_uuid env 3) in
      and_then (require_version user (gm_expected_profile_version q) db)
      (\<lambda>_. and_then (previous_goal q db)
      (\<lambda>previous. and_then (require (gm_status q = ACTIVE \<longrightarrow> \<not> row_exists (\<lambda>g. go_user_id g = user
            \<and> go_status g = ACTIVE \<and> go_id g \<noteq> goal_id) (goals db)) (PersistenceConflictError ''goal''))
      (\<lambda>_. and_then (bump_profile env user (gm_expected_profile_version q) db)
      (\<lambda>db. and_then (write_goal env q goal_id db)
      (\<lambda>db. let db = (if target_changed previous q then db\<lparr>roadmaps := update_where
              (\<lambda>r. rm_user_id r = user \<and> rm_goal_id r = goal_id \<and> rm_state r = ACTIVE) archive (roadmaps db)\<rparr>
              else db) in
        and_then (append_event (e_uuid env 0) user goal_id version ''GOAL_UPDATED'' [] db)
        (\<lambda>db. and_then (if gm_status q = ACTIVE
             then enqueue_for_goal lib env user version (e_uuid env 0) goal_id (e_uuid env 1) (e_uuid env 2) db
             else enqueue_for_active_user lib env user version (e_uuid env 0) (e_uuid env 1) (e_uuid env 2) db)
        (\<lambda>(_, db). Inr (\<lparr>gs_goal_id = goal_id, gs_user_id = user, gs_status = gm_status q\<rparr>, db)))))))))"

subsection \<open>Capabilities\<close>

definition ONBOARDING_CAPABILITY_CATEGORY :: string where
  "ONBOARDING_CAPABILITY_CATEGORY = ''onboarding''"

text \<open>\<open>char_length(trim(raw_text)) > 0\<close>: SQL's \<open>trim\<close> removes spaces.\<close>

definition raw_text_check :: "string \<Rightarrow> bool" where
  "raw_text_check s \<longleftrightarrow> list_ex (\<lambda>c. c \<noteq> CHR '' '') s"

definition same_completion_entity :: "user_capabilities_row \<Rightarrow> user_capabilities_row \<Rightarrow> bool" where
  "same_completion_entity c x \<longleftrightarrow> uc_source_completion_event_id c \<noteq> None
     \<and> uc_source_completion_event_id x = uc_source_completion_event_id c
     \<and> uc_entity_id c \<noteq> None \<and> uc_entity_id x = uc_entity_id c"

definition insert_capability :: "user_capabilities_row \<Rightarrow> database \<Rightarrow> persistence_error + database" where
  "insert_capability c db =
     and_then (require (\<not> row_exists (\<lambda>x. uc_id x = uc_id c \<or> same_completion_entity c x) (user_capabilities db)
         \<and> row_exists (\<lambda>u. u_id u = uc_user_id c) (users db)
         \<and> (case uc_source_completion_event_id c of None \<Rightarrow> True
            | Some e \<Rightarrow> row_exists (\<lambda>x. ev_id x = e) (user_state_events db))
         \<and> raw_text_check (uc_raw_text c)) (IntegrityError ''user_capabilities''))
       (\<lambda>_. Inr (db\<lparr>user_capabilities := user_capabilities db @ [c]\<rparr>))"

definition set_capability :: "CapabilityMutation \<Rightarrow> user_capabilities_row \<Rightarrow> user_capabilities_row" where
  "set_capability q c = c\<lparr>uc_category := cm_category q, uc_raw_text := cm_raw_text q,
     uc_entity_id := cm_entity_id q, uc_proficiency := cm_proficiency q, uc_details := cm_details q\<rparr>"

definition self_reported :: "env \<Rightarrow> uuid \<Rightarrow> uuid \<Rightarrow> user_capabilities_row" where
  "self_reported env capability_id user_id = \<lparr>uc_id = capability_id, uc_user_id = user_id, uc_category = [],
     uc_raw_text = [], uc_entity_id = None, uc_proficiency = None, uc_verification = ''SELF_REPORTED'',
     uc_lifecycle = ''ACTIVE'', uc_details = [], uc_source_completion_event_id = None,
     uc_created_at = e_started env\<rparr>"

text \<open>An update may also run into the uniqueness of (completion event, entity).\<close>

definition update_capability :: "CapabilityMutation \<Rightarrow> uuid \<Rightarrow> database \<Rightarrow> persistence_error + database" where
  "update_capability q capability_id db =
     (let this = (\<lambda>c. uc_id c = capability_id \<and> uc_user_id c = cm_user_id q) in
      and_then (require (rowcount this (user_capabilities db) = 1) (MissingRecordError ''capability''))
      (\<lambda>_. and_then (require (raw_text_check (cm_raw_text q)
           \<and> \<not> row_exists (\<lambda>c. this c \<and> row_exists (\<lambda>x. uc_id x \<noteq> uc_id c
                \<and> same_completion_entity (set_capability q c) x) (user_capabilities db)) (user_capabilities db))
           (IntegrityError ''user_capabilities''))
      (\<lambda>_. Inr (db\<lparr>user_capabilities := update_where this (set_capability q) (user_capabilities db)\<rparr>))))"

definition mutate_capability :: "context_lib \<Rightarrow> env \<Rightarrow> CapabilityMutation \<Rightarrow> CapabilitySnapshot transaction" where
  "mutate_capability lib env q db =
     (let user = cm_user_id q; version = cm_expected_profile_version q + 1;
          capability_id = (case cm_capability_id q of Some c \<Rightarrow> c | None \<Rightarrow> e_uuid env 3) in
      and_then (bump_profile env user (cm_expected_profile_version q) db)
      (\<lambda>db. and_then (if cm_capability_id q = None
            then insert_capability (set_capability q (self_reported env capability_id user)) db
            else update_capability q capability_id db)
      (\<lambda>db. and_then (record_change lib env user capability_id version ''CAPABILITY_UPDATED'' [] db)
      (\<lambda>db. Inr (\<lparr>cs_capability_id = capability_id, cs_profile_version = version\<rparr>, db)))))"

definition onboarding_rows :: "env \<Rightarrow> OnboardingCapabilityReplace \<Rightarrow> user_capabilities_row list" where
  "onboarding_rows env q = map (\<lambda>(n, unit). (self_reported env (e_uuid env n) (oc_user_id q))
       \<lparr>uc_category := ONBOARDING_CAPABILITY_CATEGORY, uc_raw_text := ou_raw_text unit,
        uc_details := [(''source'', JStr ONBOARDING_CAPABILITY_CATEGORY), (''item_id'', JStr (ou_item_id unit)),
          (''occupation_id'', JStr (oc_occupation_id q)), (''checklist_version'', JInt (oc_checklist_version q))]\<rparr>)
     (enumerate 3 (oc_units q))"

definition revoke :: "user_capabilities_row \<Rightarrow> user_capabilities_row" where
  "revoke c = c\<lparr>uc_lifecycle := ''REVOKED''\<rparr>"

definition replace_onboarding_capabilities ::
  "context_lib \<Rightarrow> env \<Rightarrow> OnboardingCapabilityReplace \<Rightarrow> ProfileSnapshot transaction" where
  "replace_onboarding_capabilities lib env q db =
     (let user = oc_user_id q; version = oc_expected_profile_version q + 1 in
      and_then (bump_profile env user (oc_expected_profile_version q) db)
      (\<lambda>db. and_then (fold_err insert_capability (onboarding_rows env q) (db\<lparr>user_capabilities := update_where
            (\<lambda>c. uc_user_id c = user \<and> uc_lifecycle c = ''ACTIVE''
              \<and> uc_category c = ONBOARDING_CAPABILITY_CATEGORY) revoke (user_capabilities db)\<rparr>))
      (\<lambda>db. and_then (record_change lib env user user version ''ONBOARDING_CAPABILITIES_REPLACED''
            [(''occupation_id'', JStr (oc_occupation_id q)),
             (''item_ids'', JSeq (map JStr (sort (remdups (map ou_item_id (oc_units q))))))] db)
      (\<lambda>db. Inr (\<lparr>ps_user_id = user, ps_version = version\<rparr>, db)))))"

definition delete_capability :: "context_lib \<Rightarrow> env \<Rightarrow> CapabilityDelete \<Rightarrow> ProfileSnapshot transaction" where
  "delete_capability lib env q db =
     (let user = cdel_user_id q; version = cdel_expected_profile_version q + 1;
          this = (\<lambda>c. uc_id c = cdel_capability_id q \<and> uc_user_id c = user) in
      and_then (bump_profile env user (cdel_expected_profile_version q) db)
      (\<lambda>db. and_then (require (rowcount this (user_capabilities db) = 1) (MissingRecordError ''capability''))
      (\<lambda>_. and_then (record_change lib env user (cdel_capability_id q) version ''CAPABILITY_REVOKED'' []
            (db\<lparr>user_capabilities := update_where this revoke (user_capabilities db)\<rparr>))
      (\<lambda>db. Inr (\<lparr>ps_user_id = user, ps_version = version\<rparr>, db)))))"

subsection \<open>Route preferences\<close>

definition preferences_row :: "RoutePreferenceMutation \<Rightarrow> route_preferences_row" where
  "preferences_row q = \<lparr>pf_user_id = rpm_user_id q, pf_available_hours_per_week = rpm_available_hours_per_week q,
     pf_availability_source = rpm_availability_source q, pf_budget_mode = rpm_budget_mode q,
     pf_max_out_of_pocket_krw = rpm_max_out_of_pocket_krw q, pf_fastest_path = rpm_fastest_path q,
     pf_needs_portfolio = rpm_needs_portfolio q, pf_career_switch = rpm_career_switch q,
     pf_weekly_availability = rpm_weekly_availability q, pf_unavailable_dates = rpm_unavailable_dates q\<rparr>"

definition preferences_checks :: "route_preferences_row \<Rightarrow> bool" where
  "preferences_checks p \<longleftrightarrow> length (pf_weekly_availability p) \<le> 168 \<and> length (pf_unavailable_dates p) \<le> 366
     \<and> 1 \<le> pf_available_hours_per_week p \<and> pf_available_hours_per_week p \<le> 60
     \<and> (case pf_max_out_of_pocket_krw p of None \<Rightarrow> True | Some k \<Rightarrow> 0 \<le> k)"

definition set_route_preferences ::
  "context_lib \<Rightarrow> env \<Rightarrow> RoutePreferenceMutation \<Rightarrow> ProfileSnapshot transaction" where
  "set_route_preferences lib env q db =
     (let user = rpm_user_id q; version = rpm_expected_profile_version q + 1;
          row = preferences_row q; this = (\<lambda>p. pf_user_id p = user) in
      and_then (bump_profile env user (rpm_expected_profile_version q) db)
      (\<lambda>db. and_then (require (preferences_checks row \<and> row_exists (\<lambda>u. u_id u = user) (users db))
           (IntegrityError ''route_preferences''))
      (\<lambda>_. and_then (record_change lib env user user version ''ROUTE_PREFERENCES_UPDATED'' []
           (db\<lparr>route_preferences := (if row_exists this (route_preferences db)
              then update_where this (\<lambda>_. row) (route_preferences db) else route_preferences db @ [row])\<rparr>))
      (\<lambda>db. Inr (\<lparr>ps_user_id = user, ps_version = version\<rparr>, db)))))"

subsection \<open>Analyses and proposals\<close>

record AnalysisSnapshot =
  ans_analysis_id :: uuid
  ans_profile_version :: int
  ans_status :: string

record RouteProposalSnapshot =
  rps_proposal_id :: uuid
  rps_feasibility :: string

definition persist_analysis :: "env \<Rightarrow> AnalysisPersist \<Rightarrow> AnalysisSnapshot transaction" where
  "persist_analysis env a db =
     and_then (require (map_option go_user_id (one_or_none (\<lambda>g. go_id g = ap_goal_id a) (goals db))
         = Some (ap_user_id a)) (MissingRecordError ''goal''))
     (\<lambda>_. and_then (insert_analysis env a db)
     (\<lambda>db. Inr (\<lparr>ans_analysis_id = ap_analysis_id a, ans_profile_version = ap_profile_version a,
         ans_status = ap_status a\<rparr>,
       db\<lparr>profiles := update_where (\<lambda>p. p_user_id p = ap_user_id a \<and> p_version p = ap_profile_version a)
            (\<lambda>p. p\<lparr>p_latest_analysis_id := Some (ap_analysis_id a)\<rparr>) (profiles db)\<rparr>)))"

definition persist_route_proposal :: "RouteProposalPersist \<Rightarrow> RouteProposalSnapshot transaction" where
  "persist_route_proposal q db =
     (case one_or_none (\<lambda>a. an_id a = pp_analysis_id q) (analyses db) of
        None \<Rightarrow> Inl (MissingRecordError ''analysis'')
      | Some a \<Rightarrow>
          and_then (require (an_user_id a = pp_user_id q) (MissingRecordError ''analysis''))
          (\<lambda>_. and_then (require (an_profile_version a = pp_profile_version q)
              (PersistenceConflictError ''analysis profile version''))
          (\<lambda>_. and_then (insert_proposal q db)
          (\<lambda>db. Inr (\<lparr>rps_proposal_id = pp_proposal_id q, rps_feasibility = pp_feasibility q\<rparr>, db)))))"

end
