(* ===== verification/Account_Erasure.thy ===== *)
theory Account_Erasure
  imports Database
begin

section \<open>Erasing an account\<close>

text \<open>
  \<open>src/jobtology_be/infrastructure/persistence/accounts.py\<close>. Foreign keys are checked after every
  statement and restrict deletions, except that a deleted user takes its rate-limit rows along
  (\<open>CASCADE\<close>) and is cleared from \<open>account_access\<close> (\<open>SET NULL\<close>), as \<open>schema.py\<close> declares them.
\<close>

subsection \<open>Foreign keys\<close>

definition refers :: "'c list \<Rightarrow> ('c \<Rightarrow> 'k option) \<Rightarrow> 'p list \<Rightarrow> ('p \<Rightarrow> 'k) \<Rightarrow> bool" where
  "refers child fk parent pk \<longleftrightarrow> list_all (\<lambda>c. case fk c of None \<Rightarrow> True | Some v \<Rightarrow> list_ex (\<lambda>p. pk p = v) parent) child"

lemma refers_iff: "refers child fk parent pk \<longleftrightarrow> (\<forall>c \<in> set child. \<forall>v. fk c = Some v \<longrightarrow> (\<exists>p \<in> set parent. pk p = v))"
  by (auto simp: refers_def list_all_iff list_ex_iff split: option.splits)

text \<open>Deleting children is always allowed; deleting parents only if their children are gone.\<close>

lemma refers_delete_child: "refers child fk parent pk \<Longrightarrow> refers (delete_where P child) fk parent pk"
  by (auto simp: refers_iff table_simps)

lemma refers_delete_both:
  assumes "refers child fk parent pk"
    and "\<And>c p. c \<in> set child \<Longrightarrow> p \<in> set parent \<Longrightarrow> fk c = Some (pk p) \<Longrightarrow> Q p \<Longrightarrow> P c"
  shows "refers (delete_where P child) fk (delete_where Q parent) pk"
proof -
  have "\<exists>p \<in> set (delete_where Q parent). pk p = v" if "c \<in> set child" "\<not> P c" "fk c = Some v" for c v
  proof -
    from assms(1) that obtain p where p: "p \<in> set parent" "pk p = v" unfolding refers_iff by blast
    with assms(2) [of c p] that have "\<not> Q p" by auto
    with p show ?thesis by (auto simp: delete_where_def)
  qed
  then show ?thesis by (auto simp: refers_iff set_delete_where)
qed

definition user_keys_ok :: "database \<Rightarrow> bool" where
  "user_keys_ok db \<longleftrightarrow> refers (profiles db) (Some \<circ> p_user_id) (users db) u_id
     \<and> refers (google_identities db) (Some \<circ> g_user_id) (users db) u_id
     \<and> refers (auth_sessions db) (Some \<circ> as_user_id) (users db) u_id
     \<and> refers (account_access db) aa_user_id (users db) u_id
     \<and> refers (user_state_events db) (Some \<circ> ev_user_id) (users db) u_id
     \<and> refers (user_capabilities db) (Some \<circ> uc_user_id) (users db) u_id
     \<and> refers (goals db) (Some \<circ> go_user_id) (users db) u_id
     \<and> refers (route_preferences db) (Some \<circ> pf_user_id) (users db) u_id
     \<and> refers (analyses db) (Some \<circ> an_user_id) (users db) u_id
     \<and> refers (calculation_traces db) (Some \<circ> ct_user_id) (users db) u_id
     \<and> refers (route_proposals db) (Some \<circ> rp_user_id) (users db) u_id
     \<and> refers (roadmaps db) (Some \<circ> rm_user_id) (users db) u_id
     \<and> refers (recompute_requests db) (Some \<circ> rr_user_id) (users db) u_id
     \<and> refers (idempotency_records db) (Some \<circ> id_user_id) (users db) u_id"

definition record_keys_ok :: "database \<Rightarrow> bool" where
  "record_keys_ok db \<longleftrightarrow> refers (user_capabilities db) uc_source_completion_event_id (user_state_events db) ev_id
     \<and> refers (analyses db) (Some \<circ> an_goal_id) (goals db) go_id
     \<and> refers (route_proposals db) (Some \<circ> rp_analysis_id) (analyses db) an_id
     \<and> refers (route_proposals db) (Some \<circ> rp_decision_trace_id) (calculation_traces db) ct_id
     \<and> refers (roadmaps db) (Some \<circ> rm_goal_id) (goals db) go_id
     \<and> refers (roadmaps db) (Some \<circ> rm_proposal_id) (route_proposals db) rp_id
     \<and> refers (roadmap_plan_overrides db) (Some \<circ> ov_roadmap_id) (roadmaps db) rm_id
     \<and> refers (roadmap_steps db) (Some \<circ> st_roadmap_id) (roadmaps db) rm_id
     \<and> refers (step_dependencies db) (Some \<circ> sd_roadmap_id) (roadmaps db) rm_id
     \<and> refers (step_dependencies db) (\<lambda>d. Some (sd_roadmap_id d, sd_step_id d)) (roadmap_steps db) (\<lambda>s. (st_roadmap_id s, st_id s))
     \<and> refers (step_dependencies db) (\<lambda>d. Some (sd_roadmap_id d, sd_prerequisite_step_id d)) (roadmap_steps db)
         (\<lambda>s. (st_roadmap_id s, st_id s))
     \<and> refers (step_completion_inheritances db) (Some \<circ> si_step_id) (roadmap_steps db) st_id
     \<and> refers (step_completion_inheritances db) (Some \<circ> si_original_completion_event_id) (user_state_events db) ev_id
     \<and> refers (recompute_requests db) (Some \<circ> rr_trigger_event_id) (user_state_events db) ev_id
     \<and> refers (recompute_requests db) rr_resulting_analysis_id (analyses db) an_id
     \<and> refers (recompute_requests db) rr_proposal_id (route_proposals db) rp_id
     \<and> refers (recompute_contexts db) (Some \<circ> cx_request_id) (recompute_requests db) rr_id
     \<and> refers (outbox_jobs db) jb_recompute_request_id (recompute_requests db) rr_id
     \<and> refers (account_access db) aa_invitation_id (invitation_codes db) iv_id"

definition foreign_keys_ok :: "database \<Rightarrow> bool" where
  "foreign_keys_ok db \<longleftrightarrow> user_keys_ok db \<and> record_keys_ok db"

subsection \<open>The transaction\<close>

definition roadmap_ids :: "uuid \<Rightarrow> database \<Rightarrow> uuid list" where
  "roadmap_ids user db = map rm_id (rows_where (\<lambda>r. rm_user_id r = user) (roadmaps db))"

definition step_ids :: "uuid \<Rightarrow> database \<Rightarrow> uuid list" where
  "step_ids user db = map st_id (rows_where (\<lambda>s. st_roadmap_id s \<in> set (roadmap_ids user db)) (roadmap_steps db))"

definition request_ids :: "uuid \<Rightarrow> database \<Rightarrow> uuid list" where
  "request_ids user db = map rr_id (rows_where (\<lambda>r. rr_user_id r = user) (recompute_requests db))"

definition is_among :: "uuid list \<Rightarrow> uuid option \<Rightarrow> bool" where
  "is_among known v \<longleftrightarrow> (case v of None \<Rightarrow> False | Some x \<Rightarrow> x \<in> set known)"

definition drop_limits :: "uuid \<Rightarrow> account_rate_limits \<Rightarrow> account_rate_limits" where
  "drop_limits user limits = (\<lambda>(u, scope). if u = user then None else limits (u, scope))"

definition delete_user :: "uuid \<Rightarrow> database \<Rightarrow> database" where
  "delete_user user db = db\<lparr>users := delete_where (\<lambda>u. u_id u = user) (users db),
     rate_limits := drop_limits user (rate_limits db),
     account_access := update_where (\<lambda>a. aa_user_id a = Some user) (\<lambda>a. a\<lparr>aa_user_id := None\<rparr>) (account_access db)\<rparr>"

definition erasing_statements :: "uuid \<Rightarrow> (database \<Rightarrow> database) list" where
  "erasing_statements user =
    [\<lambda>db. db\<lparr>step_completion_inheritances := delete_where (\<lambda>i. si_step_id i \<in> set (step_ids user db)) (step_completion_inheritances db)\<rparr>,
     \<lambda>db. db\<lparr>step_dependencies := delete_where (\<lambda>d. sd_roadmap_id d \<in> set (roadmap_ids user db)) (step_dependencies db)\<rparr>,
     \<lambda>db. db\<lparr>roadmap_plan_overrides := delete_where (\<lambda>v. ov_roadmap_id v \<in> set (roadmap_ids user db)) (roadmap_plan_overrides db)\<rparr>,
     \<lambda>db. db\<lparr>roadmap_steps := delete_where (\<lambda>s. st_roadmap_id s \<in> set (roadmap_ids user db)) (roadmap_steps db)\<rparr>,
     \<lambda>db. db\<lparr>roadmaps := delete_where (\<lambda>r. rm_user_id r = user) (roadmaps db)\<rparr>,
     \<lambda>db. db\<lparr>outbox_jobs := delete_where (\<lambda>j. is_among (request_ids user db) (jb_recompute_request_id j)) (outbox_jobs db)\<rparr>,
     \<lambda>db. db\<lparr>recompute_contexts := delete_where (\<lambda>c. cx_request_id c \<in> set (request_ids user db)) (recompute_contexts db)\<rparr>,
     \<lambda>db. db\<lparr>recompute_requests := delete_where (\<lambda>r. rr_user_id r = user) (recompute_requests db)\<rparr>,
     \<lambda>db. db\<lparr>route_proposals := delete_where (\<lambda>p. rp_user_id p = user) (route_proposals db)\<rparr>,
     \<lambda>db. db\<lparr>calculation_traces := delete_where (\<lambda>t. ct_user_id t = user) (calculation_traces db)\<rparr>,
     \<lambda>db. db\<lparr>analyses := delete_where (\<lambda>a. an_user_id a = user) (analyses db)\<rparr>,
     \<lambda>db. db\<lparr>user_capabilities := delete_where (\<lambda>c. uc_user_id c = user) (user_capabilities db)\<rparr>,
     \<lambda>db. db\<lparr>route_preferences := delete_where (\<lambda>p. pf_user_id p = user) (route_preferences db)\<rparr>,
     \<lambda>db. db\<lparr>idempotency_records := delete_where (\<lambda>r. id_user_id r = user) (idempotency_records db)\<rparr>,
     \<lambda>db. db\<lparr>goals := delete_where (\<lambda>g. go_user_id g = user) (goals db)\<rparr>,
     \<lambda>db. db\<lparr>user_state_events := delete_where (\<lambda>e. ev_user_id e = user) (user_state_events db)\<rparr>,
     \<lambda>db. db\<lparr>auth_sessions := delete_where (\<lambda>a. as_user_id a = user) (auth_sessions db)\<rparr>,
     \<lambda>db. db\<lparr>rate_limits := drop_limits user (rate_limits db)\<rparr>,
     \<lambda>db. db\<lparr>profiles := delete_where (\<lambda>p. p_user_id p = user) (profiles db)\<rparr>,
     \<lambda>db. db\<lparr>google_identities := delete_where (\<lambda>g. g_user_id g = user) (google_identities db)\<rparr>,
     delete_user user]"

fun run_statements :: "(database \<Rightarrow> database) list \<Rightarrow> database \<Rightarrow> persistence_error + database" where
  "run_statements [] db = Inr db"
| "run_statements (s # ss) db =
     and_then (require (foreign_keys_ok (s db)) (IntegrityError ''foreign key'')) (\<lambda>_. run_statements ss (s db))"

definition delete_account :: "uuid \<Rightarrow> database \<Rightarrow> persistence_error + database" where
  "delete_account user db =
     (if \<not> row_exists (\<lambda>u. u_id u = user) (users db) then Inr db
      else run_statements (erasing_statements user) db)"

lemma run_statements_Inr: "run_statements ss db = Inr db' \<Longrightarrow> db' = foldl (\<lambda>d s. s d) db ss"
  by (induction ss arbitrary: db) (auto simp: err_simps)

lemma delete_account_access:
  assumes "delete_account user db = Inr db'" and "db' \<noteq> db"
  shows "invitation_codes db' = invitation_codes db"
    "account_access db' = update_where (\<lambda>a. aa_user_id a = Some user) (\<lambda>a. a\<lparr>aa_user_id := None\<rparr>) (account_access db)"
proof -
  have "db' = foldl (\<lambda>d s. s d) db (erasing_statements user)"
    using assms run_statements_Inr by (auto simp: delete_account_def split: if_splits)
  then show "invitation_codes db' = invitation_codes db"
    "account_access db' = update_where (\<lambda>a. aa_user_id a = Some user) (\<lambda>a. a\<lparr>aa_user_id := None\<rparr>) (account_access db)"
    by (simp_all add: erasing_statements_def delete_user_def)
qed

subsection \<open>What it should do\<close>

text \<open>
  The specification: every row that belongs to the user goes at once, every other row stays. A
  row belongs to the user by its own column, or through its roadmap, step or request.
\<close>

definition erased :: "uuid \<Rightarrow> database \<Rightarrow> database" where
  "erased user db = db\<lparr>
     users := delete_where (\<lambda>u. u_id u = user) (users db),
     profiles := delete_where (\<lambda>p. p_user_id p = user) (profiles db),
     google_identities := delete_where (\<lambda>g. g_user_id g = user) (google_identities db),
     rate_limits := drop_limits user (rate_limits db),
     user_state_events := delete_where (\<lambda>e. ev_user_id e = user) (user_state_events db),
     goals := delete_where (\<lambda>g. go_user_id g = user) (goals db),
     analyses := delete_where (\<lambda>a. an_user_id a = user) (analyses db),
     calculation_traces := delete_where (\<lambda>t. ct_user_id t = user) (calculation_traces db),
     route_proposals := delete_where (\<lambda>p. rp_user_id p = user) (route_proposals db),
     recompute_requests := delete_where (\<lambda>r. rr_user_id r = user) (recompute_requests db),
     recompute_contexts := delete_where (\<lambda>c. cx_request_id c \<in> set (request_ids user db)) (recompute_contexts db),
     outbox_jobs := delete_where (\<lambda>j. is_among (request_ids user db) (jb_recompute_request_id j)) (outbox_jobs db),
     idempotency_records := delete_where (\<lambda>r. id_user_id r = user) (idempotency_records db),
     user_capabilities := delete_where (\<lambda>c. uc_user_id c = user) (user_capabilities db),
     route_preferences := delete_where (\<lambda>p. pf_user_id p = user) (route_preferences db),
     roadmaps := delete_where (\<lambda>r. rm_user_id r = user) (roadmaps db),
     roadmap_plan_overrides := delete_where (\<lambda>v. ov_roadmap_id v \<in> set (roadmap_ids user db)) (roadmap_plan_overrides db),
     roadmap_steps := delete_where (\<lambda>s. st_roadmap_id s \<in> set (roadmap_ids user db)) (roadmap_steps db),
     step_dependencies := delete_where (\<lambda>d. sd_roadmap_id d \<in> set (roadmap_ids user db)) (step_dependencies db),
     step_completion_inheritances := delete_where (\<lambda>i. si_step_id i \<in> set (step_ids user db)) (step_completion_inheritances db),
     auth_sessions := delete_where (\<lambda>a. as_user_id a = user) (auth_sessions db),
     account_access := update_where (\<lambda>a. aa_user_id a = Some user) (\<lambda>a. a\<lparr>aa_user_id := None\<rparr>) (account_access db)\<rparr>"

text \<open>References stay within one account.\<close>

definition same_owner :: "'c list \<Rightarrow> ('c \<Rightarrow> 'k option) \<Rightarrow> ('c \<Rightarrow> uuid) \<Rightarrow> 'p list \<Rightarrow> ('p \<Rightarrow> 'k) \<Rightarrow> ('p \<Rightarrow> uuid) \<Rightarrow> bool" where
  "same_owner child fk owner parent pk powner \<longleftrightarrow>
     (\<forall>c \<in> set child. \<forall>p \<in> set parent. fk c = Some (pk p) \<longrightarrow> owner c = powner p)"

definition ownership_ok :: "database \<Rightarrow> bool" where
  "ownership_ok db \<longleftrightarrow>
     keyed st_id (roadmap_steps db) \<and> keyed rm_id (roadmaps db)
     \<and> same_owner (user_capabilities db) uc_source_completion_event_id uc_user_id (user_state_events db) ev_id ev_user_id
     \<and> same_owner (analyses db) (Some \<circ> an_goal_id) an_user_id (goals db) go_id go_user_id
     \<and> same_owner (route_proposals db) (Some \<circ> rp_analysis_id) rp_user_id (analyses db) an_id an_user_id
     \<and> same_owner (route_proposals db) (Some \<circ> rp_decision_trace_id) rp_user_id (calculation_traces db) ct_id ct_user_id
     \<and> same_owner (roadmaps db) (Some \<circ> rm_goal_id) rm_user_id (goals db) go_id go_user_id
     \<and> same_owner (roadmaps db) (Some \<circ> rm_proposal_id) rm_user_id (route_proposals db) rp_id rp_user_id
     \<and> same_owner (recompute_requests db) (Some \<circ> rr_trigger_event_id) rr_user_id (user_state_events db) ev_id ev_user_id
     \<and> same_owner (recompute_requests db) rr_resulting_analysis_id rr_user_id (analyses db) an_id an_user_id
     \<and> same_owner (recompute_requests db) rr_proposal_id rr_user_id (route_proposals db) rp_id rp_user_id
     \<and> (\<forall>i \<in> set (step_completion_inheritances db). \<forall>s \<in> set (roadmap_steps db). \<forall>r \<in> set (roadmaps db).
          \<forall>e \<in> set (user_state_events db). si_step_id i = st_id s \<longrightarrow> st_roadmap_id s = rm_id r
          \<longrightarrow> si_original_completion_event_id i = ev_id e \<longrightarrow> rm_user_id r = ev_user_id e)"

lemma refers_erase:
  assumes "refers child fk parent pk" and "same_owner child fk owner parent pk powner"
  shows "refers (delete_where (\<lambda>c. owner c = user) child) fk (delete_where (\<lambda>p. powner p = user) parent) pk"
  by (rule refers_delete_both [OF assms(1)]) (use assms(2) in \<open>auto simp: same_owner_def\<close>)

lemma refers_clear:
  "refers child fk parent pk \<Longrightarrow> (\<And>c. c \<in> set child \<Longrightarrow> fk c = Some user \<Longrightarrow> fk (f c) = None) \<Longrightarrow>
     refers (update_where (\<lambda>c. fk c = Some user) f child) fk (delete_where (\<lambda>p. pk p = user) parent) pk"
  by (fastforce simp: refers_iff table_simps split: if_splits)

subsection \<open>Every intermediate state satisfies the foreign keys\<close>

lemma user_keys_erased:
  assumes "user_keys_ok db"
  shows "refers (delete_where (\<lambda>p. p_user_id p = user) (profiles db)) (Some \<circ> p_user_id) (delete_where (\<lambda>u. u_id u = user) (users db)) u_id"
    "refers (delete_where (\<lambda>g. g_user_id g = user) (google_identities db)) (Some \<circ> g_user_id) (delete_where (\<lambda>u. u_id u = user) (users db)) u_id"
    "refers (delete_where (\<lambda>a. as_user_id a = user) (auth_sessions db)) (Some \<circ> as_user_id) (delete_where (\<lambda>u. u_id u = user) (users db)) u_id"
    "refers (update_where (\<lambda>a. aa_user_id a = Some user) (\<lambda>a. a\<lparr>aa_user_id := None\<rparr>) (account_access db)) aa_user_id
       (delete_where (\<lambda>u. u_id u = user) (users db)) u_id"
    "refers (delete_where (\<lambda>e. ev_user_id e = user) (user_state_events db)) (Some \<circ> ev_user_id) (delete_where (\<lambda>u. u_id u = user) (users db)) u_id"
    "refers (delete_where (\<lambda>c. uc_user_id c = user) (user_capabilities db)) (Some \<circ> uc_user_id) (delete_where (\<lambda>u. u_id u = user) (users db)) u_id"
    "refers (delete_where (\<lambda>g. go_user_id g = user) (goals db)) (Some \<circ> go_user_id) (delete_where (\<lambda>u. u_id u = user) (users db)) u_id"
    "refers (delete_where (\<lambda>p. pf_user_id p = user) (route_preferences db)) (Some \<circ> pf_user_id) (delete_where (\<lambda>u. u_id u = user) (users db)) u_id"
    "refers (delete_where (\<lambda>a. an_user_id a = user) (analyses db)) (Some \<circ> an_user_id) (delete_where (\<lambda>u. u_id u = user) (users db)) u_id"
    "refers (delete_where (\<lambda>t. ct_user_id t = user) (calculation_traces db)) (Some \<circ> ct_user_id) (delete_where (\<lambda>u. u_id u = user) (users db)) u_id"
    "refers (delete_where (\<lambda>p. rp_user_id p = user) (route_proposals db)) (Some \<circ> rp_user_id) (delete_where (\<lambda>u. u_id u = user) (users db)) u_id"
    "refers (delete_where (\<lambda>r. rm_user_id r = user) (roadmaps db)) (Some \<circ> rm_user_id) (delete_where (\<lambda>u. u_id u = user) (users db)) u_id"
    "refers (delete_where (\<lambda>r. rr_user_id r = user) (recompute_requests db)) (Some \<circ> rr_user_id) (delete_where (\<lambda>u. u_id u = user) (users db)) u_id"
    "refers (delete_where (\<lambda>r. id_user_id r = user) (idempotency_records db)) (Some \<circ> id_user_id) (delete_where (\<lambda>u. u_id u = user) (users db)) u_id"
  using assms unfolding user_keys_ok_def
  by (auto intro!: refers_delete_both refers_clear)

lemma mem_roadmap_ids: "i \<in> set (roadmap_ids user db) \<longleftrightarrow> (\<exists>r \<in> set (roadmaps db). rm_id r = i \<and> rm_user_id r = user)"
  by (auto simp: roadmap_ids_def table_simps)

lemma mem_request_ids: "i \<in> set (request_ids user db) \<longleftrightarrow> (\<exists>r \<in> set (recompute_requests db). rr_id r = i \<and> rr_user_id r = user)"
  by (auto simp: request_ids_def table_simps)

lemma mem_step_ids:
  "i \<in> set (step_ids user db) \<longleftrightarrow> (\<exists>s \<in> set (roadmap_steps db). st_id s = i \<and> st_roadmap_id s \<in> set (roadmap_ids user db))"
  by (auto simp: step_ids_def table_simps)

lemma record_keys_erased:
  assumes "record_keys_ok db" and "ownership_ok db"
  shows "refers (delete_where (\<lambda>c. uc_user_id c = user) (user_capabilities db)) uc_source_completion_event_id
      (delete_where (\<lambda>e. ev_user_id e = user) (user_state_events db)) ev_id"
    "refers (delete_where (\<lambda>a. an_user_id a = user) (analyses db)) (Some \<circ> an_goal_id) (delete_where (\<lambda>g. go_user_id g = user) (goals db)) go_id"
    "refers (delete_where (\<lambda>p. rp_user_id p = user) (route_proposals db)) (Some \<circ> rp_analysis_id) (delete_where (\<lambda>a. an_user_id a = user) (analyses db)) an_id"
    "refers (delete_where (\<lambda>p. rp_user_id p = user) (route_proposals db)) (Some \<circ> rp_decision_trace_id)
      (delete_where (\<lambda>t. ct_user_id t = user) (calculation_traces db)) ct_id"
    "refers (delete_where (\<lambda>r. rm_user_id r = user) (roadmaps db)) (Some \<circ> rm_goal_id) (delete_where (\<lambda>g. go_user_id g = user) (goals db)) go_id"
    "refers (delete_where (\<lambda>r. rm_user_id r = user) (roadmaps db)) (Some \<circ> rm_proposal_id) (delete_where (\<lambda>p. rp_user_id p = user) (route_proposals db)) rp_id"
    "refers (delete_where (\<lambda>r. rr_user_id r = user) (recompute_requests db)) (Some \<circ> rr_trigger_event_id)
      (delete_where (\<lambda>e. ev_user_id e = user) (user_state_events db)) ev_id"
    "refers (delete_where (\<lambda>r. rr_user_id r = user) (recompute_requests db)) rr_resulting_analysis_id (delete_where (\<lambda>a. an_user_id a = user) (analyses db)) an_id"
    "refers (delete_where (\<lambda>r. rr_user_id r = user) (recompute_requests db)) rr_proposal_id (delete_where (\<lambda>p. rp_user_id p = user) (route_proposals db)) rp_id"
  using assms unfolding record_keys_ok_def ownership_ok_def
  by (blast intro: refers_erase)+

lemma child_keys_erased:
  assumes "record_keys_ok db" and own: "ownership_ok db"
  shows "refers (delete_where (\<lambda>v. ov_roadmap_id v \<in> set (roadmap_ids user db)) (roadmap_plan_overrides db)) (Some \<circ> ov_roadmap_id)
      (delete_where (\<lambda>r. rm_user_id r = user) (roadmaps db)) rm_id"
    "refers (delete_where (\<lambda>s. st_roadmap_id s \<in> set (roadmap_ids user db)) (roadmap_steps db)) (Some \<circ> st_roadmap_id)
      (delete_where (\<lambda>r. rm_user_id r = user) (roadmaps db)) rm_id"
    "refers (delete_where (\<lambda>d. sd_roadmap_id d \<in> set (roadmap_ids user db)) (step_dependencies db)) (Some \<circ> sd_roadmap_id)
      (delete_where (\<lambda>r. rm_user_id r = user) (roadmaps db)) rm_id"
    "refers (delete_where (\<lambda>d. sd_roadmap_id d \<in> set (roadmap_ids user db)) (step_dependencies db)) (\<lambda>d. Some (sd_roadmap_id d, sd_step_id d))
      (delete_where (\<lambda>s. st_roadmap_id s \<in> set (roadmap_ids user db)) (roadmap_steps db)) (\<lambda>s. (st_roadmap_id s, st_id s))"
    "refers (delete_where (\<lambda>d. sd_roadmap_id d \<in> set (roadmap_ids user db)) (step_dependencies db)) (\<lambda>d. Some (sd_roadmap_id d, sd_prerequisite_step_id d))
      (delete_where (\<lambda>s. st_roadmap_id s \<in> set (roadmap_ids user db)) (roadmap_steps db)) (\<lambda>s. (st_roadmap_id s, st_id s))"
    "refers (delete_where (\<lambda>c. cx_request_id c \<in> set (request_ids user db)) (recompute_contexts db)) (Some \<circ> cx_request_id)
      (delete_where (\<lambda>r. rr_user_id r = user) (recompute_requests db)) rr_id"
    "refers (delete_where (\<lambda>j. is_among (request_ids user db) (jb_recompute_request_id j)) (outbox_jobs db)) jb_recompute_request_id
      (delete_where (\<lambda>r. rr_user_id r = user) (recompute_requests db)) rr_id"
    "refers (delete_where (\<lambda>i. si_step_id i \<in> set (step_ids user db)) (step_completion_inheritances db)) (Some \<circ> si_step_id)
      (delete_where (\<lambda>s. st_roadmap_id s \<in> set (roadmap_ids user db)) (roadmap_steps db)) st_id"
  using assms(1) unfolding record_keys_ok_def
  by (auto intro!: refers_delete_both simp: mem_roadmap_ids mem_request_ids mem_step_ids is_among_def)

text \<open>An inherited completion belongs to the account of its event: its step is found through the roadmap.\<close>

lemma inheritance_keys_erased:
  assumes keys: "record_keys_ok db" and own: "ownership_ok db"
  shows "refers (delete_where (\<lambda>i. si_step_id i \<in> set (step_ids user db)) (step_completion_inheritances db))
      (Some \<circ> si_original_completion_event_id) (delete_where (\<lambda>e. ev_user_id e = user) (user_state_events db)) ev_id"
proof (rule refers_delete_both)
  show "refers (step_completion_inheritances db) (Some \<circ> si_original_completion_event_id) (user_state_events db) ev_id"
    using keys by (simp add: record_keys_ok_def)
  fix i e assume i: "i \<in> set (step_completion_inheritances db)" "e \<in> set (user_state_events db)"
    "(Some \<circ> si_original_completion_event_id) i = Some (ev_id e)" "ev_user_id e = user"
  from keys i(1) obtain s where s: "s \<in> set (roadmap_steps db)" "si_step_id i = st_id s"
    unfolding record_keys_ok_def by (fastforce simp: refers_iff)
  from keys s(1) obtain r where r: "r \<in> set (roadmaps db)" "st_roadmap_id s = rm_id r"
    unfolding record_keys_ok_def by (fastforce simp: refers_iff)
  from own i s r have "rm_user_id r = user" unfolding ownership_ok_def by auto
  with s r show "si_step_id i \<in> set (step_ids user db)"
    unfolding mem_step_ids mem_roadmap_ids by (intro bexI [of _ s] conjI bexI [of _ r]) simp_all
qed

lemma refers_cleared:
  "refers child aa_invitation_id parent pk
     \<Longrightarrow> refers (update_where P (\<lambda>a. a\<lparr>aa_user_id := None\<rparr>) child) aa_invitation_id parent pk"
  by (auto simp: refers_iff set_update_where split: if_splits)

lemma drop_limits_idem [simp]: "drop_limits user (drop_limits user limits) = drop_limits user limits"
  by (auto simp: drop_limits_def)

lemma ids_unchanged:
  "roadmap_ids user (db\<lparr>step_completion_inheritances := a\<rparr>) = roadmap_ids user db"
  "roadmap_ids user (db\<lparr>step_dependencies := b\<rparr>) = roadmap_ids user db"
  "roadmap_ids user (db\<lparr>roadmap_plan_overrides := c\<rparr>) = roadmap_ids user db"
  "request_ids user (db\<lparr>step_completion_inheritances := a\<rparr>) = request_ids user db"
  "request_ids user (db\<lparr>step_dependencies := b\<rparr>) = request_ids user db"
  "request_ids user (db\<lparr>roadmap_plan_overrides := c\<rparr>) = request_ids user db"
  "request_ids user (db\<lparr>roadmap_steps := d\<rparr>) = request_ids user db"
  "request_ids user (db\<lparr>roadmaps := e\<rparr>) = request_ids user db"
  "request_ids user (db\<lparr>outbox_jobs := f\<rparr>) = request_ids user db"
  by (simp_all add: roadmap_ids_def request_ids_def)

lemma run_erasing:
  assumes "foreign_keys_ok db" and own: "ownership_ok db"
  shows "run_statements (erasing_statements user) db = Inr (erased user db)"
proof -
  have keys: "user_keys_ok db" "record_keys_ok db" using assms(1) by (simp_all add: foreign_keys_ok_def)
  note user = user_keys_erased [OF keys(1), of user]
  note inner = record_keys_erased [OF keys(2) own, of user] child_keys_erased [OF keys(2) own, of user]
    inheritance_keys_erased [OF keys(2) own, of user]
  note orig = keys [unfolded user_keys_ok_def record_keys_ok_def]
  show ?thesis
    using orig user inner
    by (simp add: erasing_statements_def foreign_keys_ok_def user_keys_ok_def record_keys_ok_def
        ids_unchanged refers_delete_child refers_cleared
        delete_user_def erased_def)
qed

subsection \<open>Property\<close>

text \<open>
  C37: erasing an account deletes exactly what belongs to it. On a database whose foreign keys hold
  and whose references stay within one account, no statement of \<open>delete_account\<close> violates a
  foreign key, the result is the account's rows removed from every table and nothing else, and its
  foreign keys hold again; erasing twice changes nothing more.
\<close>

theorem delete_account_erases_exactly:
  assumes "foreign_keys_ok db" and "ownership_ok db" and "row_exists (\<lambda>u. u_id u = user) (users db)"
  shows "delete_account user db = Inr (erased user db) \<and> foreign_keys_ok (erased user db)
    \<and> delete_account user (erased user db) = Inr (erased user db)"
proof (intro conjI)
  show "delete_account user db = Inr (erased user db)"
    using run_erasing [OF assms(1,2)] assms(3) by (simp add: delete_account_def)
  show "delete_account user (erased user db) = Inr (erased user db)"
    by (simp add: delete_account_def erased_def row_exists_iff set_delete_where)
  have "user_keys_ok db" "record_keys_ok db" using assms(1) by (simp_all add: foreign_keys_ok_def)
  note K = user_keys_erased [OF this(1), of user] record_keys_erased [OF this(2) assms(2), of user]
    child_keys_erased [OF this(2) assms(2), of user] inheritance_keys_erased [OF this(2) assms(2), of user]
  show "foreign_keys_ok (erased user db)"
    using K assms(1) by (simp add: foreign_keys_ok_def user_keys_ok_def record_keys_ok_def erased_def refers_cleared)
qed

definition sample_account_db :: database where
  "sample_account_db = empty_db\<lparr>
     users := [\<lparr>u_id = ''alice'', u_status = USER_ACTIVE, u_display_name = None\<rparr>,
       \<lparr>u_id = ''bob'', u_status = USER_ACTIVE, u_display_name = None\<rparr>],
     google_identities := [\<lparr>g_issuer = ''i'', g_subject = ''s'', g_user_id = ''alice''\<rparr>],
     user_state_events := [\<lparr>ev_id = ''e1'', ev_user_id = ''alice'', ev_aggregate_id = ''e1'', ev_aggregate_type = ''PROFILE'',
       ev_version = 1, ev_kind = ''X'', ev_payload = []\<rparr>],
     recompute_requests := [\<lparr>rr_id = ''r1'', rr_user_id = ''alice'', rr_profile_version = 1, rr_trigger_event_id = ''e1'',
       rr_state = REQ_PENDING, rr_resulting_analysis_id = None, rr_proposal_id = None, rr_auto_roadmap_pending = False,
       rr_error_code = None, rr_failure_details = None, rr_created_at = 0, rr_updated_at = 0\<rparr>],
     recompute_contexts := [\<lparr>cx_request_id = ''r1'', cx_payload = []\<rparr>]\<rparr>"

theorem delete_account_erases_exactly_witness:
  "\<exists>db'. delete_account ''alice'' sample_account_db = Inr db' \<and> users db' = [\<lparr>u_id = ''bob'', u_status = USER_ACTIVE,
     u_display_name = None\<rparr>] \<and> recompute_contexts db' = [] \<and> user_state_events db' = []"
proof -
  have keys: "foreign_keys_ok sample_account_db"
    by (simp add: foreign_keys_ok_def user_keys_ok_def record_keys_ok_def refers_def sample_account_db_def empty_db_def)
  have own: "ownership_ok sample_account_db"
    by (simp add: ownership_ok_def same_owner_def sample_account_db_def empty_db_def)
  have "row_exists (\<lambda>u. u_id u = ''alice'') (users sample_account_db)"
    by (simp add: row_exists_def sample_account_db_def)
  from delete_account_erases_exactly [OF keys own this] show ?thesis
    by (simp add: erased_def sample_account_db_def empty_db_def delete_where_def request_ids_def rows_where_def)
qed

end
