(* ===== verification/Roadmap_State.thy ===== *)
theory Roadmap_State
  imports User_State Account_Erasure Worker
begin

section \<open>Roadmaps, their steps and the deletion of goals\<close>

text \<open>
  The roadmap transactions of \<open>store.py\<close>, with \<open>roadmap_steps.py\<close>, \<open>completion_outcomes.py\<close>,
  \<open>roadmap_source_validity.py\<close> and \<open>goal_deletion.py\<close>
  (\<open>src/jobtology_be/infrastructure/persistence\<close>). Library calls are parameters (\<open>store_lib\<close>):
  \<open>sl_iso\<close> is \<open>datetime.fromisoformat\<close> on an aware timestamp, as a UTC instant (\<open>None\<close> where it raises or
  the timestamp has no offset), \<open>sl_outcome\<close> is \<open>RoadmapOutcome.model_validate\<close>. A stored proposal
  whose fields have other types than the planner writes is a \<open>StoredDocumentError\<close>.
\<close>

record store_lib =
  sl_context :: context_lib
  sl_iso :: "string \<Rightarrow> int option"
  sl_outcome :: "JsonValue \<Rightarrow> RoadmapOutcome option"
  sl_google_accounts_only :: bool

record RoadmapSnapshot =
  ros_roadmap_id :: uuid
  ros_version :: int
  ros_state :: Lifecycle

record RoadmapCreate =
  rc_user_id :: uuid
  rc_roadmap_id :: uuid
  rc_goal_id :: uuid
  rc_proposal_id :: uuid
  rc_title :: string
  rc_profile_version :: int

record RoadmapMutation =
  rmu_user_id :: uuid
  rmu_roadmap_id :: uuid
  rmu_expected_roadmap_version :: int
  rmu_expected_profile_version :: int
  rmu_state :: Lifecycle
  rmu_title :: "string option"

record StepStateMutation =
  sm_user_id :: uuid
  sm_roadmap_id :: uuid
  sm_step_id :: uuid
  sm_expected_roadmap_version :: int
  sm_expected_profile_version :: int
  sm_state :: StepState

record GoalDelete =
  gd_user_id :: uuid
  gd_goal_id :: uuid
  gd_expected_profile_version :: int

subsection \<open>Source validity\<close>

record SourceValidity =
  sv_source_is_valid :: bool
  sv_expires_at :: "int option"

definition parse_source_validity :: "(string \<Rightarrow> int option) \<Rightarrow> json_object \<Rightarrow> SourceValidity" where
  "parse_source_validity parse_iso validity =
     (let invalid = \<lparr>sv_source_is_valid = False, sv_expires_at = None\<rparr>;
          source_is_valid = (case map_of validity ''source_is_valid'' of None \<Rightarrow> JBool True | Some v \<Rightarrow> v) in
      case source_is_valid of
        JBool valid \<Rightarrow>
          (case map_of validity ''expires_at'' of
             None \<Rightarrow> \<lparr>sv_source_is_valid = valid, sv_expires_at = None\<rparr>
           | Some JNull \<Rightarrow> \<lparr>sv_source_is_valid = valid, sv_expires_at = None\<rparr>
           | Some (JStr serialized) \<Rightarrow>
               (case parse_iso serialized of
                  None \<Rightarrow> invalid
                | Some t \<Rightarrow> \<lparr>sv_source_is_valid = valid, sv_expires_at = Some t\<rparr>)
           | Some _ \<Rightarrow> invalid)
      | _ \<Rightarrow> invalid)"

definition source_is_current :: "SourceValidity \<Rightarrow> int \<Rightarrow> bool" where
  "source_is_current v reference_at \<longleftrightarrow> sv_source_is_valid v
     \<and> (case sv_expires_at v of None \<Rightarrow> True | Some t \<Rightarrow> t > reference_at)"

text \<open>The occupation that a proposal was computed for, when its documents agree on one.\<close>

definition pinned_occupation :: "json_object \<Rightarrow> json_object option \<Rightarrow> string option" where
  "pinned_occupation input_snapshot results =
     (let occupation = json_get ''occupation_id'' (map_of input_snapshot ''snapshot_selection'');
          result_occupation = Option.bind results (\<lambda>r. map_of r ''occupation_id'');
          identities = remdups (concat (map (\<lambda>v. case v of Some (JStr s) \<Rightarrow> if blank s then [] else [s] | _ \<Rightarrow> [])
            [occupation, result_occupation]))
      in (case identities of [x] \<Rightarrow> Some x | _ \<Rightarrow> None))"

definition ACTIVATABLE :: "string list" where
  "ACTIVATABLE = [''FEASIBLE'', ''RISKY'', ''PARTIAL'']"

subsection \<open>Stored steps\<close>

fun text_field :: "string \<Rightarrow> json_object \<Rightarrow> persistence_error + string" where
  "text_field k doc = (case map_of doc k of Some (JStr s) \<Rightarrow> Inr s | _ \<Rightarrow> Inl (StoredDocumentError k))"

fun int_field :: "string \<Rightarrow> json_object \<Rightarrow> persistence_error + int" where
  "int_field k doc = (case map_of doc k of Some (JInt n) \<Rightarrow> Inr n | _ \<Rightarrow> Inl (StoredDocumentError k))"

text \<open>A list; \<open>.get(k, [])\<close> when it may be missing.\<close>

fun list_field :: "bool \<Rightarrow> string \<Rightarrow> json_object \<Rightarrow> persistence_error + JsonValue list" where
  "list_field optional k doc =
     (case map_of doc k of Some (JSeq xs) \<Rightarrow> Inr xs | None \<Rightarrow> if optional then Inr [] else Inl (StoredDocumentError k)
      | _ \<Rightarrow> Inl (StoredDocumentError k))"

definition roadmap_outcomes :: "store_lib \<Rightarrow> JsonValue list \<Rightarrow> persistence_error + RoadmapOutcome list" where
  "roadmap_outcomes lib raw =
     collect (\<lambda>j. case sl_outcome lib j of None \<Rightarrow> Inl (StoredDocumentError ''outcomes'') | Some x \<Rightarrow> Inr x) raw"

type_synonym outcome_key = "string \<times> string \<times> string \<times> string list"

definition outcome_semantics :: "store_lib \<Rightarrow> JsonValue list \<Rightarrow> persistence_error + outcome_key list" where
  "outcome_semantics lib raw = and_then (roadmap_outcomes lib raw)
     (\<lambda>outcomes. Inr (map (\<lambda>x. (ro_requirement_key x, ro_entity_id x, ro_raw_text x, ro_experience_codes x)) outcomes))"

fun planned_date :: "store_lib \<Rightarrow> JsonValue option \<Rightarrow> persistence_error + int option" where
  "planned_date lib None = Inr None"
| "planned_date lib (Some JNull) = Inr None"
| "planned_date lib (Some (JStr s)) = (case sl_iso lib s of
     None \<Rightarrow> Inl (PersistenceConflictError ''proposal schedule'') | Some t \<Rightarrow> Inr (Some t))"
| "planned_date lib (Some _) = Inl (PersistenceConflictError ''proposal schedule'')"

definition proposal_step_dates :: "store_lib \<Rightarrow> json_object \<Rightarrow> persistence_error + int option \<times> int option" where
  "proposal_step_dates lib step =
     and_then (planned_date lib (map_of step ''planned_start_at''))
     (\<lambda>s. and_then (planned_date lib (map_of step ''planned_end_at''))
     (\<lambda>e. and_then (require (case (s, e) of (Some s, Some e) \<Rightarrow> \<not> e < s | _ \<Rightarrow> True)
         (PersistenceConflictError ''proposal schedule''))
     (\<lambda>_. Inr (s, e))))"

subsection \<open>Inserting a roadmap\<close>

definition insert_roadmap :: "roadmaps_row \<Rightarrow> database \<Rightarrow> persistence_error + database" where
  "insert_roadmap r db =
     and_then (require (\<not> row_exists (\<lambda>x. rm_id x = rm_id r) (roadmaps db) \<and> 1 \<le> rm_version r
         \<and> row_exists (\<lambda>u. u_id u = rm_user_id r) (users db) \<and> row_exists (\<lambda>g. go_id g = rm_goal_id r) (goals db)
         \<and> row_exists (\<lambda>p. rp_id p = rm_proposal_id r) (route_proposals db)) (IntegrityError ''roadmaps''))
       (\<lambda>_. Inr (db\<lparr>roadmaps := roadmaps db @ [r]\<rparr>))"

definition insert_step :: "roadmap_steps_row \<Rightarrow> database \<Rightarrow> persistence_error + database" where
  "insert_step s db =
     and_then (require (\<not> row_exists (\<lambda>x. st_id x = st_id s \<or> st_roadmap_id x = st_roadmap_id s
           \<and> (st_step_key x = st_step_key s \<or> st_position x = st_position s)) (roadmap_steps db)
         \<and> row_exists (\<lambda>r. rm_id r = st_roadmap_id s) (roadmaps db)
         \<and> 0 \<le> st_position s \<and> 1 \<le> st_template_revision s) (IntegrityError ''roadmap_steps''))
       (\<lambda>_. Inr (db\<lparr>roadmap_steps := roadmap_steps db @ [s]\<rparr>))"

definition insert_dependency :: "step_dependencies_row \<Rightarrow> database \<Rightarrow> persistence_error + database" where
  "insert_dependency d db =
     and_then (require (\<not> row_exists (\<lambda>x. x = d) (step_dependencies db)
         \<and> row_exists (\<lambda>r. rm_id r = sd_roadmap_id d) (roadmaps db)
         \<and> row_exists (\<lambda>s. st_roadmap_id s = sd_roadmap_id d \<and> st_id s = sd_step_id d) (roadmap_steps db)
         \<and> row_exists (\<lambda>s. st_roadmap_id s = sd_roadmap_id d \<and> st_id s = sd_prerequisite_step_id d) (roadmap_steps db)
         \<and> sd_step_id d \<noteq> sd_prerequisite_step_id d) (IntegrityError ''step_dependencies''))
       (\<lambda>_. Inr (db\<lparr>step_dependencies := step_dependencies db @ [d]\<rparr>))"

definition insert_inheritance :: "uuid \<Rightarrow> uuid \<Rightarrow> database \<Rightarrow> persistence_error + database" where
  "insert_inheritance step_id event_id db =
     and_then (require (\<not> row_exists (\<lambda>i. si_step_id i = step_id) (step_completion_inheritances db)
         \<and> row_exists (\<lambda>s. st_id s = step_id) (roadmap_steps db)
         \<and> row_exists (\<lambda>e. ev_id e = event_id) (user_state_events db)) (IntegrityError ''step_completion_inheritances''))
       (\<lambda>_. Inr (db\<lparr>step_completion_inheritances := step_completion_inheritances db
          @ [\<lparr>si_step_id = step_id, si_original_completion_event_id = event_id\<rparr>]\<rparr>))"

text \<open>The loop over the steps of the proposal; the \<open>n\<close>-th step gets the \<open>n\<close>-th fresh id.\<close>

definition step_row :: "store_lib \<Rightarrow> uuid \<Rightarrow> uuid \<Rightarrow> nat \<Rightarrow> json_object \<Rightarrow> persistence_error + roadmap_steps_row" where
  "step_row lib roadmap_id step_id position step =
     and_then (text_field ''step_key'' step)
     (\<lambda>key. and_then (proposal_step_dates lib step)
     (\<lambda>(s, e). and_then (text_field ''action_id'' step)
     (\<lambda>action. and_then (int_field ''template_revision'' step)
     (\<lambda>revision. and_then (list_field False ''outcomes'' step)
     (\<lambda>outcomes. and_then (list_field True ''completion_criteria'' step)
     (\<lambda>criteria. Inr \<lparr>st_id = step_id, st_roadmap_id = roadmap_id, st_step_key = key, st_position = int position,
         st_action_id = action, st_template_revision = revision, st_state = TODO, st_planned_start = s,
         st_planned_end = e, st_outcomes = outcomes, st_criteria = criteria\<rparr>))))))"

definition create_step ::
  "store_lib \<Rightarrow> env \<Rightarrow> uuid \<Rightarrow> nat \<times> json_object \<Rightarrow> (string \<times> uuid) list \<times> database
    \<Rightarrow> persistence_error + (string \<times> uuid) list \<times> database" where
  "create_step lib env roadmap_id = (\<lambda>(position, step) (new_ids, db).
     and_then (step_row lib roadmap_id (e_uuid env (Suc position)) position step)
     (\<lambda>row. and_then (insert_step row db)
     (\<lambda>db. Inr ((st_step_key row, st_id row) # new_ids, db))))"

definition link_prerequisite ::
  "(string \<times> uuid) list \<Rightarrow> uuid \<Rightarrow> uuid \<Rightarrow> JsonValue \<Rightarrow> database \<Rightarrow> persistence_error + database" where
  "link_prerequisite new_ids roadmap_id step_id key db =
     (case key of
        JStr k \<Rightarrow> (case map_of new_ids k of
            None \<Rightarrow> Inl (PersistenceConflictError ''proposal dependency'')
          | Some prerequisite \<Rightarrow> insert_dependency \<lparr>sd_roadmap_id = roadmap_id, sd_step_id = step_id,
              sd_prerequisite_step_id = prerequisite\<rparr> db)
      | _ \<Rightarrow> Inl (StoredDocumentError ''prerequisite_step_keys''))"

definition new_step_id :: "(string \<times> uuid) list \<Rightarrow> json_object \<Rightarrow> persistence_error + uuid" where
  "new_step_id new_ids step = and_then (text_field ''step_key'' step)
     (\<lambda>k. case map_of new_ids k of None \<Rightarrow> Inl (StoredDocumentError ''step_key'') | Some i \<Rightarrow> Inr i)"

definition create_dependencies ::
  "(string \<times> uuid) list \<Rightarrow> uuid \<Rightarrow> json_object \<Rightarrow> database \<Rightarrow> persistence_error + database" where
  "create_dependencies new_ids roadmap_id step db =
     and_then (new_step_id new_ids step)
     (\<lambda>step_id. and_then (list_field True ''prerequisite_step_keys'' step)
     (\<lambda>keys. fold_err (link_prerequisite new_ids roadmap_id step_id) keys db))"

subsection \<open>Inheriting completions\<close>

type_synonym step_semantics = "string \<times> int \<times> outcome_key list \<times> JsonValue list"

definition completed_semantics ::
  "store_lib \<Rightarrow> uuid \<Rightarrow> database \<Rightarrow> persistence_error + (step_semantics \<times> uuid) list" where
  "completed_semantics lib roadmap_id db =
     collect (\<lambda>(s, i). and_then (outcome_semantics lib (st_outcomes s))
         (\<lambda>k. Inr ((st_action_id s, st_template_revision s, k, st_criteria s), si_original_completion_event_id i)))
       [(s, i). s \<leftarrow> roadmap_steps db, st_roadmap_id s = roadmap_id \<and> st_state s = COMPLETED,
          i \<leftarrow> step_completion_inheritances db, si_step_id i = st_id s]"

definition proposed_semantics :: "store_lib \<Rightarrow> json_object \<Rightarrow> persistence_error + step_semantics" where
  "proposed_semantics lib step =
     and_then (text_field ''action_id'' step)
     (\<lambda>action. and_then (int_field ''template_revision'' step)
     (\<lambda>revision. and_then (list_field False ''outcomes'' step)
     (\<lambda>outcomes. and_then (outcome_semantics lib outcomes)
     (\<lambda>k. and_then (list_field True ''completion_criteria'' step)
     (\<lambda>criteria. Inr (action, revision, k, criteria))))))"

definition set_step_state :: "StepState \<Rightarrow> roadmap_steps_row \<Rightarrow> roadmap_steps_row" where
  "set_step_state state s = s\<lparr>st_state := state\<rparr>"

text \<open>The comprehension builds a dictionary: the last of equal keys wins.\<close>

definition inherit_completion ::
  "store_lib \<Rightarrow> (step_semantics \<times> uuid) list \<Rightarrow> (string \<times> uuid) list \<Rightarrow> json_object \<Rightarrow> database
    \<Rightarrow> persistence_error + database" where
  "inherit_completion lib completed new_ids step db =
     and_then (proposed_semantics lib step)
     (\<lambda>k. case map_of (rev completed) k of
        None \<Rightarrow> Inr db
      | Some event_id \<Rightarrow>
          and_then (new_step_id new_ids step)
          (\<lambda>step_id. insert_inheritance step_id event_id (db\<lparr>roadmap_steps :=
             update_where (\<lambda>s. st_id s = step_id) (set_step_state COMPLETED) (roadmap_steps db)\<rparr>)))"

definition inherit_completions ::
  "store_lib \<Rightarrow> uuid option \<Rightarrow> (string \<times> uuid) list \<Rightarrow> json_object list \<Rightarrow> database \<Rightarrow> persistence_error + database" where
  "inherit_completions lib previous new_ids steps db =
     (case previous of
        None \<Rightarrow> Inr db
      | Some roadmap_id \<Rightarrow> and_then (completed_semantics lib roadmap_id db)
          (\<lambda>completed. fold_err (inherit_completion lib completed new_ids) steps db))"

definition proposal_of :: "uuid \<Rightarrow> uuid \<Rightarrow> database \<Rightarrow> (route_proposals_row \<times> analyses_row) option" where
  "proposal_of proposal_id user_id db =
     (case [(p, a). p \<leftarrow> route_proposals db, rp_id p = proposal_id, a \<leftarrow> analyses db,
         an_id a = rp_analysis_id p \<and> an_user_id a = user_id] of [] \<Rightarrow> None | row # _ \<Rightarrow> Some row)"

definition check_proposal :: "RoadmapCreate \<Rightarrow> route_proposals_row \<times> analyses_row \<Rightarrow> persistence_error + unit" where
  "check_proposal q = (\<lambda>(p, a).
     and_then (require (rp_user_id p = rc_user_id q) (MissingRecordError ''route proposal''))
     (\<lambda>_. and_then (require (rp_profile_version p = rc_profile_version q)
         (PersistenceConflictError ''route proposal profile version''))
     (\<lambda>_. and_then (require (rp_feasibility p \<noteq> ''INFEASIBLE'') (PersistenceConflictError ''infeasible route proposal''))
     (\<lambda>_. require (an_goal_id a = rc_goal_id q) (PersistenceConflictError ''route proposal goal'')))))"

definition active_roadmap_of :: "uuid \<Rightarrow> uuid \<Rightarrow> database \<Rightarrow> uuid option" where
  "active_roadmap_of user_id goal_id db = map_option rm_id
     (one_or_none (\<lambda>r. rm_user_id r = user_id \<and> rm_goal_id r = goal_id \<and> rm_state r = ACTIVE) (roadmaps db))"

text \<open>The rows of the new roadmap, its steps and dependencies, then what it inherits.\<close>

definition insert_route ::
  "store_lib \<Rightarrow> env \<Rightarrow> roadmaps_row \<Rightarrow> json_object list \<Rightarrow> uuid option \<Rightarrow> database \<Rightarrow> persistence_error + database" where
  "insert_route lib env r steps previous db =
     and_then (insert_roadmap r db)
     (\<lambda>db. and_then (fold_err (create_step lib env (rm_id r)) (enumerate 0 steps) ([], db))
     (\<lambda>(new_ids, db). and_then (fold_err (create_dependencies new_ids (rm_id r)) steps db)
     (inherit_completions lib previous new_ids steps)))"

definition new_roadmap :: "env \<Rightarrow> RoadmapCreate \<Rightarrow> analyses_row \<Rightarrow> roadmaps_row" where
  "new_roadmap env q a = \<lparr>rm_id = rc_roadmap_id q, rm_user_id = rc_user_id q, rm_goal_id = rc_goal_id q,
     rm_proposal_id = rc_proposal_id q, rm_title = rc_title q, rm_state = DRAFT, rm_version = 1,
     rm_profile_version = rc_profile_version q, rm_release_id = an_release_id a, rm_validity = [],
     rm_created_at = e_started env\<rparr>"

definition create_roadmap :: "store_lib \<Rightarrow> env \<Rightarrow> RoadmapCreate \<Rightarrow> RoadmapSnapshot transaction" where
  "create_roadmap lib env q db =
     and_then (require_version (rc_user_id q) (rc_profile_version q) db)
     (\<lambda>_. and_then (require (map_option go_user_id (one_or_none (\<lambda>g. go_id g = rc_goal_id q) (goals db))
         = Some (rc_user_id q)) (MissingRecordError ''goal''))
     (\<lambda>_. case proposal_of (rc_proposal_id q) (rc_user_id q) db of
        None \<Rightarrow> Inl (MissingRecordError ''route proposal'')
      | Some (p, a) \<Rightarrow>
          and_then (check_proposal q (p, a))
          (\<lambda>_. and_then (insert_route lib env (new_roadmap env q a) (rp_steps p)
              (active_roadmap_of (rc_user_id q) (rc_goal_id q) db) db)
          (\<lambda>db. Inr (\<lparr>ros_roadmap_id = rc_roadmap_id q, ros_version = 1, ros_state = DRAFT\<rparr>, db)))))"

subsection \<open>Activating a roadmap\<close>

text \<open>The proposal, its analysis and the goal it was made for, all of the user.\<close>

definition activation_source ::
  "uuid \<Rightarrow> uuid \<Rightarrow> uuid \<Rightarrow> database \<Rightarrow> (route_proposals_row \<times> analyses_row \<times> goals_row) option" where
  "activation_source user_id proposal_id goal_id db =
     (case [(p, a, g). p \<leftarrow> route_proposals db, rp_id p = proposal_id \<and> rp_user_id p = user_id,
         a \<leftarrow> analyses db, an_id a = rp_analysis_id p \<and> an_user_id a = user_id,
         g \<leftarrow> goals db, go_id g = an_goal_id a \<and> go_user_id g = user_id \<and> go_id g = goal_id] of
        [] \<Rightarrow> None | row # _ \<Rightarrow> Some row)"

definition planned_for_goal :: "route_proposals_row \<times> analyses_row \<times> goals_row \<Rightarrow> bool" where
  "planned_for_goal = (\<lambda>(p, a, g). go_status g = ACTIVE \<and> go_goal_mode g = ''TARGETED'' \<and> go_occupation_id g \<noteq> None
     \<and> pinned_occupation (an_input_snapshot a) (an_results a) = go_occupation_id g)"

definition check_activation :: "store_lib \<Rightarrow> env \<Rightarrow> uuid \<Rightarrow> roadmaps_row \<Rightarrow> database \<Rightarrow> persistence_error + unit" where
  "check_activation lib env user_id r db =
     and_then (require (source_is_current (parse_source_validity (sl_iso lib) (rm_validity r)) (e_app_now env))
         (PersistenceConflictError ''roadmap source''))
     (\<lambda>_. case activation_source user_id (rm_proposal_id r) (rm_goal_id r) db of
        None \<Rightarrow> Inl (PersistenceConflictError ''route proposal'')
      | Some (p, a, g) \<Rightarrow>
          and_then (require (rp_feasibility p \<in> set ACTIVATABLE) (PersistenceConflictError ''route proposal''))
          (\<lambda>_. require (planned_for_goal (p, a, g)) (PersistenceConflictError ''roadmap goal'')))"

definition archive_others :: "uuid \<Rightarrow> uuid \<Rightarrow> database \<Rightarrow> database" where
  "archive_others user_id roadmap_id db = db\<lparr>roadmaps := update_where
     (\<lambda>r. rm_user_id r = user_id \<and> rm_state r = ACTIVE \<and> rm_id r \<noteq> roadmap_id) archive (roadmaps db)\<rparr>"

definition this_roadmap :: "RoadmapMutation \<Rightarrow> roadmaps_row \<Rightarrow> bool" where
  "this_roadmap q r \<longleftrightarrow> rm_id r = rmu_roadmap_id q \<and> rm_user_id r = rmu_user_id q
     \<and> rm_version r = rmu_expected_roadmap_version q"

definition set_roadmap :: "RoadmapMutation \<Rightarrow> roadmaps_row \<Rightarrow> roadmaps_row" where
  "set_roadmap q r = r\<lparr>rm_state := rmu_state q, rm_version := rm_version r + 1,
     rm_title := (case rmu_title q of None \<Rightarrow> rm_title r | Some t \<Rightarrow> t)\<rparr>"

definition mutate_roadmap :: "store_lib \<Rightarrow> env \<Rightarrow> RoadmapMutation \<Rightarrow> RoadmapSnapshot transaction" where
  "mutate_roadmap lib env q db =
     and_then (require_version (rmu_user_id q) (rmu_expected_profile_version q) db)
     (\<lambda>_. case one_or_none (this_roadmap q) (roadmaps db) of
        None \<Rightarrow> Inl (PersistenceConflictError ''roadmap'')
      | Some row \<Rightarrow>
          and_then (if rmu_state q = ACTIVE then check_activation lib env (rmu_user_id q) row db else Inr ())
          (\<lambda>_. let db = (if rmu_state q = ACTIVE then archive_others (rmu_user_id q) (rmu_roadmap_id q) db else db) in
            and_then (require (rowcount (this_roadmap q) (roadmaps db) = 1) (PersistenceConflictError ''roadmap''))
            (\<lambda>_. let db = db\<lparr>roadmaps := update_where (this_roadmap q) (set_roadmap q) (roadmaps db)\<rparr> in
              and_then (require (one_active_roadmap db) (IntegrityError ''roadmaps_one_active_per_user''))
              (\<lambda>_. Inr (\<lparr>ros_roadmap_id = rmu_roadmap_id q, ros_version = rmu_expected_roadmap_version q + 1,
                 ros_state = rmu_state q\<rparr>, db)))))"

subsection \<open>The automatic roadmap\<close>

text \<open>
  \<open>reconcile_automatic_roadmap\<close>: the creation and activation run in a savepoint, so a conflict or a
  missing record there leaves nothing behind; then the follow-up is settled all the same.
\<close>

definition automatic_row ::
  "uuid \<Rightarrow> database \<Rightarrow> (recompute_requests_row \<times> analyses_row \<times> route_proposals_row \<times> goals_row) option" where
  "automatic_row request_id db =
     (case [(r, a, p, g). r \<leftarrow> recompute_requests db, rr_id r = request_id,
         a \<leftarrow> analyses db, rr_resulting_analysis_id r = Some (an_id a),
         p \<leftarrow> route_proposals db, rr_proposal_id r = Some (rp_id p), g \<leftarrow> goals db, go_id g = an_goal_id a] of
        [] \<Rightarrow> None | row # _ \<Rightarrow> Some row)"

definition automatic_eligible ::
  "database \<Rightarrow> recompute_requests_row \<times> analyses_row \<times> route_proposals_row \<times> goals_row \<Rightarrow> bool" where
  "automatic_eligible db = (\<lambda>(r, a, p, g). rr_state r = REQ_READY
     \<and> profile_version (rr_user_id r) db = Some (rr_profile_version r)
     \<and> go_status g = ACTIVE \<and> go_goal_mode g = ''TARGETED'' \<and> rp_feasibility p \<in> set ACTIVATABLE
     \<and> active_roadmap_of (rr_user_id r) (go_id g) db = None)"

definition settle_request :: "uuid \<Rightarrow> database \<Rightarrow> database" where
  "settle_request request_id db = db\<lparr>recompute_requests := update_where (\<lambda>r. rr_id r = request_id)
     (\<lambda>r. r\<lparr>rr_auto_roadmap_pending := False\<rparr>) (recompute_requests db)\<rparr>"

definition oldest_roadmap :: "uuid \<Rightarrow> uuid \<Rightarrow> database \<Rightarrow> roadmaps_row option" where
  "oldest_roadmap user_id proposal_id db =
     (case sort_key (\<lambda>r. (rm_created_at r, rm_id r))
         (rows_where (\<lambda>r. rm_user_id r = user_id \<and> rm_proposal_id r = proposal_id) (roadmaps db)) of
        [] \<Rightarrow> None | r # _ \<Rightarrow> Some r)"

definition adopt_proposal ::
  "store_lib \<Rightarrow> env \<Rightarrow> string \<Rightarrow> recompute_requests_row \<Rightarrow> uuid \<Rightarrow> uuid \<Rightarrow> roadmaps_row option
    \<Rightarrow> RoadmapSnapshot transaction" where
  "adopt_proposal lib env title r goal_id proposal_id existing db =
     and_then (case existing of
         None \<Rightarrow> and_then (create_roadmap lib env \<lparr>rc_user_id = rr_user_id r, rc_roadmap_id = e_uuid env 0,
             rc_goal_id = goal_id, rc_proposal_id = proposal_id, rc_title = title,
             rc_profile_version = rr_profile_version r\<rparr> db)
           (\<lambda>(created, db). Inr ((ros_roadmap_id created, ros_version created), db))
       | Some x \<Rightarrow> Inr ((rm_id x, rm_version x), db))
     (\<lambda>((roadmap_id, version), db). mutate_roadmap lib env \<lparr>rmu_user_id = rr_user_id r, rmu_roadmap_id = roadmap_id,
         rmu_expected_roadmap_version = version, rmu_expected_profile_version = rr_profile_version r,
         rmu_state = ACTIVE, rmu_title = None\<rparr> db)"

definition reconcile_automatic_roadmap :: "store_lib \<Rightarrow> env \<Rightarrow> uuid \<Rightarrow> string \<Rightarrow> unit transaction" where
  "reconcile_automatic_roadmap lib env request_id title db =
     (case one_or_none (\<lambda>r. rr_id r = request_id) (recompute_requests db) of
        None \<Rightarrow> Inr ((), db)
      | Some request \<Rightarrow>
          if \<not> row_exists (\<lambda>u. u_id u = rr_user_id request) (users db) then Inr ((), db)
          else case automatic_row request_id db of
            None \<Rightarrow> Inr ((), db)
          | Some (r, a, p, g) \<Rightarrow>
              if \<not> rr_auto_roadmap_pending r then Inr ((), db)
              else if \<not> automatic_eligible db (r, a, p, g) then Inr ((), settle_request request_id db)
              else
                let existing = oldest_roadmap (rr_user_id r) (rp_id p) db;
                    recoverable = (case existing of None \<Rightarrow> True
                      | Some x \<Rightarrow> rm_state x = DRAFT \<and> source_is_current
                          (parse_source_validity (sl_iso lib) (rm_validity x)) (e_app_now env)) in
                if \<not> recoverable then Inr ((), settle_request request_id db)
                else (case adopt_proposal lib env title r (go_id g) (rp_id p) existing db of
                   Inr (_, db') \<Rightarrow> Inr ((), settle_request request_id db')
                 | Inl (PersistenceConflictError _) \<Rightarrow> Inr ((), settle_request request_id db)
                 | Inl (MissingRecordError _) \<Rightarrow> Inr ((), settle_request request_id db)
                 | Inl e \<Rightarrow> Inl e))"

subsection \<open>Outcomes of a completed step\<close>

record RequirementOutcomeProvenance =
  op_requirement_key :: string
  op_raw_text :: string
  op_experience_codes :: "string list"

record CanonicalCompletionOutcome =
  co_entity_id :: string
  co_raw_text :: string
  co_requirement_keys :: "string list"
  co_experience_codes :: "string list"
  co_provenance :: "RequirementOutcomeProvenance list"

definition outcome_provenance :: "RoadmapOutcome list \<Rightarrow> RequirementOutcomeProvenance list" where
  "outcome_provenance outcomes =
     map (\<lambda>x. \<lparr>op_requirement_key = ro_requirement_key x, op_raw_text = ro_raw_text x,
         op_experience_codes = sort (remdups (ro_experience_codes x))\<rparr>)
       (sort_key (\<lambda>x. (ro_requirement_key x, ro_raw_text x, sort (remdups (ro_experience_codes x)))) outcomes)"

definition canonical_completion_outcomes :: "RoadmapOutcome list \<Rightarrow> CanonicalCompletionOutcome list" where
  "canonical_completion_outcomes outcomes =
     map (\<lambda>entity_id.
         let provenance = outcome_provenance (filter (\<lambda>x. ro_entity_id x = entity_id) outcomes)
         in \<lparr>co_entity_id = entity_id, co_raw_text = op_raw_text (hd provenance),
             co_requirement_keys = map op_requirement_key provenance,
             co_experience_codes = sort (remdups (concat (map op_experience_codes provenance))),
             co_provenance = provenance\<rparr>)
       (sort (remdups (map ro_entity_id outcomes)))"

subsection \<open>The state of a step\<close>

definition STEP_TRANSITIONS :: "(StepState \<times> StepState) list" where
  "STEP_TRANSITIONS = [(TODO, IN_PROGRESS), (TODO, COMPLETED), (IN_PROGRESS, TODO), (IN_PROGRESS, COMPLETED),
     (COMPLETED, IN_PROGRESS), (COMPLETED, TODO)]"

definition strings :: "string list \<Rightarrow> JsonValue" where
  "strings xs = JSeq (map JStr xs)"

definition outcome_capability :: "env \<Rightarrow> uuid \<Rightarrow> uuid \<Rightarrow> uuid \<Rightarrow> uuid \<Rightarrow> CanonicalCompletionOutcome
    \<Rightarrow> user_capabilities_row" where
  "outcome_capability env capability_id user_id step_id event_id x = (self_reported env capability_id user_id)
     \<lparr>uc_category := ''ROADMAP_OUTCOME'', uc_raw_text := co_raw_text x, uc_entity_id := Some (co_entity_id x),
      uc_details := [(''outcome_requirement_keys'', strings (co_requirement_keys x)),
        (''experience_codes'', strings (co_experience_codes x)),
        (''outcome_provenance'', JSeq (map (\<lambda>p. JMap [(''requirement_key'', JStr (op_requirement_key p)),
            (''raw_text'', JStr (op_raw_text p)), (''experience_codes'', strings (op_experience_codes p))])
          (co_provenance x))),
        (''step_id'', JStr step_id)],
      uc_source_completion_event_id := Some event_id\<rparr>"

text \<open>\<open>ON CONFLICT DO NOTHING\<close> for the constraint on (completion event, entity).\<close>

definition grant_outcome ::
  "env \<Rightarrow> uuid \<Rightarrow> uuid \<Rightarrow> uuid \<Rightarrow> nat \<times> CanonicalCompletionOutcome \<Rightarrow> database \<Rightarrow> persistence_error + database" where
  "grant_outcome env user_id step_id event_id = (\<lambda>(n, x) db.
     let c = outcome_capability env (e_uuid env n) user_id step_id event_id x in
     if row_exists (same_completion_entity c) (user_capabilities db) then Inr db else insert_capability c db)"

definition set_inheritance :: "uuid \<Rightarrow> uuid \<Rightarrow> database \<Rightarrow> database" where
  "set_inheritance step_id event_id db = db\<lparr>step_completion_inheritances :=
     (if row_exists (\<lambda>i. si_step_id i = step_id) (step_completion_inheritances db)
      then update_where (\<lambda>i. si_step_id i = step_id) (\<lambda>i. i\<lparr>si_original_completion_event_id := event_id\<rparr>)
             (step_completion_inheritances db)
      else step_completion_inheritances db @ [\<lparr>si_step_id = step_id, si_original_completion_event_id = event_id\<rparr>])\<rparr>"

definition complete_step ::
  "store_lib \<Rightarrow> env \<Rightarrow> uuid \<Rightarrow> uuid \<Rightarrow> uuid \<Rightarrow> JsonValue list \<Rightarrow> database \<Rightarrow> persistence_error + database" where
  "complete_step lib env user_id step_id event_id raw db =
     and_then (roadmap_outcomes lib raw)
     (\<lambda>outcomes. fold_err (grant_outcome env user_id step_id event_id)
        (enumerate 3 (canonical_completion_outcomes outcomes)) (set_inheritance step_id event_id db))"

definition reverse_completion :: "uuid \<Rightarrow> database \<Rightarrow> persistence_error + database" where
  "reverse_completion step_id db =
     (case one_or_none (\<lambda>i. si_step_id i = step_id) (step_completion_inheritances db) of
        None \<Rightarrow> Inl (PersistenceConflictError ''step completion lineage'')
      | Some i \<Rightarrow> Inr (db\<lparr>user_capabilities := update_where
          (\<lambda>c. uc_source_completion_event_id c = Some (si_original_completion_event_id i)) revoke (user_capabilities db)\<rparr>))"

definition write_step_state :: "StepStateMutation \<Rightarrow> database \<Rightarrow> persistence_error + database" where
  "write_step_state q db =
     (let this = (\<lambda>s. st_id s = sm_step_id q \<and> st_roadmap_id s = sm_roadmap_id q) in
      and_then (require (rowcount this (roadmap_steps db) = 1) (MissingRecordError ''roadmap step''))
        (\<lambda>_. Inr (db\<lparr>roadmap_steps := update_where this (set_step_state (sm_state q)) (roadmap_steps db),
           roadmaps := update_where (\<lambda>r. rm_id r = sm_roadmap_id q) (\<lambda>r. r\<lparr>rm_version := rm_version r + 1\<rparr>)
             (roadmaps db)\<rparr>)))"

definition step_event_kind :: "bool \<Rightarrow> StepState \<Rightarrow> string" where
  "step_event_kind reversing state = (if reversing then ''STEP_COMPLETION_REVERSED''
     else if state = COMPLETED then ''STEP_COMPLETED'' else ''STEP_STATE_UPDATED'')"

text \<open>After the checks: the new state, what it grants or revokes, its event and the recomputation.\<close>

definition apply_transition ::
  "store_lib \<Rightarrow> env \<Rightarrow> StepStateMutation \<Rightarrow> uuid \<Rightarrow> roadmap_steps_row \<Rightarrow> database \<Rightarrow> persistence_error + database" where
  "apply_transition lib env q goal_id step db =
     (let user = sm_user_id q; version = sm_expected_profile_version q + 1; event_id = e_uuid env 0;
          reversing = (st_state step = COMPLETED \<and> sm_state q \<in> {IN_PROGRESS, TODO}) in
      and_then (write_step_state q db)
      (\<lambda>db. and_then (if reversing then reverse_completion (sm_step_id q) db else Inr db)
      (\<lambda>db. and_then (append_event event_id user (sm_step_id q) version
          (step_event_kind reversing (sm_state q)) [(''outcomes'', JSeq (st_outcomes step))] db)
      (\<lambda>db. and_then (if sm_state q = COMPLETED
          then complete_step lib env user (sm_step_id q) event_id (st_outcomes step) db else Inr db)
      (\<lambda>db. and_then (enqueue_for_goal (sl_context lib) env user version event_id goal_id
          (e_uuid env 1) (e_uuid env 2) db)
      (\<lambda>(_, db). Inr db))))))"

definition mutate_step_state :: "store_lib \<Rightarrow> env \<Rightarrow> StepStateMutation \<Rightarrow> RoadmapSnapshot transaction" where
  "mutate_step_state lib env q db =
     and_then (bump_profile env (sm_user_id q) (sm_expected_profile_version q) db)
     (\<lambda>db. case one_or_none (\<lambda>r. rm_id r = sm_roadmap_id q \<and> rm_user_id r = sm_user_id q
             \<and> rm_version r = sm_expected_roadmap_version q) (roadmaps db) of
        None \<Rightarrow> Inl (PersistenceConflictError ''active roadmap'')
      | Some roadmap \<Rightarrow>
          and_then (require (rm_state roadmap = ACTIVE) (PersistenceConflictError ''active roadmap''))
          (\<lambda>_. case one_or_none (\<lambda>s. st_id s = sm_step_id q \<and> st_roadmap_id s = sm_roadmap_id q) (roadmap_steps db) of
             None \<Rightarrow> Inl (MissingRecordError ''roadmap step'')
           | Some step \<Rightarrow>
               and_then (require ((st_state step, sm_state q) \<in> set STEP_TRANSITIONS)
                   (PersistenceConflictError ''step state transition''))
               (\<lambda>_. and_then (apply_transition lib env q (rm_goal_id roadmap) step db)
               (\<lambda>db. Inr (\<lparr>ros_roadmap_id = sm_roadmap_id q,
                  ros_version = sm_expected_roadmap_version q + 1, ros_state = ACTIVE\<rparr>, db)))))"

end
