(* ===== verification/Goal_Deletion.thy ===== *)
theory Goal_Deletion
  imports Roadmap_State
begin

section \<open>Deleting a goal\<close>

text \<open>
  \<open>src/jobtology_be/infrastructure/persistence/goal_deletion.py\<close>: the ids of everything derived from
  the goal are read first, then deleted child before parent; foreign keys are checked after every
  statement. Events and account-wide capabilities stay.
\<close>

record goal_scope =
  gx_analyses :: "uuid list"
  gx_proposals :: "uuid list"
  gx_traces :: "uuid list"
  gx_roadmaps :: "uuid list"
  gx_steps :: "uuid list"
  gx_requests :: "uuid list"

definition context_goal :: "env \<Rightarrow> recompute_contexts_row \<Rightarrow> string option" where
  "context_goal env c = astext (e_json_text env) (map_of (cx_payload c) ''goal_id'')"

text \<open>An event about the goal, and the requests it triggered unless their context names a goal.\<close>

definition goal_event :: "env \<Rightarrow> uuid \<Rightarrow> uuid \<Rightarrow> uuid list \<Rightarrow> user_state_events_row \<Rightarrow> bool" where
  "goal_event env user goal steps e \<longleftrightarrow> ev_user_id e = user
     \<and> (ev_aggregate_id e = goal \<or> ev_aggregate_id e \<in> set steps
        \<or> astext (e_json_text env) (map_of (ev_payload e) ''goal_id'') = Some goal)"

definition goal_request ::
  "env \<Rightarrow> uuid \<Rightarrow> uuid \<Rightarrow> uuid list \<Rightarrow> uuid list \<Rightarrow> uuid list \<Rightarrow> database \<Rightarrow> recompute_requests_row \<Rightarrow> bool" where
  "goal_request env user goal analysis_ids proposal_ids steps db r \<longleftrightarrow> rr_user_id r = user
     \<and> (is_among analysis_ids (rr_resulting_analysis_id r) \<or> is_among proposal_ids (rr_proposal_id r)
        \<or> row_exists (\<lambda>c. cx_request_id c = rr_id r \<and> context_goal env c = Some goal) (recompute_contexts db)
        \<or> \<not> row_exists (\<lambda>c. cx_request_id c = rr_id r \<and> context_goal env c \<noteq> None) (recompute_contexts db)
          \<and> row_exists (\<lambda>e. ev_id e = rr_trigger_event_id r \<and> goal_event env user goal steps e) (user_state_events db))"

definition goal_scope_of :: "env \<Rightarrow> uuid \<Rightarrow> uuid \<Rightarrow> database \<Rightarrow> goal_scope" where
  "goal_scope_of env user goal db =
     (let analysis_ids = map an_id (rows_where (\<lambda>a. an_goal_id a = goal \<and> an_user_id a = user) (analyses db));
          proposals_of = rows_where (\<lambda>p. rp_analysis_id p \<in> set analysis_ids \<and> rp_user_id p = user) (route_proposals db);
          maps = map rm_id (rows_where (\<lambda>r. rm_goal_id r = goal \<and> rm_user_id r = user) (roadmaps db));
          steps = map st_id (rows_where (\<lambda>s. st_roadmap_id s \<in> set maps) (roadmap_steps db))
      in \<lparr>gx_analyses = analysis_ids, gx_proposals = map rp_id proposals_of,
          gx_traces = map rp_decision_trace_id proposals_of, gx_roadmaps = maps, gx_steps = steps,
          gx_requests = map rr_id (rows_where
            (goal_request env user goal analysis_ids (map rp_id proposals_of) steps db) (recompute_requests db))\<rparr>)"

definition goal_job :: "env \<Rightarrow> uuid list \<Rightarrow> outbox_jobs_row \<Rightarrow> bool" where
  "goal_job env requests j \<longleftrightarrow> is_among requests (jb_recompute_request_id j)
     \<or> jb_recompute_request_id j = None \<and> jb_kind j = ''RECOMPUTE''
       \<and> is_among requests (astext (e_json_text env) (map_of (jb_payload j) ''recompute_request_id''))"

definition goal_statements :: "env \<Rightarrow> goal_scope \<Rightarrow> (database \<Rightarrow> database) list" where
  "goal_statements env x =
    [\<lambda>db. db\<lparr>step_completion_inheritances := delete_where (\<lambda>i. si_step_id i \<in> set (gx_steps x)) (step_completion_inheritances db)\<rparr>,
     \<lambda>db. db\<lparr>step_dependencies := delete_where (\<lambda>d. sd_roadmap_id d \<in> set (gx_roadmaps x)) (step_dependencies db)\<rparr>,
     \<lambda>db. db\<lparr>roadmap_plan_overrides := delete_where (\<lambda>v. ov_roadmap_id v \<in> set (gx_roadmaps x)) (roadmap_plan_overrides db)\<rparr>,
     \<lambda>db. db\<lparr>roadmap_steps := delete_where (\<lambda>s. st_roadmap_id s \<in> set (gx_roadmaps x)) (roadmap_steps db)\<rparr>,
     \<lambda>db. db\<lparr>roadmaps := delete_where (\<lambda>r. rm_id r \<in> set (gx_roadmaps x)) (roadmaps db)\<rparr>,
     \<lambda>db. db\<lparr>outbox_jobs := delete_where (goal_job env (gx_requests x)) (outbox_jobs db)\<rparr>,
     \<lambda>db. db\<lparr>recompute_contexts := delete_where (\<lambda>c. cx_request_id c \<in> set (gx_requests x)) (recompute_contexts db)\<rparr>,
     \<lambda>db. db\<lparr>recompute_requests := delete_where (\<lambda>r. rr_id r \<in> set (gx_requests x)) (recompute_requests db)\<rparr>,
     \<lambda>db. db\<lparr>route_proposals := delete_where (\<lambda>p. rp_id p \<in> set (gx_proposals x)) (route_proposals db)\<rparr>,
     \<lambda>db. db\<lparr>analyses := delete_where (\<lambda>a. an_id a \<in> set (gx_analyses x)) (analyses db)\<rparr>]"

text \<open>A legacy trace may be shared by another proposal; it is retained then.\<close>

definition orphan_trace :: "uuid \<Rightarrow> goal_scope \<Rightarrow> database \<Rightarrow> calculation_traces_row \<Rightarrow> bool" where
  "orphan_trace user x db t \<longleftrightarrow> ct_id t \<in> set (gx_traces x) \<and> ct_user_id t = user
     \<and> \<not> row_exists (\<lambda>p. rp_decision_trace_id p = ct_id t) (route_proposals db)"

definition goal_references :: "uuid \<Rightarrow> goal_scope \<Rightarrow> uuid list \<Rightarrow> (string \<times> uuid list) list" where
  "goal_references goal x deleted_traces =
     [(''goal_id'', [goal]), (''analysis_id'', gx_analyses x), (''resulting_analysis_id'', gx_analyses x),
      (''proposal_id'', gx_proposals x), (''decision_trace_id'', deleted_traces), (''roadmap_id'', gx_roadmaps x),
      (''recompute_request_id'', gx_requests x)]"

definition names_goal :: "env \<Rightarrow> (string \<times> uuid list) list \<Rightarrow> idempotency_records_row \<Rightarrow> bool" where
  "names_goal env references r \<longleftrightarrow> list_ex (\<lambda>(field, known).
     is_among known (astext (e_json_text env) (Option.bind (id_response r) (\<lambda>m. map_of m field)))) references"

definition final_goal_statements :: "env \<Rightarrow> uuid \<Rightarrow> uuid \<Rightarrow> goal_scope \<Rightarrow> uuid list \<Rightarrow> (database \<Rightarrow> database) list" where
  "final_goal_statements env user goal x deleted_traces =
    [\<lambda>db. db\<lparr>calculation_traces := delete_where (orphan_trace user x db) (calculation_traces db)\<rparr>,
     \<lambda>db. db\<lparr>idempotency_records := delete_where (\<lambda>r. id_user_id r = user
        \<and> names_goal env (goal_references goal x deleted_traces) r) (idempotency_records db)\<rparr>,
     \<lambda>db. db\<lparr>goals := delete_where (\<lambda>g. go_id g = goal) (goals db)\<rparr>]"

definition erase_goal :: "env \<Rightarrow> uuid \<Rightarrow> uuid \<Rightarrow> database \<Rightarrow> persistence_error + database" where
  "erase_goal env user goal db =
     (let x = goal_scope_of env user goal db in
      and_then (run_statements (goal_statements env x) db)
      (\<lambda>db. let deleted_traces = map ct_id (rows_where (orphan_trace user x db) (calculation_traces db)) in
        run_statements (final_goal_statements env user goal x deleted_traces) db))"

definition delete_goal :: "context_lib \<Rightarrow> env \<Rightarrow> GoalDelete \<Rightarrow> ProfileSnapshot transaction" where
  "delete_goal lib env q db =
     (let user = gd_user_id q; goal = gd_goal_id q; next_version = gd_expected_profile_version q + 1;
          analysis_ids = gx_analyses (goal_scope_of env user goal db) in
      and_then (require (row_exists (\<lambda>g. go_id g = goal \<and> go_user_id g = user) (goals db)) (MissingRecordError ''goal''))
      (\<lambda>_. and_then (require_version user (gd_expected_profile_version q) db)
      (\<lambda>_. and_then (erase_goal env user goal db)
      (\<lambda>db. let db = db\<lparr>profiles := update_where (\<lambda>p. p_user_id p = user) (\<lambda>p. p\<lparr>p_version := next_version,
              p_updated_at := e_app_now env, p_latest_analysis_id := (if is_among analysis_ids (p_latest_analysis_id p)
                then None else p_latest_analysis_id p)\<rparr>) (profiles db)\<rparr> in
        and_then (append_event (e_uuid env 0) user goal next_version ''GOAL_DELETED'' [] db)
        (\<lambda>db. and_then (case one_or_none (\<lambda>g. go_user_id g = user \<and> go_status g = ACTIVE) (goals db) of
             None \<Rightarrow> Inr ((), db)
           | Some g \<Rightarrow> enqueue_for_goal lib env user next_version (e_uuid env 0) (go_id g) (e_uuid env 1) (e_uuid env 2) db)
        (\<lambda>(_, db). Inr (\<lparr>ps_user_id = user, ps_version = next_version\<rparr>, db)))))))"

end
