(* ===== verification/Idempotency_Guarantees.thy ===== *)
theory Idempotency_Guarantees
  imports Goal_Deletion
begin

section \<open>Guarantees of idempotent requests\<close>

text \<open>
  Runs of everything that reads or writes \<open>idempotency_records\<close>: acquisitions and completions of keys,
  executed operations, the retention job, the deletion of goals and the erasure of accounts. A key is
  granted at most once in its lifetime and a stored response is replayed exactly, with the erasures as
  the only exceptions.
\<close>

subsection \<open>What the erasures remove\<close>

lemma names_goal_response: "names_goal env references r \<Longrightarrow> id_response r \<noteq> None"
  by (cases "id_response r") (auto simp: names_goal_def list_ex_iff is_among_def)

lemma erase_goal_records:
  assumes "erase_goal env user goal db = Inr db'"
  shows "\<exists>references. idempotency_records db'
    = delete_where (\<lambda>r. id_user_id r = user \<and> names_goal env references r) (idempotency_records db)"
proof -
  let ?x = "goal_scope_of env user goal db"
  from assms obtain db1 traces where 1: "run_statements (goal_statements env ?x) db = Inr db1"
    and 2: "run_statements (final_goal_statements env user goal ?x traces) db1 = Inr db'"
    by (auto simp: erase_goal_def Let_def and_then_Inr_iff)
  have "idempotency_records db'
      = delete_where (\<lambda>r. id_user_id r = user \<and> names_goal env (goal_references goal ?x traces) r) (idempotency_records db)"
    unfolding run_statements_Inr [OF 2] run_statements_Inr [OF 1]
    by (simp add: goal_statements_def final_goal_statements_def)
  then show ?thesis ..
qed

lemma queue_only_records: "queue_only db db' \<Longrightarrow> idempotency_records db' = idempotency_records db"
  unfolding queue_only_def by (drule arg_cong [of _ _ idempotency_records]) simp

lemma delete_goal_records:
  assumes "delete_goal lib env q db = Inr (x, db')"
  shows "\<exists>references. idempotency_records db'
    = delete_where (\<lambda>r. id_user_id r = gd_user_id q \<and> names_goal env references r) (idempotency_records db)"
proof -
  let ?u = "gd_user_id q" and ?v = "gd_expected_profile_version q"
  from assms obtain db1 ps db2 z where 1: "erase_goal env ?u (gd_goal_id q) db = Inr db1"
    and 2: "append_event (e_uuid env 0) ?u (gd_goal_id q) (?v + 1) ''GOAL_DELETED'' [] (db1\<lparr>profiles := ps\<rparr>) = Inr db2"
    and 3: "(case one_or_none (\<lambda>g. go_user_id g = ?u \<and> go_status g = ACTIVE) (goals db2) of None \<Rightarrow> Inr ((), db2)
       | Some g \<Rightarrow> enqueue_for_goal lib env ?u (?v + 1) (e_uuid env 0) (go_id g) (e_uuid env 1) (e_uuid env 2) db2) = Inr (z, db')"
    unfolding delete_goal_def Let_def and_then_Inr_iff by (elim exE conjE) (auto split: prod.splits)
  have "idempotency_records db' = idempotency_records db2"
    using 3 by (auto split: option.splits dest: enqueue_queue_only(2) queue_only_records)
  moreover have "idempotency_records db2 = idempotency_records db1"
    using 2 by (auto simp: append_event_def insert_event_def err_simps)
  ultimately show ?thesis using erase_goal_records [OF 1] by simp
qed

lemma delete_account_records:
  assumes "delete_account user db = Inr db'" and "db' \<noteq> db"
  shows "idempotency_records db' = delete_where (\<lambda>r. id_user_id r = user) (idempotency_records db)"
proof -
  have "db' = foldl (\<lambda>d s. s d) db (erasing_statements user)"
    using assms run_statements_Inr by (auto simp: delete_account_def split: if_splits)
  then show ?thesis by (simp add: erasing_statements_def delete_user_def)
qed

text \<open>
  The operation of a request leaves the records alone, unless it deletes a goal: then it removes
  responses of that user that name the goal. A pending record has no response and stays.
\<close>

definition may_erase :: "uuid option \<Rightarrow> 'a transaction \<Rightarrow> bool" where
  "may_erase user operation \<longleftrightarrow> (\<forall>db x db'. operation db = Inr (x, db')
     \<longrightarrow> (\<exists>P. idempotency_records db' = delete_where P (idempotency_records db)
          \<and> (\<forall>r. P r \<longrightarrow> user = Some (id_user_id r) \<and> id_response r \<noteq> None)))"

lemma may_eraseI:
  assumes "\<And>db x db'. operation db = Inr (x, db') \<Longrightarrow> idempotency_records db' = idempotency_records db"
  shows "may_erase user operation"
  unfolding may_erase_def
proof (intro allI impI)
  fix db x db' assume "operation db = Inr (x, db')"
  from assms [OF this] show "\<exists>P. idempotency_records db' = delete_where P (idempotency_records db)
      \<and> (\<forall>r. P r \<longrightarrow> user = Some (id_user_id r) \<and> id_response r \<noteq> None)"
    by (intro exI [of _ "\<lambda>_. False"]) (simp add: delete_where_def)
qed

lemma delete_goal_may_erase:
  "may_erase (Some (gd_user_id q)) (\<lambda>db. and_then (delete_goal lib env q db) (\<lambda>(x, db). Inr (response x, db)))"
  unfolding may_erase_def
proof (intro allI impI)
  fix db y db' assume "and_then (delete_goal lib env q db) (\<lambda>(x, db). Inr (response x, db)) = Inr (y, db')"
  then obtain x where "delete_goal lib env q db = Inr (x, db')" by (auto simp: err_simps)
  from delete_goal_records [OF this] obtain references where "idempotency_records db'
      = delete_where (\<lambda>r. id_user_id r = gd_user_id q \<and> names_goal env references r) (idempotency_records db)" ..
  then show "\<exists>P. idempotency_records db' = delete_where P (idempotency_records db)
      \<and> (\<forall>r. P r \<longrightarrow> Some (gd_user_id q) = Some (id_user_id r) \<and> id_response r \<noteq> None)"
    using names_goal_response
    by (intro exI [of _ "\<lambda>r. id_user_id r = gd_user_id q \<and> names_goal env references r"]) auto
qed

lemma delete_record:
  assumes ok: "records_ok db" and "idempotency_records db' = delete_where P (idempotency_records db)"
  shows "records_ok db'" and "record_of i db = Some r \<Longrightarrow> \<not> P r \<Longrightarrow> record_of i db' = Some r"
proof -
  show ok': "records_ok db'" using ok by (simp add: assms(2) keyed_delete)
  show "record_of i db = Some r \<Longrightarrow> \<not> P r \<Longrightarrow> record_of i db' = Some r"
    by (simp add: record_of_iff [OF ok] record_of_iff [OF ok'] assms(2) set_delete_where)
qed

subsection \<open>The step relation\<close>

datatype idem_action =
    Acquire IdempotencyAcquire
  | Complete IdempotencyComplete
  | Execute IdempotencyAcquire "uuid option"
  | Retention nat
  | GoalErasure uuid
  | AccountErasure uuid
  | OtherTables

fun completes :: "idem_action \<Rightarrow> idempotency_identity option" where
  "completes (Complete c) = Some (requested (ic_request c))"
| "completes _ = None"

fun goal_erased :: "idem_action \<Rightarrow> uuid option" where
  "goal_erased (GoalErasure user) = Some user"
| "goal_erased (Execute q user) = user"
| "goal_erased _ = None"

fun account_erased :: "idem_action \<Rightarrow> uuid option" where
  "account_erased (AccountErasure user) = Some user"
| "account_erased _ = None"

text \<open>
  A step is one committed transaction. The label of an executed operation names the user of whose goal
  it deletes, if it does. A transaction of \<open>OtherTables\<close> neither deletes a goal or an account nor
  handles a key.
\<close>

inductive idem_step :: "env \<times> idem_action \<Rightarrow> database \<Rightarrow> database \<Rightarrow> bool" where
  step_acquire: "store_acquire g env q db = Inr (s, db') \<Longrightarrow> idem_step (env, Acquire q) db db'"
| step_complete: "complete_idempotency c db = Inr (u, db') \<Longrightarrow> idem_step (env, Complete c) db db'"
| step_execute: "execute_idempotency g env q status operation db = Inr (s, db') \<Longrightarrow> may_erase user operation
    \<Longrightarrow> idem_step (env, Execute q user) db db'"
| step_retention: "idem_step (env, Retention n) db (prune_idempotency_records env n db)"
| step_delete_goal: "delete_goal lib env d db = Inr (x, db') \<Longrightarrow> idem_step (env, GoalErasure (gd_user_id d)) db db'"
| step_erase: "delete_account user db = Inr db' \<Longrightarrow> idem_step (env, AccountErasure user) db db'"
| step_other: "idempotency_records db' = idempotency_records db \<Longrightarrow> idem_step (env, OtherTables) db db'"

abbreviation idem_run :: "(env \<times> idem_action) list \<Rightarrow> database \<Rightarrow> database \<Rightarrow> bool" where
  "idem_run \<equiv> run idem_step"

text \<open>The records a step may remove although they have not expired.\<close>

definition erases_record :: "idem_action \<Rightarrow> idempotency_records_row \<Rightarrow> bool" where
  "erases_record act r \<longleftrightarrow> account_erased act = Some (id_user_id r)
     \<or> goal_erased act = Some (id_user_id r) \<and> id_response r \<noteq> None"

lemma store_acquireD: "store_acquire g env q db = Inr (s, db') \<Longrightarrow> acquire_idempotency env q db = Inr (s, db')"
  by (auto simp: store_acquire_def err_simps)

text \<open>An executed operation: the record it acquires, runs under and completes.\<close>

lemma execute_fresh:
  assumes ok: "records_ok db" and run: "execute_idempotency g env q status operation db = Inr (s, db')"
    and frame: "may_erase user operation"
  obtains db1 where "acquire_idempotency env q db = Inr (s, db1)" "db' = db1" "is_response_status s \<noteq> None"
  | db1 db2 response where
      "acquire_idempotency env q db = Inr (\<lparr>is_response_status = None, is_response = None\<rparr>, db1)"
      "operation db1 = Inr (response, db2)" "records_ok db2"
      "\<And>i r. record_of i db1 = Some r \<Longrightarrow> \<not> (user = Some (id_user_id r) \<and> id_response r \<noteq> None)
        \<Longrightarrow> record_of i db2 = Some r"
      "complete_idempotency \<lparr>ic_request = q, ic_response_status = status, ic_response = response\<rparr> db2
         = Inr ((), db')"
      "s = \<lparr>is_response_status = Some status, is_response = Some response\<rparr>"
proof -
  from run obtain s1 db1 where acq: "acquire_idempotency env q db = Inr (s1, db1)"
    and rest: "(if is_response_status s1 \<noteq> None then Inr (s1, db1)
         else and_then (operation db1)
           (\<lambda>(response, db). and_then (complete_idempotency \<lparr>ic_request = q,
                ic_response_status = status, ic_response = response\<rparr> db)
              (\<lambda>(_, db). Inr (\<lparr>is_response_status = Some status,
                 is_response = Some response\<rparr>, db)))) = Inr (s, db')"
    by (auto simp: execute_idempotency_def store_acquire_def err_simps)
  show thesis
  proof (cases "is_response_status s1 = None")
    case False
    with rest acq that(1) show thesis by simp
  next
    case True
    with rest obtain response db2 where op: "operation db1 = Inr (response, db2)"
      and comp: "complete_idempotency \<lparr>ic_request = q, ic_response_status = status, ic_response = response\<rparr> db2
         = Inr ((), db')"
      and s: "s = \<lparr>is_response_status = Some status, is_response = Some response\<rparr>"
      by (auto simp: err_simps)
    from frame op obtain P where P: "idempotency_records db2 = delete_where P (idempotency_records db1)"
      "\<And>r. P r \<Longrightarrow> user = Some (id_user_id r) \<and> id_response r \<noteq> None"
      unfolding may_erase_def by blast
    note kept = delete_record [OF acquire_cases(1) [OF ok acq] P(1)]
    have s1: "s1 = \<lparr>is_response_status = None, is_response = None\<rparr>"
      using acq True
      by (auto simp: acquire_idempotency_def Let_def err_simps split: option.splits if_splits)
    show thesis
    proof (rule that(2))
      show "acquire_idempotency env q db = Inr (\<lparr>is_response_status = None, is_response = None\<rparr>, db1)"
        using acq s1 by simp
      show "records_ok db2" by (rule kept(1))
      show "record_of i db2 = Some r" if "record_of i db1 = Some r"
        "\<not> (user = Some (id_user_id r) \<and> id_response r \<noteq> None)" for i r
        using that kept(2) P(2) by blast
    qed (fact op comp s)+
  qed
qed

text \<open>
  One step keeps every record with its hash and lifetime, unless the record is completed and expired or
  its user erases the goal or the account; only a completion of its key changes it.
\<close>

definition keeps_record :: "idem_action \<Rightarrow> idempotency_identity \<Rightarrow> idempotency_records_row \<Rightarrow> database \<Rightarrow> bool" where
  "keeps_record act i r db' \<longleftrightarrow> (\<exists>r'. record_of i db' = Some r' \<and> id_request_hash r' = id_request_hash r
     \<and> id_expires_at r' = id_expires_at r \<and> (completes act \<noteq> Some i \<longrightarrow> r' = r))"

lemma keeps_recordI: "record_of i db' = Some r \<Longrightarrow> keeps_record act i r db'"
  by (simp add: keeps_record_def)

lemma execute_keeps_record:
  assumes ok: "records_ok db" and run: "execute_idempotency g env q status operation db = Inr (s, db')"
    and frame: "may_erase user operation"
  shows "records_ok db'"
    and "record_of i db = Some r \<Longrightarrow> \<not> expired_in env r
      \<Longrightarrow> \<not> (user = Some (id_user_id r) \<and> id_response r \<noteq> None) \<Longrightarrow> record_of i db' = Some r"
proof -
  have "records_ok db' \<and> (record_of i db = Some r \<longrightarrow> \<not> expired_in env r
      \<longrightarrow> \<not> (user = Some (id_user_id r) \<and> id_response r \<noteq> None) \<longrightarrow> record_of i db' = Some r)"
  proof (rule execute_fresh [OF ok run frame])
    fix db1 assume "acquire_idempotency env q db = Inr (s, db1)" "db' = db1"
    then show ?thesis using acquire_cases(1,3) [OF ok] by blast
  next
    fix db1 db2 response
    let ?c = "\<lparr>ic_request = q, ic_response_status = status, ic_response = response\<rparr>"
    assume acq: "acquire_idempotency env q db = Inr (\<lparr>is_response_status = None, is_response = None\<rparr>, db1)"
      and ok2: "records_ok db2" and comp: "complete_idempotency ?c db2 = Inr ((), db')"
      and kept: "\<And>i r. record_of i db1 = Some r \<Longrightarrow> \<not> (user = Some (id_user_id r) \<and> id_response r \<noteq> None)
        \<Longrightarrow> record_of i db2 = Some r"
    show ?thesis
    proof (intro conjI impI)
      show "records_ok db'" using complete_cases(1) [OF ok2 comp] .
      assume r: "record_of i db = Some r" and live: "\<not> expired_in env r"
        and spared: "\<not> (user = Some (id_user_id r) \<and> id_response r \<noteq> None)"
      have "i \<noteq> requested q" using acquire_cases(4) [OF ok acq] r live by auto
      moreover have "record_of i db2 = Some r" using kept [OF acquire_cases(3) [OF ok acq r live] spared] .
      ultimately show "record_of i db' = Some r" using complete_cases(3) [OF ok2 comp, of i] by simp
    qed
  qed
  then show "records_ok db'" and "record_of i db = Some r \<Longrightarrow> \<not> expired_in env r
      \<Longrightarrow> \<not> (user = Some (id_user_id r) \<and> id_response r \<noteq> None) \<Longrightarrow> record_of i db' = Some r" by blast+
qed

lemma idem_step_record:
  assumes "idem_step (env, act) db db'" and ok: "records_ok db"
  shows "records_ok db'"
    and "record_of i db = Some r \<Longrightarrow> \<not> expired_in env r \<Longrightarrow> \<not> erases_record act r \<Longrightarrow> keeps_record act i r db'"
proof -
  have "records_ok db' \<and> (record_of i db = Some r \<longrightarrow> \<not> expired_in env r \<longrightarrow> \<not> erases_record act r
      \<longrightarrow> keeps_record act i r db')"
    using assms(1)
  proof (cases rule: idem_step.cases)
    case (step_acquire g q s)
    then show ?thesis using acquire_cases(1,3) [OF ok store_acquireD] keeps_recordI by blast
  next
    case (step_complete c u)
    have "keeps_record act i r db'" if r: "record_of i db = Some r"
      using complete_cases(3,4) [OF ok step_complete(2)] r step_complete(1)
      by (cases "i = requested (ic_request c)") (auto simp: keeps_record_def)
    then show ?thesis using complete_cases(1) [OF ok step_complete(2)] by blast
  next
    case (step_execute g q status operation s user)
    then show ?thesis
      using execute_keeps_record(1) [OF ok step_execute(2,3)]
        keeps_recordI [OF execute_keeps_record(2) [OF ok step_execute(2,3), of i r]]
      by (simp add: erases_record_def)
  next
    case (step_retention n)
    then show ?thesis
      using prune_keyed [OF ok, of env n] prune_record(2) [OF ok, of i r env n] by (auto intro: keeps_recordI)
  next
    case (step_delete_goal lib d x)
    from delete_goal_records [OF step_delete_goal(2)] obtain references where gone: "idempotency_records db'
        = delete_where (\<lambda>r. id_user_id r = gd_user_id d \<and> names_goal env references r) (idempotency_records db)" ..
    show ?thesis
      using delete_record(1) [OF ok gone] keeps_recordI [OF delete_record(2) [OF ok gone, of i r]]
        step_delete_goal(1) names_goal_response [of env references r]
      unfolding erases_record_def by fastforce
  next
    case (step_erase user)
    show ?thesis
    proof (cases "db' = db")
      case False
      note gone = delete_account_records [OF step_erase(2) False]
      show ?thesis
        using delete_record(1) [OF ok gone] keeps_recordI [OF delete_record(2) [OF ok gone, of i r]] step_erase(1)
        by (auto simp: erases_record_def)
    qed (use ok in \<open>simp add: keeps_recordI\<close>)
  next
    case step_other
    then have "record_of i db' = record_of i db" "records_ok db'" using ok by (simp_all add: record_of_def)
    then show ?thesis by (simp add: keeps_recordI)
  qed
  then show "records_ok db'" and "record_of i db = Some r \<Longrightarrow> \<not> expired_in env r \<Longrightarrow> \<not> erases_record act r
      \<Longrightarrow> keeps_record act i r db'" by blast+
qed

interpretation records: invariant_system idem_step records_ok
proof
  fix l db db' assume "idem_step l db db'" "records_ok db"
  then show "records_ok db'" using idem_step_record(1) [of "fst l" "snd l" db db'] by simp
qed

subsection \<open>Runs\<close>

lemma idem_run_record:
  assumes "idem_run tr db db'" and "records_ok db" and "record_of i db = Some r"
    and "\<And>e act. (e, act) \<in> set tr \<Longrightarrow> \<not> expired_in e r \<and> \<not> erases_record act r \<and> completes act \<noteq> Some i"
  shows "records_ok db' \<and> record_of i db' = Some r"
  using assms
proof (induction rule: run.induct)
  case (run_step l db db1 tr db2)
  obtain env act where l: "l = (env, act)" by (cases l)
  have "records_ok db1 \<and> record_of i db1 = Some r"
    using idem_step_record(1) [OF run_step.hyps(1) [unfolded l] run_step.prems(1)]
      idem_step_record(2) [OF run_step.hyps(1) [unfolded l] run_step.prems(1) run_step.prems(2)]
      run_step.prems(3) [of env act] l by (auto simp: keeps_record_def)
  with run_step.IH run_step.prems(3) show ?case by auto
qed simp

lemma identity_user: "identity_of r = i \<Longrightarrow> id_user_id r = fst i"
  by (auto simp: identity_of_def)

text \<open>A record the run has completed may expire, or go with a goal; a pending one only with the account.\<close>

lemma idem_run_lifetime:
  assumes "idem_run tr db db'" and "records_ok db" and "record_of i db = Some r"
    and "id_response_status r \<noteq> None \<or> id_response r \<noteq> None \<longrightarrow> completed"
  shows "records_ok db' \<and> ((\<exists>r'. record_of i db' = Some r' \<and> id_expires_at r' = id_expires_at r
        \<and> (id_response_status r' \<noteq> None \<longrightarrow> completed \<or> Some i \<in> (completes \<circ> snd) ` set tr))
      \<or> (completed \<or> Some i \<in> (completes \<circ> snd) ` set tr)
        \<and> ((\<exists>e \<in> fst ` set tr. id_expires_at r \<le> e_started e \<or> id_expires_at r \<le> e_app_now e)
           \<or> Some (fst i) \<in> (goal_erased \<circ> snd) ` set tr)
      \<or> Some (fst i) \<in> (account_erased \<circ> snd) ` set tr)"
  using assms
proof (induction arbitrary: r completed rule: run.induct)
  case (run_step l db db1 tr db2)
  obtain env act where l: "l = (env, act)" by (cases l)
  note step = idem_step_record [OF run_step.hyps(1) [unfolded l] run_step.prems(1)]
  have ok2: "records_ok db2" using run_step.hyps(2) step(1) by (rule records.run_inv)
  have user: "id_user_id r = fst i"
    using run_step.prems(2) identity_user by (auto simp: record_of_iff [OF run_step.prems(1)])
  consider "expired_in env r" | "erases_record act r"
    | r' where "record_of i db1 = Some r'" "id_expires_at r' = id_expires_at r" "completes act \<noteq> Some i \<longrightarrow> r' = r"
    using step(2) [OF run_step.prems(2)] by (auto simp: keeps_record_def)
  then show ?case
  proof cases
    case 1
    then show ?thesis using ok2 run_step.prems(3) by (auto simp: expired_in_def l)
  next
    case 2
    then show ?thesis using ok2 run_step.prems(3) user by (auto simp: erases_record_def l)
  next
    case (3 r')
    have "id_response_status r' \<noteq> None \<or> id_response r' \<noteq> None \<longrightarrow> completed \<or> completes act = Some i"
      using 3(3) run_step.prems(3) by auto
    from run_step.IH [OF step(1) 3(1) this] 3(2) show ?thesis by (auto simp: l)
  qed
qed auto

lemma execute_record:
  assumes ok: "records_ok db" and run: "execute_idempotency g env q status operation db = Inr (s, db')"
    and frame: "may_erase user operation"
  shows "records_ok db'" and "\<exists>r. record_of (requested q) db' = Some r \<and> id_request_hash r = ia_request_hash q
    \<and> s = \<lparr>is_response_status = id_response_status r, is_response = id_response r\<rparr>
    \<and> id_response_status r \<noteq> None"
proof -
  show "records_ok db'"
    by (rule execute_keeps_record(1) [OF ok run frame])
  show "\<exists>r. record_of (requested q) db' = Some r \<and> id_request_hash r = ia_request_hash q
    \<and> s = \<lparr>is_response_status = id_response_status r, is_response = id_response r\<rparr>
    \<and> id_response_status r \<noteq> None"
  proof (rule execute_fresh [OF ok run frame])
    fix db1 assume "acquire_idempotency env q db = Inr (s, db1)" "db' = db1" "is_response_status s \<noteq> None"
    then show ?thesis using acquire_cases(6) [OF ok, of env q s db1] by auto
  next
    fix db1 db2 response
    let ?c = "\<lparr>ic_request = q, ic_response_status = status, ic_response = response\<rparr>"
    assume acq: "acquire_idempotency env q db = Inr (\<lparr>is_response_status = None, is_response = None\<rparr>, db1)"
      and ok2: "records_ok db2" and kept: "\<And>i r. record_of i db1 = Some r
        \<Longrightarrow> \<not> (user = Some (id_user_id r) \<and> id_response r \<noteq> None) \<Longrightarrow> record_of i db2 = Some r"
      and comp: "complete_idempotency ?c db2 = Inr ((), db')"
      and s: "s = \<lparr>is_response_status = Some status, is_response = Some response\<rparr>"
    have "record_of (requested q) db2 = Some \<lparr>id_user_id = ia_user_id q, id_method = ia_method q, id_path = ia_path q,
        id_key = ia_key q, id_request_hash = ia_request_hash q, id_response_status = None, id_response = None,
        id_expires_at = ia_expires_at q\<rparr>"
      by (rule kept [OF acquire_cases(5) [OF ok acq]]) simp_all
    then show ?thesis using s complete_cases(4) [OF ok2 comp] by simp
  qed
qed

subsection \<open>Properties\<close>

text \<open>
  C35: at most once. When a request key has been granted (the caller runs the mutation), the key is
  granted again only if the first grant was completed in the meantime and then either its lifetime has
  passed or its user deleted a goal, whose responses go with it; or if the account was erased. A record
  whose outcome is unknown blocks its key as long as the account exists, whatever the clocks say.
\<close>

theorem idempotency_single_grant:
  assumes "records_ok db"
    and "acquire_idempotency env q db = Inr (s, db1)" and "is_response_status s = None"
    and "idem_run tr db1 db2" and "requested q' = requested q"
    and "acquire_idempotency env' q' db2 = Inr (s', db3)" and "is_response_status s' = None"
  shows "Some (requested q) \<in> (completes \<circ> snd) ` set tr
      \<and> ((\<exists>e \<in> insert env' (fst ` set tr). ia_expires_at q \<le> e_started e \<or> ia_expires_at q \<le> e_app_now e)
         \<or> Some (ia_user_id q) \<in> (goal_erased \<circ> snd) ` set tr)
    \<or> Some (ia_user_id q) \<in> (account_erased \<circ> snd) ` set tr"
proof -
  note first = acquire_cases(1,5) [OF assms(1,2)]
  have user: "fst (requested q) = ia_user_id q" by (simp add: requested_def)
  let ?r = "\<lparr>id_user_id = ia_user_id q, id_method = ia_method q, id_path = ia_path q, id_key = ia_key q,
        id_request_hash = ia_request_hash q, id_response_status = None, id_response = None,
        id_expires_at = ia_expires_at q\<rparr>"
  have pending: "id_response_status ?r \<noteq> None \<or> id_response ?r \<noteq> None \<longrightarrow> False" "id_expires_at ?r = ia_expires_at q"
    by simp_all
  note life = idem_run_lifetime [OF assms(4) first(1) first(2) [OF assms(3)] pending(1), unfolded pending(2) user]
  consider r' where "records_ok db2" "record_of (requested q) db2 = Some r'"
      "id_expires_at r' = ia_expires_at q"
      "id_response_status r' \<noteq> None \<longrightarrow> Some (requested q) \<in> (completes \<circ> snd) ` set tr"
    | "Some (requested q) \<in> (completes \<circ> snd) ` set tr"
      "(\<exists>e \<in> fst ` set tr. ia_expires_at q \<le> e_started e \<or> ia_expires_at q \<le> e_app_now e)
        \<or> Some (ia_user_id q) \<in> (goal_erased \<circ> snd) ` set tr"
    | "Some (ia_user_id q) \<in> (account_erased \<circ> snd) ` set tr"
    using life by (elim conjE disjE exE) blast+
  then show ?thesis
  proof cases
    case 1
    then have "expired_in env' r'" using acquire_cases(4) [OF 1(1) assms(6,7)] assms(5) by simp
    with 1 show ?thesis by (auto simp: expired_in_def)
  qed auto
qed

text \<open>
  C36: exact replay. After \<open>execute_idempotency\<close> has returned a response, every later execution of
  the same key and request hash returns that very response and runs no operation, and the same key with
  another request hash is a conflict. This holds while the record's lifetime has not passed, nobody
  completes the key directly a second time, the user deletes no goal and the account still exists and
  passes the account lock.
\<close>

theorem idempotency_replay:
  assumes "records_ok db"
    and "execute_idempotency g env q status operation db = Inr (s, db1)" and "may_erase user operation"
    and "idem_run tr db1 db2" and "record_of (requested q) db1 = Some r"
    and "\<And>e act. (e, act) \<in> set tr \<Longrightarrow> e_started e < id_expires_at r \<and> e_app_now e < id_expires_at r
      \<and> completes act \<noteq> Some (requested q) \<and> goal_erased act \<noteq> Some (ia_user_id q)
      \<and> account_erased act \<noteq> Some (ia_user_id q)"
    and "e_started env' < id_expires_at r" and "e_app_now env' < id_expires_at r"
    and "requested q' = requested q"
    and "account_lock g (ia_user_id q') db2 = Inr ()" and "row_exists (\<lambda>u. u_id u = ia_user_id q') (users db2)"
  shows "if ia_request_hash q' = ia_request_hash q
    then \<exists>db3. execute_idempotency g env' q' status' operation' db2 = Inr (s, db3)
      \<and> db3 = db2\<lparr>idempotency_records := idempotency_records db3\<rparr>
    else execute_idempotency g env' q' status' operation' db2 = Inl (IdempotencyConflictError (ia_key q'))"
proof -
  note first = execute_record [OF assms(1-3)]
  have r: "id_request_hash r = ia_request_hash q" "id_response_status r \<noteq> None"
    "s = \<lparr>is_response_status = id_response_status r, is_response = id_response r\<rparr>"
    using first(2) assms(5) by auto
  have "identity_of r = requested q" using assms(5) by (simp add: record_of_iff [OF first(1)])
  then have owner: "id_user_id r = ia_user_id q" by (simp add: identity_of_def requested_def)
  have live: "\<not> expired_in env' r" using assms(7,8) by (auto simp: expired_in_def)
  have now: "records_ok db2 \<and> record_of (requested q') db2 = Some r"
    unfolding assms(9)
    by (rule idem_run_record [OF assms(4) first(1) assms(5)])
      (use assms(6) owner in \<open>fastforce simp: expired_in_def erases_record_def\<close>)
  note again = acquire_existing [of db2 q' r env', OF _ _ live assms(11)]
  show ?thesis
  proof (cases "ia_request_hash q' = ia_request_hash q")
    case True
    with again(3) now r obtain db3 where "acquire_idempotency env' q' db2 = Inr (s, db3)"
      "db3 = db2\<lparr>idempotency_records := idempotency_records db3\<rparr>" by auto
    with True r show ?thesis
      by (simp add: execute_idempotency_def store_acquire_def assms(10))
  next
    case False
    with again(1) now r have "acquire_idempotency env' q' db2 = Inl (IdempotencyConflictError (ia_key q'))"
      by auto
    with False show ?thesis by (simp add: execute_idempotency_def store_acquire_def assms(10))
  qed
qed

text \<open>A key that is granted, completed, expired and granted again; and a replayed response.\<close>

theorem idempotency_single_grant_witness:
  "\<exists>e \<in> {sample_env 10, sample_env 3}. ia_expires_at sample_request \<le> e_started e
      \<or> ia_expires_at sample_request \<le> e_app_now e"
proof -
  let ?c = "\<lparr>ic_request = sample_request, ic_response_status = 201, ic_response = []\<rparr>"
  have "idem_run [(sample_env 3, Complete ?c)]
      (sample_records_db [sample_record None None]) (sample_records_db [sample_record (Some 201) (Some [])])"
    by (rule run_step, rule step_complete [OF sample_complete], rule run_nil)
  from idempotency_single_grant [OF sample_keyed(1) sample_acquire _ this refl sample_acquire_again]
  show ?thesis by simp
qed

theorem idempotency_replay_witness:
  "\<exists>db3. execute_idempotency False (sample_env 5) sample_request 201 (\<lambda>db. Inr ([(''n'', JInt 2)], db))
     (sample_records_db [sample_record (Some 201) (Some [])])
     = Inr (\<lparr>is_response_status = Some 201, is_response = Some []\<rparr>, db3)"
proof -
  let ?db = "sample_records_db [sample_record (Some 201) (Some [])]"
  have op: "may_erase None (\<lambda>db. Inr ([], db))" by (rule may_eraseI) simp
  have first: "execute_idempotency False (sample_env 0) sample_request 201 (\<lambda>db. Inr ([], db)) (sample_records_db [])
      = Inr (\<lparr>is_response_status = Some 201, is_response = Some []\<rparr>, ?db)"
    by (simp add: execute_idempotency_def store_acquire_def account_lock_def sample_acquire sample_complete)
  have "idem_run [(sample_env 3, OtherTables)] ?db ?db"
    by (rule run_step, rule step_other, simp, rule run_nil)
  then have "if ia_request_hash sample_request = ia_request_hash sample_request
    then \<exists>db3. execute_idempotency False (sample_env 5) sample_request 201 (\<lambda>db. Inr ([(''n'', JInt 2)], db)) ?db
        = Inr (\<lparr>is_response_status = Some 201, is_response = Some []\<rparr>, db3)
      \<and> db3 = ?db\<lparr>idempotency_records := idempotency_records db3\<rparr>
    else execute_idempotency False (sample_env 5) sample_request 201 (\<lambda>db. Inr ([(''n'', JInt 2)], db)) ?db
        = Inl (IdempotencyConflictError (ia_key sample_request))"
    by (rule idempotency_replay [OF sample_keyed(1) first op, of _ ?db "sample_record (Some 201) (Some [])"])
      (auto simp: sample_idempotency record_of_def account_lock_def)
  then show ?thesis by auto
qed

end
