(* ===== verification/User_State_Safety.thy ===== *)
theory User_State_Safety
  imports Goal_Deletion Transitions
begin

section \<open>What the user-state transactions keep\<close>

text \<open>
  The transactions of \<open>User_State\<close>, \<open>Roadmap_State\<close> and \<open>Goal_Deletion\<close>, with the submission of an
  analysis and the end of a worker's job, as one step relation. Three facts hold for every interleaving
  of them: an active roadmap is the only one of its user and was planned for the goal that user now
  pursues; changes based on the same version never both succeed; the event log has one entry per
  accepted change.
\<close>

datatype command =
    CreateUser uuid
  | MutateProfile ProfileMutation
  | MutateGoal GoalMutation
  | DeleteGoal GoalDelete
  | MutateCapability CapabilityMutation
  | ReplaceOnboarding OnboardingCapabilityReplace
  | DeleteCapability CapabilityDelete
  | SetPreferences RoutePreferenceMutation
  | PersistAnalysis AnalysisPersist
  | PersistProposal RouteProposalPersist
  | CreateRoadmap RoadmapCreate
  | MutateRoadmap RoadmapMutation
  | MutateStep StepStateMutation
  | ReconcileRoadmap uuid string
  | SubmitAnalysis freshness_lib AnalysisBudgetPolicy AnalysisRecomputeSubmission
  | FinalizeRecompute RecomputeWorkItem RecomputeArtifacts

definition effect :: "'e + ('a \<times> 's) \<Rightarrow> 'e + 's" where
  "effect r = and_then r (\<lambda>(_, s). Inr s)"

lemma effect_Inr_iff [err_simps]: "effect r = Inr s \<longleftrightarrow> (\<exists>x. r = Inr (x, s))"
  by (auto simp: effect_def err_simps)

lemma effect_Inl_iff [err_simps]: "effect r = Inl e \<longleftrightarrow> r = Inl e"
  by (auto simp: effect_def err_simps)

fun execute :: "store_lib \<Rightarrow> env \<Rightarrow> command \<Rightarrow> database \<Rightarrow> persistence_error + database" where
  "execute lib env (CreateUser u) db = effect (create_user (sl_google_accounts_only lib) env u db)"
| "execute lib env (MutateProfile q) db = effect (mutate_profile (sl_context lib) env q db)"
| "execute lib env (MutateGoal q) db = effect (mutate_goal (sl_context lib) env q db)"
| "execute lib env (DeleteGoal q) db = effect (delete_goal (sl_context lib) env q db)"
| "execute lib env (MutateCapability q) db = effect (mutate_capability (sl_context lib) env q db)"
| "execute lib env (ReplaceOnboarding q) db = effect (replace_onboarding_capabilities (sl_context lib) env q db)"
| "execute lib env (DeleteCapability q) db = effect (delete_capability (sl_context lib) env q db)"
| "execute lib env (SetPreferences q) db = effect (set_route_preferences (sl_context lib) env q db)"
| "execute lib env (PersistAnalysis q) db = effect (persist_analysis env q db)"
| "execute lib env (PersistProposal q) db = effect (persist_route_proposal q db)"
| "execute lib env (CreateRoadmap q) db = effect (create_roadmap lib env q db)"
| "execute lib env (MutateRoadmap q) db = effect (mutate_roadmap lib env q db)"
| "execute lib env (MutateStep q) db = effect (mutate_step_state lib env q db)"
| "execute lib env (ReconcileRoadmap r title) db = effect (reconcile_automatic_roadmap lib env r title db)"
| "execute lib env (SubmitAnalysis fl policy q) db = effect (submit_analysis_recompute fl policy env q db)"
| "execute lib env (FinalizeRecompute w art) db = effect (finalize_recompute env w art db)"

inductive user_step :: "store_lib \<Rightarrow> env \<times> command \<Rightarrow> database \<Rightarrow> database \<Rightarrow> bool" for lib where
  user_step: "execute lib env c db = Inr db' \<Longrightarrow> user_step lib (env, c) db db'"

inductive_simps user_step_iff: "user_step lib (env, c) db db'"

text \<open>The user and the profile version that a change names as its base.\<close>

fun base :: "command \<Rightarrow> (uuid \<times> int) option" where
  "base (MutateProfile q) = Some (pm_user_id q, pm_expected_version q)"
| "base (MutateGoal q) = Some (gm_user_id q, gm_expected_profile_version q)"
| "base (DeleteGoal q) = Some (gd_user_id q, gd_expected_profile_version q)"
| "base (MutateCapability q) = Some (cm_user_id q, cm_expected_profile_version q)"
| "base (ReplaceOnboarding q) = Some (oc_user_id q, oc_expected_profile_version q)"
| "base (DeleteCapability q) = Some (cdel_user_id q, cdel_expected_profile_version q)"
| "base (SetPreferences q) = Some (rpm_user_id q, rpm_expected_profile_version q)"
| "base (MutateStep q) = Some (sm_user_id q, sm_expected_profile_version q)"
| "base _ = None"

subsection \<open>The state that planning shares\<close>

definition plans_of :: "database \<Rightarrow> goals_row list \<times> roadmaps_row list \<times> analyses_row list \<times> route_proposals_row list" where
  "plans_of db = (goals db, roadmaps db, analyses db, route_proposals db)"

text \<open>The roadmap was planned for its user's goal, as that goal stands now.\<close>

definition route_matches :: "database \<Rightarrow> roadmaps_row \<Rightarrow> bool" where
  "route_matches db r \<longleftrightarrow>
     (\<exists>g \<in> set (goals db). \<exists>p \<in> set (route_proposals db). \<exists>a \<in> set (analyses db).
        go_id g = rm_goal_id r \<and> go_user_id g = rm_user_id r \<and> rp_id p = rm_proposal_id r
        \<and> rp_user_id p = rm_user_id r \<and> an_id a = rp_analysis_id p \<and> an_goal_id a = go_id g
        \<and> planned_for_goal (p, a, g))"

lemma route_matchesI:
  assumes "g \<in> set (goals db)" "p \<in> set (route_proposals db)" "a \<in> set (analyses db)"
    "go_id g = rm_goal_id r" "go_user_id g = rm_user_id r" "rp_id p = rm_proposal_id r"
    "rp_user_id p = rm_user_id r" "an_id a = rp_analysis_id p" "an_goal_id a = go_id g" "planned_for_goal (p, a, g)"
  shows "route_matches db r"
  using assms unfolding route_matches_def by blast

lemma route_matchesE:
  assumes "route_matches db r"
  obtains g p a where "g \<in> set (goals db)" "p \<in> set (route_proposals db)" "a \<in> set (analyses db)"
    "go_id g = rm_goal_id r" "go_user_id g = rm_user_id r" "rp_id p = rm_proposal_id r"
    "rp_user_id p = rm_user_id r" "an_id a = rp_analysis_id p" "an_goal_id a = go_id g" "planned_for_goal (p, a, g)"
  using assms unfolding route_matches_def by blast

definition active_roadmaps :: "database \<Rightarrow> roadmaps_row list" where
  "active_roadmaps db = rows_where (\<lambda>r. rm_state r = ACTIVE) (roadmaps db)"

definition store_ok :: "database \<Rightarrow> bool" where
  "store_ok db \<longleftrightarrow> keyed p_user_id (profiles db) \<and> keyed go_id (goals db) \<and> keyed rm_id (roadmaps db)
     \<and> keyed an_id (analyses db) \<and> keyed rp_id (route_proposals db)
     \<and> one_active_goal db \<and> one_active_roadmap db \<and> list_all (route_matches db) (active_roadmaps db)"

lemma keyed_rows_mono:
  assumes "keyed k (rows_where P t)" and "\<And>x. Q x \<Longrightarrow> P x"
  shows "keyed k (rows_where Q t)"
proof -
  have "filter Q t = filter Q (filter P t)" using assms(2) by (induction t) auto
  with assms(1) show ?thesis unfolding keyed_def rows_where_def by (metis distinct_map_filter)
qed

lemma rows_where_map: "rows_where P (map f t) = map f (rows_where (\<lambda>x. P (f x)) t)"
  by (simp add: rows_where_def filter_map comp_def)

lemma keyed_map: "(\<And>x. k (f x) = k x) \<Longrightarrow> keyed k (map f t) = keyed k t"
  by (simp add: keyed_def comp_def)

text \<open>Rewriting roadmaps without moving or activating them.\<close>

lemma store_ok_roadmaps:
  assumes "store_ok db" and "roadmaps db' = map f (roadmaps db)"
    and f: "\<And>r. rm_id (f r) = rm_id r \<and> rm_user_id (f r) = rm_user_id r \<and> rm_goal_id (f r) = rm_goal_id r
        \<and> rm_proposal_id (f r) = rm_proposal_id r" "\<And>r. rm_state (f r) = ACTIVE \<Longrightarrow> rm_state r = ACTIVE"
    and "goals db' = goals db" "analyses db' = analyses db" "route_proposals db' = route_proposals db"
    and "keyed p_user_id (profiles db')"
  shows "store_ok db'"
proof -
  have match: "route_matches db' (f r) = route_matches db r" for r
    using assms(5-7) f(1) [of r] by (simp add: route_matches_def)
  have active: "active_roadmaps db' = map f (rows_where (\<lambda>r. rm_state (f r) = ACTIVE) (roadmaps db))"
    unfolding active_roadmaps_def assms(2) by (rule rows_where_map)
  have "keyed rm_user_id (active_roadmaps db')"
    unfolding active using assms(1) f
    by (simp add: keyed_map) (rule keyed_rows_mono [of _ "\<lambda>r. rm_state r = ACTIVE"],
      auto simp: store_ok_def one_active_roadmap_def)
  moreover have "list_all (route_matches db') (active_roadmaps db')"
    unfolding active using assms(1) f(2) match
    by (auto simp: list_all_iff store_ok_def active_roadmaps_def set_rows_where)
  ultimately show ?thesis
    using assms f(1) by (simp add: store_ok_def one_active_goal_def one_active_roadmap_def active_roadmaps_def keyed_map)
qed

lemma store_ok_same_plans:
  "store_ok db \<Longrightarrow> plans_of db' = plans_of db \<Longrightarrow> keyed p_user_id (profiles db') \<Longrightarrow> store_ok db'"
  by (rule store_ok_roadmaps [of db db' "\<lambda>r. r"]) (simp_all add: plans_of_def)

lemma route_matches_mono:
  assumes "route_matches db r"
    and "set (goals db) \<subseteq> set (goals db')" "set (analyses db) \<subseteq> set (analyses db')"
      "set (route_proposals db) \<subseteq> set (route_proposals db')"
  shows "route_matches db' r"
  using assms unfolding route_matches_def by (meson subsetD)

lemma store_ok_grows:
  assumes "store_ok db" and "roadmaps db' = roadmaps db"
    and "set (goals db) \<subseteq> set (goals db')" "set (analyses db) \<subseteq> set (analyses db')"
      "set (route_proposals db) \<subseteq> set (route_proposals db')"
    and "keyed go_id (goals db')" "keyed an_id (analyses db')" "keyed rp_id (route_proposals db')"
      "keyed p_user_id (profiles db')" "one_active_goal db'"
  shows "store_ok db'"
proof -
  have "list_all (route_matches db') (active_roadmaps db')"
    using assms(1) route_matches_mono [OF _ assms(3-5)] assms(2)
    by (auto simp: store_ok_def list_all_iff active_roadmaps_def)
  with assms show ?thesis by (simp add: store_ok_def one_active_roadmap_def)
qed

subsection \<open>Versions\<close>

lemma profile_version_iff:
  assumes "keyed p_user_id (profiles db)"
  shows "profile_version u db = Some v \<longleftrightarrow> (\<exists>p \<in> set (profiles db). p_user_id p = u \<and> p_version p = v)"
  unfolding profile_version_def map_option_eq_Some
    one_or_none_Some_iff [of p_user_id "profiles db" "\<lambda>p. p_user_id p = u" u, OF assms, simplified] by blast

text \<open>\<open>advances u v db db'\<close>: the transaction took user \<open>u\<close> from version \<open>v\<close> to the next.\<close>

definition advances :: "uuid \<Rightarrow> int \<Rightarrow> database \<Rightarrow> database \<Rightarrow> bool" where
  "advances u v db db' \<longleftrightarrow> profile_version u db = Some v \<and> profile_version u db' = Some (v + 1)
     \<and> (\<forall>w. w \<noteq> u \<longrightarrow> profile_version w db' = profile_version w db) \<and> keyed p_user_id (profiles db')"

lemma one_or_none_update_other:
  "(\<And>x. x \<in> set t \<Longrightarrow> P x \<Longrightarrow> \<not> Q x \<and> \<not> Q (f x)) \<Longrightarrow> one_or_none Q (update_where P f t) = one_or_none Q t"
  unfolding one_or_none_def update_where_def by (induction t) auto

lemma advancesI:
  assumes "keyed p_user_id (profiles db)" and "profile_version u db = Some v"
    and upd: "profiles db' = update_where P f (profiles db)"
    and P: "\<And>p. p \<in> set (profiles db) \<Longrightarrow> P p \<longleftrightarrow> p_user_id p = u"
    and f: "\<And>p. p_user_id (f p) = p_user_id p" "\<And>p. P p \<Longrightarrow> p_version p = v \<Longrightarrow> p_version (f p) = v + 1"
  shows "advances u v db db'"
proof -
  have keyed': "keyed p_user_id (profiles db')"
    unfolding upd using assms(1) f(1) by (simp add: keyed_update)
  from assms(2) obtain p where p: "p \<in> set (profiles db)" "p_user_id p = u" "p_version p = v"
    unfolding profile_version_iff [OF assms(1)] by blast
  have "f p \<in> set (profiles db')" using p P upd by (auto intro: update_whereI)
  with p P f have "profile_version u db' = Some (v + 1)"
    unfolding profile_version_iff [OF keyed'] by (intro bexI [of _ "f p"]) auto
  moreover have "profile_version w db' = profile_version w db" if "w \<noteq> u" for w
    unfolding profile_version_def upd
    by (subst one_or_none_update_other) (use P f(1) that in auto)
  ultimately show ?thesis using assms(2) keyed' by (simp add: advances_def)
qed

lemma advances_profiles:
  "advances u v db db1 \<Longrightarrow> profiles db' = profiles db1 \<Longrightarrow> advances u v db db'"
  by (simp add: advances_def profile_version_def)

lemma update_profile_Inr:
  assumes "update_profile f env u v db = Inr db'" and "keyed p_user_id (profiles db)"
    and "\<And>p. p_user_id (f p) = p_user_id p"
  shows "advances u v db db'" "plans_of db' = plans_of db" "user_state_events db' = user_state_events db"
proof -
  let ?P = "\<lambda>p. p_user_id p = u \<and> p_version p = v"
  let ?f = "\<lambda>p. (f p)\<lparr>p_version := p_version p + 1, p_updated_at := e_app_now env\<rparr>"
  from assms(1) have row: "rowcount ?P (profiles db) = 1"
    and db': "db' = db\<lparr>profiles := update_where ?P ?f (profiles db)\<rparr>"
    unfolding update_profile_def Let_def and_then_Inr_iff require_Inr_iff by simp_all
  then have "0 < rowcount ?P (profiles db)" by simp
  then have "\<exists>p \<in> set (profiles db). p_user_id p = u \<and> p_version p = v" by (simp only: rowcount_pos)
  then have version: "profile_version u db = Some v" unfolding profile_version_iff [OF assms(2)] .
  show "advances u v db db'"
  proof (rule advancesI [OF assms(2) version, of _ ?P ?f])
    from version obtain q where q: "q \<in> set (profiles db)" "p_user_id q = u" "p_version q = v"
      unfolding profile_version_iff [OF assms(2)] by blast
    show "?P p \<longleftrightarrow> p_user_id p = u" if "p \<in> set (profiles db)" for p
      using keyed_inject [OF assms(2) that q(1)] q by auto
  qed (simp_all add: db' assms(3))
  show "plans_of db' = plans_of db" "user_state_events db' = user_state_events db"
    by (simp_all add: db' plans_of_def)
qed

lemma bump_profile_Inr:
  assumes "bump_profile env u v db = Inr db'" and "keyed p_user_id (profiles db)"
  shows "advances u v db db'" "plans_of db' = plans_of db" "user_state_events db' = user_state_events db"
  using update_profile_Inr [OF assms [unfolded bump_profile_def]] by simp_all

lemma bump_profile_frame:
  assumes "bump_profile env u v db = Inr db'"
  shows "db'\<lparr>profiles := []\<rparr> = db\<lparr>profiles := []\<rparr>"
  using assms by (auto simp: bump_profile_def update_profile_def Let_def err_simps)

lemma append_event_Inr:
  assumes "append_event e u aggregate v kind payload db = Inr db'"
  shows "db' = db\<lparr>user_state_events := user_state_events db @ [\<lparr>ev_id = e, ev_user_id = u,
      ev_aggregate_id = aggregate, ev_aggregate_type = ''PROFILE'', ev_version = v, ev_kind = kind,
      ev_payload = payload\<rparr>]\<rparr>"
  using assms by (simp add: append_event_def insert_event_def err_simps)

text \<open>One new event, of user \<open>u\<close> under version \<open>v + 1\<close>.\<close>

definition logs :: "uuid \<Rightarrow> int \<Rightarrow> database \<Rightarrow> database \<Rightarrow> bool" where
  "logs u v db db' \<longleftrightarrow> (\<exists>e. user_state_events db' = user_state_events db @ [e] \<and> ev_user_id e = u
     \<and> ev_version e = v \<and> ev_kind e \<noteq> ''ANALYSIS_REQUESTED'')"

lemma append_event_frame:
  assumes "append_event e u aggregate v kind payload db = Inr db'"
  shows "plans_of db' = plans_of db" "profiles db' = profiles db" "kind \<noteq> ''ANALYSIS_REQUESTED'' \<Longrightarrow> logs u v db db'"
  unfolding append_event_Inr [OF assms] by (simp_all add: plans_of_def logs_def)

lemma queue_only_frame:
  assumes "queue_only db db'"
  shows "plans_of db' = plans_of db" "profiles db' = profiles db" "user_state_events db' = user_state_events db"
  using queue_only_fields [OF assms] by (simp_all add: plans_of_def)

lemma record_change_Inr:
  assumes "record_change lib env u aggregate v kind payload db = Inr db'"
  shows "plans_of db' = plans_of db" "profiles db' = profiles db" "kind \<noteq> ''ANALYSIS_REQUESTED'' \<Longrightarrow> logs u v db db'"
proof -
  from assms obtain db1 where db1: "append_event (e_uuid env 0) u aggregate v kind payload db = Inr db1"
    and q: "queue_only db1 db'"
    by (auto simp: record_change_def err_simps dest: enqueue_queue_only)
  show "plans_of db' = plans_of db" "profiles db' = profiles db" "kind \<noteq> ''ANALYSIS_REQUESTED'' \<Longrightarrow> logs u v db db'"
    using append_event_frame [OF db1] queue_only_frame [OF q] by (simp_all add: logs_def)
qed

subsection \<open>Changes that leave goals and roadmaps alone\<close>

definition changes :: "uuid \<Rightarrow> int \<Rightarrow> database \<Rightarrow> database \<Rightarrow> bool" where
  "changes u v db db' \<longleftrightarrow> advances u v db db' \<and> logs u (v + 1) db db'"

definition quiet :: "database \<Rightarrow> database \<Rightarrow> bool" where
  "quiet db db' \<longleftrightarrow> plans_of db' = plans_of db \<and> profiles db' = profiles db
     \<and> user_state_events db' = user_state_events db"

lemma quiet_refl [simp]: "quiet db db"
  by (simp add: quiet_def)

lemma quiet_trans [trans]: "quiet db db1 \<Longrightarrow> quiet db1 db2 \<Longrightarrow> quiet db db2"
  by (simp add: quiet_def)

lemma quiet_updates [simp]:
  "quiet db (db\<lparr>user_capabilities := cs\<rparr>)" "quiet db (db\<lparr>route_preferences := ps\<rparr>)"
  "quiet db (db\<lparr>roadmap_steps := ss\<rparr>)" "quiet db (db\<lparr>step_dependencies := ds\<rparr>)"
  "quiet db (db\<lparr>step_completion_inheritances := ins\<rparr>)" "quiet db (db\<lparr>recompute_requests := rs\<rparr>)"
  "quiet db (db\<lparr>users := us\<rparr>)"
  by (simp_all add: quiet_def plans_of_def)

lemma queue_only_quiet: "queue_only db db' \<Longrightarrow> quiet db db'"
  by (simp add: quiet_def queue_only_frame)

lemma fold_err_quiet:
  assumes "fold_err f xs db = Inr db'" and "\<And>x db db'. f x db = Inr db' \<Longrightarrow> quiet db db'"
  shows "quiet db db'"
  using fold_err_invariant [OF assms(1), of "quiet db"] assms(2) by (meson quiet_refl quiet_trans)

text \<open>The common shape of a change: a new version, quiet writes, the event and the recomputation.\<close>

lemma changesI:
  assumes "advances u v db db1" "user_state_events db1 = user_state_events db" "plans_of db1 = plans_of db"
    and "quiet db1 db2"
    and "logs u (v + 1) db2 db3" "profiles db3 = profiles db2" "plans_of db3 = plans_of db2"
  shows "changes u v db db3 \<and> plans_of db3 = plans_of db"
  using assms advances_profiles [of u v db db1 db3] by (simp add: changes_def quiet_def logs_def)

lemma bump_change:
  assumes "keyed p_user_id (profiles db)" "bump_profile env u v db = Inr db1" "quiet db1 db2"
    and "record_change lib env' u aggregate (v + 1) kind payload db2 = Inr db3" "kind \<noteq> ''ANALYSIS_REQUESTED''"
  shows "changes u v db db3 \<and> plans_of db3 = plans_of db"
  using bump_profile_Inr [OF assms(2,1)] record_change_Inr [OF assms(4)] assms(3,5) by (intro changesI) auto

lemma mutate_profile_changes:
  assumes "mutate_profile lib env q db = Inr (x, db')" and "keyed p_user_id (profiles db)"
  shows "changes (pm_user_id q) (pm_expected_version q) db db' \<and> plans_of db' = plans_of db"
proof -
  let ?f = "\<lambda>p. p\<lparr>p_major_raw := pm_major_raw q, p_major_concept_id := pm_major_concept_id q,
         p_year := pm_year q, p_enrollment_status := pm_enrollment_status q,
         p_expected_graduation_on := pm_expected_graduation_on q\<rparr>"
  from assms(1) obtain db1 where
    1: "update_profile ?f env (pm_user_id q) (pm_expected_version q) db = Inr db1"
    and 2: "record_change lib env (pm_user_id q) (pm_user_id q) (pm_expected_version q + 1) ''PROFILE_UPDATED'' [] db1 = Inr db'"
    by (auto simp: mutate_profile_def err_simps)
  show ?thesis using update_profile_Inr [OF 1 assms(2)] record_change_Inr [OF 2] by (intro changesI [of _ _ _ db1 db1]) simp_all
qed

lemma insert_capability_quiet: "insert_capability c db = Inr db' \<Longrightarrow> quiet db db'"
  by (auto simp: insert_capability_def err_simps)

lemma update_capability_quiet: "update_capability q c db = Inr db' \<Longrightarrow> quiet db db'"
  by (auto simp: update_capability_def err_simps Let_def)

lemma mutate_capability_changes:
  assumes "mutate_capability lib env q db = Inr (x, db')" and "keyed p_user_id (profiles db)"
  shows "changes (cm_user_id q) (cm_expected_profile_version q) db db' \<and> plans_of db' = plans_of db"
proof -
  from assms(1) obtain db1 db2 c where 1: "bump_profile env (cm_user_id q) (cm_expected_profile_version q) db = Inr db1"
    and 2: "quiet db1 db2"
    and 3: "record_change lib env (cm_user_id q) c (cm_expected_profile_version q + 1) ''CAPABILITY_UPDATED'' [] db2 = Inr db'"
    by (auto simp: mutate_capability_def err_simps Let_def split: if_splits
        dest: insert_capability_quiet update_capability_quiet)
  show ?thesis by (rule bump_change [OF assms(2) 1 2 3]) simp
qed

lemma replace_onboarding_changes:
  assumes "replace_onboarding_capabilities lib env q db = Inr (x, db')" and "keyed p_user_id (profiles db)"
  shows "changes (oc_user_id q) (oc_expected_profile_version q) db db' \<and> plans_of db' = plans_of db"
proof -
  from assms(1) obtain db1 db2 cs payload where
    1: "bump_profile env (oc_user_id q) (oc_expected_profile_version q) db = Inr db1"
    and 2: "fold_err insert_capability (onboarding_rows env q) (db1\<lparr>user_capabilities := cs\<rparr>) = Inr db2"
    and 3: "record_change lib env (oc_user_id q) (oc_user_id q) (oc_expected_profile_version q + 1)
        ''ONBOARDING_CAPABILITIES_REPLACED'' payload db2 = Inr db'"
    by (auto simp: replace_onboarding_capabilities_def err_simps Let_def)
  have "quiet db1 db2"
    by (rule quiet_trans [OF quiet_updates(1) fold_err_quiet [OF 2 insert_capability_quiet]])
  from bump_change [OF assms(2) 1 this 3] show ?thesis by simp
qed

lemma delete_capability_changes:
  assumes "delete_capability lib env q db = Inr (x, db')" and "keyed p_user_id (profiles db)"
  shows "changes (cdel_user_id q) (cdel_expected_profile_version q) db db' \<and> plans_of db' = plans_of db"
proof -
  from assms(1) obtain db1 cs where
    1: "bump_profile env (cdel_user_id q) (cdel_expected_profile_version q) db = Inr db1"
    and 3: "record_change lib env (cdel_user_id q) (cdel_capability_id q) (cdel_expected_profile_version q + 1)
        ''CAPABILITY_REVOKED'' [] (db1\<lparr>user_capabilities := cs\<rparr>) = Inr db'"
    by (auto simp: delete_capability_def err_simps Let_def)
  from bump_change [OF assms(2) 1 _ 3] show ?thesis by simp
qed

lemma set_route_preferences_changes:
  assumes "set_route_preferences lib env q db = Inr (x, db')" and "keyed p_user_id (profiles db)"
  shows "changes (rpm_user_id q) (rpm_expected_profile_version q) db db' \<and> plans_of db' = plans_of db"
proof -
  from assms(1) obtain db1 ps where
    1: "bump_profile env (rpm_user_id q) (rpm_expected_profile_version q) db = Inr db1"
    and 3: "record_change lib env (rpm_user_id q) (rpm_user_id q) (rpm_expected_profile_version q + 1)
        ''ROUTE_PREFERENCES_UPDATED'' [] (db1\<lparr>route_preferences := ps\<rparr>) = Inr db'"
    by (auto simp: set_route_preferences_def err_simps Let_def)
  from bump_change [OF assms(2) 1 _ 3] show ?thesis by simp
qed

subsection \<open>Goals\<close>

definition archive_if :: "bool \<Rightarrow> GoalMutation \<Rightarrow> uuid \<Rightarrow> roadmaps_row \<Rightarrow> roadmaps_row" where
  "archive_if changed q goal r = (if changed \<and> rm_user_id r = gm_user_id q \<and> rm_goal_id r = goal \<and> rm_state r = ACTIVE
     then archive r else r)"

lemma archive_if_map:
  "(if changed then update_where (\<lambda>r. rm_user_id r = gm_user_id q \<and> rm_goal_id r = goal \<and> rm_state r = ACTIVE) archive t
    else t) = map (archive_if changed q goal) t"
  by (simp add: update_where_def archive_if_def [abs_def])

lemma archive_simps [simp]:
  "rm_id (archive r) = rm_id r" "rm_user_id (archive r) = rm_user_id r" "rm_goal_id (archive r) = rm_goal_id r"
  "rm_proposal_id (archive r) = rm_proposal_id r" "rm_state (archive r) = ARCHIVED"
  by (simp_all add: archive_def)

lemma archive_if_keeps:
  "rm_id (archive_if c q goal r) = rm_id r \<and> rm_user_id (archive_if c q goal r) = rm_user_id r
     \<and> rm_goal_id (archive_if c q goal r) = rm_goal_id r \<and> rm_proposal_id (archive_if c q goal r) = rm_proposal_id r"
  "rm_state (archive_if c q goal r) = ACTIVE \<Longrightarrow> rm_state r = ACTIVE"
  by (auto simp: archive_if_def split: if_splits)

lemma archive_if_active:
  "rm_state (archive_if c q goal r) = ACTIVE \<Longrightarrow> rm_user_id (archive_if c q goal r) = gm_user_id q
     \<Longrightarrow> rm_goal_id (archive_if c q goal r) = goal \<Longrightarrow> \<not> c"
  by (auto simp: archive_if_def split: if_splits)

lemma goal_update_store_ok:
  assumes ok: "store_ok db"
    and prev: "g \<in> set (goals db)" "go_id g = goal" "go_user_id g = gm_user_id q"
    and goals': "goals db' = update_where (\<lambda>g. go_id g = goal \<and> go_user_id g = gm_user_id q) (set_goal env q) (goals db)"
    and maps': "roadmaps db' = map (archive_if (target_changed (Some g) q) q goal) (roadmaps db)"
    and same: "analyses db' = analyses db" "route_proposals db' = route_proposals db"
    and one: "keyed p_user_id (profiles db')" "one_active_goal db'"
  shows "store_ok db'"
proof -
  have ok1: "store_ok (db'\<lparr>goals := goals db\<rparr>)"
    by (rule store_ok_roadmaps [OF ok, of _ "archive_if (target_changed (Some g) q) q goal"])
      (simp_all add: maps' same one archive_if_keeps)
  have "route_matches db' r" if r: "r \<in> set (roadmaps db')" "rm_state r = ACTIVE" for r
  proof -
    from ok1 r have "route_matches (db'\<lparr>goals := goals db\<rparr>) r"
      by (simp add: store_ok_def list_all_iff active_roadmaps_def set_rows_where)
    then obtain g0 p a where m': "g0 \<in> set (goals (db'\<lparr>goals := goals db\<rparr>))"
      "p \<in> set (route_proposals (db'\<lparr>goals := goals db\<rparr>))" "a \<in> set (analyses (db'\<lparr>goals := goals db\<rparr>))"
      and m: "go_id g0 = rm_goal_id r" "go_user_id g0 = rm_user_id r" "rp_id p = rm_proposal_id r"
        "rp_user_id p = rm_user_id r" "an_id a = rp_analysis_id p" "an_goal_id a = go_id g0" "planned_for_goal (p, a, g0)"
      by (rule route_matchesE)
    have in_db: "g0 \<in> set (goals db)" "p \<in> set (route_proposals db')" "a \<in> set (analyses db')"
      using m' by simp_all
    have keyed: "keyed go_id (goals db)" using ok by (simp add: store_ok_def)
    show ?thesis
    proof (cases "go_id g0 = goal")
      case False
      then have "g0 \<in> set (goals db')" using in_db(1) goals' by (auto intro: update_whereI)
      then show ?thesis using in_db(2,3) m by (rule route_matchesI)
    next
      case True
      with keyed_inject [OF keyed in_db(1) prev(1)] prev(2) have g0: "g0 = g" by simp
      from r maps' obtain r0 where r0: "archive_if (target_changed (Some g) q) q goal r0 = r" by auto
      have unchanged: "\<not> target_changed (Some g) q"
        by (rule archive_if_active [of _ q goal r0]) (use r0 r(2) m(1,2) g0 prev in simp_all)
      with m(7) g0 have "planned_for_goal (p, a, set_goal env q g)"
        by (auto simp: target_changed_def planned_for_goal_def set_goal_def)
      moreover have "set_goal env q g \<in> set (goals db')" using prev goals' by (auto intro: update_whereI)
      ultimately show ?thesis using m(1-6) in_db(2,3) g0
        by (intro route_matchesI [of "set_goal env q g" _ p a]) (simp_all add: set_goal_def)
    qed
  qed
  then have "list_all (route_matches db') (active_roadmaps db')"
    by (simp add: list_all_iff active_roadmaps_def set_rows_where)
  with ok1 one ok show ?thesis
    by (simp add: store_ok_def one_active_roadmap_def goals' keyed_update set_goal_def)
qed

lemma write_goal_Inr:
  assumes "write_goal env q goal db = Inr db'"
  shows "one_active_goal db'" "profiles db' = profiles db" "user_state_events db' = user_state_events db"
    "roadmaps db' = roadmaps db" "analyses db' = analyses db" "route_proposals db' = route_proposals db"
    "gm_goal_id q = None \<Longrightarrow> \<exists>g. goals db' = goals db @ [g] \<and> (\<forall>x \<in> set (goals db). go_id x \<noteq> go_id g)"
    "gm_goal_id q \<noteq> None \<Longrightarrow>
       goals db' = update_where (\<lambda>g. go_id g = goal \<and> go_user_id g = gm_user_id q) (set_goal env q) (goals db)"
  using assms by (auto simp: write_goal_def err_simps Let_def row_exists_iff require_Inr_iff split: if_splits)

lemma enqueue_if_queue_only:
  "(if b then enqueue_for_goal lib env u v e goal r j db else enqueue_for_active_user lib env u v e r j db) = Inr (x, db')
     \<Longrightarrow> queue_only db db'"
  by (auto split: if_splits dest: enqueue_queue_only)

lemma mutate_goal_changes:
  assumes "mutate_goal lib env q db = Inr (x, db')" and ok: "store_ok db"
  shows "changes (gm_user_id q) (gm_expected_profile_version q) db db' \<and> store_ok db'"
proof -
  define goal where "goal = (case gm_goal_id q of Some g \<Rightarrow> g | None \<Rightarrow> e_uuid env 3)"
  let ?u = "gm_user_id q" and ?v = "gm_expected_profile_version q"
  from assms(1) obtain previous db1 db2 db3 where prev: "previous_goal q db = Inr previous"
    and 1: "bump_profile env ?u ?v db = Inr db1" and 2: "write_goal env q goal db1 = Inr db2"
    and 3: "append_event (e_uuid env 0) ?u goal (?v + 1) ''GOAL_UPDATED'' []
        (if target_changed previous q then db2\<lparr>roadmaps := update_where
            (\<lambda>r. rm_user_id r = ?u \<and> rm_goal_id r = goal \<and> rm_state r = ACTIVE) archive (roadmaps db2)\<rparr> else db2) = Inr db3"
    and 4: "queue_only db3 db'"
    unfolding mutate_goal_def Let_def goal_def [symmetric] and_then_Inr_iff
    by (auto split del: if_split dest!: enqueue_if_queue_only)
  have keyed: "keyed p_user_id (profiles db)" using ok by (simp add: store_ok_def)
  note bump = bump_profile_Inr [OF 1 keyed] and wrote = write_goal_Inr [OF 2] and ev = append_event_Inr [OF 3]
    and q = queue_only_frame [OF 4]
  have maps: "roadmaps db' = map (archive_if (target_changed previous q) q goal) (roadmaps db)"
    using bump(2) wrote(4) q(1) ev unfolding archive_if_map [symmetric] by (simp add: plans_of_def split: if_splits)
  have rest: "goals db' = goals db2" "analyses db' = analyses db" "route_proposals db' = route_proposals db"
    "profiles db' = profiles db1" "goals db1 = goals db"
    using bump(2) wrote(2,5,6) q ev by (simp_all add: plans_of_def split: if_splits)
  have adv: "advances ?u ?v db db'" using bump(1) rest(4) by (rule advances_profiles)
  have "logs ?u (?v + 1) db db'" using bump(3) wrote(3) q(3) ev by (simp add: logs_def split: if_splits)
  moreover have "store_ok db'"
  proof (cases "gm_goal_id q")
    case None
    then have "previous = None" using prev by (simp add: previous_goal_def)
    then have "roadmaps db' = roadmaps db" using maps by (simp add: target_changed_def archive_if_def map_idI)
    moreover obtain g where "goals db' = goals db @ [g]" "\<forall>x \<in> set (goals db). go_id x \<noteq> go_id g"
      using wrote(7) None rest by auto
    ultimately show ?thesis using ok rest wrote(1) adv
      by (intro store_ok_grows [OF ok]) (auto simp: store_ok_def keyed_snoc one_active_goal_def advances_def)
  next
    case (Some gid)
    then obtain g where g: "previous = Some g" "g \<in> set (goals db)" "go_id g = goal" "go_user_id g = ?u"
      using prev by (cases "one_or_none (\<lambda>g. go_id g = gid \<and> go_user_id g = ?u) (goals db)")
        (auto simp: previous_goal_def goal_def dest: one_or_none_SomeD)
    show ?thesis
    proof (rule goal_update_store_ok [OF ok g(2-4)])
      show "goals db' = update_where (\<lambda>g. go_id g = goal \<and> go_user_id g = ?u) (set_goal env q) (goals db)"
        using wrote(8) Some rest by simp
      show "roadmaps db' = map (archive_if (target_changed (Some g) q) q goal) (roadmaps db)"
        using maps g(1) by simp
    qed (use rest wrote(1) adv in \<open>simp_all add: one_active_goal_def advances_def\<close>)
  qed
  ultimately show ?thesis using adv by (simp add: changes_def)
qed

subsection \<open>Transactions that name no base version\<close>

text \<open>The log of a user: the versions of the events that record accepted changes.\<close>

definition log_of :: "uuid \<Rightarrow> database \<Rightarrow> int list" where
  "log_of u db = map ev_version (rows_where (\<lambda>e. ev_user_id e = u \<and> ev_kind e \<noteq> ''ANALYSIS_REQUESTED'') (user_state_events db))"

definition keeps_versions :: "database \<Rightarrow> database \<Rightarrow> bool" where
  "keeps_versions db db' \<longleftrightarrow> (\<forall>u v. profile_version u db = Some v \<longrightarrow> profile_version u db' = Some v)
     \<and> (\<forall>u. log_of u db' = log_of u db)"

lemma keeps_versions_trans: "keeps_versions db db1 \<Longrightarrow> keeps_versions db1 db2 \<Longrightarrow> keeps_versions db db2"
  by (simp add: keeps_versions_def)

lemma quiet_keeps: "quiet db db' \<Longrightarrow> keeps_versions db db'"
  by (simp add: quiet_def keeps_versions_def profile_version_def log_of_def)

lemma quiet_store_ok: "quiet db db' \<Longrightarrow> store_ok db \<Longrightarrow> store_ok db'"
  by (rule store_ok_same_plans) (simp_all add: quiet_def store_ok_def)

lemma keeps_same:
  "profiles db' = profiles db \<Longrightarrow> user_state_events db' = user_state_events db \<Longrightarrow> keeps_versions db db'"
  by (simp add: keeps_versions_def profile_version_def log_of_def)

lemma version_map: "profile_version u db = map_of (map (\<lambda>p. (p_user_id p, p_version p)) (profiles db)) u"
proof -
  have "map_option p_version (find (\<lambda>p. p_user_id p = u) t) = map_of (map (\<lambda>p. (p_user_id p, p_version p)) t) u" for t
    by (induction t) auto
  then show ?thesis by (simp add: profile_version_def one_or_none_def)
qed

lemma create_user_keeps:
  assumes "create_user google env user db = Inr (x, db')" and ok: "store_ok db"
  shows "keeps_versions db db' \<and> store_ok db'"
proof (cases google)
  case True
  with assms show ?thesis by (auto simp: create_user_def err_simps intro: quiet_keeps)
next
  case False
  define db1 where "db1 = (if row_exists (\<lambda>u. u_id u = user) (users db) then db
    else db\<lparr>users := users db @ [\<lparr>u_id = user, u_status = USER_ACTIVE, u_display_name = None\<rparr>]\<rparr>)"
  define db2 where "db2 = (if row_exists (\<lambda>p. p_user_id p = user) (profiles db1) then db1
    else db1\<lparr>profiles := profiles db1 @ [new_profile env user]\<rparr>)"
  from assms(1) False have db': "db' = db2"
    by (simp add: create_user_def Let_def db1_def [symmetric] db2_def [symmetric] split: option.splits)
  have q: "quiet db db1" by (simp add: db1_def)
  have keyed: "keyed p_user_id (profiles db2)"
    using ok q by (auto simp: db2_def quiet_def store_ok_def keyed_snoc row_exists_iff new_profile_def)
  have "store_ok db2"
    by (rule store_ok_same_plans [OF quiet_store_ok [OF q ok] _ keyed]) (simp add: db2_def plans_of_def)
  moreover have "keeps_versions db1 db2"
    by (auto simp: db2_def keeps_versions_def version_map log_of_def map_add_Some_iff)
  ultimately show ?thesis using db' quiet_keeps [OF q] keeps_versions_trans by auto
qed

text \<open>New analyses and proposals.\<close>

definition adds_results :: "database \<Rightarrow> database \<Rightarrow> bool" where
  "adds_results db db' \<longleftrightarrow> goals db' = goals db \<and> roadmaps db' = roadmaps db
     \<and> (\<exists>as. analyses db' = analyses db @ as) \<and> keyed an_id (analyses db')
     \<and> (\<exists>ps. route_proposals db' = route_proposals db @ ps) \<and> keyed rp_id (route_proposals db')
     \<and> map (\<lambda>p. (p_user_id p, p_version p)) (profiles db') = map (\<lambda>p. (p_user_id p, p_version p)) (profiles db)
     \<and> user_state_events db' = user_state_events db"

lemma adds_results_trans: "adds_results db db1 \<Longrightarrow> adds_results db1 db2 \<Longrightarrow> adds_results db db2"
  unfolding adds_results_def by (metis append.assoc)

lemma adds_results_keeps:
  assumes "adds_results db db'" and ok: "store_ok db"
  shows "keeps_versions db db' \<and> store_ok db'"
proof
  show "keeps_versions db db'" using assms(1) by (simp add: adds_results_def keeps_versions_def version_map log_of_def)
  have "map fst (map (\<lambda>p. (p_user_id p, p_version p)) (profiles db')) = map fst (map (\<lambda>p. (p_user_id p, p_version p)) (profiles db))"
    using assms(1) by (simp only: adds_results_def)
  then have "keyed p_user_id (profiles db')" using ok by (simp add: keyed_def store_ok_def comp_def)
  with assms show "store_ok db'"
    by (intro store_ok_grows [OF ok]) (auto simp: adds_results_def store_ok_def one_active_goal_def)
qed

lemma insert_analysis_adds:
  assumes "insert_analysis env a db = Inr db'" and "keyed an_id (analyses db)" "keyed rp_id (route_proposals db)"
  shows "adds_results db db'"
  using assms by (auto simp: insert_analysis_def err_simps row_exists_iff adds_results_def keyed_snoc)

lemma insert_proposal_adds:
  assumes "insert_proposal q db = Inr db'" and "keyed an_id (analyses db)" "keyed rp_id (route_proposals db)"
  shows "adds_results db db'"
  using assms by (auto simp: insert_proposal_def err_simps row_exists_iff adds_results_def keyed_snoc)

lemma pointer_adds:
  assumes "keyed an_id (analyses db)" "keyed rp_id (route_proposals db)"
  shows "adds_results db (db\<lparr>profiles := update_where P (\<lambda>p. p\<lparr>p_latest_analysis_id := x\<rparr>) (profiles db)\<rparr>)"
  using assms by (simp add: adds_results_def map_update_where)

lemma persist_analysis_adds:
  assumes "persist_analysis env a db = Inr (x, db')" and "store_ok db"
  shows "adds_results db db'"
proof -
  from assms(1) obtain db1 P z where 1: "insert_analysis env a db = Inr db1"
    and db': "db' = db1\<lparr>profiles := update_where P (\<lambda>p. p\<lparr>p_latest_analysis_id := z\<rparr>) (profiles db1)\<rparr>"
    by (auto simp: persist_analysis_def err_simps)
  have a: "adds_results db db1" using insert_analysis_adds [OF 1] assms(2) by (simp add: store_ok_def)
  then have "adds_results db1 db'" unfolding db' by (intro pointer_adds) (simp_all add: adds_results_def)
  with a show ?thesis by (rule adds_results_trans)
qed

lemma persist_route_proposal_adds:
  "persist_route_proposal q db = Inr (x, db') \<Longrightarrow> store_ok db \<Longrightarrow> adds_results db db'"
  by (auto simp: persist_route_proposal_def err_simps store_ok_def split: option.splits intro: insert_proposal_adds)

lemma finalize_recompute_adds:
  assumes "finalize_recompute env w art db = Inr (x, db')" and "store_ok db"
  shows "adds_results db db'"
proof -
  from assms(1) obtain db1 db2 db3 db4 z P upd where 1: "insert_analysis env (ra_analysis art) db = Inr db1"
    and 2: "(case ra_proposal art of None \<Rightarrow> Inr db1 | Some p \<Rightarrow> insert_proposal p db1) = Inr db2"
    and 3: "db3 = db2\<lparr>recompute_requests := upd\<rparr>"
    and 4: "db4 = db3\<lparr>profiles := update_where P (\<lambda>p. p\<lparr>p_latest_analysis_id := z\<rparr>) (profiles db3)\<rparr>"
    and 5: "complete_job env w db4 = Inr ((), db')"
    unfolding finalize_recompute_def Let_def
    by (auto simp: err_simps end_request_def Let_def update_pointer_def)
  have a: "adds_results db db1" using insert_analysis_adds [OF 1] assms(2) by (simp add: store_ok_def)
  then have b: "adds_results db1 db2"
    using 2 by (auto simp: adds_results_def split: option.splits dest!: insert_proposal_adds)
  then have c: "adds_results db2 db3" using 3 by (simp add: adds_results_def)
  then have d: "adds_results db3 db4" unfolding 4 by (intro pointer_adds) (simp_all add: adds_results_def)
  then have "adds_results db4 db'" using 5 by (auto simp: complete_job_def Let_def err_simps adds_results_def)
  with a b c d show ?thesis by (blast intro: adds_results_trans)
qed

lemma submit_keeps:
  assumes "submit_analysis_recompute fl policy env s db = Inr (x, db')" and ok: "store_ok db"
  shows "keeps_versions db db' \<and> store_ok db'"
proof -
  consider "db' = db"
    | db1 limits where "insert_event \<lparr>ev_id = e_uuid env 0, ev_user_id = sb_user_id s, ev_aggregate_id = e_uuid env 0,
          ev_aggregate_type = ''PROFILE'', ev_version = sb_expected_profile_version s,
          ev_kind = ''ANALYSIS_REQUESTED'', ev_payload = [(''goal_id'', JStr (sb_goal_id s))]\<rparr>
        (db\<lparr>rate_limits := limits\<rparr>) = Inr db1" "queue_only db1 db'"
    using assms(1) by (auto simp: submit_analysis_recompute_def err_simps Let_def
        split: option.splits sum.splits dest: persist_queue_only)
  then show ?thesis
  proof cases
    case 1
    with ok show ?thesis by (simp add: quiet_keeps)
  next
    case 2
    have p: "plans_of db1 = plans_of db" "profiles db1 = profiles db" "log_of u db1 = log_of u db" for u
      using 2(1) by (auto simp: insert_event_def err_simps plans_of_def log_of_def rows_where_def)
    have "store_ok db1" by (rule store_ok_same_plans [OF ok p(1)]) (use p(2) ok in \<open>simp add: store_ok_def\<close>)
    moreover have "keeps_versions db db1" using p by (simp add: keeps_versions_def profile_version_def)
    ultimately show ?thesis
      using queue_only_quiet [OF 2(2)] by (blast intro: quiet_store_ok quiet_keeps keeps_versions_trans)
  qed
qed

subsection \<open>Roadmaps\<close>

definition adds_draft :: "uuid \<Rightarrow> database \<Rightarrow> database \<Rightarrow> bool" where
  "adds_draft roadmap_id db db' \<longleftrightarrow> goals db' = goals db \<and> analyses db' = analyses db \<and> route_proposals db' = route_proposals db
     \<and> profiles db' = profiles db \<and> user_state_events db' = user_state_events db
     \<and> (\<exists>r. roadmaps db' = roadmaps db @ [r] \<and> rm_id r = roadmap_id \<and> rm_state r = DRAFT
          \<and> (\<forall>x \<in> set (roadmaps db). rm_id x \<noteq> roadmap_id))"

lemma adds_draft_quiet: "adds_draft i db db1 \<Longrightarrow> quiet db1 db2 \<Longrightarrow> adds_draft i db db2"
  by (simp add: adds_draft_def quiet_def plans_of_def)

lemma adds_draft_keeps:
  assumes "adds_draft i db db'" and ok: "store_ok db"
  shows "keeps_versions db db' \<and> store_ok db'"
proof
  show "keeps_versions db db'" using assms(1) by (intro keeps_same) (simp_all add: adds_draft_def)
  have active: "active_roadmaps db' = active_roadmaps db"
    using assms(1) by (auto simp: adds_draft_def active_roadmaps_def rows_where_def)
  have "route_matches db' = route_matches db" using assms(1) by (simp add: adds_draft_def route_matches_def [abs_def])
  with active assms show "store_ok db'"
    by (auto simp: store_ok_def adds_draft_def one_active_goal_def one_active_roadmap_def active_roadmaps_def keyed_snoc)
qed

lemma insert_row_quiet:
  "insert_step s db = Inr db' \<Longrightarrow> quiet db db'" "insert_dependency d db = Inr db' \<Longrightarrow> quiet db db'"
  "insert_inheritance i e db = Inr db' \<Longrightarrow> quiet db db'"
  by (auto simp: insert_step_def insert_dependency_def insert_inheritance_def err_simps)

lemma create_steps_quiet:
  assumes "fold_err (create_step lib env roadmap) xs (new_ids, db) = Inr (new_ids', db')"
  shows "quiet db db'"
proof -
  have "(case (new_ids', db') of (_, d) \<Rightarrow> quiet db d)"
    by (rule fold_err_invariant [OF assms])
      (auto simp: create_step_def err_simps dest!: insert_row_quiet(1) elim: quiet_trans)
  then show ?thesis by simp
qed

lemma link_prerequisite_quiet: "link_prerequisite new_ids roadmap step key db = Inr db' \<Longrightarrow> quiet db db'"
  by (auto simp: link_prerequisite_def split: JsonValue.splits option.splits dest: insert_row_quiet)

lemma create_dependencies_quiet: "create_dependencies new_ids roadmap step db = Inr db' \<Longrightarrow> quiet db db'"
  by (auto simp: create_dependencies_def err_simps dest: fold_err_quiet [OF _ link_prerequisite_quiet])

lemma inherit_completion_quiet:
  assumes "inherit_completion lib completed new_ids step db = Inr db'"
  shows "quiet db db'"
proof -
  from assms obtain k where k: "proposed_semantics lib step = Inr k" by (auto simp: inherit_completion_def err_simps)
  show ?thesis
  proof (cases "map_of (rev completed) k")
    case None
    with assms k show ?thesis by (simp add: inherit_completion_def)
  next
    case (Some e)
    with assms k obtain i ss where "insert_inheritance i e (db\<lparr>roadmap_steps := ss\<rparr>) = Inr db'"
      by (auto simp: inherit_completion_def err_simps)
    from quiet_trans [OF quiet_updates(3) insert_row_quiet(3) [OF this]] show ?thesis .
  qed
qed

lemma insert_route_adds:
  assumes "insert_route lib env r steps previous db = Inr db'" and "rm_state r = DRAFT"
  shows "adds_draft (rm_id r) db db'"
proof -
  from assms(1) obtain db1 new_ids db2 db3 where 1: "insert_roadmap r db = Inr db1"
    and 2: "fold_err (create_step lib env (rm_id r)) (enumerate 0 steps) ([], db1) = Inr (new_ids, db2)"
    and 3: "fold_err (create_dependencies new_ids (rm_id r)) steps db2 = Inr db3"
    and 4: "inherit_completions lib previous new_ids steps db3 = Inr db'"
    by (auto simp: insert_route_def and_then_Inr_iff)
  have "adds_draft (rm_id r) db db1"
    using 1 assms(2) by (auto simp: insert_roadmap_def err_simps row_exists_iff adds_draft_def)
  moreover have "quiet db1 db2" by (rule create_steps_quiet [OF 2])
  moreover have "quiet db2 db3" by (rule fold_err_quiet [OF 3 create_dependencies_quiet])
  moreover have "quiet db3 db'"
    using 4 by (auto simp: inherit_completions_def err_simps split: option.splits
        dest: fold_err_quiet [OF _ inherit_completion_quiet])
  ultimately show ?thesis by (blast intro: adds_draft_quiet)
qed

lemma create_roadmap_adds:
  "create_roadmap lib env q db = Inr (x, db') \<Longrightarrow> adds_draft (rc_roadmap_id q) db db'"
  by (auto simp: create_roadmap_def err_simps new_roadmap_def split: option.split_asm dest!: insert_route_adds)

text \<open>What passes the checks of an activation is a route for the goal as it stands.\<close>

lemma check_activation_matches:
  assumes "check_activation lib env (rm_user_id r) r db = Inr u"
  shows "route_matches db r"
proof -
  from assms obtain p a g where s: "activation_source (rm_user_id r) (rm_proposal_id r) (rm_goal_id r) db = Some (p, a, g)"
    and planned: "planned_for_goal (p, a, g)"
    by (auto simp: check_activation_def err_simps require_Inr_iff split: option.splits)
  have "(p, a, g) \<in> set [(p, a, g). p \<leftarrow> route_proposals db, rp_id p = rm_proposal_id r \<and> rp_user_id p = rm_user_id r,
      a \<leftarrow> analyses db, an_id a = rp_analysis_id p \<and> an_user_id a = rm_user_id r,
      g \<leftarrow> goals db, go_id g = an_goal_id a \<and> go_user_id g = rm_user_id r \<and> go_id g = rm_goal_id r]"
    using s by (auto simp only: activation_source_def split: list.splits intro: list.set_intros(1))
  then show ?thesis using planned by (intro route_matchesI [of g db p a r]) auto
qed

lemma archive_others_store_ok: "store_ok db \<Longrightarrow> store_ok (archive_others u i db)"
  by (rule store_ok_roadmaps [of db _ "\<lambda>r. if rm_user_id r = u \<and> rm_state r = ACTIVE \<and> rm_id r \<noteq> i then archive r else r"])
    (auto simp: archive_others_def update_where_def store_ok_def split: if_splits)

lemma archive_others_fields:
  "goals (archive_others u i db) = goals db" "analyses (archive_others u i db) = analyses db"
  "route_proposals (archive_others u i db) = route_proposals db" "profiles (archive_others u i db) = profiles db"
  "user_state_events (archive_others u i db) = user_state_events db"
  by (simp_all add: archive_others_def)

lemma route_matches_cong:
  assumes "goals db' = goals db" "analyses db' = analyses db" "route_proposals db' = route_proposals db"
    and "rm_user_id r' = rm_user_id r" "rm_goal_id r' = rm_goal_id r" "rm_proposal_id r' = rm_proposal_id r"
  shows "route_matches db' r' = route_matches db r"
  using assms by (simp add: route_matches_def)

lemma mutate_roadmap_Inr:
  assumes "mutate_roadmap lib env q db = Inr (x, db')"
    and "db1 = (if rmu_state q = ACTIVE then archive_others (rmu_user_id q) (rmu_roadmap_id q) db else db)"
  obtains row where "row \<in> set (roadmaps db)" "rm_id row = rmu_roadmap_id q"
    "rmu_state q = ACTIVE \<Longrightarrow> check_activation lib env (rm_user_id row) row db = Inr ()"
    "db' = db1\<lparr>roadmaps := update_where (this_roadmap q) (set_roadmap q) (roadmaps db1)\<rparr>" "one_active_roadmap db'"
proof -
  from assms(1) obtain row where row: "one_or_none (this_roadmap q) (roadmaps db) = Some row"
    by (auto simp: mutate_roadmap_def Let_def err_simps split: option.split_asm)
  have r: "row \<in> set (roadmaps db)" "rm_id row = rmu_roadmap_id q" "rm_user_id row = rmu_user_id q"
    using one_or_none_SomeD [OF row] by (simp_all add: this_roadmap_def)
  have "(if rmu_state q = ACTIVE then check_activation lib env (rmu_user_id q) row db else Inr ()) = Inr ()"
    "db' = db1\<lparr>roadmaps := update_where (this_roadmap q) (set_roadmap q) (roadmaps db1)\<rparr>" "one_active_roadmap db'"
    using assms(1) row unfolding mutate_roadmap_def Let_def assms(2) [symmetric]
    by (auto simp: and_then_Inr_iff require_Inr_iff split del: if_split)
  with r show thesis by (intro that [of row]) simp_all
qed

lemma set_roadmap_simps [simp]:
  "rm_id (set_roadmap q r) = rm_id r" "rm_user_id (set_roadmap q r) = rm_user_id r"
  "rm_goal_id (set_roadmap q r) = rm_goal_id r" "rm_proposal_id (set_roadmap q r) = rm_proposal_id r"
  "rm_state (set_roadmap q r) = rmu_state q"
  by (simp_all add: set_roadmap_def)

lemma mutate_roadmap_keeps:
  assumes "mutate_roadmap lib env q db = Inr (x, db')" and ok: "store_ok db"
  shows "keeps_versions db db' \<and> store_ok db'"
proof -
  define db1 where "db1 = (if rmu_state q = ACTIVE then archive_others (rmu_user_id q) (rmu_roadmap_id q) db else db)"
  from mutate_roadmap_Inr [OF assms(1) db1_def] obtain row where row: "row \<in> set (roadmaps db)" "rm_id row = rmu_roadmap_id q"
      "rmu_state q = ACTIVE \<Longrightarrow> check_activation lib env (rm_user_id row) row db = Inr ()"
    and db': "db' = db1\<lparr>roadmaps := update_where (this_roadmap q) (set_roadmap q) (roadmaps db1)\<rparr>"
    and one: "one_active_roadmap db'" by metis
  have same: "goals db1 = goals db" "analyses db1 = analyses db" "route_proposals db1 = route_proposals db"
    "profiles db1 = profiles db" "user_state_events db1 = user_state_events db"
    by (simp_all add: db1_def archive_others_fields)
  have ok1: "store_ok db1" using ok by (simp add: db1_def archive_others_store_ok)
  have "store_ok db'"
  proof (cases "rmu_state q = ACTIVE")
    case False
    then show ?thesis using ok1
      by (intro store_ok_roadmaps [OF ok1, of db' "\<lambda>r. if this_roadmap q r then set_roadmap q r else r"])
        (auto simp: db' update_where_def store_ok_def split: if_splits)
  next
    case True
    have "route_matches db' r" if r: "r \<in> set (roadmaps db')" "rm_state r = ACTIVE" for r
    proof -
      from r(1) obtain r1 where r1: "r1 \<in> set (roadmaps db1)" "r = (if this_roadmap q r1 then set_roadmap q r1 else r1)"
        by (auto simp: db' set_update_where)
      show ?thesis
      proof (cases "this_roadmap q r1")
        case True
        then have "rm_id r1 = rm_id row" using row(2) by (simp add: this_roadmap_def)
        moreover from r1(1) \<open>rmu_state q = ACTIVE\<close> obtain r0 where r0: "r0 \<in> set (roadmaps db)" "r1 = r0 \<or> r1 = archive r0"
          by (auto simp: db1_def archive_others_def set_update_where split: if_splits)
        ultimately have "r0 = row"
          using keyed_inject [of rm_id "roadmaps db" r0 row] row(1) ok by (auto simp: store_ok_def)
        moreover have "route_matches db row" using row(3) \<open>rmu_state q = ACTIVE\<close> by (intro check_activation_matches) simp
        ultimately show ?thesis
          using r0(2) r1(2) True same by (subst route_matches_cong [of db' db r row]) (auto simp: db')
      next
        case False
        with r r1 ok1 have "route_matches db1 r"
          by (simp add: store_ok_def list_all_iff active_roadmaps_def set_rows_where)
        then show ?thesis by (subst route_matches_cong [of db' db1 r r]) (simp_all add: db')
      qed
    qed
    then have "list_all (route_matches db') (active_roadmaps db')"
      by (simp add: list_all_iff active_roadmaps_def set_rows_where)
    with ok1 one show ?thesis by (simp add: store_ok_def db' keyed_update one_active_goal_def)
  qed
  moreover have "keeps_versions db db'" by (rule keeps_same) (simp_all add: db' same)
  ultimately show ?thesis by simp
qed

subsection \<open>Steps of a roadmap\<close>

lemma step_event_kind_not_request: "step_event_kind reversing state \<noteq> ''ANALYSIS_REQUESTED''"
  by (simp add: step_event_kind_def)

lemma grant_outcome_quiet: "grant_outcome env u s e nx db = Inr db' \<Longrightarrow> quiet db db'"
  by (auto simp: grant_outcome_def Let_def split: if_splits prod.splits dest: insert_capability_quiet)

lemma set_inheritance_quiet: "quiet db (set_inheritance s e db)"
  by (simp add: set_inheritance_def)

lemma complete_step_quiet: "complete_step lib env u s e raw db = Inr db' \<Longrightarrow> quiet db db'"
  by (auto simp: complete_step_def err_simps dest!: fold_err_quiet [OF _ grant_outcome_quiet]
      intro: quiet_trans [OF set_inheritance_quiet])

lemma step_branch_quiet:
  "(if b then reverse_completion s db else Inr db) = Inr db' \<Longrightarrow> quiet db db'"
  "(if b then complete_step lib env u s e raw db else Inr db) = Inr db' \<Longrightarrow> quiet db db'"
  by (auto simp: reverse_completion_def split: if_splits option.splits dest: complete_step_quiet)

lemma write_step_state_frame:
  assumes "write_step_state q db = Inr db'" and "store_ok db"
  shows "store_ok db'" "profiles db' = profiles db" "user_state_events db' = user_state_events db"
proof -
  from assms(1) obtain ss where db': "db' = db\<lparr>roadmap_steps := ss, roadmaps := update_where
      (\<lambda>r. rm_id r = sm_roadmap_id q) (\<lambda>r. r\<lparr>rm_version := rm_version r + 1\<rparr>) (roadmaps db)\<rparr>"
    by (auto simp: write_step_state_def Let_def err_simps)
  show "store_ok db'"
    by (rule store_ok_roadmaps [OF assms(2), of _ "\<lambda>r. if rm_id r = sm_roadmap_id q then r\<lparr>rm_version := rm_version r + 1\<rparr> else r"])
      (use assms(2) in \<open>auto simp: db' update_where_def store_ok_def split: if_splits\<close>)
  show "profiles db' = profiles db" "user_state_events db' = user_state_events db" by (simp_all add: db')
qed

lemma apply_transition_Inr:
  assumes "apply_transition lib env q goal step db = Inr db'"
  obtains db2 db3 db4 db5 kind payload where "write_step_state q db = Inr db2" "quiet db2 db3" "kind \<noteq> ''ANALYSIS_REQUESTED''"
    "append_event (e_uuid env 0) (sm_user_id q) (sm_step_id q) (sm_expected_profile_version q + 1) kind payload db3 = Inr db4"
    "quiet db4 db5" "queue_only db5 db'"
proof -
  define b where "b = (st_state step = COMPLETED \<and> sm_state q \<in> {IN_PROGRESS, TODO})"
  from assms obtain db2 db3 db4 db5 where "write_step_state q db = Inr db2"
    "(if b then reverse_completion (sm_step_id q) db2 else Inr db2) = Inr db3"
    "append_event (e_uuid env 0) (sm_user_id q) (sm_step_id q) (sm_expected_profile_version q + 1)
       (step_event_kind b (sm_state q)) [(''outcomes'', JSeq (st_outcomes step))] db3 = Inr db4"
    "(if sm_state q = COMPLETED then complete_step lib env (sm_user_id q) (sm_step_id q) (e_uuid env 0)
       (st_outcomes step) db4 else Inr db4) = Inr db5"
    "enqueue_for_goal (sl_context lib) env (sm_user_id q) (sm_expected_profile_version q + 1) (e_uuid env 0) goal
       (e_uuid env 1) (e_uuid env 2) db5 = Inr ((), db')"
    unfolding apply_transition_def Let_def b_def [symmetric] and_then_Inr_iff by (elim exE conjE) (auto split: prod.splits)
  from that [OF this(1) step_branch_quiet(1) [OF this(2)] step_event_kind_not_request this(3)
      step_branch_quiet(2) [OF this(4)] enqueue_queue_only(2) [OF this(5)]]
  show thesis .
qed

lemma mutate_step_state_Inr:
  assumes "mutate_step_state lib env q db = Inr (x, db')"
  obtains db1 roadmap step where "bump_profile env (sm_user_id q) (sm_expected_profile_version q) db = Inr db1"
    "one_or_none (\<lambda>r. rm_id r = sm_roadmap_id q \<and> rm_user_id r = sm_user_id q
       \<and> rm_version r = sm_expected_roadmap_version q) (roadmaps db1) = Some roadmap" "rm_state roadmap = ACTIVE"
    "one_or_none (\<lambda>s. st_id s = sm_step_id q \<and> st_roadmap_id s = sm_roadmap_id q) (roadmap_steps db1) = Some step"
    "(st_state step, sm_state q) \<in> set STEP_TRANSITIONS"
    "apply_transition lib env q (rm_goal_id roadmap) step db1 = Inr db'"
  using assms by (auto simp: mutate_step_state_def and_then_Inr_iff require_Inr_iff split: option.split_asm)

lemma mutate_step_state_changes:
  assumes "mutate_step_state lib env q db = Inr (x, db')" and ok: "store_ok db"
  shows "changes (sm_user_id q) (sm_expected_profile_version q) db db' \<and> store_ok db'"
proof -
  from assms(1) obtain db1 db2 db3 db4 db5 kind payload where
    1: "bump_profile env (sm_user_id q) (sm_expected_profile_version q) db = Inr db1"
    and 2: "write_step_state q db1 = Inr db2" and 3: "quiet db2 db3" and kind: "kind \<noteq> ''ANALYSIS_REQUESTED''"
    and 4: "append_event (e_uuid env 0) (sm_user_id q) (sm_step_id q) (sm_expected_profile_version q + 1) kind payload db3 = Inr db4"
    and 5: "quiet db4 db5" "queue_only db5 db'"
    by (elim mutate_step_state_Inr apply_transition_Inr)
  have q5: "quiet db4 db'" using 5 queue_only_quiet quiet_trans by blast
  have keyed: "keyed p_user_id (profiles db)" using ok by (simp add: store_ok_def)
  note bump = bump_profile_Inr [OF 1 keyed] and ev = append_event_frame [OF 4]
  have ok1: "store_ok db1" using store_ok_same_plans [OF ok bump(2)] bump(1) by (simp add: advances_def)
  note wrote = write_step_state_frame [OF 2 ok1]
  have "store_ok db4" using quiet_store_ok [OF 3 wrote(1)] ev(1,2)
    by (intro store_ok_same_plans [of db3 db4]) (simp_all add: store_ok_def)
  then have ok': "store_ok db'" by (rule quiet_store_ok [OF q5])
  have "advances (sm_user_id q) (sm_expected_profile_version q) db db'"
    by (rule advances_profiles [OF bump(1)]) (use wrote(2) 3 ev(2) q5 in \<open>simp add: quiet_def\<close>)
  moreover have "logs (sm_user_id q) (sm_expected_profile_version q + 1) db db'"
    using ev(3) [OF kind] bump(3) wrote(3) 3 q5 by (simp add: logs_def quiet_def)
  ultimately show ?thesis using ok' by (simp add: changes_def)
qed

subsection \<open>The automatic roadmap\<close>

lemma settle_request_quiet: "quiet db (settle_request r db)"
  by (simp add: settle_request_def)

lemma adopt_proposal_keeps:
  assumes "adopt_proposal lib env title r goal p existing db = Inr (x, db')" and ok: "store_ok db"
  shows "keeps_versions db db' \<and> store_ok db'"
proof (cases existing)
  case None
  with assms(1) obtain q y db1 q' where 1: "create_roadmap lib env q db = Inr (y, db1)"
    and 2: "mutate_roadmap lib env q' db1 = Inr (x, db')"
    by (auto simp: adopt_proposal_def and_then_Inr_iff)
  have "keeps_versions db db1 \<and> store_ok db1" by (rule adds_draft_keeps [OF create_roadmap_adds [OF 1] ok])
  with mutate_roadmap_keeps [OF 2] show ?thesis by (blast intro: keeps_versions_trans)
next
  case (Some e)
  with assms show ?thesis by (auto simp: adopt_proposal_def and_then_Inr_iff dest: mutate_roadmap_keeps)
qed

lemma reconcile_cases:
  assumes "reconcile_automatic_roadmap lib env request title db = Inr (x, db')"
  obtains "db' = db" | "db' = settle_request request db"
    | r goal p existing y db1 where "adopt_proposal lib env title r goal p existing db = Inr (y, db1)"
      "db' = settle_request request db1"
  using assms unfolding reconcile_automatic_roadmap_def Let_def
  by (auto split: option.split_asm if_split_asm sum.split_asm persistence_error.split_asm prod.split_asm)

lemma reconcile_keeps:
  assumes "reconcile_automatic_roadmap lib env request title db = Inr (x, db')" and ok: "store_ok db"
  shows "keeps_versions db db' \<and> store_ok db'"
  using assms(1)
proof (cases rule: reconcile_cases)
  case 3
  from adopt_proposal_keeps [OF 3(1) ok] show ?thesis
    unfolding 3(2) using settle_request_quiet by (blast intro: quiet_store_ok quiet_keeps keeps_versions_trans)
qed (use ok settle_request_quiet in \<open>auto intro: quiet_store_ok quiet_keeps\<close>)

subsection \<open>Deleting a goal\<close>

lemma erase_goal_Inr:
  assumes "erase_goal env user goal db = Inr db'"
  defines "x \<equiv> goal_scope_of env user goal db"
  shows "goals db' = delete_where (\<lambda>g. go_id g = goal) (goals db)"
    "roadmaps db' = delete_where (\<lambda>r. rm_id r \<in> set (gx_roadmaps x)) (roadmaps db)"
    "analyses db' = delete_where (\<lambda>a. an_id a \<in> set (gx_analyses x)) (analyses db)"
    "route_proposals db' = delete_where (\<lambda>p. rp_id p \<in> set (gx_proposals x)) (route_proposals db)"
    "profiles db' = profiles db" "user_state_events db' = user_state_events db"
proof -
  from assms obtain db1 traces where 1: "run_statements (goal_statements env x) db = Inr db1"
    and 2: "run_statements (final_goal_statements env user goal x traces) db1 = Inr db'"
    by (auto simp: erase_goal_def Let_def and_then_Inr_iff)
  note run_statements_Inr [OF 1] run_statements_Inr [OF 2]
  then show "goals db' = delete_where (\<lambda>g. go_id g = goal) (goals db)"
    "roadmaps db' = delete_where (\<lambda>r. rm_id r \<in> set (gx_roadmaps x)) (roadmaps db)"
    "analyses db' = delete_where (\<lambda>a. an_id a \<in> set (gx_analyses x)) (analyses db)"
    "route_proposals db' = delete_where (\<lambda>p. rp_id p \<in> set (gx_proposals x)) (route_proposals db)"
    "profiles db' = profiles db" "user_state_events db' = user_state_events db"
    by (simp_all add: goal_statements_def final_goal_statements_def)
qed

lemma gx_roadmaps_iff: "i \<in> set (gx_roadmaps (goal_scope_of env user goal db))
    \<longleftrightarrow> (\<exists>r \<in> set (roadmaps db). rm_id r = i \<and> rm_goal_id r = goal \<and> rm_user_id r = user)"
  by (auto simp: goal_scope_of_def Let_def set_rows_where)

lemma gx_analyses_iff: "i \<in> set (gx_analyses (goal_scope_of env user goal db))
    \<longleftrightarrow> (\<exists>a \<in> set (analyses db). an_id a = i \<and> an_goal_id a = goal \<and> an_user_id a = user)"
  by (auto simp: goal_scope_of_def Let_def set_rows_where)

lemma gx_proposals_iff: "i \<in> set (gx_proposals (goal_scope_of env user goal db))
    \<longleftrightarrow> (\<exists>p \<in> set (route_proposals db). rp_id p = i \<and> rp_user_id p = user
          \<and> rp_analysis_id p \<in> set (gx_analyses (goal_scope_of env user goal db)))"
  by (auto simp: goal_scope_of_def Let_def set_rows_where)

lemma keyed_delete_filter: "keyed k (rows_where P t) \<Longrightarrow> keyed k (rows_where P (delete_where Q t))"
proof -
  assume "keyed k (rows_where P t)"
  moreover have "rows_where P (delete_where Q t) = delete_where Q (rows_where P t)"
    by (simp add: rows_where_def delete_where_def conj_commute)
  ultimately show ?thesis by (simp add: keyed_delete)
qed

lemma erase_goal_store_ok:
  assumes erase: "erase_goal env user goal db = Inr db'" and ok: "store_ok db"
    and own: "row_exists (\<lambda>g. go_id g = goal \<and> go_user_id g = user) (goals db)"
  shows "store_ok db'"
proof -
  note e = erase_goal_Inr [OF erase]
  have keys: "keyed go_id (goals db)" "keyed an_id (analyses db)" "keyed rp_id (route_proposals db)"
    using ok by (simp_all add: store_ok_def)
  from own obtain g0 where g0: "g0 \<in> set (goals db)" "go_id g0 = goal" "go_user_id g0 = user"
    by (auto simp: row_exists_iff)
  have "route_matches db' r" if r: "r \<in> set (roadmaps db')" "rm_state r = ACTIVE" for r
  proof -
    from r e(2) have r_db: "r \<in> set (roadmaps db)" "rm_id r \<notin> set (gx_roadmaps (goal_scope_of env user goal db))"
      by (simp_all add: set_delete_where)
    with ok r(2) have "route_matches db r" by (simp add: store_ok_def list_all_iff active_roadmaps_def set_rows_where)
    then obtain g p a where m: "g \<in> set (goals db)" "p \<in> set (route_proposals db)" "a \<in> set (analyses db)"
      and j: "go_id g = rm_goal_id r" "go_user_id g = rm_user_id r" "rp_id p = rm_proposal_id r"
        "rp_user_id p = rm_user_id r" "an_id a = rp_analysis_id p" "an_goal_id a = go_id g" "planned_for_goal (p, a, g)"
      by (rule route_matchesE)
    have other: "go_id g \<noteq> goal"
      using keyed_inject [OF keys(1) m(1) g0(1)] g0 j(1,2) r_db by (auto simp: gx_roadmaps_iff)
    have a: "an_id a \<notin> set (gx_analyses (goal_scope_of env user goal db))"
      using keyed_inject [OF keys(2) m(3)] other j(6) unfolding gx_analyses_iff by metis
    have p: "rp_id p \<notin> set (gx_proposals (goal_scope_of env user goal db))"
      using keyed_inject [OF keys(3) m(2)] a j(5) unfolding gx_proposals_iff by metis
    have "g \<in> set (goals db')" "p \<in> set (route_proposals db')" "a \<in> set (analyses db')"
      using e m other a p by (simp_all add: set_delete_where)
    then show ?thesis using j by (rule route_matchesI)
  qed
  then have "list_all (route_matches db') (active_roadmaps db')"
    by (simp add: list_all_iff active_roadmaps_def set_rows_where)
  with ok e show ?thesis
    by (simp add: store_ok_def keyed_delete keyed_delete_filter one_active_goal_def one_active_roadmap_def)
qed

lemma delete_goal_changes:
  assumes "delete_goal lib env q db = Inr (x, db')" and ok: "store_ok db"
  shows "changes (gd_user_id q) (gd_expected_profile_version q) db db' \<and> store_ok db'"
proof -
  let ?u = "gd_user_id q" and ?v = "gd_expected_profile_version q"
  define known where "known = gx_analyses (goal_scope_of env ?u (gd_goal_id q) db)"
  define f where "f = (\<lambda>p. p\<lparr>p_version := ?v + 1, p_updated_at := e_app_now env,
      p_latest_analysis_id := (if is_among known (p_latest_analysis_id p) then None else p_latest_analysis_id p)\<rparr> :: profiles_row)"
  from assms(1) obtain db1 db2 z where own: "row_exists (\<lambda>g. go_id g = gd_goal_id q \<and> go_user_id g = ?u) (goals db)"
    and version: "profile_version ?u db = Some ?v" and 1: "erase_goal env ?u (gd_goal_id q) db = Inr db1"
    and 2: "append_event (e_uuid env 0) ?u (gd_goal_id q) (?v + 1) ''GOAL_DELETED'' []
        (db1\<lparr>profiles := update_where (\<lambda>p. p_user_id p = ?u) f (profiles db1)\<rparr>) = Inr db2"
    and 3: "(case one_or_none (\<lambda>g. go_user_id g = ?u \<and> go_status g = ACTIVE) (goals db2) of None \<Rightarrow> Inr ((), db2)
       | Some g \<Rightarrow> enqueue_for_goal lib env ?u (?v + 1) (e_uuid env 0) (go_id g) (e_uuid env 1) (e_uuid env 2) db2) = Inr (z, db')"
    unfolding delete_goal_def Let_def known_def [symmetric] f_def [symmetric] and_then_Inr_iff require_version_def
      require_Inr_iff by (elim exE conjE) (auto split: prod.splits)
  have q: "quiet db2 db'" using 3 by (auto split: option.splits dest: enqueue_queue_only(2) queue_only_quiet)
  note e = erase_goal_Inr [OF 1] and ev = append_event_frame [OF 2]
  have keyed: "keyed p_user_id (profiles db)" using ok by (simp add: store_ok_def)
  have adv: "advances ?u ?v db db'"
    by (rule advancesI [OF keyed version, of db' "\<lambda>p. p_user_id p = ?u" f])
      (use q ev(2) e(5) in \<open>simp_all add: quiet_def f_def\<close>)
  have "store_ok db1" by (rule erase_goal_store_ok [OF 1 ok own])
  then have "store_ok db'" by (rule store_ok_same_plans) (use q ev adv in \<open>simp_all add: quiet_def plans_of_def advances_def\<close>)
  moreover have "logs ?u (?v + 1) db db'" using ev(3) e(6) q by (simp add: logs_def quiet_def)
  ultimately show ?thesis using adv by (simp add: changes_def)
qed

subsection \<open>Every step\<close>

lemma execute_step:
  assumes "execute lib env c db = Inr db'" and ok: "store_ok db"
  shows "store_ok db' \<and> (case base c of None \<Rightarrow> keeps_versions db db' | Some (u, v) \<Rightarrow> changes u v db db')"
proof -
  have keyed: "keyed p_user_id (profiles db)" using ok by (simp add: store_ok_def)
  have same: "store_ok db'" if "changes u v db db' \<and> plans_of db' = plans_of db" for u v
    using that by (intro store_ok_same_plans [OF ok]) (simp_all add: changes_def advances_def)
  show ?thesis
    using assms(1)
  proof (cases c)
    case (MutateProfile q) with assms(1) show ?thesis using same mutate_profile_changes [OF _ keyed]
      by (fastforce simp: err_simps)
  next
    case (MutateCapability q) with assms(1) show ?thesis using same mutate_capability_changes [OF _ keyed]
      by (fastforce simp: err_simps)
  next
    case (ReplaceOnboarding q) with assms(1) show ?thesis using same replace_onboarding_changes [OF _ keyed]
      by (fastforce simp: err_simps)
  next
    case (DeleteCapability q) with assms(1) show ?thesis using same delete_capability_changes [OF _ keyed]
      by (fastforce simp: err_simps)
  next
    case (SetPreferences q) with assms(1) show ?thesis using same set_route_preferences_changes [OF _ keyed]
      by (fastforce simp: err_simps)
  qed (use assms(1) in \<open>auto simp: err_simps dest: create_user_keeps [OF _ ok] mutate_goal_changes [OF _ ok]
      delete_goal_changes [OF _ ok] mutate_step_state_changes [OF _ ok] mutate_roadmap_keeps [OF _ ok]
      reconcile_keeps [OF _ ok] submit_keeps [OF _ ok] adds_draft_keeps [OF create_roadmap_adds ok]
      adds_results_keeps [OF persist_analysis_adds [OF _ ok] ok] adds_results_keeps [OF persist_route_proposal_adds [OF _ ok] ok]
      adds_results_keeps [OF finalize_recompute_adds [OF _ ok] ok]\<close>)
qed

end
