(* ===== verification/Queue_Transactions.thy ===== *)
theory Queue_Transactions
  imports Queue_Safety User_State_Safety
begin

section \<open>The queue under every transaction of the store\<close>

text \<open>
  The recompute queue is written by the worker and also by the transactions that change what a user
  states: nearly all of them queue a recomputation, the reconciliation of the automatic roadmap settles
  the request it stems from, and the erasure of a goal or an account removes requests with their jobs.
  Here each transaction of \<open>User_State\<close>, \<open>Roadmap_State\<close>, \<open>Goal_Deletion\<close>,
  \<open>Recompute_Requests\<close> and \<open>Account_Erasure\<close> is shown to keep the invariant of
  \<open>Queue_Safety\<close> and the results of the requests that have ended, those of erased users apart.
\<close>

subsection \<open>Results that are kept\<close>

text \<open>A request up to the mark that its automatic roadmap is still to be made.\<close>

definition settled :: "recompute_requests_row \<Rightarrow> recompute_requests_row" where
  "settled r = r\<lparr>rr_auto_roadmap_pending := False\<rparr>"

lemma settled_fields:
  assumes "settled r' = settled r"
  shows "rr_id r' = rr_id r" "rr_user_id r' = rr_user_id r" "rr_state r' = rr_state r"
    "rr_resulting_analysis_id r' = rr_resulting_analysis_id r" "rr_proposal_id r' = rr_proposal_id r"
  using arg_cong [OF assms, of rr_id] arg_cong [OF assms, of rr_user_id] arg_cong [OF assms, of rr_state]
    arg_cong [OF assms, of rr_resulting_analysis_id] arg_cong [OF assms, of rr_proposal_id]
  by (simp_all add: settled_def)

definition keeps_results :: "uuid \<Rightarrow> database \<Rightarrow> database \<Rightarrow> bool" where
  "keeps_results user db db' \<longleftrightarrow> (\<forall>r \<in> set (recompute_requests db). ended r \<longrightarrow> rr_user_id r = user
     \<longrightarrow> (\<exists>r' \<in> set (recompute_requests db'). settled r' = settled r))"

lemma keeps_results_subset:
  "set (recompute_requests db) \<subseteq> set (recompute_requests db') \<Longrightarrow> keeps_results user db db'"
  unfolding keeps_results_def by blast

lemma keeps_results_ended: "keeps_ended db db' \<Longrightarrow> keeps_results user db db'"
  unfolding keeps_results_def keeps_ended_def by blast

lemma keeps_results_trans:
  assumes "keeps_results user db db1" and "keeps_results user db1 db2"
  shows "keeps_results user db db2"
  unfolding keeps_results_def
proof (intro ballI impI)
  fix r assume r: "r \<in> set (recompute_requests db)" "ended r" "rr_user_id r = user"
  with assms(1) obtain r1 where r1: "r1 \<in> set (recompute_requests db1)" "settled r1 = settled r"
    unfolding keeps_results_def by blast
  then have "ended r1" "rr_user_id r1 = user" using r(2,3) settled_fields [OF r1(2)] by (simp_all add: ended_def)
  with assms(2) r1 show "\<exists>r' \<in> set (recompute_requests db2). settled r' = settled r"
    unfolding keeps_results_def by metis
qed

text \<open>
  The transaction keeps the queue safe at every time, and the results of every user but the one it
  erases.
\<close>

definition keeps_queue :: "uuid option \<Rightarrow> database \<Rightarrow> database \<Rightarrow> bool" where
  "keeps_queue gone db db' \<longleftrightarrow> (\<forall>now. safe now db
     \<longrightarrow> safe now db' \<and> (\<forall>user. gone \<noteq> Some user \<longrightarrow> keeps_results user db db'))"

lemma keeps_queueI:
  assumes "\<And>now. safe now db \<Longrightarrow> safe now db'"
    and "\<And>now user. safe now db \<Longrightarrow> gone \<noteq> Some user \<Longrightarrow> keeps_results user db db'"
  shows "keeps_queue gone db db'"
  using assms unfolding keeps_queue_def by blast

lemma keeps_queue_trans [trans]:
  assumes "keeps_queue gone db db1" and "keeps_queue gone db1 db2"
  shows "keeps_queue gone db db2"
proof (rule keeps_queueI)
  show "safe now db \<Longrightarrow> safe now db2" for now using assms unfolding keeps_queue_def by blast
  show "safe now db \<Longrightarrow> gone \<noteq> Some user \<Longrightarrow> keeps_results user db db2" for now user
    using assms keeps_results_trans unfolding keeps_queue_def by blast
qed

lemma keeps_queue_weaken: "keeps_queue None db db' \<Longrightarrow> keeps_queue gone db db'"
  unfolding keeps_queue_def by simp

subsection \<open>Writes to other tables\<close>

definition same_queue :: "database \<Rightarrow> database \<Rightarrow> bool" where
  "same_queue db db' \<longleftrightarrow> outbox_jobs db' = outbox_jobs db \<and> recompute_requests db' = recompute_requests db"

lemma same_queue_refl [simp]: "same_queue db db"
  by (simp add: same_queue_def)

lemma same_queue_trans [trans]: "same_queue db db1 \<Longrightarrow> same_queue db1 db2 \<Longrightarrow> same_queue db db2"
  by (simp add: same_queue_def)

lemma same_queue_keeps: "same_queue db db' \<Longrightarrow> keeps_queue gone db db'"
  by (rule keeps_queueI) (simp_all add: same_queue_def safe_cong keeps_results_subset)

lemma fold_err_same:
  assumes "fold_err f xs db = Inr db'" and "\<And>x db db'. f x db = Inr db' \<Longrightarrow> same_queue db db'"
  shows "same_queue db db'"
  using fold_err_invariant [OF assms(1), of "same_queue db"] assms(2) by (meson same_queue_refl same_queue_trans)

named_theorems same_queue_intros \<open>statements that write neither jobs nor requests\<close>

lemma profile_writes_same [same_queue_intros]:
  "update_profile f env u v db = Inr db' \<Longrightarrow> same_queue db db'"
  "bump_profile env u v db = Inr db' \<Longrightarrow> same_queue db db'"
  "append_event e u aggregate v kind payload db = Inr db' \<Longrightarrow> same_queue db db'"
  "insert_event ev db = Inr db' \<Longrightarrow> same_queue db db'"
  by (auto simp: bump_profile_def update_profile_def Let_def append_event_def insert_event_def err_simps same_queue_def)

lemma capability_writes_same [same_queue_intros]:
  "insert_capability c db = Inr db' \<Longrightarrow> same_queue db db'"
  "update_capability q i db = Inr db' \<Longrightarrow> same_queue db db'"
  "fold_err insert_capability cs db = Inr db' \<Longrightarrow> same_queue db db'"
proof -
  show one: "insert_capability c db = Inr db' \<Longrightarrow> same_queue db db'" for c db db'
    by (auto simp: insert_capability_def err_simps same_queue_def)
  show "update_capability q i db = Inr db' \<Longrightarrow> same_queue db db'"
    by (auto simp: update_capability_def err_simps Let_def same_queue_def)
  show "fold_err insert_capability cs db = Inr db' \<Longrightarrow> same_queue db db'"
    by (rule fold_err_same [OF _ one])
qed

lemma write_goal_same [same_queue_intros]: "write_goal env q goal db = Inr db' \<Longrightarrow> same_queue db db'"
  by (auto simp: write_goal_def err_simps Let_def same_queue_def split: if_splits)

lemma result_writes_same [same_queue_intros]:
  "insert_analysis env a db = Inr db' \<Longrightarrow> same_queue db db'"
  "insert_proposal p db = Inr db' \<Longrightarrow> same_queue db db'"
  by (simp_all add: insert_results_frame same_queue_def)

lemma route_writes_same [same_queue_intros]:
  "insert_roadmap r db = Inr db' \<Longrightarrow> same_queue db db'" "insert_step s db = Inr db' \<Longrightarrow> same_queue db db'"
  "insert_dependency d db = Inr db' \<Longrightarrow> same_queue db db'" "insert_inheritance i e db = Inr db' \<Longrightarrow> same_queue db db'"
  by (auto simp: insert_roadmap_def insert_step_def insert_dependency_def insert_inheritance_def err_simps same_queue_def)

lemma create_steps_same:
  assumes "fold_err (create_step lib env roadmap) xs (new_ids, db) = Inr (new_ids', db')"
  shows "same_queue db db'"
proof -
  have "(case (new_ids', db') of (_, d) \<Rightarrow> same_queue db d)"
    by (rule fold_err_invariant [OF assms])
      (auto simp: create_step_def err_simps dest!: route_writes_same(2) elim: same_queue_trans)
  then show ?thesis by simp
qed

lemma create_dependencies_same: "create_dependencies new_ids roadmap step db = Inr db' \<Longrightarrow> same_queue db db'"
proof -
  have link: "link_prerequisite new_ids roadmap step key db = Inr db' \<Longrightarrow> same_queue db db'" for step key db db'
    by (auto simp: link_prerequisite_def split: JsonValue.splits option.splits dest: route_writes_same(3))
  then show "create_dependencies new_ids roadmap step db = Inr db' \<Longrightarrow> same_queue db db'"
    by (auto simp: create_dependencies_def err_simps dest: fold_err_same [OF _ link])
qed

lemma inherit_completion_same:
  assumes "inherit_completion lib completed new_ids step db = Inr db'"
  shows "same_queue db db'"
proof -
  from assms obtain k where k: "proposed_semantics lib step = Inr k" by (auto simp: inherit_completion_def err_simps)
  show ?thesis
  proof (cases "map_of (rev completed) k")
    case None
    with assms k show ?thesis by (simp add: inherit_completion_def)
  next
    case (Some e)
    with assms k obtain i ss where "insert_inheritance i e (db\<lparr>roadmap_steps := ss\<rparr>) = Inr db'"
      by (auto simp: inherit_completion_def err_simps)
    then show ?thesis using route_writes_same(4) [of i e "db\<lparr>roadmap_steps := ss\<rparr>" db'] by (simp add: same_queue_def)
  qed
qed

lemma create_roadmap_same [same_queue_intros]:
  assumes "create_roadmap lib env q db = Inr (x, db')"
  shows "same_queue db db'"
proof -
  from assms obtain r steps previous where "insert_route lib env r steps previous db = Inr db'"
    by (auto simp: create_roadmap_def err_simps split: option.split_asm)
  then obtain db1 new_ids db2 db3 where 1: "insert_roadmap r db = Inr db1"
    and 2: "fold_err (create_step lib env (rm_id r)) (enumerate 0 steps) ([], db1) = Inr (new_ids, db2)"
    and 3: "fold_err (create_dependencies new_ids (rm_id r)) steps db2 = Inr db3"
    and 4: "inherit_completions lib previous new_ids steps db3 = Inr db'"
    by (auto simp: insert_route_def and_then_Inr_iff)
  have "same_queue db3 db'"
    using 4 by (auto simp: inherit_completions_def err_simps split: option.splits
        dest: fold_err_same [OF _ inherit_completion_same])
  with route_writes_same(1) [OF 1] create_steps_same [OF 2] fold_err_same [OF 3 create_dependencies_same]
  show ?thesis by (simp add: same_queue_def)
qed

lemma mutate_roadmap_same [same_queue_intros]:
  assumes "mutate_roadmap lib env q db = Inr (x, db')"
  shows "same_queue db db'"
proof -
  define db1 where "db1 = (if rmu_state q = ACTIVE then archive_others (rmu_user_id q) (rmu_roadmap_id q) db else db)"
  have archived: "same_queue db db1" by (simp add: db1_def archive_others_def same_queue_def)
  show ?thesis
  proof (rule mutate_roadmap_Inr [OF assms db1_def])
    assume "db' = db1\<lparr>roadmaps := update_where (this_roadmap q) (set_roadmap q) (roadmaps db1)\<rparr>"
    with archived show ?thesis by (simp add: same_queue_def)
  qed
qed

lemma create_user_same [same_queue_intros]: "create_user google env user db = Inr (x, db') \<Longrightarrow> same_queue db db'"
  by (cases google) (simp_all add: create_user_def Let_def err_simps same_queue_def split: option.split_asm, auto)

lemma persist_results_same [same_queue_intros]:
  "persist_analysis env a db = Inr (x, db') \<Longrightarrow> same_queue db db'"
  "persist_route_proposal p db = Inr (y, db') \<Longrightarrow> same_queue db db'"
proof -
  assume "persist_analysis env a db = Inr (x, db')"
  then obtain db1 ps where "insert_analysis env a db = Inr db1" "db' = db1\<lparr>profiles := ps\<rparr>"
    by (auto simp: persist_analysis_def err_simps)
  with result_writes_same(1) [OF this(1)] show "same_queue db db'" by (simp add: same_queue_def)
next
  assume "persist_route_proposal p db = Inr (y, db')"
  then show "same_queue db db'"
    by (auto simp: persist_route_proposal_def err_simps split: option.splits dest: result_writes_same(2))
qed

lemma complete_step_same: "complete_step lib env u s e raw db = Inr db' \<Longrightarrow> same_queue db db'"
proof -
  have "grant_outcome env u s e nx db = Inr db' \<Longrightarrow> same_queue db db'" for nx db db'
    by (auto simp: grant_outcome_def Let_def split: if_splits prod.splits dest: capability_writes_same(1))
  moreover have "same_queue db (set_inheritance s e db)" by (simp add: set_inheritance_def same_queue_def)
  ultimately show "complete_step lib env u s e raw db = Inr db' \<Longrightarrow> same_queue db db'"
    by (auto simp: complete_step_def err_simps intro: same_queue_trans dest!: fold_err_same)
qed

lemma step_branches_same [same_queue_intros]:
  "(if b then reverse_completion s db else Inr db) = Inr db' \<Longrightarrow> same_queue db db'"
  "(if b then complete_step lib env u s e raw db else Inr db) = Inr db' \<Longrightarrow> same_queue db db'"
  "write_step_state q db = Inr db' \<Longrightarrow> same_queue db db'"
proof -
  show "(if b then reverse_completion s db else Inr db) = Inr db' \<Longrightarrow> same_queue db db'"
    by (auto simp: reverse_completion_def same_queue_def split: if_splits option.splits)
  show "(if b then complete_step lib env u s e raw db else Inr db) = Inr db' \<Longrightarrow> same_queue db db'"
    by (auto split: if_splits dest: complete_step_same)
  show "write_step_state q db = Inr db' \<Longrightarrow> same_queue db db'"
    by (auto simp: write_step_state_def Let_def err_simps same_queue_def)
qed

subsection \<open>Queueing a recomputation\<close>

lemma persist_keeps_queue: "persist_recompute_request env i j q db = Inr (x, db') \<Longrightarrow> keeps_queue gone db db'"
  by (rule keeps_queueI) (simp_all add: persist_safe keeps_results_subset [OF persist_safe [THEN conjunct2]])

lemma enqueue_keeps_queue:
  "enqueue_recompute env user version event request job db = Inr (u, db') \<Longrightarrow> keeps_queue gone db db'"
  "enqueue_for_goal lib env user version event goal request job db = Inr (u, db') \<Longrightarrow> keeps_queue gone db db'"
  "enqueue_for_active_user lib env user version event request job db = Inr (u, db') \<Longrightarrow> keeps_queue gone db db'"
proof -
  show e: "enqueue_recompute env user version event request job db = Inr (u, db') \<Longrightarrow> keeps_queue gone db db'" for u
    by (auto simp: enqueue_recompute_def err_simps dest: persist_keeps_queue)
  show g: "enqueue_for_goal lib env user version event goal request job db = Inr (u, db') \<Longrightarrow> keeps_queue gone db db'"
    for goal u
    using e by (auto simp: enqueue_for_goal_def err_simps split: option.splits dest: persist_keeps_queue)
  show "enqueue_for_active_user lib env user version event request job db = Inr (u, db') \<Longrightarrow> keeps_queue gone db db'"
    using e g by (auto simp: enqueue_for_active_user_def split: list.splits)
qed

lemma record_change_keeps_queue:
  assumes "record_change lib env u aggregate v kind payload db = Inr db'"
  shows "keeps_queue gone db db'"
proof -
  from assms obtain db1 x where "append_event (e_uuid env 0) u aggregate v kind payload db = Inr db1"
    "enqueue_for_active_user lib env u v (e_uuid env 0) (e_uuid env 1) (e_uuid env 2) db1 = Inr (x, db')"
    by (auto simp: record_change_def err_simps)
  then show ?thesis by (blast intro: keeps_queue_trans same_queue_keeps profile_writes_same(3) enqueue_keeps_queue(3))
qed

text \<open>The common shape of a change: writes to other tables, the event and the recomputation.\<close>

lemma change_keeps_queue:
  "same_queue db db1 \<Longrightarrow> record_change lib env u aggregate v kind payload db1 = Inr db' \<Longrightarrow> keeps_queue gone db db'"
  by (blast intro: keeps_queue_trans same_queue_keeps record_change_keeps_queue)

subsection \<open>The user-state transactions\<close>

lemma goal_writes_keep_queue:
  assumes "mutate_goal lib env q db = Inr (x, db')"
  shows "keeps_queue gone db db'"
proof -
  define goal where "goal = (case gm_goal_id q of Some g \<Rightarrow> g | None \<Rightarrow> e_uuid env 3)"
  let ?u = "gm_user_id q" and ?v = "gm_expected_profile_version q"
  from assms obtain previous db1 db2 db3 y where
    1: "bump_profile env ?u ?v db = Inr db1" and 2: "write_goal env q goal db1 = Inr db2"
    and 3: "append_event (e_uuid env 0) ?u goal (?v + 1) ''GOAL_UPDATED'' []
        (if target_changed previous q then db2\<lparr>roadmaps := update_where
            (\<lambda>r. rm_user_id r = ?u \<and> rm_goal_id r = goal \<and> rm_state r = ACTIVE) archive (roadmaps db2)\<rparr> else db2) = Inr db3"
    and 4: "(if gm_status q = ACTIVE
             then enqueue_for_goal lib env ?u (?v + 1) (e_uuid env 0) goal (e_uuid env 1) (e_uuid env 2) db3
             else enqueue_for_active_user lib env ?u (?v + 1) (e_uuid env 0) (e_uuid env 1) (e_uuid env 2) db3) = Inr (y, db')"
    unfolding mutate_goal_def Let_def goal_def [symmetric] and_then_Inr_iff
    by (elim exE conjE) (auto split: prod.splits)
  have "same_queue db db3"
    using profile_writes_same(2) [OF 1] write_goal_same [OF 2] profile_writes_same(3) [OF 3]
    by (simp add: same_queue_def split: if_splits)
  moreover have "keeps_queue gone db3 db'"
    using 4 by (auto split: if_splits dest: enqueue_keeps_queue)
  ultimately show ?thesis by (blast intro: keeps_queue_trans same_queue_keeps)
qed

lemma profile_changes_keep_queue:
  "mutate_profile lib env pq db = Inr (x1, db') \<Longrightarrow> keeps_queue gone db db'"
  "mutate_capability lib env cq db = Inr (x2, db') \<Longrightarrow> keeps_queue gone db db'"
  "replace_onboarding_capabilities lib env oq db = Inr (x3, db') \<Longrightarrow> keeps_queue gone db db'"
  "delete_capability lib env dq db = Inr (x4, db') \<Longrightarrow> keeps_queue gone db db'"
  "set_route_preferences lib env rq db = Inr (x5, db') \<Longrightarrow> keeps_queue gone db db'"
proof -
  show "keeps_queue gone db db'" if "mutate_profile lib env pq db = Inr (x1, db')"
    using that by (auto simp: mutate_profile_def err_simps dest!: profile_writes_same(1) intro: change_keeps_queue)
  show "keeps_queue gone db db'" if "mutate_capability lib env cq db = Inr (x2, db')"
  proof -
    from that obtain db1 db2 c where "bump_profile env (cm_user_id cq) (cm_expected_profile_version cq) db = Inr db1"
      and 2: "same_queue db1 db2"
      and 3: "record_change lib env (cm_user_id cq) c (cm_expected_profile_version cq + 1) ''CAPABILITY_UPDATED'' [] db2 = Inr db'"
      by (auto simp: mutate_capability_def err_simps Let_def split: if_splits dest: capability_writes_same)
    then have "same_queue db db2" using profile_writes_same(2) same_queue_trans by blast
    with 3 show ?thesis by (rule change_keeps_queue [rotated])
  qed
  show "keeps_queue gone db db'" if "replace_onboarding_capabilities lib env oq db = Inr (x3, db')"
  proof -
    from that obtain db1 db2 cs payload where
      1: "bump_profile env (oc_user_id oq) (oc_expected_profile_version oq) db = Inr db1"
      and 2: "fold_err insert_capability (onboarding_rows env oq) (db1\<lparr>user_capabilities := cs\<rparr>) = Inr db2"
      and 3: "record_change lib env (oc_user_id oq) (oc_user_id oq) (oc_expected_profile_version oq + 1)
          ''ONBOARDING_CAPABILITIES_REPLACED'' payload db2 = Inr db'"
      by (auto simp: replace_onboarding_capabilities_def err_simps Let_def)
    have "same_queue db db2"
      using profile_writes_same(2) [OF 1] capability_writes_same(3) [OF 2] by (simp add: same_queue_def)
    with 3 show ?thesis by (rule change_keeps_queue [rotated])
  qed
  show "keeps_queue gone db db'" if "delete_capability lib env dq db = Inr (x4, db')"
  proof -
    from that obtain db1 cs where
      1: "bump_profile env (cdel_user_id dq) (cdel_expected_profile_version dq) db = Inr db1"
      and 3: "record_change lib env (cdel_user_id dq) (cdel_capability_id dq) (cdel_expected_profile_version dq + 1)
          ''CAPABILITY_REVOKED'' [] (db1\<lparr>user_capabilities := cs\<rparr>) = Inr db'"
      by (auto simp: delete_capability_def err_simps Let_def)
    have "same_queue db (db1\<lparr>user_capabilities := cs\<rparr>)"
      using profile_writes_same(2) [OF 1] by (simp add: same_queue_def)
    with 3 show ?thesis by (rule change_keeps_queue [rotated])
  qed
  show "keeps_queue gone db db'" if "set_route_preferences lib env rq db = Inr (x5, db')"
  proof -
    from that obtain db1 prefs where
      1: "bump_profile env (rpm_user_id rq) (rpm_expected_profile_version rq) db = Inr db1"
      and 3: "record_change lib env (rpm_user_id rq) (rpm_user_id rq) (rpm_expected_profile_version rq + 1)
          ''ROUTE_PREFERENCES_UPDATED'' [] (db1\<lparr>route_preferences := prefs\<rparr>) = Inr db'"
      by (auto simp: set_route_preferences_def err_simps Let_def)
    have "same_queue db (db1\<lparr>route_preferences := prefs\<rparr>)"
      using profile_writes_same(2) [OF 1] by (simp add: same_queue_def)
    with 3 show ?thesis by (rule change_keeps_queue [rotated])
  qed
qed

lemma step_changes_keep_queue:
  assumes "mutate_step_state lib env q db = Inr (x, db')"
  shows "keeps_queue gone db db'"
proof (rule mutate_step_state_Inr [OF assms])
  fix db1 roadmap and step :: roadmap_steps_row
  define b where "b = (st_state step = COMPLETED \<and> sm_state q \<in> {IN_PROGRESS, TODO})"
  assume 1: "bump_profile env (sm_user_id q) (sm_expected_profile_version q) db = Inr db1"
    and applied: "apply_transition lib env q (rm_goal_id roadmap) step db1 = Inr db'"
  from applied obtain db2 db3 db4 db5 where 2: "write_step_state q db1 = Inr db2"
    and 3: "(if b then reverse_completion (sm_step_id q) db2 else Inr db2) = Inr db3"
    and 4: "append_event (e_uuid env 0) (sm_user_id q) (sm_step_id q) (sm_expected_profile_version q + 1)
       (step_event_kind b (sm_state q)) [(''outcomes'', JSeq (st_outcomes step))] db3 = Inr db4"
    and 5: "(if sm_state q = COMPLETED then complete_step lib env (sm_user_id q) (sm_step_id q) (e_uuid env 0)
       (st_outcomes step) db4 else Inr db4) = Inr db5"
    and 6: "enqueue_for_goal (sl_context lib) env (sm_user_id q) (sm_expected_profile_version q + 1) (e_uuid env 0)
       (rm_goal_id roadmap) (e_uuid env 1) (e_uuid env 2) db5 = Inr ((), db')"
    unfolding apply_transition_def Let_def b_def [symmetric] and_then_Inr_iff by (elim exE conjE) (auto split: prod.splits)
  have "same_queue db db5"
    using profile_writes_same(2) [OF 1] step_branches_same(3) [OF 2] step_branches_same(1) [OF 3]
      profile_writes_same(3) [OF 4] step_branches_same(2) [OF 5] by (simp add: same_queue_def)
  with enqueue_keeps_queue(2) [OF 6] show ?thesis by (blast intro: keeps_queue_trans same_queue_keeps)
qed

text \<open>The reconciliation clears the mark of a request that may have ended long ago.\<close>

lemma settle_keeps_queue: "keeps_queue gone db (settle_request i db)"
proof (rule keeps_queueI)
  let ?g = "\<lambda>r. r\<lparr>rr_auto_roadmap_pending := False\<rparr>"
  have reqs: "recompute_requests (settle_request i db) = update_where (\<lambda>r. rr_id r = i) ?g (recompute_requests db)"
    by (simp add: settle_request_def)
  fix now assume ok: "safe now db"
  show "safe now (settle_request i db)"
  proof (rule safe_update [OF ok, of "\<lambda>j. j" ?g _ "\<lambda>_. False"])
    show "job_update (\<lambda>j. j)" by (simp add: job_update_def)
    show "request_update ?g" by (simp add: request_update_def)
    show "outbox_jobs (settle_request i db) = update_where (\<lambda>_. False) (\<lambda>j. j) (outbox_jobs db)"
      by (simp add: settle_request_def update_where_def)
    show "recompute_requests (settle_request i db) = update_where (\<lambda>r. rr_id r = i) ?g (recompute_requests db)" by (rule reqs)
    fix j assume "j \<in> set (outbox_jobs db)"
    then have "job_ok (recompute_requests db) j" using ok by (simp add: safe_def queue_ok_def)
    moreover have "\<exists>r' \<in> set (recompute_requests (settle_request i db)). rr_id r' = rr_id r \<and> rr_state r' = rr_state r"
      if "r \<in> set (recompute_requests db)" for r
      unfolding reqs by (rule bexI [of _ "if rr_id r = i then ?g r else r"]) (use that in \<open>auto simp: set_update_where\<close>)
    ultimately have "job_ok (recompute_requests (settle_request i db)) j"
      unfolding job_ok_def by metis
    then show "job_ok (recompute_requests (settle_request i db)) (if False then j else j)" by simp
  qed simp
next
  fix user
  have reqs: "recompute_requests (settle_request i db) = update_where (\<lambda>r. rr_id r = i)
      (\<lambda>r. r\<lparr>rr_auto_roadmap_pending := False\<rparr>) (recompute_requests db)"
    by (simp add: settle_request_def)
  show "keeps_results user db (settle_request i db)"
    unfolding keeps_results_def reqs
  proof (intro ballI impI)
    fix r assume "r \<in> set (recompute_requests db)"
    then show "\<exists>r' \<in> set (update_where (\<lambda>r. rr_id r = i)
        (\<lambda>r. r\<lparr>rr_auto_roadmap_pending := False\<rparr>) (recompute_requests db)). settled r' = settled r"
      by (intro bexI [of _ "if rr_id r = i then r\<lparr>rr_auto_roadmap_pending := False\<rparr> else r"]) (auto simp: settled_def set_update_where)
  qed
qed

lemma reconcile_keeps_queue:
  assumes "reconcile_automatic_roadmap lib env request title db = Inr (x, db')"
  shows "keeps_queue gone db db'"
  using assms
proof (cases rule: reconcile_cases)
  case (3 r goal p existing y db1)
  have "same_queue db db1"
  proof (cases existing)
    case None
    with 3(1) obtain q z db0 q' where a: "create_roadmap lib env q db = Inr (z, db0)"
      and b: "mutate_roadmap lib env q' db0 = Inr (y, db1)"
      by (auto simp: adopt_proposal_def and_then_Inr_iff)
    from create_roadmap_same [OF a] mutate_roadmap_same [OF b] show ?thesis by (rule same_queue_trans)
  next
    case (Some e)
    with 3(1) show ?thesis by (auto simp: adopt_proposal_def and_then_Inr_iff dest: mutate_roadmap_same)
  qed
  with settle_keeps_queue show ?thesis unfolding 3(2) by (blast intro: keeps_queue_trans same_queue_keeps)
qed (auto intro: settle_keeps_queue same_queue_keeps)

lemma submit_keeps_queue:
  assumes "submit_analysis_recompute fl policy env s db = Inr (x, db')"
  shows "keeps_queue gone db db'"
proof -
  consider "db' = db"
    | ev limits db1 q where "insert_event ev (db\<lparr>rate_limits := limits\<rparr>) = Inr db1"
        "persist_recompute_request env (e_uuid env 1) (e_uuid env 2) q db1 = Inr (x, db')"
    using assms by (auto simp: submit_analysis_recompute_def err_simps Let_def split: option.splits sum.splits)
  then show ?thesis
  proof cases
    case 2
    have "same_queue db db1" using profile_writes_same(4) [OF 2(1)] by (simp add: same_queue_def)
    with persist_keeps_queue [OF 2(2)] show ?thesis by (blast intro: keeps_queue_trans same_queue_keeps)
  qed (simp add: same_queue_keeps)
qed

subsection \<open>Erasures\<close>

text \<open>Requests are deleted together with the jobs that refer to them.\<close>

lemma delete_safe:
  assumes ok: "safe now db"
    and jobs: "outbox_jobs db' = delete_where P (outbox_jobs db)"
    and reqs: "recompute_requests db' = delete_where Q (recompute_requests db)"
    and together: "\<And>j r. j \<in> set (outbox_jobs db) \<Longrightarrow> r \<in> set (recompute_requests db) \<Longrightarrow> Q r
      \<Longrightarrow> jb_recompute_request_id j = Some (rr_id r) \<Longrightarrow> P j"
  shows "safe now db'"
proof -
  have "job_ok (recompute_requests db') j" if j: "j \<in> set (outbox_jobs db')" for j
  proof -
    have "j \<in> set (outbox_jobs db)" "\<not> P j" using j by (simp_all add: jobs set_delete_where)
    moreover from this have "job_ok (recompute_requests db) j" using ok by (simp add: safe_def queue_ok_def)
    ultimately show ?thesis unfolding job_ok_def reqs set_delete_where Bex_def using together by blast
  qed
  then have "queue_ok db'"
    using ok by (auto simp: safe_def queue_ok_def one_job_def jobs reqs set_delete_where intro: keyed_delete)
  moreover have running: "running_for now db user j" if "running_for now db' user j" for user j
    using that by (auto simp: running_for_def row_exists_iff reqs set_delete_where)
  have "j = j'" if "j \<in> set (outbox_jobs db')" "j' \<in> set (outbox_jobs db')"
      "running_for now db' user j" "running_for now db' user j'" for user j j'
  proof -
    have "j \<in> set (outbox_jobs db)" "j' \<in> set (outbox_jobs db)" using that(1,2) by (simp_all add: jobs set_delete_where)
    then show ?thesis using running [OF that(3)] running [OF that(4)] ok unfolding safe_def exclusive_def by blast
  qed
  then have "exclusive now db'" unfolding exclusive_def by blast
  ultimately show ?thesis by (simp add: safe_def)
qed

lemma delete_keeps_results:
  assumes "recompute_requests db' = delete_where Q (recompute_requests db)"
    and "\<And>r. r \<in> set (recompute_requests db) \<Longrightarrow> Q r \<Longrightarrow> rr_user_id r \<noteq> user"
  shows "keeps_results user db db'"
  unfolding keeps_results_def assms(1)
proof (intro ballI impI)
  fix r assume "r \<in> set (recompute_requests db)" "rr_user_id r = user"
  then have "r \<in> set (delete_where Q (recompute_requests db))" using assms(2) by (auto simp: set_delete_where)
  then show "\<exists>r' \<in> set (delete_where Q (recompute_requests db)). settled r' = settled r" by blast
qed

lemma erase_goal_queue:
  assumes "erase_goal env user goal db = Inr db'"
  defines "x \<equiv> goal_scope_of env user goal db"
  shows "outbox_jobs db' = delete_where (goal_job env (gx_requests x)) (outbox_jobs db)"
    "recompute_requests db' = delete_where (\<lambda>r. rr_id r \<in> set (gx_requests x)) (recompute_requests db)"
proof -
  from assms obtain db1 traces where 1: "run_statements (goal_statements env x) db = Inr db1"
    and 2: "run_statements (final_goal_statements env user goal x traces) db1 = Inr db'"
    by (auto simp: erase_goal_def Let_def and_then_Inr_iff)
  note run_statements_Inr [OF 1] run_statements_Inr [OF 2]
  then show "outbox_jobs db' = delete_where (goal_job env (gx_requests x)) (outbox_jobs db)"
    "recompute_requests db' = delete_where (\<lambda>r. rr_id r \<in> set (gx_requests x)) (recompute_requests db)"
    by (simp_all add: goal_statements_def final_goal_statements_def)
qed

lemma erase_goal_keeps_queue:
  assumes "erase_goal env user goal db = Inr db'"
  shows "keeps_queue (Some user) db db'"
proof (rule keeps_queueI)
  let ?x = "goal_scope_of env user goal db"
  note e = erase_goal_queue [OF assms]
  fix now assume ok: "safe now db"
  show "safe now db'"
    by (rule delete_safe [OF ok e]) (simp add: goal_job_def is_among_def)
  fix other assume other: "Some user \<noteq> Some other"
  have "rr_user_id r = user" if r: "r \<in> set (recompute_requests db)" "rr_id r \<in> set (gx_requests ?x)" for r
  proof -
    from r(2) obtain r0 where "r0 \<in> set (recompute_requests db)" "rr_id r0 = rr_id r" "rr_user_id r0 = user"
      by (auto simp: goal_scope_of_def Let_def set_rows_where goal_request_def)
    with r(1) ok show ?thesis using keyed_inject [of rr_id "recompute_requests db" r0 r]
      by (auto simp: safe_def queue_ok_def)
  qed
  with other show "keeps_results other db db'" by (intro delete_keeps_results [OF e(2)]) auto
qed

lemma delete_goal_keeps_queue:
  assumes "delete_goal lib env q db = Inr (x, db')"
  shows "keeps_queue (Some (gd_user_id q)) db db'"
proof -
  let ?u = "gd_user_id q" and ?v = "gd_expected_profile_version q"
  from assms obtain db1 ps db2 z where 1: "erase_goal env ?u (gd_goal_id q) db = Inr db1"
    and 2: "append_event (e_uuid env 0) ?u (gd_goal_id q) (?v + 1) ''GOAL_DELETED'' [] (db1\<lparr>profiles := ps\<rparr>) = Inr db2"
    and 3: "(case one_or_none (\<lambda>g. go_user_id g = ?u \<and> go_status g = ACTIVE) (goals db2) of None \<Rightarrow> Inr ((), db2)
       | Some g \<Rightarrow> enqueue_for_goal lib env ?u (?v + 1) (e_uuid env 0) (go_id g) (e_uuid env 1) (e_uuid env 2) db2) = Inr (z, db')"
    unfolding delete_goal_def Let_def and_then_Inr_iff by (elim exE conjE) (auto split: prod.splits)
  note erase_goal_keeps_queue [OF 1]
  also have "keeps_queue (Some ?u) db1 db2"
    by (rule same_queue_keeps) (use profile_writes_same(3) [OF 2] in \<open>simp add: same_queue_def\<close>)
  also have "keeps_queue (Some ?u) db2 db'"
    using 3 by (auto split: option.splits intro: same_queue_keeps dest: enqueue_keeps_queue(2))
  finally show ?thesis .
qed

lemma delete_account_keeps_queue:
  assumes "delete_account user db = Inr db'"
  shows "keeps_queue (Some user) db db'"
proof (cases "db' = db")
  case False
  from assms False have "db' = foldl (\<lambda>d s. s d) db (erasing_statements user)"
    using run_statements_Inr by (auto simp: delete_account_def split: if_splits)
  then have e: "outbox_jobs db' = delete_where (\<lambda>j. is_among (request_ids user db) (jb_recompute_request_id j)) (outbox_jobs db)"
    "recompute_requests db' = delete_where (\<lambda>r. rr_user_id r = user) (recompute_requests db)"
    by (simp_all add: erasing_statements_def delete_user_def ids_unchanged)
  show ?thesis
  proof (rule keeps_queueI)
    show "safe now db \<Longrightarrow> safe now db'" for now
      by (rule delete_safe [OF _ e]) (auto simp: is_among_def mem_request_ids)
    show "safe now db \<Longrightarrow> Some user \<noteq> Some other \<Longrightarrow> keeps_results other db db'" for now other
      by (rule delete_keeps_results [OF e(2)]) auto
  qed
qed (simp add: same_queue_keeps)

subsection \<open>Every command\<close>

text \<open>The user whose data the command erases, in whole or in part.\<close>

fun command_erases :: "command \<Rightarrow> uuid option" where
  "command_erases (DeleteGoal q) = Some (gd_user_id q)"
| "command_erases _ = None"

lemma finalize_keeps_queue: "finalize_recompute env w art db = Inr (f, db') \<Longrightarrow> keeps_queue gone db db'"
  by (rule keeps_queueI) (auto dest: finalize_safe intro: keeps_results_ended)

lemma execute_keeps_queue:
  assumes "execute lib env c db = Inr db'"
  shows "keeps_queue (command_erases c) db db'"
  using assms
  by (cases c) (auto simp: err_simps intro: same_queue_keeps create_user_same persist_results_same create_roadmap_same
      mutate_roadmap_same profile_changes_keep_queue goal_writes_keep_queue delete_goal_keeps_queue
      step_changes_keep_queue reconcile_keeps_queue submit_keeps_queue finalize_keeps_queue)

end
