(* ===== verification/Queue_Guarantees.thy ===== *)
theory Queue_Guarantees
  imports Queue_Transactions
begin

section \<open>Guarantees of the recompute queue\<close>

text \<open>
  The transactions that write jobs or requests as one step relation: what users do through the store,
  the requests of the API and the services, the workers, and the erasure of goals and accounts. Over
  every interleaving of them an account has at most one unexpired lease, a result is stored once, and
  the states of jobs and requests agree.
\<close>

subsection \<open>The step relation\<close>

datatype queue_action =
    Store command
  | Revision RoadmapCreate RoadmapMutation
  | CreateRequest uuid uuid RecomputeRequestCreate
  | ClaimOutbox nat int
  | CompleteOutbox OutboxLease
  | ClaimRecompute AnalysisBudgetPolicy nat "string set option"
  | FailRecompute RecomputeWorkItem string "json_object option"
  | EraseAccount uuid
  | Elsewhere

text \<open>
  A step is one committed transaction. \<open>Store\<close> covers every command of \<open>User_State_Safety\<close>, with the
  deletion of a goal, the submission of an analysis, the reconciliation of the automatic roadmap and
  the end of a worker's job. \<open>Revision\<close> is \<open>apply_roadmap_revision\<close>: it creates a roadmap, carries the
  progress of the old one over and activates it in one transaction; what it carries over may be any
  change to the other tables. \<open>Elsewhere\<close> is a transaction that writes neither table: sign-in and its
  management, idempotency records, weekly plans, budgets and retention.
\<close>

inductive queue_step :: "store_lib \<Rightarrow> env \<Rightarrow> queue_action \<Rightarrow> database \<Rightarrow> database \<Rightarrow> bool" for lib env where
  q_store: "execute lib env c db = Inr db' \<Longrightarrow> queue_step lib env (Store c) db db'"
| q_revision: "execute lib env (CreateRoadmap q) db = Inr db1 \<Longrightarrow> same_queue db1 db2
    \<Longrightarrow> execute lib env (MutateRoadmap m) db2 = Inr db' \<Longrightarrow> queue_step lib env (Revision q m) db db'"
| q_create: "create_recompute_request env request_id job_id q db = Inr (s, db')
    \<Longrightarrow> queue_step lib env (CreateRequest request_id job_id q) db db'"
| q_claim_outbox: "claim_outbox_jobs env limit lease_for db = (leases, db')
    \<Longrightarrow> queue_step lib env (ClaimOutbox limit lease_for) db db'"
| q_complete_outbox: "complete_outbox_job env lease db = Inr (u, db')
    \<Longrightarrow> queue_step lib env (CompleteOutbox lease) db db'"
| q_claim: "claim_recompute_work env policy limit eligible db = Inr (items, db')
    \<Longrightarrow> queue_step lib env (ClaimRecompute policy limit eligible) db db'"
| q_fail: "fail_recompute env w code details db = Inr (u, db')
    \<Longrightarrow> queue_step lib env (FailRecompute w code details) db db'"
| q_erase: "delete_account user db = Inr db' \<Longrightarrow> queue_step lib env (EraseAccount user) db db'"
| q_elsewhere: "same_queue db db' \<Longrightarrow> queue_step lib env Elsewhere db db'"

text \<open>The user whose data the action erases, in whole or in part.\<close>

fun erases :: "queue_action \<Rightarrow> uuid option" where
  "erases (Store c) = command_erases c"
| "erases (EraseAccount user) = Some user"
| "erases _ = None"

text \<open>
  A run keeps the database time of its last step; the clocks of a transaction do not run backwards.
\<close>

inductive queue_tick :: "store_lib \<Rightarrow> env \<times> queue_action \<Rightarrow> int \<times> database \<Rightarrow> int \<times> database \<Rightarrow> bool" for lib where
  tick: "queue_step lib env act db db' \<Longrightarrow> mono (e_clock env) \<Longrightarrow> now \<le> e_clock env 0
    \<Longrightarrow> (\<And>k. e_clock env k \<le> later) \<Longrightarrow> queue_tick lib (env, act) (now, db) (later, db')"

inductive_cases tickE: "queue_tick lib (env, act) (now, db) (later, db')"

abbreviation queue_run :: "store_lib \<Rightarrow> (env \<times> queue_action) list \<Rightarrow> int \<times> database \<Rightarrow> int \<times> database \<Rightarrow> bool" where
  "queue_run lib \<equiv> run (queue_tick lib)"

lemma create_request_persists:
  "create_recompute_request env i j q db = Inr (s, db') \<Longrightarrow> persist_recompute_request env i j q db = Inr (s, db')"
  by (auto simp: create_recompute_request_def split: option.splits if_splits)

lemma queue_step_safe:
  assumes "queue_step lib env act db db'" and ok: "safe now db" and "mono (e_clock env)" and "now \<le> e_clock env 0"
    and "\<And>k. e_clock env k \<le> later"
  shows "safe later db' \<and> (erases act \<noteq> Some user \<longrightarrow> keeps_results user db db')"
proof -
  have time: "now \<le> later" using assms(4) assms(5) [of 0] by simp
  have at_once: ?thesis if "keeps_queue (erases act) db db'"
    using that ok safe_later [OF _ time] unfolding keeps_queue_def by blast
  from assms(1) show ?thesis
  proof cases
    case (q_store c)
    then show ?thesis using execute_keeps_queue [OF q_store(2)] by (intro at_once) simp
  next
    case (q_revision q db1 db2 m)
    note parts = execute_keeps_queue [OF q_revision(2)] execute_keeps_queue [OF q_revision(4)]
    have "keeps_queue None db db1" "keeps_queue None db2 db'" using parts by simp_all
    then have "keeps_queue None db db'"
      using keeps_queue_trans same_queue_keeps [OF q_revision(3)] by blast
    then show ?thesis by (intro at_once) (rule keeps_queue_weaken)
  next
    case (q_create request_id job_id q s)
    then show ?thesis using persist_keeps_queue [OF create_request_persists] by (intro at_once) blast
  next
    case (q_claim_outbox limit lease_for leases)
    then have "keeps_queue None db db'"
      by (intro keeps_queueI keeps_results_subset) (simp_all add: claim_outbox_safe)
    then show ?thesis by (intro at_once) (rule keeps_queue_weaken)
  next
    case (q_complete_outbox lease u)
    then have "keeps_queue None db db'"
      by (intro keeps_queueI keeps_results_subset) (simp_all add: complete_outbox_safe)
    then show ?thesis by (intro at_once) (rule keeps_queue_weaken)
  next
    case (q_claim policy limit eligible items)
    then show ?thesis using claim_recompute_safe [OF assms(3) ok assms(4,5)] keeps_results_ended by blast
  next
    case (q_fail w code details u)
    then have "keeps_queue None db db'"
      by (intro keeps_queueI) (auto dest: fail_safe intro: keeps_results_ended)
    then show ?thesis by (intro at_once) (rule keeps_queue_weaken)
  next
    case (q_erase u)
    then show ?thesis using delete_account_keeps_queue by (intro at_once) simp
  next
    case q_elsewhere
    then show ?thesis by (intro at_once) (simp add: same_queue_keeps)
  qed
qed

lemma queue_tick_safe:
  assumes "queue_tick lib l s s'" and "case s of (now, db) \<Rightarrow> safe now db"
  shows "case s' of (now, db) \<Rightarrow> safe now db"
    and "erases (snd l) \<noteq> Some user \<Longrightarrow> keeps_results user (snd s) (snd s')"
proof -
  obtain env act now db later db' where l: "l = (env, act)" "s = (now, db)" "s' = (later, db')"
    by (cases l, cases s, cases s') auto
  have "safe later db' \<and> (erases act \<noteq> Some user \<longrightarrow> keeps_results user db db')"
    using assms unfolding l by (elim tickE) (rule queue_step_safe, auto)
  then show "case s' of (now, db) \<Rightarrow> safe now db"
    and "erases (snd l) \<noteq> Some user \<Longrightarrow> keeps_results user (snd s) (snd s')" by (simp_all add: l)
qed

interpretation queue: invariant_system "queue_tick lib" "\<lambda>(now, db). safe now db" for lib
  by unfold_locales (rule queue_tick_safe(1))

text \<open>The steps that erase nothing of one user keep that user's results.\<close>

definition sparing :: "store_lib \<Rightarrow> uuid \<Rightarrow> env \<times> queue_action \<Rightarrow> int \<times> database \<Rightarrow> int \<times> database \<Rightarrow> bool" where
  "sparing lib user l s s' \<longleftrightarrow> queue_tick lib l s s' \<and> erases (snd l) \<noteq> Some user"

interpretation spared: monotone_system "sparing lib user" "\<lambda>(now, db). safe now db"
    "\<lambda>s s'. keeps_results user (snd s) (snd s')" for lib user
proof
  fix l s s' assume "sparing lib user l s s'" "case s of (now, db) \<Rightarrow> safe now db"
  then show "case s' of (now, db) \<Rightarrow> safe now db" "keeps_results user (snd s) (snd s')"
    unfolding sparing_def using queue_tick_safe by blast+
qed (auto intro: keeps_results_subset keeps_results_trans)

lemma spared_run:
  assumes "queue_run lib tr s s'" and "\<forall>(env, act) \<in> set tr. erases act \<noteq> Some user"
  shows "run (sparing lib user) tr s s'"
  using assms by (induction rule: run.induct) (auto intro!: run.intros simp: sparing_def)

lemma queue_run_safe:
  assumes "queue_run lib tr (t, db) (t', db')" and "safe t db"
  shows "safe t' db'"
  using queue.run_inv [OF assms(1)] assms(2) by simp

lemma queue_run_keeps:
  assumes "queue_run lib tr (t, db) (t', db')" and "\<forall>(env, act) \<in> set tr. erases act \<noteq> Some user" and "safe t db"
  shows "keeps_results user db db'"
  using spared.run_later [OF spared_run [OF assms(1,2)]] assms(3) by simp

text \<open>The request a worker ends belongs to the user it worked for.\<close>

lemma finalize_owner:
  assumes ok: "safe now db" and run: "finalize_recompute env w art db = Inr (f, db')"
    and r: "r \<in> set (recompute_requests db')" "rr_id r = wi_request_id w"
  shows "rr_user_id r = wi_user_id w"
proof (rule finalize_stages [OF run])
  fix db1 db2 db3 db4 g
  assume check: "check_request w db = Inr ()"
    and ins: "insert_analysis env (ra_analysis art) db = Inr db1"
      "(case ra_proposal art of None \<Rightarrow> Inr db1 | Some p \<Rightarrow> insert_proposal p db1) = Inr db2"
    and req: "end_request w (\<lambda>r. r\<lparr>rr_state := REQ_READY,
        rr_resulting_analysis_id := Some (ap_analysis_id (ra_analysis art)),
        rr_proposal_id := map_option pp_proposal_id (ra_proposal art),
        rr_auto_roadmap_pending := map_option pp_proposal_id (ra_proposal art) \<noteq> None,
        rr_updated_at := e_app_now env\<rparr>) db2 = Inr ((), db3)"
    and ptr: "update_pointer w (ap_analysis_id (ra_analysis art)) db3 = (rf_updated_latest_analysis f, db4)"
    and job: "complete_job env w db4 = Inr ((), db')"
  have same: "recompute_requests db2 = recompute_requests db" "recompute_requests db' = recompute_requests db3"
    using ins insert_results_frame update_pointer_frame [OF ptr] job
    by (auto simp: complete_job_def Let_def err_simps split: option.splits)
  from check obtain r0 where r0: "r0 \<in> set (recompute_requests db)" "rr_id r0 = wi_request_id w" "rr_user_id r0 = wi_user_id w"
    by (auto simp: check_request_def require_Inr_iff split: option.splits dest!: one_or_none_SomeD)
  from r same req obtain r1 where r1: "r1 \<in> set (recompute_requests db)" "rr_id r1 = rr_id r" "rr_user_id r1 = rr_user_id r"
    by (auto simp: end_request_def Let_def err_simps set_update_where split: if_splits)
  have "r1 = r0" using keyed_inject [of rr_id "recompute_requests db" r1 r0] r1 r0 r(2) ok
    by (simp add: safe_def queue_ok_def)
  with r0 r1 show ?thesis by simp
qed

subsection \<open>A sample run\<close>

text \<open>An account signs up and states a goal; a request is created for it and claimed by a worker.\<close>

definition sample_trace :: "(env \<times> queue_action) list" where
  "sample_trace = [(sample_env 0, Elsewhere), (sample_env 1, CreateRequest ''r1'' ''j1'' sample_create),
     (sample_env 2, ClaimRecompute sample_policy 5 None)]"

lemma sample_created:
  "create_recompute_request (sample_env 1) ''r1'' ''j1'' sample_create sample_queue_db
     = Inr (\<lparr>rs_request_id = ''r1'', rs_request_state = REQ_PENDING\<rparr>, sample_queued)"
  unfolding create_recompute_request_def sample_persist
  by (simp add: one_or_none_def sample_queue_db_def sample_create_def)

lemma sample_run: "queue_run lib sample_trace (0, empty_db) (2, sample_claimed)"
  unfolding sample_trace_def
proof (rule run_step, rule_tac [2] run_step, rule_tac [3] run_step, rule_tac [4] run_nil)
  show "queue_tick lib (sample_env 0, Elsewhere) (0, empty_db) (0, sample_queue_db)"
    by (rule tick) (auto intro: q_elsewhere simp: same_queue_def sample_queue_db_def empty_db_def sample_env_clock)
  show "queue_tick lib (sample_env 1, CreateRequest ''r1'' ''j1'' sample_create) (0, sample_queue_db) (1, sample_queued)"
    by (rule tick) (auto intro: q_create [OF sample_created] simp: sample_env_clock)
  show "queue_tick lib (sample_env 2, ClaimRecompute sample_policy 5 None) (1, sample_queued) (2, sample_claimed)"
    by (rule tick) (auto intro: q_claim [OF sample_claim] simp: sample_env_clock)
qed

subsection \<open>Properties\<close>

text \<open>
  C34: in every reachable database, a recompute job has its own request and their states agree (a
  leased job runs a RUNNING request, a completed job's request is READY or FAILED, a waiting job's
  request is PENDING or RUNNING), and a lease token and a lease end are stored exactly while a job
  is leased. In particular the erasure of a goal or an account never leaves a job without its request.
\<close>

theorem queue_states_agree:
  assumes "queue_run lib tr (t, empty_db) (now, db)" and "j \<in> set (outbox_jobs db)"
  shows "(jb_state j = JOB_LEASED \<longleftrightarrow> jb_lease_token j \<noteq> None) \<and> (jb_state j = JOB_LEASED \<longleftrightarrow> jb_lease_until j \<noteq> None)
    \<and> (jb_kind j = ''RECOMPUTE'' \<longrightarrow> (\<exists>r \<in> set (recompute_requests db).
         jb_recompute_request_id j = Some (rr_id r) \<and> agree (jb_state j) (rr_state r)
         \<and> (\<forall>j' \<in> set (outbox_jobs db). jb_recompute_request_id j' = Some (rr_id r) \<longrightarrow> j' = j)))"
proof -
  have "queue_ok db" using queue_run_safe [OF assms(1) empty_safe] by (simp add: safe_def)
  then have "job_ok (recompute_requests db) j" "one_job (outbox_jobs db)"
    using assms(2) by (simp_all add: queue_ok_def)
  then show ?thesis
    using assms(2) unfolding job_ok_def lease_shape_def one_job_def by (metis option.distinct(1))
qed

theorem queue_states_agree_witness:
  "\<exists>r \<in> set (recompute_requests sample_claimed). agree JOB_LEASED (rr_state r)"
  using queue_states_agree [OF sample_run, of "sample_job JOB_LEASED 1 (Some 300000002) (Some ''u0'')"]
  by (simp add: sample_claimed_def sample_job_def)

text \<open>
  C32: no two workers compute for one account at the same time. Whatever the order of claims,
  deferrals, takeovers of expired leases, endings, reconciliations and erasures, at most one recompute
  lease of an account is unexpired at the database's time.
\<close>

theorem one_lease_per_account:
  assumes "queue_run lib tr (t, empty_db) (now, db)"
    and "j \<in> set (outbox_jobs db)" and "j' \<in> set (outbox_jobs db)"
    and "running_for now db user j" and "running_for now db user j'"
  shows "j = j'"
  using queue_run_safe [OF assms(1) empty_safe] assms(2-5) unfolding safe_def exclusive_def by blast

theorem one_lease_per_account_witness:
  "\<exists>!j. j \<in> set (outbox_jobs sample_claimed) \<and> running_for 2 sample_claimed ''alice'' j"
proof (rule ex_ex1I)
  show "\<exists>j. j \<in> set (outbox_jobs sample_claimed) \<and> running_for 2 sample_claimed ''alice'' j"
    by (rule exI [of _ "sample_job JOB_LEASED 1 (Some 300000002) (Some ''u0'')"])
      (simp add: running_for_def live_lease_def row_exists_def sample_claimed_def sample_job_def sample_rr_def)
  fix j j' assume "j \<in> set (outbox_jobs sample_claimed) \<and> running_for 2 sample_claimed ''alice'' j"
    "j' \<in> set (outbox_jobs sample_claimed) \<and> running_for 2 sample_claimed ''alice'' j'"
  then show "j = j'" using one_lease_per_account [OF sample_run] by blast
qed

text \<open>
  C33: a result is stored once. After a successful \<open>finalize_recompute\<close> the request keeps its READY
  state and its analysis through every later step, as long as no goal of that user and not the account
  itself is erased in between; only the mark for the automatic roadmap may still be cleared. Until then
  no worker can finalize the request again, and a late \<open>fail_recompute\<close> for it changes nothing.
\<close>

theorem request_ends_once:
  assumes "queue_run lib tr (t, empty_db) (now, db)" and "finalize_recompute env w art db = Inr (f, db1)"
    and "now \<le> later" and "queue_run lib tr' (later, db1) (last_time, db2)"
    and "\<forall>(env, act) \<in> set tr'. erases act \<noteq> Some (wi_user_id w)" and "wi_request_id w' = wi_request_id w"
  shows "(\<exists>r \<in> set (recompute_requests db2). rr_id r = wi_request_id w \<and> rr_state r = REQ_READY
      \<and> rr_resulting_analysis_id r = Some (ap_analysis_id (ra_analysis art)))
    \<and> finalize_recompute env' w' art' db2 \<noteq> Inr x
    \<and> (fail_recompute env' w' code details db2 = Inr (u, db3) \<longrightarrow> db3 = db2)"
proof -
  have ok: "safe now db" using queue_run_safe [OF assms(1) empty_safe] .
  then obtain r1 where safe1: "safe now db1" and r1: "r1 \<in> set (recompute_requests db1)" "rr_id r1 = wi_request_id w"
    "rr_state r1 = REQ_READY" "rr_resulting_analysis_id r1 = Some (ap_analysis_id (ra_analysis art))"
    using finalize_safe [OF _ assms(2)] by blast
  have later: "safe later db1" using safe_later [OF safe1 assms(3)] .
  have safe2: "safe last_time db2" using queue_run_safe [OF assms(4) later] .
  have "ended r1" "rr_user_id r1 = wi_user_id w"
    using r1(3) finalize_owner [OF ok assms(2) r1(1,2)] by (simp_all add: ended_def)
  with queue_run_keeps [OF assms(4,5) later] r1(1) obtain r where
    r: "r \<in> set (recompute_requests db2)" "settled r = settled r1" unfolding keeps_results_def by blast
  note fields = settled_fields [OF r(2)]
  have "r' = r" if "r' \<in> set (recompute_requests db2)" "rr_id r' = wi_request_id w" for r'
    using safe2 that r(1) fields(1) r1(2) keyed_inject [of rr_id "recompute_requests db2" r' r]
    by (simp add: safe_def queue_ok_def)
  then have none: "check_request w' db2 = Inl (MissingRecordError ''recompute request'')"
    using fields(3) r1(3) assms(6) by (auto simp: check_request_def require_def split: option.splits dest!: one_or_none_SomeD)
  have "finalize_recompute env' w' art' db2 \<noteq> Inr x"
    using none finalize_stages [of env' w' art' db2 "fst x" "snd x"] by force
  moreover have "fail_recompute env' w' code details db2 = Inr (u, db3) \<longrightarrow> db3 = db2"
    using none by (auto simp: fail_recompute_def err_simps split: if_splits)
  ultimately show ?thesis using r(1) fields r1 by auto
qed

theorem request_ends_once_witness:
  "\<exists>f db1. finalize_recompute (sample_env 3) sample_item sample_artifacts sample_claimed = Inr (f, db1)
     \<and> finalize_recompute (sample_env 4) sample_item sample_artifacts db1 \<noteq> Inr (f, db1)"
proof -
  obtain f db1 where fin: "finalize_recompute (sample_env 3) sample_item sample_artifacts sample_claimed = Inr (f, db1)"
    using sample_finalize by blast
  have "queue_run lib [(sample_env 3, Elsewhere)] (3, db1) (3, db1)" for lib
    by (rule run_step [OF _ run_nil], rule tick) (auto intro: q_elsewhere simp: sample_env_clock)
  then have "finalize_recompute (sample_env 4) sample_item sample_artifacts db1 \<noteq> Inr (f, db1)"
    using request_ends_once [OF sample_run fin, of 3 _ "[(sample_env 3, Elsewhere)]" 3 db1 sample_item] by auto
  with fin show ?thesis by blast
qed

end
