(* ===== verification/Access.thy ===== *)
theory Access
  imports Database Transitions
begin

section \<open>Sign-in, invitations and sessions\<close>

text \<open>
  \<open>src/jobtology_be/infrastructure/persistence/admissions.py\<close>, \<open>auth_store.py\<close> and
  \<open>management.py\<close>. Byte strings are strings. The SHA-256 digest of a Google subject and the length
  of \<open>timedelta(hours=...)\<close> in microseconds are the parameters \<open>subject_digest\<close> and \<open>hours_us\<close>;
  the advisory lock of a subject is the serial order of transactions.
\<close>

subsection \<open>Commands\<close>

definition GOOGLE_ISSUER :: string where
  "GOOGLE_ISSUER = ''https://accounts.google.com''"

definition OAUTH_LOGIN_ATTEMPT_LIFETIME :: int where
  "OAUTH_LOGIN_ATTEMPT_LIFETIME = 600000000"

record OAuthLoginAttempt =
  oc_state_hash :: string
  oc_browser_binding_hash :: string
  oc_nonce :: string
  oc_pkce_verifier :: string
  oc_invitation_hash :: "string option"

record ConsumedOAuthLoginAttempt =
  cl_nonce :: string
  cl_pkce_verifier :: string
  cl_invitation_hash :: "string option"

record SessionIssue =
  sn_token_hash :: string
  sn_csrf_hash :: string
  sn_lifetime :: int

record GoogleLogin =
  gl_google_subject :: string
  gl_session :: SessionIssue
  gl_display_name :: "string option"
  gl_invitation_hash :: "string option"

record IssuedSession =
  iss_user_id :: uuid
  iss_expires_at :: int

record SessionPrincipal =
  sp_user_id :: uuid
  sp_csrf_hash :: string
  sp_display_name :: "string option"

datatype access_error = AdmissionDenied string | AccessIntegrity string | ManagementNotFound | ManagementConflict

subsection \<open>Admission\<close>

definition access_allowed :: "int \<Rightarrow> account_access_row \<Rightarrow> bool" where
  "access_allowed now a \<longleftrightarrow> aa_user_id a \<noteq> None \<and> aa_revoked_at a = None
     \<and> (case aa_expires_at a of None \<Rightarrow> True | Some t \<Rightarrow> now < t)"

text \<open>The admission and whether its row is already stored.\<close>

definition admission_for_login ::
  "env \<Rightarrow> (rat \<Rightarrow> int) \<Rightarrow> bool \<Rightarrow> string \<Rightarrow> string option \<Rightarrow> database
    \<Rightarrow> access_error + (bool \<times> account_access_row) \<times> database" where
  "admission_for_login env hours_us required subject_hash invitation_hash db =
     (case one_or_none (\<lambda>a. aa_subject_hash a = subject_hash) (account_access db) of
        Some a \<Rightarrow>
          if required \<and> aa_revoked_at a \<noteq> None then Inl (AdmissionDenied ''ACCESS_REVOKED'')
          else if required \<and> (case aa_expires_at a of None \<Rightarrow> False | Some t \<Rightarrow> t \<le> e_clock env 0)
            then Inl (AdmissionDenied ''ACCESS_EXPIRED'')
          else Inr ((True, a), db)
      | None \<Rightarrow>
          if \<not> required
          then Inr ((False, \<lparr>aa_subject_hash = subject_hash, aa_user_id = None, aa_invitation_id = None,
             aa_source = LEGACY, aa_granted_at = e_started env, aa_expires_at = None, aa_revoked_at = None\<rparr>), db)
          else (case invitation_hash of
              None \<Rightarrow> Inl (AdmissionDenied ''INVITATION_REQUIRED'')
            | Some h \<Rightarrow>
                (case one_or_none (\<lambda>c. iv_code_hash c = h) (invitation_codes db) of
                   None \<Rightarrow> Inl (AdmissionDenied ''INVITATION_INVALID'')
                 | Some c \<Rightarrow>
                     if iv_revoked_at c \<noteq> None
                       \<or> (case iv_expires_at c of None \<Rightarrow> False | Some t \<Rightarrow> t \<le> e_clock env 1)
                       \<or> (case iv_max_uses c of None \<Rightarrow> False | Some m \<Rightarrow> m \<le> iv_use_count c)
                     then Inl (AdmissionDenied ''INVITATION_INVALID'')
                     else Inr ((False, \<lparr>aa_subject_hash = subject_hash, aa_user_id = None,
                         aa_invitation_id = Some (iv_id c), aa_source = INVITATION, aa_granted_at = e_clock env 1,
                         aa_expires_at = map_option (\<lambda>h. e_clock env 1 + hours_us h) (iv_access_hours c),
                         aa_revoked_at = None\<rparr>),
                       db\<lparr>invitation_codes := update_where (\<lambda>x. iv_id x = iv_id c)
                          (\<lambda>x. x\<lparr>iv_use_count := iv_use_count x + 1\<rparr>) (invitation_codes db)\<rparr>))))"

text \<open>\<open>user_id\<close> is unique in \<open>account_access\<close>.\<close>

definition attach_admission :: "bool \<times> account_access_row \<Rightarrow> uuid \<Rightarrow> database \<Rightarrow> access_error + database" where
  "attach_admission admission user_id db =
     (let (stored, a) = admission in
      and_then (require (\<not> row_exists (\<lambda>x. aa_user_id x = Some user_id \<and> aa_subject_hash x \<noteq> aa_subject_hash a)
          (account_access db)) (AccessIntegrity ''account_access''))
        (\<lambda>_. Inr (if stored
           then db\<lparr>account_access := update_where (\<lambda>x. aa_subject_hash x = aa_subject_hash a)
                  (\<lambda>x. x\<lparr>aa_user_id := Some user_id\<rparr>) (account_access db)\<rparr>
           else db\<lparr>account_access := account_access db @ [a\<lparr>aa_user_id := Some user_id\<rparr>]\<rparr>)))"

subsection \<open>The sign-in store\<close>

definition prune_auth_records :: "env \<Rightarrow> nat \<Rightarrow> database \<Rightarrow> database" where
  "prune_auth_records env limit db =
     (let dead = take limit (sort_key (\<lambda>s. (as_expires_at s, as_id s))
            (rows_where (\<lambda>s. (as_expires_at s \<le> e_started env \<or> as_revoked_at s \<noteq> None) \<and> \<not> e_locked env (as_id s))
               (auth_sessions db)));
          old = take limit (sort_key (\<lambda>a. (oa_expires_at a, oa_state_hash a))
            (rows_where (\<lambda>a. oa_expires_at a \<le> e_started env \<and> \<not> e_locked env (oa_state_hash a))
               (oauth_login_attempts db)))
      in db\<lparr>auth_sessions := delete_where (\<lambda>s. as_id s \<in> as_id ` set dead) (auth_sessions db),
            oauth_login_attempts := delete_where (\<lambda>a. oa_state_hash a \<in> oa_state_hash ` set old)
              (oauth_login_attempts db)\<rparr>)"

definition create_oauth_login_attempt :: "env \<Rightarrow> OAuthLoginAttempt \<Rightarrow> database \<Rightarrow> access_error + database" where
  "create_oauth_login_attempt env attempt db =
     (let db = prune_auth_records env 1000 db in
      and_then (require (\<not> row_exists (\<lambda>a. oa_state_hash a = oc_state_hash attempt) (oauth_login_attempts db))
          (AccessIntegrity ''oauth_login_attempts''))
        (\<lambda>_. Inr (db\<lparr>oauth_login_attempts := oauth_login_attempts db @
          [\<lparr>oa_state_hash = oc_state_hash attempt, oa_browser_binding_hash = oc_browser_binding_hash attempt,
            oa_nonce = oc_nonce attempt, oa_pkce_verifier = oc_pkce_verifier attempt,
            oa_invitation_hash = oc_invitation_hash attempt,
            oa_expires_at = e_started env + OAUTH_LOGIN_ATTEMPT_LIFETIME\<rparr>]\<rparr>)))"

definition consume_oauth_login_attempt ::
  "env \<Rightarrow> string \<Rightarrow> string \<Rightarrow> database \<Rightarrow> ConsumedOAuthLoginAttempt option \<times> database" where
  "consume_oauth_login_attempt env state_hash browser_binding_hash db =
     (let matches = (\<lambda>a. oa_state_hash a = state_hash \<and> oa_browser_binding_hash a = browser_binding_hash
          \<and> e_started env < oa_expires_at a)
      in (map_option (\<lambda>a. \<lparr>cl_nonce = oa_nonce a, cl_pkce_verifier = oa_pkce_verifier a,
            cl_invitation_hash = oa_invitation_hash a\<rparr>) (one_or_none matches (oauth_login_attempts db)),
          db\<lparr>oauth_login_attempts := delete_where matches (oauth_login_attempts db)\<rparr>))"

text \<open>The identity of a Google subject with the status of its user.\<close>

definition google_identity :: "string \<Rightarrow> database \<Rightarrow> users_row option" where
  "google_identity subject db =
     (case one_or_none (\<lambda>g. g_subject g = subject \<and> g_issuer g = GOOGLE_ISSUER) (google_identities db) of
        None \<Rightarrow> None
      | Some g \<Rightarrow> one_or_none (\<lambda>u. u_id u = g_user_id g) (users db))"

definition register_user :: "env \<Rightarrow> uuid \<Rightarrow> string \<Rightarrow> database \<Rightarrow> access_error + database" where
  "register_user env user_id subject db =
     and_then (require (\<not> row_exists (\<lambda>u. u_id u = user_id) (users db)
         \<and> \<not> row_exists (\<lambda>p. p_user_id p = user_id) (profiles db)
         \<and> \<not> row_exists (\<lambda>g. g_issuer g = GOOGLE_ISSUER \<and> g_subject g = subject) (google_identities db))
         (AccessIntegrity ''users''))
       (\<lambda>_. Inr (db\<lparr>users := users db @ [\<lparr>u_id = user_id, u_status = USER_ACTIVE, u_display_name = None\<rparr>],
          profiles := profiles db @ [\<lparr>p_user_id = user_id, p_version = 1, p_major_raw = [], p_major_concept_id = None,
            p_year = None, p_enrollment_status = None, p_expected_graduation_on = None, p_latest_analysis_id = None,
            p_updated_at = e_started env\<rparr>],
          google_identities := google_identities db @ [\<lparr>g_issuer = GOOGLE_ISSUER, g_subject = subject,
            g_user_id = user_id\<rparr>]\<rparr>))"

definition open_session ::
  "env \<Rightarrow> uuid \<Rightarrow> GoogleLogin \<Rightarrow> int option \<Rightarrow> database \<Rightarrow> access_error + IssuedSession \<times> database" where
  "open_session env user_id login access_end db =
     (let issue = gl_session login;
          expiry = e_clock env 2 + sn_lifetime issue;
          expires_at = (case access_end of None \<Rightarrow> expiry | Some t \<Rightarrow> min expiry t);
          session_id = e_uuid env 1
      in and_then (require (\<not> row_exists (\<lambda>s. as_id s = session_id \<or> as_token_hash s = sn_token_hash issue)
           (auth_sessions db)) (AccessIntegrity ''auth_sessions''))
         (\<lambda>_. Inr (\<lparr>iss_user_id = user_id, iss_expires_at = expires_at\<rparr>,
            db\<lparr>auth_sessions := auth_sessions db @ [\<lparr>as_id = session_id, as_user_id = user_id,
              as_token_hash = sn_token_hash issue, as_csrf_hash = sn_csrf_hash issue,
              as_expires_at = expires_at, as_revoked_at = None\<rparr>]\<rparr>)))"

definition rename_user :: "uuid \<Rightarrow> string option \<Rightarrow> database \<Rightarrow> database" where
  "rename_user user_id name db =
     (case name of None \<Rightarrow> db
      | Some n \<Rightarrow> db\<lparr>users := update_where (\<lambda>u. u_id u = user_id) (\<lambda>u. u\<lparr>u_display_name := Some n\<rparr>) (users db)\<rparr>)"

definition create_google_session ::
  "env \<Rightarrow> (string \<Rightarrow> string) \<Rightarrow> (rat \<Rightarrow> int) \<Rightarrow> bool \<Rightarrow> GoogleLogin \<Rightarrow> database
    \<Rightarrow> access_error + IssuedSession option \<times> database" where
  "create_google_session env subject_digest hours_us required login db =
     (let db = prune_auth_records env 1000 db;
          identity = google_identity (gl_google_subject login) db
      in if (case identity of None \<Rightarrow> False | Some u \<Rightarrow> u_status u \<noteq> USER_ACTIVE)
         then (if required then Inl (AdmissionDenied ''ACCESS_REVOKED'') else Inr (None, db))
         else
           and_then (admission_for_login env hours_us required (subject_digest (gl_google_subject login))
               (gl_invitation_hash login) db)
           (\<lambda>(admission, db).
             let user_id = (case identity of Some u \<Rightarrow> u_id u | None \<Rightarrow> e_uuid env 0) in
             and_then (if identity = None then register_user env user_id (gl_google_subject login) db else Inr db)
             (\<lambda>db. and_then (attach_admission admission user_id db)
             (\<lambda>db. and_then (open_session env user_id login (aa_expires_at (snd admission))
                 (rename_user user_id (gl_display_name login) db))
             (\<lambda>(issued, db). Inr (Some issued, db))))))"

text \<open>What both session checks ask of a session and its account.\<close>

definition session_valid :: "env \<Rightarrow> bool \<Rightarrow> database \<Rightarrow> users_row \<Rightarrow> auth_sessions_row \<Rightarrow> bool" where
  "session_valid env required db u s \<longleftrightarrow> u_id u = as_user_id s
     \<and> (required \<longrightarrow> row_exists (\<lambda>a. aa_user_id a = Some (u_id u) \<and> access_allowed (e_started env) a) (account_access db))
     \<and> e_started env < as_expires_at s \<and> as_revoked_at s = None \<and> u_status u = USER_ACTIVE
     \<and> row_exists (\<lambda>g. g_user_id g = u_id u \<and> g_issuer g = GOOGLE_ISSUER) (google_identities db)"

definition resolve_session :: "env \<Rightarrow> bool \<Rightarrow> string \<Rightarrow> database \<Rightarrow> SessionPrincipal option" where
  "resolve_session env required token_hash db =
     (case [(u, s). s \<leftarrow> auth_sessions db, as_token_hash s = token_hash, u \<leftarrow> users db, session_valid env required db u s] of
        [] \<Rightarrow> None
      | (u, s) # _ \<Rightarrow> Some \<lparr>sp_user_id = as_user_id s, sp_csrf_hash = as_csrf_hash s, sp_display_name = u_display_name u\<rparr>)"

definition matches_session_csrf :: "env \<Rightarrow> bool \<Rightarrow> string \<Rightarrow> string \<Rightarrow> database \<Rightarrow> bool" where
  "matches_session_csrf env required token_hash csrf_hash db \<longleftrightarrow>
     row_exists (\<lambda>s. as_token_hash s = token_hash \<and> as_csrf_hash s = csrf_hash
       \<and> row_exists (\<lambda>u. session_valid env required db u s) (users db)) (auth_sessions db)"

definition revoke_session :: "env \<Rightarrow> string \<Rightarrow> database \<Rightarrow> database" where
  "revoke_session env token_hash db = db\<lparr>auth_sessions := update_where
     (\<lambda>s. as_token_hash s = token_hash \<and> as_revoked_at s = None)
     (\<lambda>s. s\<lparr>as_revoked_at := Some (e_started env)\<rparr>) (auth_sessions db)\<rparr>"

subsection \<open>Management\<close>

definition audit :: "env \<Rightarrow> nat \<Rightarrow> string \<Rightarrow> uuid \<Rightarrow> database \<Rightarrow> database" where
  "audit env n action target db = db\<lparr>management_audit := management_audit db @
     [\<lparr>ma_id = e_uuid env n, ma_action = action, ma_target_id = target\<rparr>]\<rparr>"

text \<open>The values of a new invitation; and a patch, whose unset fields are left alone.\<close>

record InvitationCreate =
  ni_label :: string
  ni_expires_at :: "int option"
  ni_access_hours :: "rat option"
  ni_max_uses :: "int option"

record InvitationUpdate =
  ch_label :: "string option"
  ch_expires_at :: "int option option"
  ch_access_hours :: "rat option option"
  ch_max_uses :: "int option option"

definition invitation_values_ok :: "rat option \<Rightarrow> int option \<Rightarrow> bool" where
  "invitation_values_ok hours uses \<longleftrightarrow> (case hours of None \<Rightarrow> True | Some h \<Rightarrow> 0 < h \<and> h \<le> 876000)
     \<and> (case uses of None \<Rightarrow> True | Some m \<Rightarrow> 0 < m)"

definition create_invitation ::
  "env \<Rightarrow> string \<Rightarrow> string \<Rightarrow> InvitationCreate \<Rightarrow> database \<Rightarrow> access_error + invitation_codes_row \<times> database" where
  "create_invitation env code_hash code_hint v db =
     (let row = \<lparr>iv_id = e_uuid env 0, iv_code_hash = code_hash, iv_code_hint = code_hint, iv_label = ni_label v,
          iv_created_at = e_started env, iv_expires_at = ni_expires_at v, iv_access_hours = ni_access_hours v,
          iv_max_uses = ni_max_uses v, iv_use_count = 0, iv_revoked_at = None\<rparr>
      in and_then (require (\<not> row_exists (\<lambda>c. iv_id c = iv_id row \<or> iv_code_hash c = code_hash) (invitation_codes db)
             \<and> invitation_values_ok (ni_access_hours v) (ni_max_uses v)) (AccessIntegrity ''invitation_codes''))
           (\<lambda>_. Inr (row, audit env 1 ''invitation.create'' (iv_id row)
              (db\<lparr>invitation_codes := invitation_codes db @ [row]\<rparr>))))"

definition apply_update :: "InvitationUpdate \<Rightarrow> invitation_codes_row \<Rightarrow> invitation_codes_row" where
  "apply_update v c = c\<lparr>iv_label := (case ch_label v of None \<Rightarrow> iv_label c | Some x \<Rightarrow> x),
     iv_expires_at := (case ch_expires_at v of None \<Rightarrow> iv_expires_at c | Some x \<Rightarrow> x),
     iv_access_hours := (case ch_access_hours v of None \<Rightarrow> iv_access_hours c | Some x \<Rightarrow> x),
     iv_max_uses := (case ch_max_uses v of None \<Rightarrow> iv_max_uses c | Some x \<Rightarrow> x)\<rparr>"

definition update_invitation ::
  "env \<Rightarrow> uuid \<Rightarrow> InvitationUpdate \<Rightarrow> database \<Rightarrow> access_error + invitation_codes_row \<times> database" where
  "update_invitation env identifier v db =
     (case one_or_none (\<lambda>c. iv_id c = identifier) (invitation_codes db) of
        None \<Rightarrow> Inl ManagementNotFound
      | Some row \<Rightarrow>
          let row' = apply_update v row in
          if (case iv_max_uses row' of None \<Rightarrow> False | Some m \<Rightarrow> m < iv_use_count row) then Inl ManagementConflict
          else and_then (require (invitation_values_ok (iv_access_hours row') (iv_max_uses row'))
                 (AccessIntegrity ''invitation_codes''))
               (\<lambda>_. Inr (row', audit env 0 ''invitation.update'' identifier
                 (db\<lparr>invitation_codes := update_where (\<lambda>c. iv_id c = identifier) (apply_update v) (invitation_codes db)\<rparr>))))"

definition revoke_invitation :: "env \<Rightarrow> uuid \<Rightarrow> database \<Rightarrow> access_error + database" where
  "revoke_invitation env identifier db =
     and_then (require (row_exists (\<lambda>c. iv_id c = identifier) (invitation_codes db)) ManagementNotFound)
       (\<lambda>_. Inr (audit env 0 ''invitation.revoke'' identifier
          (db\<lparr>invitation_codes := update_where (\<lambda>c. iv_id c = identifier)
             (\<lambda>c. c\<lparr>iv_revoked_at := (case iv_revoked_at c of None \<Rightarrow> Some (e_started env) | Some t \<Rightarrow> Some t)\<rparr>)
             (invitation_codes db)\<rparr>)))"

record UserUpdate =
  uu_status :: "UserStatus option"
  uu_access_expires_at :: "int option option"

definition apply_access_values :: "env \<Rightarrow> UserUpdate \<Rightarrow> account_access_row \<Rightarrow> account_access_row" where
  "apply_access_values env v a = a\<lparr>
     aa_revoked_at := (case uu_status v of None \<Rightarrow> aa_revoked_at a
        | Some st \<Rightarrow> if st = USER_DEACTIVATED then Some (e_started env) else None),
     aa_expires_at := (case uu_access_expires_at v of None \<Rightarrow> aa_expires_at a | Some t \<Rightarrow> t)\<rparr>"

text \<open>\<open>least\<close> ignores nulls, and a session's expiry is never null.\<close>

definition update_user :: "env \<Rightarrow> uuid \<Rightarrow> UserUpdate \<Rightarrow> database \<Rightarrow> access_error + database" where
  "update_user env identifier v db =
     (let mine = (\<lambda>a. aa_user_id a = Some identifier);
          touches_access = uu_status v \<noteq> None \<or> uu_access_expires_at v \<noteq> None in
      and_then (require (row_exists (\<lambda>u. u_id u = identifier) (users db)) ManagementNotFound)
      (\<lambda>_. and_then (require (touches_access \<longrightarrow> row_exists mine (account_access db)) ManagementConflict)
      (\<lambda>_. let db = (case uu_status v of None \<Rightarrow> db
              | Some st \<Rightarrow> db\<lparr>users := update_where (\<lambda>u. u_id u = identifier) (\<lambda>u. u\<lparr>u_status := st\<rparr>) (users db)\<rparr>);
            db = (if touches_access
              then db\<lparr>account_access := update_where mine (apply_access_values env v) (account_access db)\<rparr> else db);
            db = (case uu_access_expires_at v of
                Some (Some t) \<Rightarrow> db\<lparr>auth_sessions := update_where (\<lambda>s. as_user_id s = identifier)
                  (\<lambda>s. s\<lparr>as_expires_at := min (as_expires_at s) t\<rparr>) (auth_sessions db)\<rparr>
              | _ \<Rightarrow> db);
            db = (if uu_status v = Some USER_DEACTIVATED
              then db\<lparr>auth_sessions := update_where (\<lambda>s. as_user_id s = identifier \<and> as_revoked_at s = None)
                  (\<lambda>s. s\<lparr>as_revoked_at := Some (e_started env)\<rparr>) (auth_sessions db)\<rparr>
              else db)
        in Inr (audit env 0 ''user.update'' identifier db))))"

datatype revoke_target = OneSession uuid | AllSessions uuid

definition revoke_sessions :: "env \<Rightarrow> revoke_target \<Rightarrow> database \<Rightarrow> access_error + database" where
  "revoke_sessions env target db =
     (let (known, matches, name) = (case target of
          AllSessions u \<Rightarrow> (row_exists (\<lambda>x. u_id x = u) (users db), (\<lambda>s. as_user_id s = u), u)
        | OneSession i \<Rightarrow> (row_exists (\<lambda>s. as_id s = i) (auth_sessions db), (\<lambda>s. as_id s = i), i))
      in and_then (require known ManagementNotFound)
        (\<lambda>_. Inr (audit env 0 ''session.revoke'' name (db\<lparr>auth_sessions := update_where
           (\<lambda>s. matches s \<and> as_revoked_at s = None) (\<lambda>s. s\<lparr>as_revoked_at := Some (e_started env)\<rparr>)
           (auth_sessions db)\<rparr>))))"

end
