(* ===== verification/Access_Safety.thy ===== *)
theory Access_Safety
  imports Access Account_Erasure
begin

section \<open>Safety of sign-in\<close>

text \<open>
  The ledger of redeemed invitations over every sequence of sign-ins, management operations and
  account erasures, and the life of a session.
\<close>

subsection \<open>The invitation ledger\<close>

definition redeemed :: "uuid \<Rightarrow> account_access_row list \<Rightarrow> int" where
  "redeemed code access = int (rowcount (\<lambda>a. aa_invitation_id a = Some code) access)"

definition code_ok :: "account_access_row list \<Rightarrow> invitation_codes_row \<Rightarrow> bool" where
  "code_ok access c \<longleftrightarrow> redeemed (iv_id c) access = iv_use_count c
     \<and> (case iv_max_uses c of None \<Rightarrow> True | Some m \<Rightarrow> iv_use_count c \<le> m)"

definition ledger_ok :: "database \<Rightarrow> bool" where
  "ledger_ok db \<longleftrightarrow> keyed iv_id (invitation_codes db) \<and> keyed aa_subject_hash (account_access db)
     \<and> (\<forall>a \<in> set (account_access db). \<forall>i. aa_invitation_id a = Some i \<longrightarrow> (\<exists>c \<in> set (invitation_codes db). iv_id c = i))
     \<and> (\<forall>c \<in> set (invitation_codes db). code_ok (account_access db) c)"

lemma redeemed_update:
  assumes "\<And>a. aa_invitation_id (f a) = aa_invitation_id a"
  shows "redeemed i (update_where P f t) = redeemed i t"
proof -
  have "aa_invitation_id (if P a then f a else a) = aa_invitation_id a" for a using assms by simp
  then show ?thesis
    unfolding redeemed_def rowcount_def update_where_def by (induction t) simp_all
qed

lemma redeemed_snoc: "redeemed i (t @ [a]) = redeemed i t + (if aa_invitation_id a = Some i then 1 else 0)"
  by (simp add: redeemed_def rowcount_def)

lemma redeemed_none: "(\<And>a. a \<in> set t \<Longrightarrow> aa_invitation_id a \<noteq> Some i) \<Longrightarrow> redeemed i t = 0"
  by (simp add: redeemed_def table_simps)

text \<open>Changes that keep the counted columns.\<close>

lemma ledger_update:
  assumes ok: "ledger_ok db"
    and codes: "invitation_codes db' = update_where P f (invitation_codes db)"
    and access: "account_access db' = update_where Q g (account_access db)"
    and f: "\<And>c. iv_id (f c) = iv_id c" "\<And>c. iv_use_count (f c) = iv_use_count c"
      "\<And>c m. c \<in> set (invitation_codes db) \<Longrightarrow> P c \<Longrightarrow> iv_max_uses (f c) = Some m \<Longrightarrow> iv_use_count c \<le> m"
    and g: "\<And>a. aa_subject_hash (g a) = aa_subject_hash a" "\<And>a. aa_invitation_id (g a) = aa_invitation_id a"
  shows "ledger_ok db'"
proof -
  have "keyed iv_id (invitation_codes db')" "keyed aa_subject_hash (account_access db')"
    using ok f(1) g(1) by (simp_all add: codes access ledger_ok_def keyed_update)
  moreover have "\<exists>c \<in> set (invitation_codes db'). iv_id c = i"
    if a: "a \<in> set (account_access db')" "aa_invitation_id a = Some i" for a i
  proof -
    from a obtain b where "b \<in> set (account_access db)" "aa_invitation_id b = Some i"
      by (auto simp: access set_update_where g(2) split: if_splits)
    with ok obtain c where "c \<in> set (invitation_codes db)" "iv_id c = i" unfolding ledger_ok_def by blast
    then show ?thesis unfolding codes using f(1) by (subst key_exists_update) auto
  qed
  moreover have "code_ok (account_access db') c" if "c \<in> set (invitation_codes db')" for c
  proof -
    from that obtain c0 where c0: "c0 \<in> set (invitation_codes db)" "c = (if P c0 then f c0 else c0)"
      by (auto simp: codes set_update_where)
    then have "code_ok (account_access db) c0" using ok by (simp add: ledger_ok_def)
    with c0 f show ?thesis
      by (auto simp: code_ok_def access redeemed_update g(2) split: option.splits)
  qed
  ultimately show ?thesis by (simp add: ledger_ok_def)
qed

lemma ledger_cong:
  "invitation_codes db' = invitation_codes db \<Longrightarrow> account_access db' = account_access db \<Longrightarrow> ledger_ok db \<Longrightarrow> ledger_ok db'"
  by (rule ledger_update [where P = "\<lambda>_. False" and Q = "\<lambda>_. False" and f = "\<lambda>c. c" and g = "\<lambda>a. a"])
    (simp_all add: update_where_none)

text \<open>A redeemed code: its count and its row grow together.\<close>

lemma ledger_redeem:
  assumes ok: "ledger_ok db" and c: "c \<in> set (invitation_codes db)"
    and free: "\<And>m. iv_max_uses c = Some m \<Longrightarrow> iv_use_count c < m"
    and new: "\<And>a. a \<in> set (account_access db) \<Longrightarrow> aa_subject_hash a \<noteq> aa_subject_hash new"
      "aa_invitation_id new = Some (iv_id c)"
    and codes: "invitation_codes db' = update_where (\<lambda>x. iv_id x = iv_id c) (\<lambda>x. x\<lparr>iv_use_count := iv_use_count x + 1\<rparr>)
        (invitation_codes db)"
    and access: "account_access db' = account_access db @ [new]"
  shows "ledger_ok db'"
proof -
  have key: "keyed iv_id (invitation_codes db)" using ok by (simp add: ledger_ok_def)
  have "keyed iv_id (invitation_codes db')" "keyed aa_subject_hash (account_access db')"
    using ok new(1) by (simp_all add: codes access ledger_ok_def keyed_update keyed_snoc)
  moreover have "\<exists>x \<in> set (invitation_codes db'). iv_id x = i"
    if "a \<in> set (account_access db')" "aa_invitation_id a = Some i" for a i
  proof -
    have "\<exists>x \<in> set (invitation_codes db). iv_id x = i"
      using that ok c new(2) by (auto simp: access ledger_ok_def)
    then show ?thesis unfolding codes by (subst key_exists_update) simp_all
  qed
  moreover have "code_ok (account_access db') x" if "x \<in> set (invitation_codes db')" for x
  proof -
    from that obtain y where y: "y \<in> set (invitation_codes db)"
      "x = (if iv_id y = iv_id c then y\<lparr>iv_use_count := iv_use_count y + 1\<rparr> else y)"
      by (auto simp: codes set_update_where)
    then have yok: "code_ok (account_access db) y" using ok by (simp add: ledger_ok_def)
    show ?thesis
    proof (cases "iv_id y = iv_id c")
      case True
      with keyed_inject [OF key y(1) c] have "y = c" by simp
      with y yok free new(2) show ?thesis
        by (auto simp: code_ok_def access redeemed_snoc split: option.splits dest!: less_imp_le)
    next
      case False
      with y yok new(2) show ?thesis by (simp add: code_ok_def access redeemed_snoc)
    qed
  qed
  ultimately show ?thesis by (simp add: ledger_ok_def)
qed

lemma ledger_legacy:
  assumes ok: "ledger_ok db" and new: "\<And>a. a \<in> set (account_access db) \<Longrightarrow> aa_subject_hash a \<noteq> aa_subject_hash new"
      "aa_invitation_id new = None"
    and "invitation_codes db' = invitation_codes db" and "account_access db' = account_access db @ [new]"
  shows "ledger_ok db'"
  using assms by (auto simp: ledger_ok_def keyed_snoc code_ok_def redeemed_snoc)

subsection \<open>Every transaction keeps the ledger\<close>

lemma prune_auth_frame:
  "invitation_codes (prune_auth_records env n db) = invitation_codes db"
  "account_access (prune_auth_records env n db) = account_access db"
  by (simp_all add: prune_auth_records_def Let_def)

lemma register_frame:
  "register_user env u s db = Inr db' \<Longrightarrow> invitation_codes db' = invitation_codes db \<and> account_access db' = account_access db"
  by (auto simp: register_user_def err_simps)

lemma open_session_frame:
  "open_session env u l e db = Inr (i, db') \<Longrightarrow> invitation_codes db' = invitation_codes db \<and> account_access db' = account_access db"
  by (auto simp: open_session_def Let_def err_simps)

lemma rename_frame:
  "invitation_codes (rename_user u n db) = invitation_codes db" "account_access (rename_user u n db) = account_access db"
  by (simp_all add: rename_user_def split: option.splits)

text \<open>The stages of a sign-in.\<close>

lemma sign_in_stages:
  assumes "create_google_session env dg hours_us required login db = Inr (Some issued, db')"
  obtains admission user_id db1 db2 db3 where
    "admission_for_login env hours_us required (dg (gl_google_subject login)) (gl_invitation_hash login)
       (prune_auth_records env 1000 db) = Inr (admission, db1)"
    "user_id = (case google_identity (gl_google_subject login) (prune_auth_records env 1000 db) of
        Some u \<Rightarrow> u_id u | None \<Rightarrow> e_uuid env 0)"
    "(if google_identity (gl_google_subject login) (prune_auth_records env 1000 db) = None
      then register_user env user_id (gl_google_subject login) db1 else Inr db1) = Inr db2"
    "attach_admission admission user_id db2 = Inr db3"
    "open_session env user_id login (aa_expires_at (snd admission)) (rename_user user_id (gl_display_name login) db3)
       = Inr (issued, db')"
    "\<And>u. google_identity (gl_google_subject login) (prune_auth_records env 1000 db) = Some u \<Longrightarrow> u_status u = USER_ACTIVE"
  using assms
  by (auto simp: create_google_session_def Let_def err_simps split: option.splits if_splits)

text \<open>An admission as sign-in computes it: known, legacy, or redeemed from a free code.\<close>

lemma admission_cases:
  assumes "admission_for_login env hours_us required h code_hash db = Inr ((stored, a), db1)"
  obtains "stored" "db1 = db" "a \<in> set (account_access db)" "aa_subject_hash a = h"
  | "\<not> stored" "db1 = db" "\<forall>x \<in> set (account_access db). aa_subject_hash x \<noteq> h" "aa_subject_hash a = h"
    "aa_invitation_id a = None"
  | c where "\<not> stored" "\<forall>x \<in> set (account_access db). aa_subject_hash x \<noteq> h" "aa_subject_hash a = h"
    "c \<in> set (invitation_codes db)" "code_hash = Some (iv_code_hash c)" "iv_revoked_at c = None"
    "\<And>m. iv_max_uses c = Some m \<Longrightarrow> iv_use_count c < m" "aa_invitation_id a = Some (iv_id c)"
    "db1 = db\<lparr>invitation_codes := update_where (\<lambda>x. iv_id x = iv_id c)
        (\<lambda>x. x\<lparr>iv_use_count := iv_use_count x + 1\<rparr>) (invitation_codes db)\<rparr>"
proof -
  show thesis
  proof (cases "one_or_none (\<lambda>a. aa_subject_hash a = h) (account_access db)")
    case (Some x)
    with assms one_or_none_SomeD [OF Some] that(1) show thesis
      by (auto simp: admission_for_login_def split: if_splits)
  next
    case None
    then have fresh: "\<forall>x \<in> set (account_access db). aa_subject_hash x \<noteq> h" by (simp add: table_simps)
    show thesis
    proof (cases required)
      case False
      with assms None fresh that(2) show thesis by (auto simp: admission_for_login_def)
    next
      case True
      with assms None obtain i c where c: "code_hash = Some i" "one_or_none (\<lambda>c. iv_code_hash c = i) (invitation_codes db) = Some c"
        and rest: "\<not> (iv_revoked_at c \<noteq> None
             \<or> (case iv_expires_at c of None \<Rightarrow> False | Some t \<Rightarrow> t \<le> e_clock env 1)
             \<or> (case iv_max_uses c of None \<Rightarrow> False | Some m \<Rightarrow> m \<le> iv_use_count c))"
        "\<not> stored" "aa_subject_hash a = h" "aa_invitation_id a = Some (iv_id c)"
        "db1 = db\<lparr>invitation_codes := update_where (\<lambda>x. iv_id x = iv_id c)
          (\<lambda>x. x\<lparr>iv_use_count := iv_use_count x + 1\<rparr>) (invitation_codes db)\<rparr>"
        by (auto simp: admission_for_login_def split: option.splits if_splits)
      show thesis
        by (rule that(3)) (use c rest fresh one_or_none_SomeD [OF c(2)] in \<open>auto split: option.splits\<close>)
    qed
  qed
qed

lemma sign_in_ledger:
  assumes ok: "ledger_ok db" and run: "create_google_session env dg hours_us required login db = Inr (r, db')"
  shows "ledger_ok db'"
proof (cases r)
  case None
  with run have "db' = prune_auth_records env 1000 db"
    by (auto simp: create_google_session_def Let_def err_simps split: option.splits if_splits)
  then show ?thesis using ledger_cong [OF _ _ ok] by (simp add: prune_auth_frame)
next
  case (Some issued)
  let ?db0 = "prune_auth_records env 1000 db"
  have ok0: "ledger_ok ?db0" using ledger_cong [OF _ _ ok] by (simp add: prune_auth_frame)
  show ?thesis
  proof (rule sign_in_stages [OF run [unfolded Some]])
    fix admission user_id db1 db2 db3
    assume adm: "admission_for_login env hours_us required (dg (gl_google_subject login)) (gl_invitation_hash login) ?db0
        = Inr (admission, db1)"
      and reg: "(if google_identity (gl_google_subject login) ?db0 = None
        then register_user env user_id (gl_google_subject login) db1 else Inr db1) = Inr db2"
      and att: "attach_admission admission user_id db2 = Inr db3"
      and opn: "open_session env user_id login (aa_expires_at (snd admission)) (rename_user user_id (gl_display_name login) db3)
        = Inr (issued, db')"
    obtain stored a where pair: "admission = (stored, a)" by (cases admission)
    have same2: "invitation_codes db2 = invitation_codes db1" "account_access db2 = account_access db1"
      using reg register_frame by (auto split: if_splits)
    have same3: "invitation_codes db' = invitation_codes db3" "account_access db' = account_access db3"
      using open_session_frame [OF opn] by (simp_all add: rename_frame)
    have codes: "invitation_codes db' = invitation_codes db1"
      and access: "account_access db' = (if stored
        then update_where (\<lambda>x. aa_subject_hash x = aa_subject_hash a) (\<lambda>x. x\<lparr>aa_user_id := Some user_id\<rparr>) (account_access db1)
        else account_access db1 @ [a\<lparr>aa_user_id := Some user_id\<rparr>])"
      using att by (auto simp: attach_admission_def pair err_simps same2 same3 split: if_splits)
    from adm [unfolded pair] show ?thesis
    proof (cases rule: admission_cases)
      case 1
      then have "invitation_codes db' = update_where (\<lambda>_. False) (\<lambda>c. c) (invitation_codes ?db0)"
        "account_access db' = update_where (\<lambda>x. aa_subject_hash x = aa_subject_hash a)
          (\<lambda>x. x\<lparr>aa_user_id := Some user_id\<rparr>) (account_access ?db0)"
        using codes access by (simp_all add: update_where_none)
      then show ?thesis by (rule ledger_update [OF ok0]) simp_all
    next
      case 2
      then show ?thesis
        using ledger_legacy [OF ok0, of "a\<lparr>aa_user_id := Some user_id\<rparr>" db'] codes access by simp
    next
      case (3 c)
      then show ?thesis
        using ledger_redeem [OF ok0 3(4,7), of "a\<lparr>aa_user_id := Some user_id\<rparr>" db'] codes access by simp
    qed
  qed
qed

lemma create_invitation_ledger:
  assumes ok: "ledger_ok db" and run: "create_invitation env h hint v db = Inr (row, db')"
  shows "ledger_ok db'"
proof -
  from run have new: "invitation_codes db' = invitation_codes db @ [row]" "account_access db' = account_access db"
    "iv_use_count row = 0" "\<And>c. c \<in> set (invitation_codes db) \<Longrightarrow> iv_id c \<noteq> iv_id row"
    "\<And>m. iv_max_uses row = Some m \<Longrightarrow> 0 < m"
    by (auto simp: create_invitation_def Let_def err_simps audit_def table_simps invitation_values_ok_def)
  have "redeemed (iv_id row) (account_access db) = 0"
    by (rule redeemed_none) (use ok new(4) in \<open>auto simp: ledger_ok_def\<close>)
  with ok new show ?thesis
    by (auto simp: ledger_ok_def keyed_snoc code_ok_def less_imp_le split: option.splits)
qed

lemma update_invitation_ledger:
  assumes ok: "ledger_ok db" and run: "update_invitation env identifier v db = Inr (row', db')"
  shows "ledger_ok db'"
proof -
  from run obtain row where row: "one_or_none (\<lambda>c. iv_id c = identifier) (invitation_codes db) = Some row"
    and bound: "\<And>m. iv_max_uses (apply_update v row) = Some m \<Longrightarrow> iv_use_count row \<le> m"
    and db': "invitation_codes db' = update_where (\<lambda>c. iv_id c = identifier) (apply_update v) (invitation_codes db)"
      "account_access db' = account_access db"
    by (auto simp: update_invitation_def Let_def err_simps audit_def split: option.splits if_splits)
  have "c = row" if "c \<in> set (invitation_codes db)" "iv_id c = identifier" for c
    using that one_or_none_SomeD [OF row] keyed_inject [of iv_id "invitation_codes db" c row] ok
    by (simp add: ledger_ok_def)
  then show ?thesis
    using bound db' by (intro ledger_update [OF ok db'(1), where Q = "\<lambda>_. False" and g = "\<lambda>a. a"])
      (auto simp: apply_update_def)
qed

lemma revoke_invitation_ledger:
  assumes ok: "ledger_ok db" and run: "revoke_invitation env identifier db = Inr db'"
  shows "ledger_ok db'"
proof -
  from run have db': "invitation_codes db' = update_where (\<lambda>c. iv_id c = identifier)
      (\<lambda>c. c\<lparr>iv_revoked_at := (case iv_revoked_at c of None \<Rightarrow> Some (e_started env) | Some t \<Rightarrow> Some t)\<rparr>) (invitation_codes db)"
    "account_access db' = update_where (\<lambda>_. False) (\<lambda>a. a) (account_access db)"
    by (auto simp: revoke_invitation_def err_simps audit_def)
  show ?thesis
    by (rule ledger_update [OF ok db']) (use ok in \<open>auto simp: ledger_ok_def code_ok_def split: option.splits\<close>)
qed

lemma update_user_ledger:
  assumes ok: "ledger_ok db" and run: "update_user env identifier v db = Inr db'"
  shows "ledger_ok db'"
proof -
  from run have "invitation_codes db' = invitation_codes db"
    and access: "account_access db' = (if uu_status v \<noteq> None \<or> uu_access_expires_at v \<noteq> None
      then update_where (\<lambda>a. aa_user_id a = Some identifier) (apply_access_values env v) (account_access db)
      else account_access db)"
    by (auto simp: update_user_def Let_def err_simps audit_def split: option.splits if_splits)
  note codes = this(1)
  show ?thesis
  proof (cases "uu_status v \<noteq> None \<or> uu_access_expires_at v \<noteq> None")
    case True
    then show ?thesis
      using ledger_update [OF ok, of db' "\<lambda>_. False" "\<lambda>c. c" "\<lambda>a. aa_user_id a = Some identifier"
          "apply_access_values env v"] codes access
      by (simp add: apply_access_values_def)
  next
    case False
    then show ?thesis using ledger_cong [OF codes _ ok] access by simp
  qed
qed

lemma delete_account_ledger:
  assumes ok: "ledger_ok db" and run: "delete_account user db = Inr db'"
  shows "ledger_ok db'"
proof (cases "db' = db")
  case False
  with run have "invitation_codes db' = invitation_codes db"
    "account_access db' = update_where (\<lambda>a. aa_user_id a = Some user) (\<lambda>a. a\<lparr>aa_user_id := None\<rparr>) (account_access db)"
    using delete_account_access [OF run] by simp_all
  then show ?thesis
    using ledger_update [OF ok, of db' "\<lambda>_. False" "\<lambda>c. c" "\<lambda>a. aa_user_id a = Some user" "\<lambda>a. a\<lparr>aa_user_id := None\<rparr>"]
    by simp
qed (use ok in simp)

subsection \<open>Runs\<close>

text \<open>
  The committed transactions that can write invitations or admissions, and any transaction that
  writes neither table.
\<close>

inductive access_step :: "env \<Rightarrow> database \<Rightarrow> database \<Rightarrow> bool" where
  a_sign_in: "create_google_session env dg hours_us required login db = Inr (r, db') \<Longrightarrow> access_step env db db'"
| a_create: "create_invitation env h hint v db = Inr (row, db') \<Longrightarrow> access_step env db db'"
| a_update: "update_invitation env i u db = Inr (row, db') \<Longrightarrow> access_step env db db'"
| a_revoke: "revoke_invitation env i db = Inr db' \<Longrightarrow> access_step env db db'"
| a_user: "update_user env i w db = Inr db' \<Longrightarrow> access_step env db db'"
| a_erase: "delete_account i db = Inr db' \<Longrightarrow> access_step env db db'"
| a_other: "invitation_codes db' = invitation_codes db \<Longrightarrow> account_access db' = account_access db \<Longrightarrow> access_step env db db'"

inductive_cases access_stepE: "access_step env db db'"

interpretation ledger: invariant_system access_step ledger_ok
proof
  fix env db db' assume "access_step env db db'" and ok: "ledger_ok db"
  then show "ledger_ok db'"
    by (elim access_stepE)
      (auto intro: sign_in_ledger create_invitation_ledger update_invitation_ledger revoke_invitation_ledger
        update_user_ledger delete_account_ledger ledger_cong)
qed

lemma ledger_empty: "ledger_ok empty_db"
  by (simp add: ledger_ok_def empty_db_def)

subsection \<open>Sessions\<close>

lemma attach_access:
  assumes "attach_admission (stored, a) user_id db = Inr db'"
    and "stored \<Longrightarrow> a \<in> set (account_access db)"
  shows "\<exists>x \<in> set (account_access db'). aa_user_id x = Some user_id \<and> aa_revoked_at x = aa_revoked_at a
    \<and> aa_expires_at x = aa_expires_at a"
    and "users db' = users db" "google_identities db' = google_identities db"
proof -
  let ?a = "a\<lparr>aa_user_id := Some user_id\<rparr>"
  have "?a \<in> set (account_access db')"
  proof (cases stored)
    case True
    with assms(1) have "account_access db' = update_where (\<lambda>x. aa_subject_hash x = aa_subject_hash a)
        (\<lambda>x. x\<lparr>aa_user_id := Some user_id\<rparr>) (account_access db)"
      by (auto simp: attach_admission_def err_simps)
    with assms(2) True show ?thesis by (simp add: update_whereI)
  next
    case False
    with assms(1) show ?thesis by (auto simp: attach_admission_def err_simps)
  qed
  then show "\<exists>x \<in> set (account_access db'). aa_user_id x = Some user_id \<and> aa_revoked_at x = aa_revoked_at a
    \<and> aa_expires_at x = aa_expires_at a" by (intro bexI [of _ ?a]) simp_all
  show "users db' = users db" "google_identities db' = google_identities db"
    using assms(1) by (auto simp: attach_admission_def err_simps split: if_splits)
qed

text \<open>With invitations required, an admission that lets its owner in is neither revoked nor over.\<close>

lemma admission_unrevoked:
  assumes "admission_for_login env hours_us True h code_hash db = Inr (admission, db1)"
  shows "aa_revoked_at (snd admission) = None"
  using assms by (auto simp: admission_for_login_def split: option.splits if_splits)

lemma admission_stored:
  assumes "admission_for_login env hours_us required h code_hash db = Inr ((True, a), db1)"
  shows "a \<in> set (account_access db1)"
  using assms by (auto simp: admission_for_login_def split: option.splits if_splits dest!: one_or_none_SomeD)

lemma admission_frame:
  assumes "admission_for_login env hours_us required h code_hash db = Inr (admission, db1)"
  shows "users db1 = users db \<and> google_identities db1 = google_identities db"
  using assms by (auto simp: admission_for_login_def split: option.splits if_splits)

lemma google_identity_cong:
  "users db' = users db \<Longrightarrow> google_identities db' = google_identities db \<Longrightarrow> google_identity s db' = google_identity s db"
  by (cases "one_or_none (\<lambda>g. g_subject g = s \<and> g_issuer g = GOOGLE_ISSUER) (google_identities db)")
    (simp_all add: google_identity_def)

text \<open>The account a sign-in is for: known and active, or just registered.\<close>

lemma sign_in_account:
  assumes reg: "(if identity = None then register_user env user_id subject db else Inr db) = Inr db'"
    and identity: "identity = google_identity subject db"
    and user: "user_id = (case identity of Some u \<Rightarrow> u_id u | None \<Rightarrow> fresh)"
    and active: "\<And>u. identity = Some u \<Longrightarrow> u_status u = USER_ACTIVE"
  shows "(\<exists>u \<in> set (users db'). u_id u = user_id \<and> u_status u = USER_ACTIVE)
    \<and> (\<exists>g \<in> set (google_identities db'). g_user_id g = user_id \<and> g_issuer g = GOOGLE_ISSUER)"
proof (cases identity)
  case None
  with reg show ?thesis by (auto simp: register_user_def err_simps)
next
  case (Some u)
  with identity obtain g where g: "one_or_none (\<lambda>g. g_subject g = subject \<and> g_issuer g = GOOGLE_ISSUER) (google_identities db) = Some g"
    and u: "one_or_none (\<lambda>u. u_id u = g_user_id g) (users db) = Some u"
    by (auto simp: google_identity_def split: option.splits)
  have "db' = db" using reg Some by simp
  moreover have "u \<in> set (users db) \<and> u_id u = g_user_id g" using one_or_none_SomeD [OF u] .
  moreover have "g \<in> set (google_identities db) \<and> g_issuer g = GOOGLE_ISSUER" using one_or_none_SomeD [OF g] by simp
  ultimately show ?thesis using active [OF Some] user Some by auto
qed

lemma rename_keeps:
  "(\<exists>u \<in> set (users (rename_user i n db)). u_id u = user \<and> u_status u = st)
     \<longleftrightarrow> (\<exists>u \<in> set (users db). u_id u = user \<and> u_status u = st)"
  "google_identities (rename_user i n db) = google_identities db"
proof -
  have "(\<exists>u \<in> set (update_where (\<lambda>u. u_id u = i) (\<lambda>u. u\<lparr>u_display_name := m\<rparr>) (users db)). (u_id u, u_status u) = (user, st))
     \<longleftrightarrow> (\<exists>u \<in> set (users db). (u_id u, u_status u) = (user, st))" for m
    by (rule key_exists_update) simp
  then show "(\<exists>u \<in> set (users (rename_user i n db)). u_id u = user \<and> u_status u = st)
     \<longleftrightarrow> (\<exists>u \<in> set (users db). u_id u = user \<and> u_status u = st)"
    by (simp add: rename_user_def split: option.splits)
  show "google_identities (rename_user i n db) = google_identities db"
    by (simp add: rename_user_def split: option.splits)
qed

text \<open>A fresh session of a user in good standing resolves, until its token is revoked.\<close>

lemma resolve_single:
  assumes "s \<in> set (auth_sessions db)" and "as_token_hash s = t" and "u \<in> set (users db)" and "session_valid env required db u s"
    and "\<And>x. x \<in> set (auth_sessions db) \<Longrightarrow> as_token_hash x = t \<Longrightarrow> x = s"
  shows "\<exists>name. resolve_session env required t db
    = Some \<lparr>sp_user_id = as_user_id s, sp_csrf_hash = as_csrf_hash s, sp_display_name = name\<rparr>"
proof -
  let ?rows = "[(u, s). s \<leftarrow> auth_sessions db, as_token_hash s = t, u \<leftarrow> users db, session_valid env required db u s]"
  have mem: "(v, x) \<in> set ?rows \<longleftrightarrow> x \<in> set (auth_sessions db) \<and> as_token_hash x = t \<and> v \<in> set (users db)
      \<and> session_valid env required db v x" for v x
    by auto
  have "(u, s) \<in> set ?rows" unfolding mem using assms(1-4) by simp
  then obtain v x rest where rows: "?rows = (v, x) # rest" by (cases ?rows) auto
  then have "(v, x) \<in> set ?rows" by simp
  then have "x = s" unfolding mem using assms(5) by simp
  then show ?thesis unfolding resolve_session_def rows by simp
qed

lemma resolve_None:
  assumes "\<And>s u. s \<in> set (auth_sessions db) \<Longrightarrow> as_token_hash s = t \<Longrightarrow> \<not> session_valid env required db u s"
  shows "resolve_session env required t db = None"
proof -
  have "[(u, s). s \<leftarrow> auth_sessions db, as_token_hash s = t, u \<leftarrow> users db, session_valid env required db u s] = []"
    using assms by auto
  then show ?thesis unfolding resolve_session_def by (simp only: list.case)
qed

lemma revoked_unresolved: "resolve_session env required t (revoke_session env' t db) = None"
proof (rule resolve_None)
  fix s u assume "s \<in> set (auth_sessions (revoke_session env' t db))" "as_token_hash s = t"
  moreover obtain r where "s = (if as_token_hash r = t \<and> as_revoked_at r = None
      then r\<lparr>as_revoked_at := Some (e_started env')\<rparr> else r)"
    using calculation(1) unfolding revoke_session_def by (simp add: set_update_where split del: if_split) blast
  ultimately have "as_revoked_at s \<noteq> None"
    by (cases "as_token_hash r = t \<and> as_revoked_at r = None") auto
  then show "\<not> session_valid env required (revoke_session env' t db) u s" by (simp add: session_valid_def)
qed

lemma sign_in_session:
  assumes run: "create_google_session env dg hours_us required login db = Inr (Some issued, db')"
  obtains s u where "s \<in> set (auth_sessions db')" "as_token_hash s = sn_token_hash (gl_session login)"
    "as_csrf_hash s = sn_csrf_hash (gl_session login)" "as_user_id s = iss_user_id issued"
    "as_expires_at s = iss_expires_at issued" "as_revoked_at s = None"
    "\<And>x. x \<in> set (auth_sessions db') \<Longrightarrow> as_token_hash x = sn_token_hash (gl_session login) \<Longrightarrow> x = s"
    "u \<in> set (users db')" "u_id u = iss_user_id issued" "u_status u = USER_ACTIVE"
    "\<exists>g \<in> set (google_identities db'). g_user_id g = iss_user_id issued \<and> g_issuer g = GOOGLE_ISSUER"
    "required \<Longrightarrow> \<exists>a \<in> set (account_access db'). aa_user_id a = Some (iss_user_id issued) \<and> aa_revoked_at a = None
       \<and> (case aa_expires_at a of None \<Rightarrow> True | Some t \<Rightarrow> iss_expires_at issued \<le> t)"
proof (rule sign_in_stages [OF run])
  fix admission user_id db1 db2 db3
  let ?db0 = "prune_auth_records env 1000 db"
  let ?id = "google_identity (gl_google_subject login) ?db0"
  assume adm: "admission_for_login env hours_us required (dg (gl_google_subject login)) (gl_invitation_hash login) ?db0
      = Inr (admission, db1)"
    and user: "user_id = (case ?id of Some u \<Rightarrow> u_id u | None \<Rightarrow> e_uuid env 0)"
    and reg: "(if ?id = None then register_user env user_id (gl_google_subject login) db1 else Inr db1) = Inr db2"
    and att: "attach_admission admission user_id db2 = Inr db3"
    and opn: "open_session env user_id login (aa_expires_at (snd admission)) (rename_user user_id (gl_display_name login) db3)
      = Inr (issued, db')"
    and active: "\<And>u. ?id = Some u \<Longrightarrow> u_status u = USER_ACTIVE"
  obtain stored a where pair: "admission = (stored, a)" by (cases admission)
  let ?db4 = "rename_user user_id (gl_display_name login) db3"
  let ?exp = "case aa_expires_at a of None \<Rightarrow> e_clock env 2 + sn_lifetime (gl_session login)
      | Some t \<Rightarrow> min (e_clock env 2 + sn_lifetime (gl_session login)) t"
  let ?s = "\<lparr>as_id = e_uuid env 1, as_user_id = user_id, as_token_hash = sn_token_hash (gl_session login),
      as_csrf_hash = sn_csrf_hash (gl_session login), as_expires_at = ?exp, as_revoked_at = None\<rparr>"
  have session: "db' = ?db4\<lparr>auth_sessions := auth_sessions ?db4 @ [?s]\<rparr>"
    "issued = \<lparr>iss_user_id = user_id, iss_expires_at = ?exp\<rparr>"
    "\<And>x. x \<in> set (auth_sessions ?db4) \<Longrightarrow> as_token_hash x \<noteq> sn_token_hash (gl_session login)"
    using opn by (auto simp: open_session_def Let_def err_simps pair row_exists_iff split: option.splits)
  have stored: "a \<in> set (account_access db2)" if stored
    using admission_stored [of env hours_us required _ _ ?db0 a db1] adm reg register_frame that
    by (auto simp: pair split: if_splits)
  have "google_identity (gl_google_subject login) db1 = ?id"
    using admission_frame [OF adm] by (intro google_identity_cong) simp_all
  note account = sign_in_account [OF reg this [symmetric] user active]
  note access = attach_access [OF att [unfolded pair] stored]
  from account obtain u where "u \<in> set (users db2)" "u_id u = user_id" "u_status u = USER_ACTIVE" by blast
  then obtain u' where u': "u' \<in> set (users ?db4)" "u_id u' = user_id" "u_status u' = USER_ACTIVE"
    using rename_keeps(1) [of user_id _ db3 user_id USER_ACTIVE] access(2) by metis
  have ident: "\<exists>g \<in> set (google_identities db'). g_user_id g = user_id \<and> g_issuer g = GOOGLE_ISSUER"
    using account access(3) by (simp add: session(1) rename_keeps(2))
  have "\<exists>x \<in> set (account_access db'). aa_user_id x = Some user_id \<and> aa_revoked_at x = None
      \<and> (case aa_expires_at x of None \<Rightarrow> True | Some t \<Rightarrow> ?exp \<le> t)" if required
  proof -
    have "aa_revoked_at a = None" using admission_unrevoked [of env hours_us] adm that pair by auto
    with access(1) obtain x where x: "x \<in> set (account_access db3)" "aa_user_id x = Some user_id" "aa_revoked_at x = None"
      "aa_expires_at x = aa_expires_at a" by auto
    moreover have "account_access db' = account_access db3" by (simp add: session(1) rename_frame)
    ultimately show ?thesis by (intro bexI [of _ x]) (auto split: option.splits)
  qed
  then have acc: "required \<Longrightarrow> \<exists>x \<in> set (account_access db'). aa_user_id x = Some (iss_user_id issued)
      \<and> aa_revoked_at x = None \<and> (case aa_expires_at x of None \<Rightarrow> True | Some t \<Rightarrow> iss_expires_at issued \<le> t)"
    unfolding session(2) IssuedSession.simps .
  have new: "x = ?s" if "x \<in> set (auth_sessions db')" "as_token_hash x = sn_token_hash (gl_session login)" for x
    using that session(3) [of x] by (auto simp: session(1))
  have mem: "?s \<in> set (auth_sessions db')" and "users db' = users ?db4" by (simp_all add: session(1))
  have iss: "iss_user_id issued = user_id" "iss_expires_at issued = ?exp"
    unfolding session(2) IssuedSession.simps by (rule refl)+
  show thesis
  proof (rule that [of ?s u'])
    show "?s \<in> set (auth_sessions db')" by (rule mem)
    show "as_token_hash ?s = sn_token_hash (gl_session login)" "as_csrf_hash ?s = sn_csrf_hash (gl_session login)"
      "as_revoked_at ?s = None" by simp_all
    show "as_user_id ?s = iss_user_id issued" using iss(1) by simp
    show "as_expires_at ?s = iss_expires_at issued" unfolding iss(2) by simp
    show "u' \<in> set (users db')" "u_id u' = iss_user_id issued" "u_status u' = USER_ACTIVE"
      using u' iss(1) \<open>users db' = users ?db4\<close> by simp_all
    show "\<exists>g \<in> set (google_identities db'). g_user_id g = iss_user_id issued \<and> g_issuer g = GOOGLE_ISSUER"
      using ident iss(1) by simp
  qed (rule new acc, assumption+)+
qed

subsection \<open>Properties\<close>

text \<open>
  C38: an invitation is never redeemed more often than it allows. In every reachable state an
  invitation's use count is the number of admissions it granted, and it never exceeds the limit,
  through sign-ins, edits of the limit, and the erasure and return of accounts.
\<close>

theorem invitation_ledger_exact:
  assumes "run access_step tr empty_db db" and "c \<in> set (invitation_codes db)"
  shows "redeemed (iv_id c) (account_access db) = iv_use_count c
    \<and> (\<forall>m. iv_max_uses c = Some m \<longrightarrow> iv_use_count c \<le> m)"
proof -
  have "ledger_ok db" using ledger.run_inv [OF assms(1) ledger_empty] .
  then have "code_ok (account_access db) c" using assms(2) by (simp add: ledger_ok_def)
  then show ?thesis by (auto simp: code_ok_def)
qed

text \<open>
  C39: signing in yields a working session. After \<open>create_google_session\<close> has issued a session, its
  token resolves to the issued account with its CSRF hash at every moment before the issued expiry,
  and after \<open>revoke_session\<close> it resolves to nothing.
\<close>

theorem session_resolves_until_revoked:
  assumes "create_google_session env dg hours_us required login db = Inr (Some issued, db')"
    and "e_started env' < iss_expires_at issued"
  shows "(\<exists>name. resolve_session env' required (sn_token_hash (gl_session login)) db'
      = Some \<lparr>sp_user_id = iss_user_id issued, sp_csrf_hash = sn_csrf_hash (gl_session login), sp_display_name = name\<rparr>)
    \<and> resolve_session env' required (sn_token_hash (gl_session login))
      (revoke_session env'' (sn_token_hash (gl_session login)) db') = None"
proof
  show "resolve_session env' required (sn_token_hash (gl_session login))
      (revoke_session env'' (sn_token_hash (gl_session login)) db') = None" by (rule revoked_unresolved)
  show "\<exists>name. resolve_session env' required (sn_token_hash (gl_session login)) db'
      = Some \<lparr>sp_user_id = iss_user_id issued, sp_csrf_hash = sn_csrf_hash (gl_session login), sp_display_name = name\<rparr>"
  proof (rule sign_in_session [OF assms(1)])
    fix s u
    assume S: "s \<in> set (auth_sessions db')" "as_token_hash s = sn_token_hash (gl_session login)"
      "as_csrf_hash s = sn_csrf_hash (gl_session login)" "as_user_id s = iss_user_id issued"
      "as_expires_at s = iss_expires_at issued" "as_revoked_at s = None"
      "\<And>x. x \<in> set (auth_sessions db') \<Longrightarrow> as_token_hash x = sn_token_hash (gl_session login) \<Longrightarrow> x = s"
      and U: "u \<in> set (users db')" "u_id u = iss_user_id issued" "u_status u = USER_ACTIVE"
      "\<exists>g \<in> set (google_identities db'). g_user_id g = iss_user_id issued \<and> g_issuer g = GOOGLE_ISSUER"
      and A: "required \<Longrightarrow> \<exists>a \<in> set (account_access db'). aa_user_id a = Some (iss_user_id issued) \<and> aa_revoked_at a = None
       \<and> (case aa_expires_at a of None \<Rightarrow> True | Some t \<Rightarrow> iss_expires_at issued \<le> t)"
    have "access_allowed (e_started env') a" if "aa_user_id a = Some (iss_user_id issued)" "aa_revoked_at a = None"
      "case aa_expires_at a of None \<Rightarrow> True | Some t \<Rightarrow> iss_expires_at issued \<le> t" for a
      using that assms(2) by (auto simp: access_allowed_def split: option.splits)
    with A have "required \<longrightarrow> (\<exists>a \<in> set (account_access db'). aa_user_id a = Some (iss_user_id issued)
        \<and> access_allowed (e_started env') a)" by blast
    then have "session_valid env' required db' u s"
      using S(4-6) U(2-4) assms(2) by (simp add: session_valid_def row_exists_iff)
    from resolve_single [OF S(1,2) U(1) this S(7)] show ?thesis by (simp add: S(3,4))
  qed
qed

subsection \<open>Witnesses\<close>

text \<open>An invitation for one use, and a sign-in that uses it.\<close>

definition sample_invitation :: InvitationCreate where
  "sample_invitation = \<lparr>ni_label = ''class'', ni_expires_at = None, ni_access_hours = None, ni_max_uses = Some 1\<rparr>"

definition sample_login :: GoogleLogin where
  "sample_login = \<lparr>gl_google_subject = ''g'', gl_session = \<lparr>sn_token_hash = ''t'', sn_csrf_hash = ''c'', sn_lifetime = 9\<rparr>,
     gl_display_name = None, gl_invitation_hash = Some ''h''\<rparr>"

definition sample_invited :: "access_error + invitation_codes_row \<times> database" where
  "sample_invited = create_invitation (sample_env 0) ''h'' ''hint'' sample_invitation empty_db"

definition sample_signed_in :: "access_error + IssuedSession option \<times> database" where
  "sample_signed_in = and_then sample_invited
     (\<lambda>(row, db). create_google_session (sample_env 5) id (\<lambda>_. 0) True sample_login db)"

lemma sample_sign_in:
  obtains row db1 db2 where "create_invitation (sample_env 0) ''h'' ''hint'' sample_invitation empty_db = Inr (row, db1)"
    "create_google_session (sample_env 5) id (\<lambda>_. 0) True sample_login db1
      = Inr (Some \<lparr>iss_user_id = ''u0'', iss_expires_at = 14\<rparr>, db2)"
    "map (\<lambda>c. (iv_use_count c, iv_max_uses c)) (invitation_codes db2) = [(1, Some 1)]"
    "length (account_access db2) = 1"
proof -
  have "(case sample_signed_in of Inr (Some i, db) \<Rightarrow> iss_user_id i = ''u0'' \<and> iss_expires_at i = 14
      \<and> map (\<lambda>c. (iv_use_count c, iv_max_uses c)) (invitation_codes db) = [(1, Some 1)]
      \<and> length (account_access db) = 1 | _ \<Rightarrow> False)"
    by code_simp
  then show thesis
    using that by (auto simp: sample_signed_in_def sample_invited_def err_simps split: sum.splits option.splits prod.splits)
qed

theorem invitation_ledger_exact_witness:
  "\<exists>tr db c. run access_step tr empty_db db \<and> c \<in> set (invitation_codes db) \<and> iv_use_count c = 1
     \<and> redeemed (iv_id c) (account_access db) = 1"
proof (rule sample_sign_in)
  fix row db1 db2
  assume steps: "create_invitation (sample_env 0) ''h'' ''hint'' sample_invitation empty_db = Inr (row, db1)"
    "create_google_session (sample_env 5) id (\<lambda>_. 0) True sample_login db1
      = Inr (Some \<lparr>iss_user_id = ''u0'', iss_expires_at = 14\<rparr>, db2)"
    and codes: "map (\<lambda>c. (iv_use_count c, iv_max_uses c)) (invitation_codes db2) = [(1, Some 1)]"
  have run: "run access_step [sample_env 0, sample_env 5] empty_db db2"
    using steps by (blast intro: run.intros access_step.intros)
  moreover from codes obtain c where c: "c \<in> set (invitation_codes db2)" "iv_use_count c = 1"
    by (cases "invitation_codes db2") auto
  moreover have "redeemed (iv_id c) (account_access db2) = 1"
    using invitation_ledger_exact [OF run c(1)] c(2) by simp
  ultimately show ?thesis by blast
qed

theorem session_resolves_until_revoked_witness:
  "\<exists>db. resolve_session (sample_env 13) True ''t'' (revoke_session (sample_env 8) ''t'' db) = None
     \<and> (\<exists>p. resolve_session (sample_env 13) True ''t'' db = Some p \<and> sp_user_id p = ''u0'' \<and> sp_csrf_hash p = ''c'')"
proof (rule sample_sign_in)
  fix row db1 db2
  assume signed: "create_google_session (sample_env 5) id (\<lambda>_. 0) True sample_login db1
      = Inr (Some \<lparr>iss_user_id = ''u0'', iss_expires_at = 14\<rparr>, db2)"
  have "e_started (sample_env 13) < iss_expires_at \<lparr>iss_user_id = ''u0'', iss_expires_at = 14\<rparr>"
    by (simp add: sample_env_def)
  from session_resolves_until_revoked [OF signed this, of "sample_env 8"] show ?thesis
    by (intro exI [of _ db2]) (auto simp: sample_login_def)
qed

end
