(* ===== verification/Weekly_Packer.thy ===== *)
theory Weekly_Packer
  imports Weekly_Plan_Models "HOL-Library.While_Combinator"
begin

section \<open>The weekly packer\<close>

text \<open>
  \<open>_pack\<close> of \<open>src/jobtology_be/application/weekly_plan.py\<close>: hour by hour from the start, work is
  given to at most two ready steps in turn, until all hours are placed. The loop may in principle
  run for ever (its jump to the next Monday depends on the zone's rules), so it is a
  \<^const>\<open>while_option\<close> and the result \<open>None\<close> means that it does not return. The local variables of
  the loop are the record \<open>pack_state\<close>; \<open>pack_input\<close> holds what the function fixes before it.
\<close>

datatype weekly_error =
    WeeklyPlanSchedulingError
  | CalendarFailure calendar_error
  | StopIteration
  | MissingKey uuid

type_synonym 'a run = "(weekly_error + 'a) option"

definition run_then :: "'a run \<Rightarrow> ('a \<Rightarrow> 'b run) \<Rightarrow> 'b run" where
  "run_then m f = (case m of None \<Rightarrow> None | Some (Inl e) \<Rightarrow> Some (Inl e) | Some (Inr v) \<Rightarrow> f v)"

definition MAX_ACTIVE_LEARNING_ACTIVITIES :: nat where
  "MAX_ACTIVE_LEARNING_ACTIVITIES = 2"

definition MAX_CUSTOM_PLAN_WEEKS :: int where
  "MAX_CUSTOM_PLAN_WEEKS = 520"

subsection \<open>Hours of a step and preferred starts\<close>

definition has_solver_dates :: "PlanStepInput \<Rightarrow> bool" where
  "has_solver_dates item = (case (vw_planned_start (in_step item), vw_planned_end (in_step item)) of
       (Some s, Some e) \<Rightarrow> dt_le s e | _ \<Rightarrow> False)"

definition hours_for :: "PlanContext \<Rightarrow> PlanStepInput \<Rightarrow> int" where
  "hours_for context item =
     (case map_of (px_step_hours context) (vw_step_key (in_step item)) of
        Some pinned \<Rightarrow> pinned
      | None \<Rightarrow> (case in_metadata item of
           None \<Rightarrow> 20
         | Some meta \<Rightarrow> (case md_estimated_hours meta of None \<Rightarrow> 20 | Some h \<Rightarrow> h)))"

definition plan_hours :: "PlanContext \<Rightarrow> PlanOverrides option \<Rightarrow> PlanStepInput \<Rightarrow> int" where
  "plan_hours context overrides item =
     (case overrides of
        None \<Rightarrow> hours_for context item
      | Some ov \<Rightarrow> dict_get (po_hours ov) (step_id_of item) (hours_for context item))"

text \<open>The next full hour at or after a moment.\<close>

definition round_up_hour :: "int \<Rightarrow> int" where
  "round_up_hour t = (let rounded = t - t mod HOUR in if rounded = t then t else rounded + HOUR)"

definition working_hour_offset :: "zone \<Rightarrow> (int \<Rightarrow> int) \<Rightarrow> datetime \<Rightarrow> datetime \<Rightarrow> int \<Rightarrow> int" where
  "working_hour_offset z wall_off moment plan_start weekly =
     (let first = round_up_hour (instant plan_start);
          start_day = date_of (local_wall z first);
          moment_day = local_date z moment;
          first_monday = start_day - weekday_of start_day;
          moment_monday = moment_day - weekday_of moment_day;
          weeks = (moment_monday - first_monday) div 7
      in if weeks \<le> 0
         then max 0 (min weekly (ceil_hours (instant moment - first)))
         else
           let next_week = instant (midnight z wall_off (first_monday + 7));
               first_capacity = min weekly (max 0 ((next_week - first) div HOUR));
               week_start = instant (midnight z wall_off moment_monday);
               week_hours = min weekly (max 0 (ceil_hours (instant moment - week_start)))
           in first_capacity + (weeks - 1) * weekly + week_hours)"

definition recommended_order :: "PlanStepInput list \<Rightarrow> PlanStepInput list" where
  "recommended_order items = sort_key (\<lambda>item. (vw_position (in_step item), step_id_of item)) items"

definition preferred_start_offsets ::
  "zone \<Rightarrow> (int \<Rightarrow> int) \<Rightarrow> PlanContext \<Rightarrow> PlanStepInput list \<Rightarrow> PlanOverrides option \<Rightarrow> datetime
    \<Rightarrow> (uuid \<times> int) list" where
  "preferred_start_offsets z wall_off context ordered overrides plan_start =
     (if overrides \<noteq> None \<and> ordered \<noteq> recommended_order ordered then []
      else py_dict (concat (map (\<lambda>item. case vw_planned_start (in_step item) of
             None \<Rightarrow> []
           | Some s \<Rightarrow> if has_solver_dates item
               then [(step_id_of item, working_hour_offset z wall_off s plan_start (px_recommended_weekly_hours context))]
               else []) ordered)))"

subsection \<open>One turn of the loop\<close>

record pack_input =
  pk_zone :: zone
  pk_wall_off :: "int \<Rightarrow> int"
  pk_monday :: int
  pk_weekly :: int
  pk_rests :: "int set"
  pk_excluded :: "int set"
  pk_windows :: "WeeklyAvailabilityWindow list"
  pk_limit :: int
  pk_preferred :: "(uuid \<times> int) list"
  pk_positions :: "uuid \<Rightarrow> nat"
  pk_dependents :: "uuid \<Rightarrow> uuid list"
  pk_total_hours :: int

record pack_state =
  ps_remaining :: "(uuid \<times> int) list"
  ps_first :: "uuid \<Rightarrow> int option"
  ps_last :: "uuid \<Rightarrow> int option"
  ps_allocations :: "uuid \<Rightarrow> (int \<times> int) list"
  ps_waiting :: "uuid \<Rightarrow> uuid set"
  ps_ready :: "uuid list"
  ps_active :: "uuid list"
  ps_hours_left :: int
  ps_used_by_week :: "int \<Rightarrow> int"
  ps_cursor :: int

definition week_index :: "pack_input \<Rightarrow> int \<Rightarrow> int" where
  "week_index pk t = (date_of (local_wall (pk_zone pk) t) - pk_monday pk) div 7 + 1"

text \<open>Opening ready steps while a place is free; \<open>due\<close> says that a step's preferred start has come.\<close>

function admit :: "(uuid \<Rightarrow> bool) \<Rightarrow> nat \<Rightarrow> uuid list \<Rightarrow> uuid list \<Rightarrow> uuid list \<times> uuid list" where
  "admit due active admitted ready =
     (if ready \<noteq> [] \<and> active + length admitted < MAX_ACTIVE_LEARNING_ACTIVITIES then
        (case find due ready of
           None \<Rightarrow> if 0 < active \<or> admitted \<noteq> [] then (admitted, ready)
                   else admit due active (admitted @ [hd ready]) (remove1 (hd ready) ready)
         | Some key \<Rightarrow> admit due active (admitted @ [key]) (remove1 key ready))
      else (admitted, ready))"
  by pat_completeness auto
termination
  by (relation "measure (\<lambda>(_, _, _, ready). length ready)") (auto dest: find_SomeD simp: length_remove1)

declare admit.simps [simp del]

text \<open>A finished step releases the steps that wait for it.\<close>

fun release :: "uuid \<Rightarrow> (uuid \<Rightarrow> int) \<Rightarrow> uuid list \<Rightarrow> uuid list \<Rightarrow> (uuid \<Rightarrow> uuid set) \<times> uuid list
    \<Rightarrow> (uuid \<Rightarrow> uuid set) \<times> uuid list" where
  "release key left active [] wr = wr"
| "release key left active (d # ds) (waiting, ready) =
     (let waiting = waiting(d := waiting d - {key}) in
      release key left active ds
        (waiting, if waiting d = {} \<and> left d \<noteq> 0 \<and> d \<notin> set ready \<and> d \<notin> set active
                  then ready @ [d] else ready))"

definition bump :: "int \<Rightarrow> (int \<times> int) list \<Rightarrow> (int \<times> int) list" where
  "bump week weeks = AList.update week (dict_get weeks week 0 + 1) weeks"

text \<open>The hour at the cursor goes to \<open>key\<close>; \<open>rest\<close> and \<open>ready\<close> are the queues without it.\<close>

definition give_hour :: "pack_input \<Rightarrow> int \<Rightarrow> uuid \<Rightarrow> uuid list \<Rightarrow> uuid list \<Rightarrow> pack_state \<Rightarrow> pack_state" where
  "give_hour pk week key rest ready s =
     (let left = dict_get (ps_remaining s) key 0 - 1;
          remaining = AList.update key left (ps_remaining s);
          released = release key (\<lambda>d. dict_get remaining d 0) rest (pk_dependents pk key) (ps_waiting s, ready)
      in s\<lparr>ps_remaining := remaining,
           ps_first := (if ps_first s key = None then (ps_first s)(key \<mapsto> ps_cursor s) else ps_first s),
           ps_last := (ps_last s)(key \<mapsto> ps_cursor s + HOUR),
           ps_allocations := (ps_allocations s)(key := bump week (ps_allocations s key)),
           ps_waiting := (if left \<noteq> 0 then ps_waiting s else fst released),
           ps_ready := (if left \<noteq> 0 then ready else sort_key (pk_positions pk) (snd released)),
           ps_active := (if left \<noteq> 0 then rest @ [key] else rest),
           ps_hours_left := ps_hours_left s - 1,
           ps_used_by_week := (ps_used_by_week s)(week := ps_used_by_week s week + 1),
           ps_cursor := ps_cursor s + HOUR\<rparr>)"

text \<open>The hour at the cursor is worked; without an active or ready step a waiting one is begun.\<close>

definition work_hour :: "pack_input \<Rightarrow> int \<Rightarrow> pack_state \<Rightarrow> weekly_error + pack_state" where
  "work_hour pk week s =
     (let due = (\<lambda>key. dict_get (pk_preferred pk) key 0 \<le> pk_total_hours pk - ps_hours_left s);
          (admitted, ready) = admit due (length (ps_active s)) [] (ps_ready s)
      in case admitted @ ps_active s of
           key # rest \<Rightarrow> Inr (give_hour pk week key rest ready s)
         | [] \<Rightarrow> (case find (\<lambda>kh. snd kh \<noteq> 0) (ps_remaining s) of
              None \<Rightarrow> Inl StopIteration
            | Some kh \<Rightarrow> Inr (give_hour pk week (fst kh) [] ready s)))"

definition pack_step :: "pack_input \<Rightarrow> pack_state \<Rightarrow> weekly_error + pack_state" where
  "pack_step pk s =
     (let cursor = ps_cursor s; z = pk_zone pk in
      if pk_limit pk \<le> cursor then Inl WeeklyPlanSchedulingError
      else
        let day = date_of (local_wall z cursor); week = week_index pk cursor in
        if day \<in> pk_excluded pk then
          Inr (s\<lparr>ps_cursor := cursor + max 1 (ceil_hours (instant (midnight z (pk_wall_off pk) (day + 1)) - cursor)) * HOUR\<rparr>)
        else if week \<in> pk_rests pk \<or> pk_weekly pk \<le> ps_used_by_week s week then
          Inr (s\<lparr>ps_cursor := instant (midnight z (pk_wall_off pk) (pk_monday pk + 7 * week))\<rparr>)
        else
          case slot_is_available z (utc_dt cursor) (utc_dt (cursor + HOUR)) (pk_windows pk) (pk_excluded pk) of
            Inl e \<Rightarrow> Inl (CalendarFailure e)
          | Inr False \<Rightarrow> Inr (s\<lparr>ps_cursor := cursor + HOUR\<rparr>)
          | Inr True \<Rightarrow> work_hour pk week s)"

definition pack_loop :: "pack_input \<Rightarrow> pack_state \<Rightarrow> pack_state run" where
  "pack_loop pk s = while_option (\<lambda>r. case r of Inl _ \<Rightarrow> False | Inr s \<Rightarrow> ps_hours_left s \<noteq> 0)
     (\<lambda>r. and_then r (pack_step pk)) (Inr s)"

subsection \<open>The whole function\<close>

record Scheduled =
  sch_starts_at :: datetime
  sch_ends_at :: datetime
  sch_allocations :: "WeeklyPlanAllocation list"

type_synonym schedules = "(uuid \<times> Scheduled) list"

definition used_by_fixed :: "schedules \<Rightarrow> int \<Rightarrow> int" where
  "used_by_fixed fixed week =
     sum_list (map wa_hours (filter (\<lambda>a. wa_week a = week) (concat (map (sch_allocations \<circ> snd) fixed))))"

definition future_start :: "PlanContext \<Rightarrow> PlanOverrides option \<Rightarrow> datetime \<Rightarrow> schedules \<Rightarrow> datetime" where
  "future_start context overrides plan_start fixed =
     (let reschedule_at = (case overrides of
            Some ov \<Rightarrow> (case po_saved_at ov of Some t \<Rightarrow> Some t | None \<Rightarrow> px_as_of context)
          | None \<Rightarrow> px_as_of context)
      in if fixed \<noteq> [] \<or> (overrides \<noteq> None \<and> px_as_of context \<noteq> None)
         then dt_max plan_start [case reschedule_at of None \<Rightarrow> plan_start | Some t \<Rightarrow> t,
           case map (sch_ends_at \<circ> snd) fixed of [] \<Rightarrow> plan_start | e # es \<Rightarrow> dt_max e es]
         else plan_start)"

definition remaining_of ::
  "PlanContext \<Rightarrow> PlanStepInput list \<Rightarrow> PlanOverrides option \<Rightarrow> schedules \<Rightarrow> (uuid \<times> int) list" where
  "remaining_of context ordered overrides fixed =
     py_dict (map (\<lambda>item. (step_id_of item, plan_hours context overrides item))
       (filter (\<lambda>item. map_of fixed (step_id_of item) = None) ordered))"

definition by_id :: "PlanStepInput list \<Rightarrow> uuid \<Rightarrow> PlanStepInput option" where
  "by_id items = map_of (py_dict (map (\<lambda>item. (step_id_of item, item)) items))"

text \<open>What a step still waits for: its prerequisites that are not completed (or not in the plan).\<close>

definition waiting_of :: "PlanStepInput list \<Rightarrow> uuid \<Rightarrow> uuid set" where
  "waiting_of ordered key = (case by_id ordered key of
       None \<Rightarrow> {}
     | Some item \<Rightarrow> {p \<in> set (vw_prerequisite_step_ids (in_step item)).
         case by_id ordered p of None \<Rightarrow> True | Some q \<Rightarrow> vw_state (in_step q) \<noteq> COMPLETED})"

definition pack_input_of ::
  "zone \<Rightarrow> (int \<Rightarrow> int) \<Rightarrow> PlanContext \<Rightarrow> PlanStepInput list \<Rightarrow> PlanOverrides option \<Rightarrow> datetime \<Rightarrow> int
    \<Rightarrow> schedules \<Rightarrow> pack_input" where
  "pack_input_of z wall_off context ordered overrides plan_start monday fixed =
     (let remaining = remaining_of context ordered overrides fixed in
      \<lparr>pk_zone = z, pk_wall_off = wall_off, pk_monday = monday,
       pk_weekly = (case overrides of None \<Rightarrow> px_recommended_weekly_hours context | Some ov \<Rightarrow> po_weekly_hours ov),
       pk_rests = (case overrides of None \<Rightarrow> {} | Some ov \<Rightarrow> set (po_rest_weeks ov)),
       pk_excluded = set (px_unavailable_dates context), pk_windows = px_weekly_availability context,
       pk_limit = round_up_hour (instant (future_start context overrides plan_start fixed))
         + MAX_CUSTOM_PLAN_WEEKS * 7 * DAY,
       pk_preferred = preferred_start_offsets z wall_off context ordered overrides plan_start,
       pk_positions = (\<lambda>key. dict_get (py_dict (zip (map step_id_of ordered) [0..<length ordered])) key 0),
       pk_dependents = (\<lambda>p. filter (\<lambda>key. p \<in> waiting_of ordered key) (map fst remaining)),
       pk_total_hours = sum_list (map snd remaining)\<rparr>)"

definition initial_state ::
  "PlanContext \<Rightarrow> PlanStepInput list \<Rightarrow> PlanOverrides option \<Rightarrow> datetime \<Rightarrow> schedules \<Rightarrow> pack_state" where
  "initial_state context ordered overrides plan_start fixed =
     (let remaining = remaining_of context ordered overrides fixed in
      \<lparr>ps_remaining = remaining, ps_first = Map.empty, ps_last = Map.empty, ps_allocations = (\<lambda>_. []),
       ps_waiting = waiting_of ordered,
       ps_ready = filter (\<lambda>key. waiting_of ordered key = {}) (map fst remaining),
       ps_active = [], ps_hours_left = sum_list (map snd remaining), ps_used_by_week = used_by_fixed fixed,
       ps_cursor = round_up_hour (instant (future_start context overrides plan_start fixed))\<rparr>)"

definition scheduled_of :: "pack_state \<Rightarrow> uuid \<Rightarrow> weekly_error + uuid \<times> Scheduled" where
  "scheduled_of s key =
     (case (ps_first s key, ps_last s key) of
        (Some f, Some l) \<Rightarrow> Inr (key, \<lparr>sch_starts_at = utc_dt f, sch_ends_at = utc_dt l,
           sch_allocations = map (\<lambda>(w, h). \<lparr>wa_week = w, wa_hours = h\<rparr>) (ps_allocations s key)\<rparr>)
      | _ \<Rightarrow> Inl (MissingKey key))"

definition pack ::
  "zone \<Rightarrow> (int \<Rightarrow> int) \<Rightarrow> PlanContext \<Rightarrow> PlanStepInput list \<Rightarrow> PlanOverrides option \<Rightarrow> datetime \<Rightarrow> int
    \<Rightarrow> schedules \<Rightarrow> schedules run" where
  "pack z wall_off context ordered overrides plan_start monday fixed =
     run_then (pack_loop (pack_input_of z wall_off context ordered overrides plan_start monday fixed)
         (initial_state context ordered overrides plan_start fixed))
       (\<lambda>s. Some (and_then (collect (scheduled_of s) (map fst (ps_remaining s)))
          (\<lambda>news. Inr (fixed @ news))))"

end
