(* ===== verification/Weekly_Packing.thy ===== *)
theory Weekly_Packing
  imports Weekly_Packer
begin

section \<open>What the weekly packer guarantees\<close>

text \<open>
  The state of the loop is explained by the list of hours worked so far, each with the step it was
  given to. The lemmas first say what one turn does, then that the explanation and the queues of
  ready and active steps stay in order, and finally what \<open>pack\<close> returns.
\<close>

named_theorems pack_simps \<open>fields of a packer state after a turn\<close>

subsection \<open>Opening and releasing steps\<close>

lemma admit_spec:
  assumes "admit due n adm ready = (adm', ready')"
  shows "mset adm' + mset ready' = mset adm + mset ready
    \<and> (n + length adm \<le> MAX_ACTIVE_LEARNING_ACTIVITIES \<longrightarrow> n + length adm' \<le> MAX_ACTIVE_LEARNING_ACTIVITIES)
    \<and> (adm \<noteq> [] \<longrightarrow> adm' \<noteq> []) \<and> (n = 0 \<and> ready \<noteq> [] \<longrightarrow> adm' \<noteq> [])"
  using assms
proof (induction due n adm ready arbitrary: adm' ready' rule: admit.induct)
  case (1 due n adm ready)
  show ?case
  proof (cases "ready \<noteq> [] \<and> n + length adm < MAX_ACTIVE_LEARNING_ACTIVITIES")
    case False
    then have "adm' = adm" "ready' = ready" using "1.prems" by (auto simp: admit.simps [of due n adm ready])
    with False show ?thesis by (auto simp: MAX_ACTIVE_LEARNING_ACTIVITIES_def)
  next
    case open_place: True
    show ?thesis
    proof (cases "find due ready")
      case None
      show ?thesis
      proof (cases "0 < n \<or> adm \<noteq> []")
        case True
        then have "adm' = adm" "ready' = ready"
          using "1.prems" None open_place by (auto simp: admit.simps [of due n adm ready])
        with True open_place show ?thesis by auto
      next
        case False
        then have "admit due n (adm @ [hd ready]) (remove1 (hd ready) ready) = (adm', ready')"
          using "1.prems" admit.simps [of due n adm ready] None open_place by simp
        from "1.IH"(1) [OF open_place None False this] open_place show ?thesis by auto
      qed
    next
      case (Some key)
      then have "admit due n (adm @ [key]) (remove1 key ready) = (adm', ready')"
        using "1.prems" open_place by (auto simp: admit.simps [of due n adm ready])
      from "1.IH"(2) [OF open_place Some this] find_SomeD [OF Some] open_place show ?thesis by auto
    qed
  qed
qed

lemma release_spec:
  assumes "release key left active ds (waiting, ready) = (waiting', ready')" and "distinct ds"
  shows "waiting' = (\<lambda>d. if d \<in> set ds then waiting d - {key} else waiting d)
    \<and> (\<exists>new. ready' = ready @ new \<and> (distinct ready \<longrightarrow> distinct ready')
       \<and> set new = {d \<in> set ds. waiting d - {key} = {} \<and> left d \<noteq> 0 \<and> d \<notin> set ready \<and> d \<notin> set active})"
  using assms
proof (induction ds arbitrary: waiting ready)
  case (Cons d ds)
  let ?w = "waiting(d := waiting d - {key})"
  let ?r = "if waiting d - {key} = {} \<and> left d \<noteq> 0 \<and> d \<notin> set ready \<and> d \<notin> set active then ready @ [d] else ready"
  have "release key left active ds (?w, ?r) = (waiting', ready')" "d \<notin> set ds" "distinct ds"
    using Cons.prems by (simp_all add: Let_def)
  from Cons.IH [OF this(1,3)] obtain new where new: "ready' = ?r @ new" "distinct ?r \<longrightarrow> distinct ready'"
    "waiting' = (\<lambda>x. if x \<in> set ds then ?w x - {key} else ?w x)"
    "set new = {x \<in> set ds. ?w x - {key} = {} \<and> left x \<noteq> 0 \<and> x \<notin> set ?r \<and> x \<notin> set active}"
    by blast
  have w: "waiting' = (\<lambda>x. if x \<in> set (d # ds) then waiting x - {key} else waiting x)"
    using new(3) \<open>d \<notin> set ds\<close> by (auto simp: fun_eq_iff)
  have wx: "?w x = waiting x" if "x \<in> set ds" for x using that \<open>d \<notin> set ds\<close> by auto
  show ?case
  proof (cases "waiting d - {key} = {} \<and> left d \<noteq> 0 \<and> d \<notin> set ready \<and> d \<notin> set active")
    case True
    then have r: "?r = ready @ [d]" by simp
    have "ready' = ready @ (d # new)" "distinct ready \<longrightarrow> distinct ready'"
      using new(1,2) True unfolding r by auto
    moreover have "set (d # new) = {x \<in> set (d # ds). waiting x - {key} = {} \<and> left x \<noteq> 0
        \<and> x \<notin> set ready \<and> x \<notin> set active}"
      using new(4) True wx \<open>d \<notin> set ds\<close> unfolding r by auto
    ultimately show ?thesis using w by blast
  next
    case False
    then have r: "?r = ready" by auto
    have "set new = {x \<in> set (d # ds). waiting x - {key} = {} \<and> left x \<noteq> 0
        \<and> x \<notin> set ready \<and> x \<notin> set active}"
      using new(4) False wx \<open>d \<notin> set ds\<close> unfolding r by auto
    then show ?thesis using w new(1,2) unfolding r by blast
  qed
qed auto

subsection \<open>The queues\<close>

definition queues_ok :: "pack_state \<Rightarrow> bool" where
  "queues_ok s \<longleftrightarrow> distinct (ps_ready s @ ps_active s)
     \<and> (\<forall>k \<in> set (ps_ready s @ ps_active s). 0 < dict_get (ps_remaining s) k 0)
     \<and> distinct (map fst (ps_remaining s)) \<and> (\<forall>(k, h) \<in> set (ps_remaining s). 0 \<le> h)
     \<and> ps_hours_left s = sum_list (map snd (ps_remaining s))
     \<and> length (ps_active s) \<le> MAX_ACTIVE_LEARNING_ACTIVITIES"

text \<open>
  One hour of work: the step that gets it, and the queues after the doors were opened. Only when no
  step was active or ready is a waiting step forced to begin.
\<close>

definition worked :: "pack_input \<Rightarrow> pack_state \<Rightarrow> uuid \<Rightarrow> uuid list \<Rightarrow> uuid list \<Rightarrow> pack_state \<Rightarrow> bool" where
  "worked pk s key rest ready s' \<longleftrightarrow> s' = give_hour pk (week_index pk (ps_cursor s)) key rest ready s
   \<and> 0 < dict_get (ps_remaining s) key 0 \<and> length (key # rest) \<le> MAX_ACTIVE_LEARNING_ACTIVITIES
   \<and> (mset (key # rest) + mset ready = mset (ps_ready s) + mset (ps_active s)
      \<or> ps_ready s = [] \<and> ps_active s = [] \<and> rest = [] \<and> ready = [])"

lemma work_hour_cases:
  assumes "queues_ok s" and "ps_hours_left s \<noteq> 0"
  shows "\<exists>key rest ready s'. work_hour pk (week_index pk (ps_cursor s)) s = Inr s' \<and> worked pk s key rest ready s'"
proof -
  let ?due = "\<lambda>key. dict_get (pk_preferred pk) key 0 \<le> pk_total_hours pk - ps_hours_left s"
  obtain admitted ready where admit: "admit ?due (length (ps_active s)) [] (ps_ready s) = (admitted, ready)"
    by (cases "admit ?due (length (ps_active s)) [] (ps_ready s)")
  from admit_spec [OF admit] have
    queue: "mset admitted + mset ready = mset (ps_ready s)"
    and room: "length (ps_active s) + length admitted \<le> MAX_ACTIVE_LEARNING_ACTIVITIES"
    and opened: "ps_active s = [] \<Longrightarrow> ps_ready s \<noteq> [] \<Longrightarrow> admitted \<noteq> []"
    using assms(1) by (auto simp: queues_ok_def)
  define active where "active = admitted @ ps_active s"
  show ?thesis
  proof (cases active)
    case (Cons key rest)
    have "mset (key # rest) = mset admitted + mset (ps_active s)"
      using arg_cong [OF Cons, of mset] by (simp add: active_def)
    then have sets: "mset (key # rest) + mset ready = mset (ps_ready s) + mset (ps_active s)"
      using queue by (simp add: ac_simps)
    have "key \<in># mset (ps_ready s) + mset (ps_active s)" unfolding sets [symmetric] by simp
    then have "0 < dict_get (ps_remaining s) key 0" using assms(1) by (auto simp: queues_ok_def)
    moreover have "length (key # rest) \<le> MAX_ACTIVE_LEARNING_ACTIVITIES"
      using room arg_cong [OF Cons, of length] by (simp add: active_def)
    ultimately have "worked pk s key rest ready (give_hour pk (week_index pk (ps_cursor s)) key rest ready s)"
      using sets by (simp add: worked_def)
    moreover have "work_hour pk (week_index pk (ps_cursor s)) s
        = Inr (give_hour pk (week_index pk (ps_cursor s)) key rest ready s)"
      using Cons by (simp add: work_hour_def admit active_def)
    ultimately show ?thesis by blast
  next
    case Nil
    then have empty: "ps_active s = []" "admitted = []" by (simp_all add: active_def)
    with opened have "ps_ready s = []" by blast
    with empty queue have "ready = []" by simp
    have "sum_list (map snd (ps_remaining s)) \<noteq> 0" using assms by (simp add: queues_ok_def)
    then obtain k h where kh: "(k, h) \<in> set (ps_remaining s)" "h \<noteq> 0"
      using sum_dict_pos(2) [of "ps_remaining s"] assms(1) by (fastforce simp: queues_ok_def)
    then obtain kv where found: "find (\<lambda>kh. snd kh \<noteq> 0) (ps_remaining s) = Some kv"
      by (cases "find (\<lambda>kh. snd kh \<noteq> 0) (ps_remaining s)") (auto simp: find_None_iff_all)
    from find_SomeD [OF found] have kv: "kv \<in> set (ps_remaining s)" "snd kv \<noteq> 0" by auto
    then have "dict_get (ps_remaining s) (fst kv) 0 = snd kv" "0 \<le> snd kv"
      using assms(1) by (auto simp: queues_ok_def intro!: dict_get_eq)
    with kv have "0 < dict_get (ps_remaining s) (fst kv) 0" by simp
    then have "worked pk s (fst kv) [] ready (give_hour pk (week_index pk (ps_cursor s)) (fst kv) [] ready s)"
      using empty \<open>ps_ready s = []\<close> \<open>ready = []\<close> by (simp add: worked_def MAX_ACTIVE_LEARNING_ACTIVITIES_def)
    moreover have "work_hour pk (week_index pk (ps_cursor s)) s
        = Inr (give_hour pk (week_index pk (ps_cursor s)) (fst kv) [] ready s)"
      unfolding work_hour_def Let_def admit prod.case using Nil found by (simp add: active_def)
    ultimately show ?thesis by blast
  qed
qed

lemma dict_get_nonneg: "(\<And>k v. (k, v) \<in> set d \<Longrightarrow> 0 \<le> v) \<Longrightarrow> 0 \<le> dict_get d k (0 :: int)"
  by (auto simp: dict_get_def split: option.splits dest: map_of_SomeD)

lemma worked_fields [pack_simps]:
  assumes "worked pk s key rest ready s'"
  shows "ps_remaining s' = AList.update key (dict_get (ps_remaining s) key 0 - 1) (ps_remaining s)"
    "ps_cursor s' = ps_cursor s + HOUR" "ps_hours_left s' = ps_hours_left s - 1"
    "ps_first s' = (if ps_first s key = None then (ps_first s)(key \<mapsto> ps_cursor s) else ps_first s)"
    "ps_last s' = (ps_last s)(key \<mapsto> ps_cursor s + HOUR)"
    "ps_allocations s' = (ps_allocations s)(key := bump (week_index pk (ps_cursor s)) (ps_allocations s key))"
    "ps_used_by_week s' = (ps_used_by_week s)(week_index pk (ps_cursor s) := ps_used_by_week s (week_index pk (ps_cursor s)) + 1)"
  using assms by (simp_all add: worked_def give_hour_def Let_def)

text \<open>What a turn does to the queues: the key leaves them or goes to the end, and steps are released.\<close>

lemma worked_queues:
  assumes "worked pk s key rest ready s'" and "distinct (pk_dependents pk key)" and "queues_ok s"
  shows "distinct (ready @ key # rest) \<and> set (ready @ rest) \<subseteq> set (ps_ready s @ ps_active s)"
    and "0 < dict_get (ps_remaining s') key 0 \<Longrightarrow> ps_waiting s' = ps_waiting s \<and> ps_ready s' = ready \<and> ps_active s' = rest @ [key]"
    and "dict_get (ps_remaining s') key 0 = 0 \<Longrightarrow> ps_active s' = rest
      \<and> ps_waiting s' = (\<lambda>d. if d \<in> set (pk_dependents pk key) then ps_waiting s d - {key} else ps_waiting s d)
      \<and> (\<exists>new. mset (ps_ready s') = mset ready + mset new \<and> distinct (ps_ready s')
           \<and> set new = {d \<in> set (pk_dependents pk key). ps_waiting s d - {key} = {} \<and> dict_get (ps_remaining s') d 0 \<noteq> 0
               \<and> d \<notin> set ready \<and> d \<notin> set rest})"
proof -
  let ?left = "dict_get (ps_remaining s) key 0 - 1"
  have s': "s' = give_hour pk (week_index pk (ps_cursor s)) key rest ready s" using assms(1) by (simp add: worked_def)
  have left: "dict_get (ps_remaining s') key 0 = ?left" by (simp add: worked_fields [OF assms(1)] dict_get_update)
  from assms(1) have sets: "mset (key # rest) + mset ready = mset (ps_ready s) + mset (ps_active s)
      \<or> ps_ready s = [] \<and> ps_active s = [] \<and> rest = [] \<and> ready = []" by (simp add: worked_def)
  have dist: "distinct (ready @ key # rest)"
  proof (cases "rest = [] \<and> ready = []")
    case False
    with sets have "mset (ready @ key # rest) = mset (ps_ready s @ ps_active s)" by (auto simp: ac_simps)
    moreover have "distinct (ps_ready s @ ps_active s)" using assms(3) by (simp add: queues_ok_def)
    ultimately show ?thesis by (rule mset_eq_imp_distinct_iff [THEN iffD2])
  qed simp
  have "set (key # rest) \<union> set ready = set (ps_ready s) \<union> set (ps_active s) \<or> rest = [] \<and> ready = []"
    using sets by (metis set_mset_mset set_mset_union)
  with dist show "distinct (ready @ key # rest) \<and> set (ready @ rest) \<subseteq> set (ps_ready s @ ps_active s)" by auto
  show "ps_waiting s' = ps_waiting s \<and> ps_ready s' = ready \<and> ps_active s' = rest @ [key]"
    if "0 < dict_get (ps_remaining s') key 0"
    using that unfolding left by (simp add: s' give_hour_def Let_def)
  let ?rel = "release key (\<lambda>d. dict_get (ps_remaining s') d 0) rest (pk_dependents pk key) (ps_waiting s, ready)"
  show "ps_active s' = rest
      \<and> ps_waiting s' = (\<lambda>d. if d \<in> set (pk_dependents pk key) then ps_waiting s d - {key} else ps_waiting s d)
      \<and> (\<exists>new. mset (ps_ready s') = mset ready + mset new \<and> distinct (ps_ready s')
           \<and> set new = {d \<in> set (pk_dependents pk key). ps_waiting s d - {key} = {} \<and> dict_get (ps_remaining s') d 0 \<noteq> 0
               \<and> d \<notin> set ready \<and> d \<notin> set rest})"
    if "dict_get (ps_remaining s') key 0 = 0"
  proof -
    obtain waiting' ready' where rel: "?rel = (waiting', ready')" by (cases ?rel)
    have one: "dict_get (ps_remaining s) key 0 = 1" using that left by simp
    have "ps_active s' = rest" "ps_waiting s' = waiting'" "ps_ready s' = sort_key (pk_positions pk) ready'"
      using rel by (simp_all add: s' give_hour_def Let_def one)
    moreover from release_spec [OF rel assms(2)] obtain new where
      "waiting' = (\<lambda>d. if d \<in> set (pk_dependents pk key) then ps_waiting s d - {key} else ps_waiting s d)"
      "ready' = ready @ new" "distinct ready'"
      "set new = {d \<in> set (pk_dependents pk key). ps_waiting s d - {key} = {} \<and> dict_get (ps_remaining s') d 0 \<noteq> 0
               \<and> d \<notin> set ready \<and> d \<notin> set rest}" using dist by auto
    ultimately show ?thesis by (intro conjI exI [of _ new]) simp_all
  qed
qed

lemma worked_queues_ok:
  assumes w: "worked pk s key rest ready s'" and deps: "distinct (pk_dependents pk key)" and ok: "queues_ok s"
  shows "queues_ok s'"
proof -
  note fields = worked_fields [OF w]
  have pos: "0 < dict_get (ps_remaining s) key 0" and len: "length (key # rest) \<le> MAX_ACTIVE_LEARNING_ACTIVITIES"
    using w by (simp_all add: worked_def)
  then have mem: "key \<in> fst ` set (ps_remaining s)" by (metis dict_get_keys less_irrefl)
  have old: "distinct (map fst (ps_remaining s))" "\<And>k h. (k, h) \<in> set (ps_remaining s) \<Longrightarrow> 0 \<le> h"
    "\<And>k. k \<in> set (ps_ready s @ ps_active s) \<Longrightarrow> 0 < dict_get (ps_remaining s) k 0"
    "ps_hours_left s = sum_list (map snd (ps_remaining s))"
    using ok by (auto simp: queues_ok_def)
  have keys: "map fst (ps_remaining s') = map fst (ps_remaining s)"
    unfolding fields(1) by (rule update_keys_same [OF mem])
  then have dist: "distinct (map fst (ps_remaining s'))" using old(1) by simp
  have get: "dict_get (ps_remaining s') k 0 = dict_get (ps_remaining s) k 0 - (if k = key then 1 else 0)" for k
    by (simp add: fields(1) dict_get_update)
  have nonneg: "0 \<le> h" if "(k, h) \<in> set (ps_remaining s')" for k h
  proof -
    have "0 \<le> dict_get (ps_remaining s) k 0" using old(2) by (rule dict_get_nonneg)
    then show ?thesis using get [of k] dict_get_eq [OF dist that, of 0] pos by (simp split: if_splits)
  qed
  have sum: "ps_hours_left s' = sum_list (map snd (ps_remaining s'))"
    using sum_update [OF old(1) mem] by (simp add: fields(1,3) old(4))
  note q = worked_queues [OF w deps ok]
  have live: "0 < dict_get (ps_remaining s') k 0" if "k \<in> set (ready @ rest)" for k
    using that q(1) old(3) get [of k] by (cases "k = key") auto
  show ?thesis
  proof (cases "dict_get (ps_remaining s') key 0 = 0")
    case False
    then have "0 < dict_get (ps_remaining s') key 0" using get [of key] pos by simp
    with q(2) q(1) live len dist nonneg sum show ?thesis by (auto simp: queues_ok_def)
  next
    case True
    from q(3) [OF this] obtain new where new: "ps_active s' = rest" "mset (ps_ready s') = mset ready + mset new"
      "distinct (ps_ready s')" "set new = {d \<in> set (pk_dependents pk key). ps_waiting s d - {key} = {}
         \<and> dict_get (ps_remaining s') d 0 \<noteq> 0 \<and> d \<notin> set ready \<and> d \<notin> set rest}" by blast
    then have set_ready: "set (ps_ready s') = set ready \<union> set new" by (metis set_mset_mset set_mset_union)
    have "0 < dict_get (ps_remaining s') d 0" if "d \<in> set new" for d
    proof -
      have "0 \<le> dict_get (ps_remaining s') d 0" using nonneg by (rule dict_get_nonneg)
      then show ?thesis using that new(4) by simp
    qed
    with live set_ready new(1) have "0 < dict_get (ps_remaining s') k 0" if "k \<in> set (ps_ready s' @ ps_active s')" for k
      using that by auto
    moreover have "distinct (ps_ready s' @ ps_active s')"
      using new(1,3,4) set_ready q(1) by auto
    ultimately show ?thesis using len dist nonneg sum new(1) by (auto simp: queues_ok_def)
  qed
qed

subsection \<open>The hours worked so far\<close>

type_synonym work = "(uuid \<times> int) list"

definition hours_of :: "work \<Rightarrow> uuid \<Rightarrow> int" where
  "hours_of W k = int (length (filter (\<lambda>w. fst w = k) W))"

definition week_hours :: "pack_input \<Rightarrow> work \<Rightarrow> int \<Rightarrow> int" where
  "week_hours pk W n = int (length (filter (\<lambda>w. week_index pk (snd w) = n) W))"

definition usable :: "pack_input \<Rightarrow> int \<Rightarrow> bool" where
  "usable pk t \<longleftrightarrow> date_of (local_wall (pk_zone pk) t) \<notin> pk_excluded pk \<and> week_index pk t \<notin> pk_rests pk
     \<and> free_at (pk_zone pk) (pk_windows pk) (pk_excluded pk) t"

definition week_totals :: "pack_input \<Rightarrow> work \<Rightarrow> uuid \<Rightarrow> (int \<times> int) list" where
  "week_totals pk W k = foldl (\<lambda>d w. bump (week_index pk (snd w)) d) [] (filter (\<lambda>w. fst w = k) W)"

definition explained :: "pack_input \<Rightarrow> pack_state \<Rightarrow> work \<Rightarrow> pack_state \<Rightarrow> bool" where
  "explained pk s0 W s \<longleftrightarrow>
     sorted_wrt (\<lambda>a b. snd a + HOUR \<le> snd b) W
     \<and> (\<forall>w \<in> set W. ps_cursor s0 \<le> snd w \<and> snd w + HOUR \<le> ps_cursor s \<and> usable pk (snd w))
     \<and> ps_cursor s0 \<le> ps_cursor s
     \<and> map fst (ps_remaining s) = map fst (ps_remaining s0)
     \<and> fst ` set W \<subseteq> fst ` set (ps_remaining s0)
     \<and> (\<forall>k. dict_get (ps_remaining s) k 0 + hours_of W k = dict_get (ps_remaining s0) k 0)
     \<and> ps_first s = (\<lambda>k. map_option snd (find (\<lambda>w. fst w = k) W))
     \<and> ps_last s = (\<lambda>k. map_option (\<lambda>w. snd w + HOUR) (find (\<lambda>w. fst w = k) (rev W)))
     \<and> ps_allocations s = week_totals pk W
     \<and> (\<forall>n. ps_used_by_week s n = ps_used_by_week s0 n + week_hours pk W n
          \<and> ps_used_by_week s n \<le> max (ps_used_by_week s0 n) (pk_weekly pk))"

lemma find_append: "find P (xs @ ys) = (case find P xs of None \<Rightarrow> find P ys | Some x \<Rightarrow> Some x)"
  by (induction xs) auto

lemma explained_worked:
  assumes ex: "explained pk s0 W s" and w: "worked pk s key rest ready s'"
    and here: "usable pk (ps_cursor s)" "ps_used_by_week s (week_index pk (ps_cursor s)) < pk_weekly pk"
  shows "explained pk s0 (W @ [(key, ps_cursor s)]) s'"
proof -
  note fields = worked_fields [OF w]
  have pos: "0 < dict_get (ps_remaining s) key 0" using w by (simp add: worked_def)
  then have mem: "key \<in> fst ` set (ps_remaining s)" by (metis dict_get_keys less_irrefl)
  then have mem0: "key \<in> fst ` set (ps_remaining s0)" using ex by (metis explained_def list.set_map)
  have keys: "map fst (ps_remaining s') = map fst (ps_remaining s)"
    unfolding fields(1) by (rule update_keys_same [OF mem])
  have first: "ps_first s' = (\<lambda>k. map_option snd (find (\<lambda>w. fst w = k) (W @ [(key, ps_cursor s)])))"
    using ex by (auto simp: explained_def fields(4) find_append fun_eq_iff split: option.splits)
  have last: "ps_last s' = (\<lambda>k. map_option (\<lambda>w. snd w + HOUR) (find (\<lambda>w. fst w = k) (rev (W @ [(key, ps_cursor s)]))))"
    using ex by (auto simp: explained_def fields(5) fun_eq_iff)
  have alloc: "ps_allocations s' = week_totals pk (W @ [(key, ps_cursor s)])"
    using ex by (auto simp: explained_def fields(6) week_totals_def fun_eq_iff)
  have left: "dict_get (ps_remaining s') k 0 + hours_of (W @ [(key, ps_cursor s)]) k = dict_get (ps_remaining s0) k 0" for k
    using ex by (auto simp: explained_def fields(1) dict_get_update hours_of_def)
  have used: "ps_used_by_week s' n = ps_used_by_week s0 n + week_hours pk (W @ [(key, ps_cursor s)]) n
      \<and> ps_used_by_week s' n \<le> max (ps_used_by_week s0 n) (pk_weekly pk)" for n
  proof -
    have "ps_used_by_week s n = ps_used_by_week s0 n + week_hours pk W n
      \<and> ps_used_by_week s n \<le> max (ps_used_by_week s0 n) (pk_weekly pk)"
      using ex unfolding explained_def by blast
    with here(2) show ?thesis
      by (cases "n = week_index pk (ps_cursor s)") (auto simp: fields(7) week_hours_def)
  qed
  have H: "0 < HOUR" by (simp add: HOUR_def)
  have span: "ps_cursor s0 \<le> snd v \<and> snd v + HOUR \<le> ps_cursor s' \<and> usable pk (snd v)"
    if "v \<in> set (W @ [(key, ps_cursor s)])" for v
    using that ex here(1) H by (force simp: explained_def fields(2))
  have order: "sorted_wrt (\<lambda>a b. snd a + HOUR \<le> snd b) (W @ [(key, ps_cursor s)])"
    using ex by (auto simp: explained_def sorted_wrt_append)
  have "ps_cursor s0 \<le> ps_cursor s" and old: "map fst (ps_remaining s) = map fst (ps_remaining s0)"
    "fst ` set W \<subseteq> fst ` set (ps_remaining s0)" using ex unfolding explained_def by blast+
  then have cursor: "ps_cursor s0 \<le> ps_cursor s'" using H by (simp add: fields(2))
  have sub: "fst ` set (W @ [(key, ps_cursor s)]) \<subseteq> fst ` set (ps_remaining s0)" using old(2) mem0 by simp
  show ?thesis unfolding explained_def
  proof (intro conjI allI)
    show "\<forall>w \<in> set (W @ [(key, ps_cursor s)]). ps_cursor s0 \<le> snd w \<and> snd w + HOUR \<le> ps_cursor s' \<and> usable pk (snd w)"
      using span by blast
    show "map fst (ps_remaining s') = map fst (ps_remaining s0)" using keys old(1) by simp
  qed (rule order cursor sub left first last alloc used [THEN conjunct1] used [THEN conjunct2])+
qed

lemma explainedD:
  assumes "explained pk s0 W s"
  shows "sorted_wrt (\<lambda>a b. snd a + HOUR \<le> snd b) W"
    "\<forall>w \<in> set W. ps_cursor s0 \<le> snd w \<and> snd w + HOUR \<le> ps_cursor s \<and> usable pk (snd w)"
    "ps_cursor s0 \<le> ps_cursor s" "map fst (ps_remaining s) = map fst (ps_remaining s0)"
    "fst ` set W \<subseteq> fst ` set (ps_remaining s0)"
    "\<forall>k. dict_get (ps_remaining s) k 0 + hours_of W k = dict_get (ps_remaining s0) k 0"
    "ps_first s = (\<lambda>k. map_option snd (find (\<lambda>w. fst w = k) W))"
    "ps_last s = (\<lambda>k. map_option (\<lambda>w. snd w + HOUR) (find (\<lambda>w. fst w = k) (rev W)))"
    "ps_allocations s = week_totals pk W"
    "\<forall>n. ps_used_by_week s n = ps_used_by_week s0 n + week_hours pk W n
       \<and> ps_used_by_week s n \<le> max (ps_used_by_week s0 n) (pk_weekly pk)"
  by (insert assms, unfold explained_def, elim conjE, assumption)+

lemma explained_idle:
  assumes ex: "explained pk s0 W s" and later: "ps_cursor s \<le> c"
  shows "explained pk s0 W (s\<lparr>ps_cursor := c\<rparr>)"
proof -
  let ?s = "s\<lparr>ps_cursor := c\<rparr>"
  have same: "ps_cursor ?s = c" "ps_remaining ?s = ps_remaining s" "ps_first ?s = ps_first s" "ps_last ?s = ps_last s"
    "ps_allocations ?s = ps_allocations s" "ps_used_by_week ?s = ps_used_by_week s" by simp_all
  note D = explainedD [OF ex]
  have "\<forall>w \<in> set W. ps_cursor s0 \<le> snd w \<and> snd w + HOUR \<le> c \<and> usable pk (snd w)"
    using D(2) later by (blast intro: order_trans)
  moreover have "ps_cursor s0 \<le> c" using D(3) later by simp
  ultimately show ?thesis unfolding explained_def same by (intro conjI) (rule D | assumption)+
qed

subsection \<open>The loop\<close>

text \<open>What the packer needs of the zone: a moment whose local date is before a day is before its midnight.\<close>

definition midnight_follows :: "zone \<Rightarrow> (int \<Rightarrow> int) \<Rightarrow> bool" where
  "midnight_follows z wall_off \<longleftrightarrow> (\<forall>t day. date_of (local_wall z t) < day \<longrightarrow> t < instant (midnight z wall_off day))"

lemma pack_step_cases:
  assumes "midnight_follows (pk_zone pk) (pk_wall_off pk)" and "queues_ok s" and "ps_hours_left s \<noteq> 0"
  shows "pk_limit pk \<le> ps_cursor s \<and> pack_step pk s = Inl WeeklyPlanSchedulingError
    \<or> ps_cursor s < pk_limit pk \<and> (\<exists>c. ps_cursor s < c \<and> pack_step pk s = Inr (s\<lparr>ps_cursor := c\<rparr>))
    \<or> ps_cursor s < pk_limit pk \<and> usable pk (ps_cursor s) \<and> ps_used_by_week s (week_index pk (ps_cursor s)) < pk_weekly pk
      \<and> (\<exists>key rest ready s'. pack_step pk s = Inr s' \<and> worked pk s key rest ready s')"
proof (cases "pk_limit pk \<le> ps_cursor s")
  case False
  let ?t = "ps_cursor s" and ?z = "pk_zone pk"
  let ?day = "date_of (local_wall ?z ?t)" and ?week = "week_index pk (ps_cursor s)"
  have H: "0 < HOUR" by (simp add: HOUR_def)
  have slot: "slot_is_available ?z (utc_dt ?t) (utc_dt (?t + HOUR)) (pk_windows pk) (pk_excluded pk)
      = Inr (free_at ?z (pk_windows pk) (pk_excluded pk) ?t)"
    using slot_is_available_hour [of ?z ?t] by (simp add: SLOT_DURATION_def)
  consider (excluded) "?day \<in> pk_excluded pk"
    | (full) "?day \<notin> pk_excluded pk" "?week \<in> pk_rests pk \<or> pk_weekly pk \<le> ps_used_by_week s ?week"
    | (closed) "?day \<notin> pk_excluded pk" "\<not> (?week \<in> pk_rests pk \<or> pk_weekly pk \<le> ps_used_by_week s ?week)"
        "\<not> free_at ?z (pk_windows pk) (pk_excluded pk) ?t"
    | (free) "?day \<notin> pk_excluded pk" "\<not> (?week \<in> pk_rests pk \<or> pk_weekly pk \<le> ps_used_by_week s ?week)"
        "free_at ?z (pk_windows pk) (pk_excluded pk) ?t" by blast
  then show ?thesis
  proof cases
    case excluded
    let ?c = "?t + max 1 (ceil_hours (instant (midnight ?z (pk_wall_off pk) (?day + 1)) - ?t)) * HOUR"
    have "?t < ?c" using H by simp
    moreover have "pack_step pk s = Inr (s\<lparr>ps_cursor := ?c\<rparr>)"
      using False excluded by (simp add: pack_step_def Let_def)
    ultimately show ?thesis using False by (meson linorder_not_le)
  next
    case full
    let ?c = "instant (midnight ?z (pk_wall_off pk) (pk_monday pk + 7 * ?week))"
    have "?day < pk_monday pk + 7 * ?week" unfolding week_index_def by presburger
    then have "?t < ?c" using assms(1) unfolding midnight_follows_def by blast
    moreover have "pack_step pk s = Inr (s\<lparr>ps_cursor := ?c\<rparr>)"
      using False full by (simp add: pack_step_def Let_def)
    ultimately show ?thesis using False by (meson linorder_not_le)
  next
    case closed
    have "pack_step pk s = Inr (s\<lparr>ps_cursor := ?t + HOUR\<rparr>)"
      using False closed slot by (simp add: pack_step_def Let_def)
    then show ?thesis using False H by (metis less_add_same_cancel1 linorder_not_le)
  next
    case free
    have "pack_step pk s = work_hour pk ?week s"
      using False free slot by (simp add: pack_step_def Let_def)
    moreover have "usable pk ?t" using free by (simp add: usable_def)
    ultimately show ?thesis using work_hour_cases [OF assms(2,3), of pk] free(2) False
      by (metis linorder_not_le)
  qed
qed (simp add: pack_step_def Let_def)

text \<open>
  The rule for the loop: it returns, either because the calendar is exhausted or with all hours
  placed, and then the hours worked explain the state. \<open>X\<close> is what a proof adds to the invariant.
\<close>

lemma pack_loop_rule:
  assumes zone: "midnight_follows (pk_zone pk) (pk_wall_off pk)" and deps: "\<And>k. distinct (pk_dependents pk k)"
    and init: "queues_ok s0" "ps_first s0 = Map.empty" "ps_last s0 = Map.empty" "ps_allocations s0 = (\<lambda>_. [])" "X [] s0"
    and idle: "\<And>W s c. X W s \<Longrightarrow> X W (s\<lparr>ps_cursor := c\<rparr>)"
    and work: "\<And>W s key rest ready s'. X W s \<Longrightarrow> explained pk s0 W s \<Longrightarrow> queues_ok s \<Longrightarrow> ps_hours_left s \<noteq> 0
      \<Longrightarrow> worked pk s key rest ready s' \<Longrightarrow> X (W @ [(key, ps_cursor s)]) s'"
  shows "\<exists>r. pack_loop pk s0 = Some r \<and> (case r of Inl e \<Rightarrow> e = WeeklyPlanSchedulingError
    | Inr s \<Rightarrow> ps_hours_left s = 0 \<and> (\<exists>W. explained pk s0 W s \<and> queues_ok s \<and> X W s))"
proof -
  define P where "P r = (case r of Inl e \<Rightarrow> e = WeeklyPlanSchedulingError
    | Inr s \<Rightarrow> (\<exists>W. explained pk s0 W s \<and> queues_ok s \<and> X W s))" for r :: "weekly_error + pack_state"
  define b where "b r = (case r of Inl _ \<Rightarrow> False | Inr s \<Rightarrow> ps_hours_left s \<noteq> 0)" for r :: "weekly_error + pack_state"
  define f where "f r = (case r of Inl _ \<Rightarrow> 0 | Inr s \<Rightarrow> Suc (nat (pk_limit pk - ps_cursor s)))" for r :: "weekly_error + pack_state"
  have turn: "P (and_then r (pack_step pk)) \<and> f (and_then r (pack_step pk)) < f r" if "P r" "b r" for r
  proof -
    from that obtain s W where r: "r = Inr s" and s: "ps_hours_left s \<noteq> 0" "explained pk s0 W s" "queues_ok s" "X W s"
      by (auto simp: P_def b_def split: sum.splits)
    from pack_step_cases [OF zone s(3,1)] show ?thesis
    proof (elim disjE conjE exE)
      assume "pack_step pk s = Inl WeeklyPlanSchedulingError"
      then show ?thesis by (simp add: r P_def f_def)
    next
      fix c assume c: "ps_cursor s < pk_limit pk" "ps_cursor s < c" "pack_step pk s = Inr (s\<lparr>ps_cursor := c\<rparr>)"
      have "queues_ok (s\<lparr>ps_cursor := c\<rparr>)" using s(3) by (simp add: queues_ok_def)
      with c(2) s(2,4) idle explained_idle [OF s(2), of c] have "P (Inr (s\<lparr>ps_cursor := c\<rparr>))" by (auto simp: P_def)
      then show ?thesis using c by (simp add: r f_def)
    next
      fix key rest ready s'
      assume here: "ps_cursor s < pk_limit pk" "usable pk (ps_cursor s)"
        "ps_used_by_week s (week_index pk (ps_cursor s)) < pk_weekly pk"
        and step: "pack_step pk s = Inr s'" "worked pk s key rest ready s'"
      have "P (Inr s')"
        using explained_worked [OF s(2) step(2) here(2,3)] worked_queues_ok [OF step(2) deps s(3)]
          work [OF s(4,2,3,1) step(2)] by (auto simp: P_def)
      moreover have "ps_cursor s < ps_cursor s'" by (simp add: worked_fields [OF step(2)] HOUR_def)
      ultimately show ?thesis using step(1) here(1) by (simp add: r f_def)
    qed
  qed
  have start: "P (Inr s0)"
    using init by (auto simp: P_def explained_def week_totals_def hours_of_def week_hours_def intro!: exI [of _ "[]"])
  obtain r where r: "while_option b (\<lambda>r. and_then r (pack_step pk)) (Inr s0) = Some r"
    using measure_while_option_Some [of P b "\<lambda>r. and_then r (pack_step pk)" f, OF turn start] by blast
  have "P r" using while_option_rule [of P b "\<lambda>r. and_then r (pack_step pk)", OF _ r start] turn by blast
  moreover have "\<not> b r" using while_option_stop [OF r] .
  moreover have "b = (\<lambda>r. case r of Inl _ \<Rightarrow> False | Inr s \<Rightarrow> ps_hours_left s \<noteq> 0)"
    by (simp add: fun_eq_iff b_def)
  then have "pack_loop pk s0 = Some r" using r by (simp add: pack_loop_def)
  ultimately show ?thesis by (intro exI [of _ r]) (auto simp: P_def b_def split: sum.splits)
qed

subsection \<open>Prerequisites\<close>

text \<open>
  The invariant that keeps prerequisites in order: a step waits for its unfinished prerequisites, a
  step is in a queue exactly when it waits for none, and work on a step came after all work on its
  prerequisites.
\<close>

definition in_order :: "(uuid \<Rightarrow> uuid set) \<Rightarrow> uuid set \<Rightarrow> work \<Rightarrow> pack_state \<Rightarrow> bool" where
  "in_order needs keys W s \<longleftrightarrow>
     (\<forall>k \<in> keys. ps_waiting s k = {p \<in> needs k. dict_get (ps_remaining s) p 0 \<noteq> 0})
     \<and> (\<forall>k \<in> keys. dict_get (ps_remaining s) k 0 \<noteq> 0 \<longrightarrow>
          (k \<in> set (ps_ready s @ ps_active s) \<longleftrightarrow> ps_waiting s k = {}))
     \<and> (\<forall>(k, t) \<in> set W. \<forall>p \<in> needs k. dict_get (ps_remaining s) p 0 = 0 \<and> (\<forall>(q, u) \<in> set W. q = p \<longrightarrow> u + HOUR \<le> t))"

lemma in_order_open:
  assumes inv: "in_order needs keys W s" and keys: "keys = fst ` set (ps_remaining s)"
    and wf: "wf {(p, k). k \<in> keys \<and> p \<in> needs k}" and closed: "\<And>k. k \<in> keys \<Longrightarrow> needs k \<subseteq> keys"
    and ok: "queues_ok s" and left: "ps_hours_left s \<noteq> 0"
  shows "set (ps_ready s @ ps_active s) \<noteq> {}"
proof -
  let ?open = "{k \<in> keys. dict_get (ps_remaining s) k 0 \<noteq> 0}"
  have "sum_list (map snd (ps_remaining s)) \<noteq> 0" using ok left by (simp add: queues_ok_def)
  then obtain k h where kh: "(k, h) \<in> set (ps_remaining s)" "h \<noteq> 0"
    using sum_dict_pos(2) [of "ps_remaining s"] ok by (fastforce simp: queues_ok_def)
  then have "dict_get (ps_remaining s) k 0 = h" using ok by (auto simp: queues_ok_def intro: dict_get_eq)
  with kh have "k \<in> ?open" using keys by force
  from wfE_min [OF wf this] obtain m where m: "m \<in> ?open"
    "\<And>p. (p, m) \<in> {(p, k). k \<in> keys \<and> p \<in> needs k} \<Longrightarrow> p \<notin> ?open" by blast
  then have "{p \<in> needs m. dict_get (ps_remaining s) p 0 \<noteq> 0} = {}" using closed by fastforce
  then have "m \<in> set (ps_ready s @ ps_active s)" using inv m(1) by (simp add: in_order_def)
  then show ?thesis by auto
qed

lemma in_order_worked:
  assumes inv: "in_order needs keys W s" and keys: "keys = fst ` set (ps_remaining s)"
    and wf: "wf {(p, k). k \<in> keys \<and> p \<in> needs k}" and closed: "\<And>k. k \<in> keys \<Longrightarrow> needs k \<subseteq> keys"
    and deps: "\<And>p. distinct (pk_dependents pk p) \<and> set (pk_dependents pk p) = {k \<in> keys. p \<in> needs k}"
    and past: "\<forall>w \<in> set W. snd w + HOUR \<le> ps_cursor s"
    and ok: "queues_ok s" and left: "ps_hours_left s \<noteq> 0" and w: "worked pk s key rest ready s'"
  shows "in_order needs keys (W @ [(key, ps_cursor s)]) s'"
proof -
  note q = worked_queues [OF w deps [THEN conjunct1] ok]
  have pos: "0 < dict_get (ps_remaining s) key 0" using w by (simp add: worked_def)
  then have mem: "key \<in> keys" unfolding keys by (metis dict_get_keys less_irrefl)
  have get: "dict_get (ps_remaining s') k 0 = dict_get (ps_remaining s) k 0 - (if k = key then 1 else 0)" for k
    by (simp add: worked_fields(1) [OF w] dict_get_update)
  have queues: "set (key # rest) \<union> set ready = set (ps_ready s @ ps_active s)"
  proof -
    from w have "mset (key # rest) + mset ready = mset (ps_ready s) + mset (ps_active s)"
      using in_order_open [OF inv keys wf closed ok left] by (auto simp: worked_def)
    then show ?thesis by (metis set_append set_mset_mset set_mset_union)
  qed
  have waiting: "ps_waiting s k = {p \<in> needs k. dict_get (ps_remaining s) p 0 \<noteq> 0}" if "k \<in> keys" for k
    using inv that by (simp add: in_order_def)
  have member: "k \<in> set (key # rest) \<union> set ready \<longleftrightarrow> ps_waiting s k = {}"
    if "k \<in> keys" "dict_get (ps_remaining s) k 0 \<noteq> 0" for k
    using inv that queues by (simp add: in_order_def)
  have "ps_waiting s key = {}" using member [OF mem] pos by simp
  then have needs_done: "dict_get (ps_remaining s) p 0 = 0" if "p \<in> needs key" for p
    using waiting [OF mem] that by auto
  have finished: "dict_get (ps_remaining s') p 0 = 0" if "dict_get (ps_remaining s) p 0 = 0" for p
    using that get [of p] pos by auto
  have order: "\<forall>(k, t) \<in> set (W @ [(key, ps_cursor s)]). \<forall>p \<in> needs k. dict_get (ps_remaining s') p 0 = 0
      \<and> (\<forall>(q, u) \<in> set (W @ [(key, ps_cursor s)]). q = p \<longrightarrow> u + HOUR \<le> t)"
  proof -
    have old: "dict_get (ps_remaining s) p 0 = 0 \<and> (\<forall>(q, u) \<in> set W. q = p \<longrightarrow> u + HOUR \<le> t)"
      if "(k, t) \<in> set W" "p \<in> needs k" for k t p
      using inv that by (fastforce simp: in_order_def)
    have "p \<noteq> key" if "dict_get (ps_remaining s) p 0 = 0" for p using that pos by auto
    with old needs_done finished past show ?thesis by fastforce
  qed
  show ?thesis
  proof (cases "dict_get (ps_remaining s') key 0 = 0")
    case False
    then have more: "ps_waiting s' = ps_waiting s" "ps_ready s' = ready" "ps_active s' = rest @ [key]"
      using q(2) get [of key] pos by simp_all
    have same: "dict_get (ps_remaining s') p 0 \<noteq> 0 \<longleftrightarrow> dict_get (ps_remaining s) p 0 \<noteq> 0" for p
      using False get [of p] pos by (cases "p = key") auto
    have "ps_waiting s' k = {p \<in> needs k. dict_get (ps_remaining s') p 0 \<noteq> 0}" if "k \<in> keys" for k
      using waiting [OF that] by (simp add: more(1) same)
    moreover have "k \<in> set (ps_ready s' @ ps_active s') \<longleftrightarrow> ps_waiting s' k = {}"
      if "k \<in> keys" "dict_get (ps_remaining s') k 0 \<noteq> 0" for k
      using member [OF that(1)] that(2) same [of k] by (auto simp: more)
    ultimately show ?thesis using order unfolding in_order_def by blast
  next
    case True
    from q(3) [OF this] obtain new where new: "ps_active s' = rest"
      "ps_waiting s' = (\<lambda>d. if d \<in> set (pk_dependents pk key) then ps_waiting s d - {key} else ps_waiting s d)"
      "mset (ps_ready s') = mset ready + mset new"
      "set new = {d \<in> set (pk_dependents pk key). ps_waiting s d - {key} = {}
         \<and> dict_get (ps_remaining s') d 0 \<noteq> 0 \<and> d \<notin> set ready \<and> d \<notin> set rest}" by blast
    have ready': "set (ps_ready s') = set ready \<union> set new" using new(3) by (metis set_mset_mset set_mset_union)
    have wait': "ps_waiting s' k = {p \<in> needs k. dict_get (ps_remaining s') p 0 \<noteq> 0}" if "k \<in> keys" for k
      using that deps [of key] waiting [OF that] True by (auto simp: new(2) get)
    have "k \<in> set (ps_ready s' @ ps_active s') \<longleftrightarrow> ps_waiting s' k = {}"
      if k: "k \<in> keys" "dict_get (ps_remaining s') k 0 \<noteq> 0" for k
    proof -
      have "k \<noteq> key" using True k(2) by auto
      then have left: "dict_get (ps_remaining s) k 0 \<noteq> 0" using get [of k] k(2) by simp
      have "k \<in> set ready \<union> set rest \<longleftrightarrow> ps_waiting s k = {}" using member [OF k(1) left] \<open>k \<noteq> key\<close> by auto
      moreover have "ps_waiting s' k = ps_waiting s k - {key}"
        using wait' [OF k(1)] waiting [OF k(1)] True by (auto simp: get)
      moreover have "k \<in> set (pk_dependents pk key)" if "key \<in> ps_waiting s k"
        using that waiting [OF k(1)] deps [of key] k(1) by auto
      ultimately show ?thesis using k(2) by (auto simp: ready' new(1,4))
    qed
    with wait' order show ?thesis unfolding in_order_def by blast
  qed
qed

subsection \<open>The result\<close>

definition open_steps :: "schedules \<Rightarrow> PlanStepInput list \<Rightarrow> PlanStepInput list" where
  "open_steps fixed ordered = filter (\<lambda>item. map_of fixed (step_id_of item) = None) ordered"

definition times_of :: "work \<Rightarrow> uuid \<Rightarrow> int list" where
  "times_of W k = map snd (filter (\<lambda>w. fst w = k) W)"

definition schedule_of :: "pack_input \<Rightarrow> work \<Rightarrow> uuid \<Rightarrow> Scheduled" where
  "schedule_of pk W k = \<lparr>sch_starts_at = utc_dt (hd (times_of W k)), sch_ends_at = utc_dt (last (times_of W k) + HOUR),
     sch_allocations = map (\<lambda>(w, h). \<lparr>wa_week = w, wa_hours = h\<rparr>) (week_totals pk W k)\<rparr>"

text \<open>The input of a plan: distinct steps, each open one with at least one hour.\<close>

definition plan_input_ok :: "PlanContext \<Rightarrow> PlanStepInput list \<Rightarrow> PlanOverrides option \<Rightarrow> schedules \<Rightarrow> bool" where
  "plan_input_ok context ordered overrides fixed \<longleftrightarrow> distinct (map step_id_of ordered)
     \<and> (\<forall>item \<in> set (open_steps fixed ordered). 0 < plan_hours context overrides item)"

lemma remaining_of_eq:
  assumes "distinct (map step_id_of ordered)"
  shows "remaining_of context ordered overrides fixed
    = map (\<lambda>item. (step_id_of item, plan_hours context overrides item)) (open_steps fixed ordered)"
    and "distinct (map step_id_of (open_steps fixed ordered))"
proof -
  show dist: "distinct (map step_id_of (open_steps fixed ordered))"
    using assms by (simp add: open_steps_def distinct_map_filter)
  then show "remaining_of context ordered overrides fixed
    = map (\<lambda>item. (step_id_of item, plan_hours context overrides item)) (open_steps fixed ordered)"
    by (simp add: remaining_of_def open_steps_def py_dict_distinct comp_def)
qed

lemma round_up_hour_bounds: "t \<le> round_up_hour t" "round_up_hour t < t + HOUR"
proof -
  have H: "0 < HOUR" by (simp add: HOUR_def)
  define m where "m = t mod HOUR"
  have "0 \<le> m" "m < HOUR" using H by (simp_all add: m_def)
  then show "t \<le> round_up_hour t" "round_up_hour t < t + HOUR"
    using H unfolding round_up_hour_def Let_def m_def [symmetric] by auto
qed

lemma initial_queues:
  assumes "plan_input_ok context ordered overrides fixed"
  shows "queues_ok (initial_state context ordered overrides plan_start fixed)"
proof -
  let ?rem = "remaining_of context ordered overrides fixed"
  have ids: "distinct (map step_id_of ordered)" using assms by (simp add: plan_input_ok_def)
  have dist: "distinct (map fst ?rem)" using remaining_of_eq(2) [OF ids] by (simp add: remaining_of_eq(1) [OF ids] comp_def)
  have pos: "0 < h" if "(k, h) \<in> set ?rem" for k h
    using that assms by (auto simp: remaining_of_eq(1) [OF ids] plan_input_ok_def)
  have "0 < dict_get ?rem k 0" if "k \<in> fst ` set ?rem" for k
  proof -
    from that obtain h where "(k, h) \<in> set ?rem" by auto
    with pos dict_get_eq [OF dist this, of 0] show ?thesis by simp
  qed
  then show ?thesis using dist pos
    by (auto simp: queues_ok_def initial_state_def Let_def intro: less_imp_le)
qed

lemma times_of_ends:
  "map_option snd (find (\<lambda>w. fst w = k) W) = (if times_of W k = [] then None else Some (hd (times_of W k)))"
  "map_option (\<lambda>w. snd w + HOUR) (find (\<lambda>w. fst w = k) (rev W))
     = (if times_of W k = [] then None else Some (last (times_of W k) + HOUR))"
proof -
  show "map_option snd (find (\<lambda>w. fst w = k) W) = (if times_of W k = [] then None else Some (hd (times_of W k)))"
    unfolding times_of_def by (induction W) auto
  show "map_option (\<lambda>w. snd w + HOUR) (find (\<lambda>w. fst w = k) (rev W))
     = (if times_of W k = [] then None else Some (last (times_of W k) + HOUR))"
    unfolding times_of_def by (induction W rule: rev_induct) auto
qed

lemma hours_of_times: "hours_of W k = int (length (times_of W k))"
  by (simp add: hours_of_def times_of_def)

lemma times_of_mem: "t \<in> set (times_of W k) \<Longrightarrow> (k, t) \<in> set W"
  by (auto simp: times_of_def)

text \<open>The general form: \<open>X\<close> is any property of the work that the turns keep.\<close>

lemma pack_rule:
  fixes ctx ordered overrides fixed plan_start monday z wall_off
  defines "pk \<equiv> pack_input_of z wall_off ctx ordered overrides plan_start monday fixed"
    and "s0 \<equiv> initial_state ctx ordered overrides plan_start fixed"
  assumes zone: "midnight_follows z wall_off" and input: "plan_input_ok ctx ordered overrides fixed"
    and init: "X [] s0" and idle: "\<And>W s c. X W s \<Longrightarrow> X W (s\<lparr>ps_cursor := c\<rparr>)"
    and work: "\<And>W s key rest ready s'. X W s \<Longrightarrow> explained pk s0 W s \<Longrightarrow> queues_ok s \<Longrightarrow> ps_hours_left s \<noteq> 0
      \<Longrightarrow> worked pk s key rest ready s' \<Longrightarrow> X (W @ [(key, ps_cursor s)]) s'"
  shows "\<exists>r. pack z wall_off ctx ordered overrides plan_start monday fixed = Some r
    \<and> (case r of Inl e \<Rightarrow> e = WeeklyPlanSchedulingError
      | Inr packed \<Rightarrow> \<exists>W s. explained pk s0 W s \<and> X W s
          \<and> (\<forall>item \<in> set (open_steps fixed ordered). hours_of W (step_id_of item) = plan_hours ctx overrides item
               \<and> times_of W (step_id_of item) \<noteq> [])
          \<and> packed = fixed @ map (\<lambda>item. (step_id_of item, schedule_of pk W (step_id_of item))) (open_steps fixed ordered))"
proof -
  have ids: "distinct (map step_id_of ordered)" using input by (simp add: plan_input_ok_def)
  note rem = remaining_of_eq(1) [OF ids, of ctx overrides fixed] remaining_of_eq(2) [OF ids, of fixed]
  have zone': "midnight_follows (pk_zone pk) (pk_wall_off pk)" using zone by (simp add: pk_def pack_input_of_def Let_def)
  have deps: "distinct (pk_dependents pk k)" for k
    using rem(2) by (simp add: pk_def pack_input_of_def Let_def rem(1) comp_def)
  have s0: "ps_first s0 = Map.empty" "ps_last s0 = Map.empty" "ps_allocations s0 = (\<lambda>_. [])"
    "ps_remaining s0 = remaining_of ctx ordered overrides fixed"
    by (simp_all add: s0_def initial_state_def Let_def)
  have q0: "queues_ok s0" unfolding s0_def by (rule initial_queues [OF input])
  have "\<exists>r. pack_loop pk s0 = Some r \<and> (case r of Inl e \<Rightarrow> e = WeeklyPlanSchedulingError
    | Inr s \<Rightarrow> ps_hours_left s = 0 \<and> (\<exists>W. explained pk s0 W s \<and> queues_ok s \<and> X W s))"
    by (rule pack_loop_rule [of pk s0 X, OF zone' deps q0 s0(1-3) init]) (rule idle, assumption, rule work, assumption+)
  then obtain r where r: "pack_loop pk s0 = Some r" and final: "case r of Inl e \<Rightarrow> e = WeeklyPlanSchedulingError
    | Inr s \<Rightarrow> ps_hours_left s = 0 \<and> (\<exists>W. explained pk s0 W s \<and> queues_ok s \<and> X W s)" by blast
  show ?thesis
  proof (cases r)
    case (Inl e)
    with r final show ?thesis by (auto simp: pack_def run_then_def pk_def s0_def)
  next
    case (Inr s)
    with final obtain W where W: "ps_hours_left s = 0" "explained pk s0 W s" "queues_ok s" "X W s" by auto
    note D = explainedD [OF W(2)]
    have "\<forall>(k, h) \<in> set (ps_remaining s). h = 0"
      using W(1,3) sum_dict_pos(2) [of "ps_remaining s"] by (force simp: queues_ok_def)
    then have "dict_get (ps_remaining s) k 0 = 0" for k
      by (auto simp: dict_get_def split: option.splits dest: map_of_SomeD)
    then have hours: "hours_of W k = dict_get (ps_remaining s0) k 0" for k using D(6) by simp
    have item_hours: "hours_of W (step_id_of item) = plan_hours ctx overrides item
        \<and> times_of W (step_id_of item) \<noteq> []" if "item \<in> set (open_steps fixed ordered)" for item
    proof -
      have "hours_of W (step_id_of item) = plan_hours ctx overrides item"
        unfolding hours s0(4) rem(1) using that rem(2) by (intro dict_get_eq) (auto simp: comp_def)
      moreover have "0 < plan_hours ctx overrides item" using input that by (simp add: plan_input_ok_def)
      ultimately show ?thesis by (auto simp: hours_of_times)
    qed
    have sched: "scheduled_of s k = Inr (k, schedule_of pk W k)" if "times_of W k \<noteq> []" for k
      using that by (simp add: scheduled_of_def D(7,8,9) times_of_ends schedule_of_def)
    have "collect (scheduled_of s) (map fst (ps_remaining s))
        = Inr (map (\<lambda>item. (step_id_of item, schedule_of pk W (step_id_of item))) (open_steps fixed ordered))"
    proof -
      have "map fst (ps_remaining s) = map step_id_of (open_steps fixed ordered)"
        by (simp add: D(4) s0(4) rem(1) comp_def)
      then show ?thesis using item_hours sched
        by (auto simp: comp_def intro!: collect_total [of _ _ "\<lambda>k. (k, schedule_of pk W k)", THEN trans])
    qed
    then have "pack z wall_off ctx ordered overrides plan_start monday fixed
      = Some (Inr (fixed @ map (\<lambda>item. (step_id_of item, schedule_of pk W (step_id_of item))) (open_steps fixed ordered)))"
      using r Inr by (simp add: pack_def run_then_def pk_def s0_def)
    with W(2,4) item_hours show ?thesis by auto
  qed
qed

lemma week_totals_spec:
  "distinct (map fst (week_totals pk W k))"
  "dict_get (week_totals pk W k) n 0 = int (length (filter (\<lambda>w. fst w = k \<and> week_index pk (snd w) = n) W))"
proof -
  have "distinct (map fst (week_totals pk W k)) \<and>
    dict_get (week_totals pk W k) n 0 = int (length (filter (\<lambda>w. fst w = k \<and> week_index pk (snd w) = n) W))"
  proof (induction W rule: rev_induct)
    case (snoc w W)
    then show ?case
      by (cases "fst w = k") (auto simp: week_totals_def bump_def dict_get_update distinct_update)
  qed (simp add: week_totals_def dict_get_def)
  then show "distinct (map fst (week_totals pk W k))"
    "dict_get (week_totals pk W k) n 0 = int (length (filter (\<lambda>w. fst w = k \<and> week_index pk (snd w) = n) W))"
    by simp_all
qed

lemma sum_allocations:
  "distinct (map fst d) \<Longrightarrow> sum_list (map wa_hours (filter (\<lambda>a. wa_week a = n) (map (\<lambda>(w, h). \<lparr>wa_week = w, wa_hours = h\<rparr>) d)))
     = dict_get d n 0"
proof (induction d)
  case (Cons p d)
  have "n \<notin> fst ` set d \<Longrightarrow> dict_get d n 0 = 0" by (metis dict_get_keys)
  with Cons show ?case by (cases p) (auto simp: dict_get_def)
qed (simp add: dict_get_def)

text \<open>
  C11: the packer returns, and it either reports that the calendar is exhausted or places every hour of
  every open step: each hour is worked once, not before the plan may start, outside rest weeks and
  unavailable dates and inside the weekly availability; no week gets more than the weekly hours
  (on top of what completed steps used); and each step is reported from its first to its last hour
  with its hours per week.
\<close>

theorem pack_places_all_work:
  assumes "midnight_follows z wall_off" and "plan_input_ok context ordered overrides fixed"
    and "pk = pack_input_of z wall_off context ordered overrides plan_start monday fixed"
  shows "\<exists>r. pack z wall_off context ordered overrides plan_start monday fixed = Some r
    \<and> (case r of Inl e \<Rightarrow> e = WeeklyPlanSchedulingError
      | Inr packed \<Rightarrow> \<exists>W. sorted_wrt (\<lambda>a b. snd a + HOUR \<le> snd b) W
          \<and> (\<forall>w \<in> set W. instant (future_start context overrides plan_start fixed) \<le> snd w \<and> usable pk (snd w))
          \<and> (\<forall>n. used_by_fixed fixed n + week_hours pk W n \<le> max (used_by_fixed fixed n) (pk_weekly pk))
          \<and> packed = fixed @ map (\<lambda>item. (step_id_of item, schedule_of pk W (step_id_of item))) (open_steps fixed ordered)
          \<and> (\<forall>item \<in> set (open_steps fixed ordered). hours_of W (step_id_of item) = plan_hours context overrides item
               \<and> (\<forall>n. sum_list (map wa_hours (filter (\<lambda>a. wa_week a = n) (sch_allocations (schedule_of pk W (step_id_of item)))))
                    = int (length (filter (\<lambda>w. fst w = step_id_of item \<and> week_index pk (snd w) = n) W)))))"
proof -
  let ?s0 = "initial_state context ordered overrides plan_start fixed"
  have start: "instant (future_start context overrides plan_start fixed) \<le> ps_cursor ?s0"
    and used: "ps_used_by_week ?s0 = used_by_fixed fixed"
    using round_up_hour_bounds(1) by (simp_all add: initial_state_def Let_def)
  have alloc: "sum_list (map wa_hours (filter (\<lambda>a. wa_week a = n) (sch_allocations (schedule_of pk W k))))
      = int (length (filter (\<lambda>w. fst w = k \<and> week_index pk (snd w) = n) W))" for W k n
    by (simp add: schedule_of_def sum_allocations week_totals_spec)
  have good: "(\<forall>w \<in> set W. instant (future_start context overrides plan_start fixed) \<le> snd w \<and> usable pk (snd w))
      \<and> (\<forall>n. used_by_fixed fixed n + week_hours pk W n \<le> max (used_by_fixed fixed n) (pk_weekly pk))"
    if "explained pk ?s0 W s" for W s
  proof (intro conjI ballI allI)
    fix n show "used_by_fixed fixed n + week_hours pk W n \<le> max (used_by_fixed fixed n) (pk_weekly pk)"
      using explainedD(10) [OF that] by (simp only: used) metis
  qed (use explainedD(2) [OF that] start in force)+
  from pack_rule [where X = "\<lambda>_ _. True", OF assms(1,2)]
  obtain r where r: "pack z wall_off context ordered overrides plan_start monday fixed = Some r"
    "case r of Inl e \<Rightarrow> e = WeeklyPlanSchedulingError
      | Inr packed \<Rightarrow> \<exists>W s. explained pk ?s0 W s \<and> True
          \<and> (\<forall>item \<in> set (open_steps fixed ordered). hours_of W (step_id_of item) = plan_hours context overrides item
               \<and> times_of W (step_id_of item) \<noteq> [])
          \<and> packed = fixed @ map (\<lambda>item. (step_id_of item, schedule_of pk W (step_id_of item))) (open_steps fixed ordered)"
    unfolding assms(3) by blast
  show ?thesis
  proof (cases r)
    case (Inr packed)
    with r(2) obtain W s where W: "explained pk ?s0 W s"
      "\<forall>item \<in> set (open_steps fixed ordered). hours_of W (step_id_of item) = plan_hours context overrides item"
      "packed = fixed @ map (\<lambda>item. (step_id_of item, schedule_of pk W (step_id_of item))) (open_steps fixed ordered)"
      by auto
    from explainedD(1) [OF W(1)] good [OF W(1)] W(2,3) alloc show ?thesis
      unfolding r(1) Inr by (intro exI [of _ "Inr packed"] conjI refl) (simp, blast)
  qed (use r in simp)
qed

lemma map_of_packed:
  assumes "distinct (map step_id_of (open_steps fixed ordered))" and "item \<in> set (open_steps fixed ordered)"
  shows "map_of (fixed @ map (\<lambda>item. (step_id_of item, f (step_id_of item))) (open_steps fixed ordered)) (step_id_of item)
    = Some (f (step_id_of item))"
proof -
  have "map_of fixed (step_id_of item) = None" using assms(2) by (simp add: open_steps_def)
  moreover have "map_of (map (\<lambda>item. (step_id_of item, f (step_id_of item))) (open_steps fixed ordered)) (step_id_of item)
      = Some (f (step_id_of item))"
    using assms by (intro map_of_is_SomeI) (auto simp: comp_def)
  ultimately show ?thesis by (simp add: map_add_def)
qed

lemma initial_in_order:
  assumes "plan_input_ok context ordered overrides fixed"
    and "\<forall>item \<in> set (open_steps fixed ordered).
      waiting_of ordered (step_id_of item) \<subseteq> step_id_of ` set (open_steps fixed ordered)"
  shows "in_order (waiting_of ordered) (step_id_of ` set (open_steps fixed ordered)) []
    (initial_state context ordered overrides plan_start fixed)"
proof -
  let ?s = "initial_state context ordered overrides plan_start fixed"
  have ids: "distinct (map step_id_of ordered)" using assms(1) by (simp add: plan_input_ok_def)
  note rem = remaining_of_eq(1) [OF ids] remaining_of_eq(2) [OF ids, of fixed]
  have "dict_get (ps_remaining ?s) k 0 \<noteq> 0" if "k \<in> step_id_of ` set (open_steps fixed ordered)" for k
  proof -
    from that obtain item where item: "item \<in> set (open_steps fixed ordered)" "k = step_id_of item" by blast
    then have "dict_get (ps_remaining ?s) k 0 = plan_hours context overrides item"
      using rem(2) by (intro dict_get_eq) (auto simp: initial_state_def Let_def rem(1) comp_def)
    with item assms(1) show ?thesis by (auto simp: plan_input_ok_def)
  qed
  with assms(2) show ?thesis by (auto simp: in_order_def initial_state_def Let_def rem(1))
qed

lemma pack_ordered:
  assumes zone: "midnight_follows z wall_off" and input: "plan_input_ok context ordered overrides fixed"
    and closed: "\<forall>item \<in> set (open_steps fixed ordered).
      waiting_of ordered (step_id_of item) \<subseteq> step_id_of ` set (open_steps fixed ordered)"
    and acyclic: "acyclic {(p, k). k \<in> step_id_of ` set (open_steps fixed ordered) \<and> p \<in> waiting_of ordered k}"
    and packed: "pack z wall_off context ordered overrides plan_start monday fixed = Some (Inr packed)"
    and item: "item \<in> set (open_steps fixed ordered)" and needs: "p \<in> waiting_of ordered (step_id_of item)"
  shows "\<exists>before after. map_of packed p = Some before \<and> map_of packed (step_id_of item) = Some after
    \<and> instant (sch_ends_at before) \<le> instant (sch_starts_at after) \<and> \<not> dt_less (sch_starts_at after) (sch_ends_at before)"
proof -
  let ?keys = "step_id_of ` set (open_steps fixed ordered)" and ?needs = "waiting_of ordered"
  let ?pk = "pack_input_of z wall_off context ordered overrides plan_start monday fixed"
  let ?s0 = "initial_state context ordered overrides plan_start fixed"
  let ?R = "{(p, k). k \<in> ?keys \<and> p \<in> ?needs k}"
  have ids: "distinct (map step_id_of ordered)" using input by (simp add: plan_input_ok_def)
  note rem = remaining_of_eq(1) [OF ids] remaining_of_eq(2) [OF ids, of fixed]
  have sub: "\<And>k. k \<in> ?keys \<Longrightarrow> ?needs k \<subseteq> ?keys" using closed by blast
  have "?R \<subseteq> ?keys \<times> ?keys" using sub by blast
  then have wf: "wf ?R" using acyclic by (meson finite_SigmaI finite_acyclic_wf finite_imageI finite_set finite_subset)
  have keys0: "?keys = fst ` set (ps_remaining ?s0)" by (force simp: initial_state_def Let_def rem(1))
  have deps: "distinct (pk_dependents ?pk q) \<and> set (pk_dependents ?pk q) = {k \<in> ?keys. q \<in> ?needs k}" for q
    using rem(2) by (auto simp: pack_input_of_def Let_def rem(1) comp_def)
  have turn: "in_order ?needs ?keys (W @ [(key, ps_cursor s)]) s'"
    if "in_order ?needs ?keys W s" "explained ?pk ?s0 W s" "queues_ok s" "ps_hours_left s \<noteq> 0"
      "worked ?pk s key rest ready s'" for W s key rest ready s'
  proof (rule in_order_worked [OF that(1) _ wf sub deps _ that(3-5)])
    show "?keys = fst ` set (ps_remaining s)"
      unfolding keys0 using explainedD(4) [OF that(2)] by (metis list.set_map)
    show "\<forall>w \<in> set W. snd w + HOUR \<le> ps_cursor s" using explainedD(2) [OF that(2)] by blast
  qed
  have idle: "in_order ?needs ?keys W (s\<lparr>ps_cursor := c\<rparr>)" if "in_order ?needs ?keys W s" for W s c
    using that by (simp add: in_order_def)
  have "\<exists>r. pack z wall_off context ordered overrides plan_start monday fixed = Some r
    \<and> (case r of Inl e \<Rightarrow> e = WeeklyPlanSchedulingError
      | Inr packed \<Rightarrow> \<exists>W s. explained ?pk ?s0 W s \<and> in_order ?needs ?keys W s
          \<and> (\<forall>item \<in> set (open_steps fixed ordered). hours_of W (step_id_of item) = plan_hours context overrides item
               \<and> times_of W (step_id_of item) \<noteq> [])
          \<and> packed = fixed @ map (\<lambda>item. (step_id_of item, schedule_of ?pk W (step_id_of item))) (open_steps fixed ordered))"
    by (rule pack_rule [where X = "in_order ?needs ?keys", OF zone input initial_in_order [OF input closed]]) (rule idle, assumption, rule turn, assumption+)
  with packed obtain W s where W: "explained ?pk ?s0 W s" "in_order ?needs ?keys W s"
    "\<forall>item \<in> set (open_steps fixed ordered). times_of W (step_id_of item) \<noteq> []"
    "packed = fixed @ map (\<lambda>item. (step_id_of item, schedule_of ?pk W (step_id_of item))) (open_steps fixed ordered)"
    by auto
  from needs closed item obtain q where q: "q \<in> set (open_steps fixed ordered)" "p = step_id_of q" by blast
  have nonempty: "times_of W p \<noteq> []" "times_of W (step_id_of item) \<noteq> []" using W(3) q item by simp_all
  have "(p, last (times_of W p)) \<in> set W" by (rule times_of_mem, rule last_in_set, rule nonempty)
  moreover have "(step_id_of item, hd (times_of W (step_id_of item))) \<in> set W"
    by (rule times_of_mem, rule hd_in_set, rule nonempty)
  ultimately have "last (times_of W p) + HOUR \<le> hd (times_of W (step_id_of item))"
    using W(2) needs unfolding in_order_def by blast
  moreover have "map_of packed (step_id_of x) = Some (schedule_of ?pk W (step_id_of x))"
    if "x \<in> set (open_steps fixed ordered)" for x unfolding W(4) by (rule map_of_packed [OF rem(2) that])
  ultimately show ?thesis using q item by (simp add: schedule_of_def dt_less_def dt_diff_def utc_dt_def instant_def)
qed

text \<open>
  A packed plan keeps prerequisites. When the unfinished prerequisites of the open steps are open
  steps themselves and form no cycle, each of them ends before the step that needs it starts,
  whatever order of priority was asked for.
\<close>

theorem pack_respects_prerequisites:
  assumes zone: "midnight_follows z wall_off" and input: "plan_input_ok context ordered overrides fixed"
    and closed: "\<forall>item \<in> set (open_steps fixed ordered).
      waiting_of ordered (step_id_of item) \<subseteq> step_id_of ` set (open_steps fixed ordered)"
    and acyclic: "acyclic {(p, k). k \<in> step_id_of ` set (open_steps fixed ordered) \<and> p \<in> waiting_of ordered k}"
    and packed: "pack z wall_off context ordered overrides plan_start monday fixed = Some (Inr packed)"
    and item: "item \<in> set (open_steps fixed ordered)" and needs: "p \<in> waiting_of ordered (step_id_of item)"
  shows "\<exists>before after. map_of packed p = Some before \<and> map_of packed (step_id_of item) = Some after
    \<and> instant (sch_ends_at before) \<le> instant (sch_starts_at after)"
  using pack_ordered [OF assms] by blast

subsection \<open>A plan by example\<close>

text \<open>
  Three steps in UTC with four hours a week, asked for in the order \<open>c\<close>, \<open>b\<close>, \<open>a\<close>; \<open>b\<close> needs \<open>a\<close>.
\<close>

definition sample_step :: "uuid \<Rightarrow> int \<Rightarrow> uuid list \<Rightarrow> PlanStepInput" where
  "sample_step i position needs = \<lparr>in_step = \<lparr>vw_step_id = i, vw_step_key = i, vw_position = position, vw_action_id = i,
       vw_template_revision = 1, vw_state = TODO, vw_planned_start = None, vw_planned_end = None, vw_outcomes = [],
       vw_criteria = [], vw_prerequisite_step_ids = needs, vw_title = None\<rparr>, in_metadata = None\<rparr>"

definition sample_context :: PlanContext where
  "sample_context = \<lparr>px_roadmap_id = ''r'', px_created_at = utc_dt 0, px_recommended_weekly_hours = 4, px_target_date = None,
     px_timezone = ''UTC'', px_step_hours = [(''a'', 2), (''b'', 2), (''c'', 1)], px_step_allocations = [],
     px_requirement_metadata = [], px_as_of = Some (utc_dt 0), px_step_metadata = [], px_weekly_availability = [],
     px_unavailable_dates = []\<rparr>"

definition sample_overrides :: PlanOverrides where
  "sample_overrides = \<lparr>po_weekly_hours = 4, po_rest_weeks = [], po_order = [''c'', ''b'', ''a''], po_hours = [],
     po_saved_at = Some (utc_dt 0), po_version = 0, po_is_customized = True, po_step_schedules = []\<rparr>"

definition sample_ordered :: "PlanStepInput list" where
  "sample_ordered = [sample_step ''c'' 2 [], sample_step ''b'' 1 [''a''], sample_step ''a'' 0 []]"

lemmas sample_plan_defs = sample_ordered_def sample_step_def sample_context_def sample_overrides_def

lemma midnight_follows_utc: "midnight_follows utc_zone (\<lambda>_. 0)"
proof -
  have "t < day * DAY" if "t div DAY < day" for t day
  proof -
    have "t div 86400000000 < day" using that by (simp add: DAY_def HOUR_def)
    then have "t < day * 86400000000" by linarith
    then show ?thesis by (simp add: DAY_def HOUR_def)
  qed
  then show ?thesis
    by (simp add: midnight_follows_def utc_zone_def local_wall_eq date_of_def midnight_def instant_def)
qed

lemma sample_input_ok: "plan_input_ok sample_context sample_ordered (Some sample_overrides) []"
  by (simp add: plan_input_ok_def open_steps_def plan_hours_def dict_get_def hours_for_def sample_plan_defs)

lemma sample_packed:
  "map_option (map_sum id (map (\<lambda>(k, sch). (k, instant (sch_starts_at sch) div HOUR, instant (sch_ends_at sch) div HOUR))))
     (pack utc_zone (\<lambda>_. 0) sample_context sample_ordered (Some sample_overrides) (utc_dt 0) (-6) [])
   = Some (Inr [(''c'', 0, 1), (''b'', 3, 25), (''a'', 1, 3)])"
  by code_simp

lemma sample_pack:
  obtains packed where
    "pack utc_zone (\<lambda>_. 0) sample_context sample_ordered (Some sample_overrides) (utc_dt 0) (-6) [] = Some (Inr packed)"
proof -
  obtain r where r: "pack utc_zone (\<lambda>_. 0) sample_context sample_ordered (Some sample_overrides) (utc_dt 0) (-6) [] = Some r"
    using sample_packed by auto
  with sample_packed obtain packed where "r = Inr packed" by (cases r) auto
  with r that show thesis by blast
qed

theorem pack_places_all_work_witness:
  "\<exists>packed W. pack utc_zone (\<lambda>_. 0) sample_context sample_ordered (Some sample_overrides) (utc_dt 0) (-6) [] = Some (Inr packed)
     \<and> length packed = 3 \<and> hours_of W ''b'' = 2"
proof -
  let ?pk = "pack_input_of utc_zone (\<lambda>_. 0) sample_context sample_ordered (Some sample_overrides) (utc_dt 0) (-6) []"
  have ids: "map step_id_of (open_steps [] sample_ordered) = [''c'', ''b'', ''a'']"
    by (simp add: open_steps_def sample_plan_defs)
  obtain packed where packed:
    "pack utc_zone (\<lambda>_. 0) sample_context sample_ordered (Some sample_overrides) (utc_dt 0) (-6) [] = Some (Inr packed)"
    by (rule sample_pack)
  with pack_places_all_work [OF midnight_follows_utc sample_input_ok refl, of "utc_dt 0" "-6"]
  obtain W where W: "packed = [] @ map (\<lambda>item. (step_id_of item, schedule_of ?pk W (step_id_of item))) (open_steps [] sample_ordered)"
    "\<forall>item \<in> set (open_steps [] sample_ordered). hours_of W (step_id_of item) = plan_hours sample_context (Some sample_overrides) item"
    by auto
  have "sample_step ''b'' 1 [''a''] \<in> set (open_steps [] sample_ordered)" by (simp add: open_steps_def sample_ordered_def)
  with W(2) have "hours_of W ''b'' = 2"
    by (force simp: sample_plan_defs plan_hours_def dict_get_def hours_for_def)
  moreover have "length packed = 3" using arg_cong [OF ids, of length] by (simp add: W(1))
  ultimately show ?thesis using packed by blast
qed

theorem pack_respects_prerequisites_witness:
  "\<exists>packed before after. pack utc_zone (\<lambda>_. 0) sample_context sample_ordered (Some sample_overrides) (utc_dt 0) (-6) []
       = Some (Inr packed) \<and> map_of packed ''a'' = Some before \<and> map_of packed ''b'' = Some after
     \<and> instant (sch_ends_at before) \<le> instant (sch_starts_at after)"
proof -
  have all_open: "open_steps [] sample_ordered = sample_ordered" by (simp add: open_steps_def)
  have waits: "waiting_of sample_ordered ''a'' = {}" "waiting_of sample_ordered ''b'' = {''a''}" "waiting_of sample_ordered ''c'' = {}"
    by (auto simp: waiting_of_def by_id_def py_dict_def sample_plan_defs split: if_splits)
  have ids: "step_id_of ` set sample_ordered = {''a'', ''b'', ''c''}" by (auto simp: sample_plan_defs)
  have "{(p, k). k \<in> step_id_of ` set (open_steps [] sample_ordered) \<and> p \<in> waiting_of sample_ordered k} = {(''a'', ''b'')}"
    unfolding all_open ids using waits by auto
  then have acyclic: "acyclic {(p, k). k \<in> step_id_of ` set (open_steps [] sample_ordered) \<and> p \<in> waiting_of sample_ordered k}"
    by (simp add: acyclic_def trancl_insert)
  have closed: "\<forall>item \<in> set (open_steps [] sample_ordered).
      waiting_of sample_ordered (step_id_of item) \<subseteq> step_id_of ` set (open_steps [] sample_ordered)"
    unfolding all_open ids using waits by (auto simp: sample_plan_defs)
  obtain packed where packed:
    "pack utc_zone (\<lambda>_. 0) sample_context sample_ordered (Some sample_overrides) (utc_dt 0) (-6) [] = Some (Inr packed)"
    by (rule sample_pack)
  have item: "sample_step ''b'' 1 [''a''] \<in> set (open_steps [] sample_ordered)" unfolding all_open by (simp add: sample_ordered_def)
  have id: "step_id_of (sample_step ''b'' 1 [''a'']) = ''b''" by (simp add: sample_step_def)
  from pack_respects_prerequisites [OF midnight_follows_utc sample_input_ok closed acyclic packed item, of "''a''"] waits(2)
  show ?thesis using packed unfolding id by blast
qed

end
