(* ===== verification/Weekly_Plan.thy ===== *)
theory Weekly_Plan
  imports Weekly_Packing
begin

section \<open>The weekly plan\<close>

text \<open>
  \<open>build_weekly_plan\<close> of \<open>src/jobtology_be/application/weekly_plan.py\<close>: it keeps the solver's dates
  and the schedules of completed steps, packs the rest where the user customized the plan or dates
  are missing, and reports violated prerequisites and a missed target date. A completed step's
  entry in the schedules of the overrides is its snapshot.
\<close>

subsection \<open>Parts of a step's entry\<close>

definition json_field :: "string \<Rightarrow> JsonValue option \<Rightarrow> string option" where
  "json_field k outcome = (case json_get k outcome of Some (JStr s) \<Rightarrow> Some s | _ \<Rightarrow> None)"

definition first_outcome :: "PlanStepInput \<Rightarrow> JsonValue option" where
  "first_outcome item = (case vw_outcomes (in_step item) of [] \<Rightarrow> None | o1 # _ \<Rightarrow> Some o1)"

definition title_of :: "PlanStepInput \<Rightarrow> string" where
  "title_of item = (case vw_title (in_step item) of
       Some t \<Rightarrow> if t = [] then vw_action_id (in_step item) else t | None \<Rightarrow> vw_action_id (in_step item))"

definition identity_of_step :: "PlanStepInput \<Rightarrow> string option \<times> string" where
  "identity_of_step item =
     (json_field ''requirement_key'' (first_outcome item),
      case json_field ''raw_text'' (first_outcome item) of
        Some name \<Rightarrow> if name = [] then title_of item else name
      | None \<Rightarrow> title_of item)"

definition reason_of :: "PlanStepInput list \<Rightarrow> PlanStepInput \<Rightarrow> StepReason" where
  "reason_of items item =
     (let demand = (case in_metadata item of None \<Rightarrow> None | Some m \<Rightarrow> md_demand_pct m);
          shown = (case demand of Some d \<Rightarrow> if 0 < d then Some d else None | None \<Rightarrow> None);
          previous = List.map_filter (by_id items) (vw_prerequisite_step_ids (in_step item))
      in if previous \<noteq> [] then AfterSteps (map (snd \<circ> identity_of_step) (take 2 previous)) shown
         else SavedOrder shown)"

text \<open>A plan interval is \<open>[start, end)\<close>; \<open>ends_at - 1 microsecond\<close> moves the wall clock of the value.\<close>

definition last_occupied_date :: "zone \<Rightarrow> datetime \<Rightarrow> datetime \<Rightarrow> int" where
  "last_occupied_date z starts ends =
     local_date z (if dt_less starts ends then ends\<lparr>dt_wall := dt_wall ends - 1\<rparr> else ends)"

definition exact_allocations :: "zone \<Rightarrow> PlanContext \<Rightarrow> PlanStepInput \<Rightarrow> int \<Rightarrow> WeeklyPlanAllocation list" where
  "exact_allocations z context item monday =
     map (\<lambda>(w, h). \<lparr>wa_week = w, wa_hours = h\<rparr>)
       (sort_key fst (foldl (\<lambda>d v. bump ((local_date z v - monday) div 7 + 1) d) []
         (dict_get (px_step_allocations context) (vw_step_key (in_step item)) [])))"

definition schedule_get :: "schedules \<Rightarrow> uuid \<Rightarrow> weekly_error + Scheduled" where
  "schedule_get packed key = (case map_of packed key of None \<Rightarrow> Inl (MissingKey key) | Some sch \<Rightarrow> Inr sch)"

definition dates_of :: "zone \<Rightarrow> schedules \<Rightarrow> bool \<Rightarrow> PlanStepInput \<Rightarrow> weekly_error + int \<times> int" where
  "dates_of z packed use_solver item =
     (case (vw_planned_start (in_step item), vw_planned_end (in_step item)) of
        (Some s, Some e) \<Rightarrow>
          if use_solver \<and> has_solver_dates item then Inr (local_date z s, last_occupied_date z s e)
          else and_then (schedule_get packed (step_id_of item))
            (\<lambda>sch. Inr (local_date z (sch_starts_at sch), last_occupied_date z (sch_starts_at sch) (sch_ends_at sch)))
      | _ \<Rightarrow> and_then (schedule_get packed (step_id_of item))
            (\<lambda>sch. Inr (local_date z (sch_starts_at sch), last_occupied_date z (sch_starts_at sch) (sch_ends_at sch))))"

text \<open>Whether one prerequisite is unmet in the plan.\<close>

definition prerequisite_unmet ::
  "PlanStepInput list \<Rightarrow> schedules \<Rightarrow> bool \<Rightarrow> PlanStepInput \<Rightarrow> uuid \<Rightarrow> weekly_error + bool" where
  "prerequisite_unmet items schedules use_solver item p =
     (case by_id items p of
        None \<Rightarrow> Inr True
      | Some q \<Rightarrow>
          if vw_state (in_step q) = COMPLETED then Inr False
          else if use_solver \<and> has_solver_dates item \<and> has_solver_dates q
          then Inr (case (vw_planned_end (in_step q), vw_planned_start (in_step item)) of
              (Some e, Some s) \<Rightarrow> dt_less s e | _ \<Rightarrow> False)
          else and_then (schedule_get schedules p)
            (\<lambda>before. and_then (schedule_get schedules (step_id_of item))
            (\<lambda>after. Inr (dt_less (sch_starts_at after) (sch_ends_at before)))))"

definition unmet_of ::
  "PlanStepInput list \<Rightarrow> schedules \<Rightarrow> bool \<Rightarrow> PlanStepInput \<Rightarrow> weekly_error + uuid list" where
  "unmet_of items schedules use_solver item =
     and_then (collect (\<lambda>p. and_then (prerequisite_unmet items schedules use_solver item p) (\<lambda>u. Inr (p, u)))
         (vw_prerequisite_step_ids (in_step item)))
       (\<lambda>pus. Inr (map fst (filter snd pus)))"

subsection \<open>Which overrides count\<close>

definition order_of :: "PlanStepInput list \<Rightarrow> PlanOverrides \<Rightarrow> PlanStepInput list" where
  "order_of recommended ov =
     (let known = filter (\<lambda>key. by_id recommended key \<noteq> None) (po_order ov);
          ids = known @ filter (\<lambda>key. key \<notin> set known) (map step_id_of recommended)
      in List.map_filter (by_id recommended) ids)"

text \<open>Overrides that ask for nothing but the recommendation are dropped.\<close>

definition effective_overrides :: "PlanContext \<Rightarrow> PlanStepInput list \<Rightarrow> PlanOverrides option \<Rightarrow> PlanOverrides option" where
  "effective_overrides context recommended overrides =
     (case overrides of
        None \<Rightarrow> None
      | Some ov \<Rightarrow>
          if \<not> po_is_customized ov then None
          else if po_weekly_hours ov = px_recommended_weekly_hours context \<and> po_rest_weeks ov = []
             \<and> order_of recommended ov = recommended
             \<and> list_all (\<lambda>item. dict_get (po_hours ov) (step_id_of item) (hours_for context item) = hours_for context item) recommended
          then None else Some ov)"

definition ordered_steps :: "PlanStepInput list \<Rightarrow> PlanOverrides option \<Rightarrow> PlanStepInput list" where
  "ordered_steps recommended overrides =
     (case overrides of
        None \<Rightarrow> recommended
      | Some ov \<Rightarrow> if po_is_customized ov then order_of recommended ov else recommended)"

definition snapshots_of :: "PlanOverrides option \<Rightarrow> (uuid \<times> WeeklyPlanStep) list" where
  "snapshots_of overrides = (case overrides of None \<Rightarrow> [] | Some ov \<Rightarrow> po_step_schedules ov)"

subsection \<open>Completed steps\<close>

definition snapshot_schedule :: "zone \<Rightarrow> (int \<Rightarrow> int) \<Rightarrow> WeeklyPlanStep \<Rightarrow> Scheduled" where
  "snapshot_schedule z wall_off snap =
     \<lparr>sch_starts_at = (case wp_planned_start_at snap of Some t \<Rightarrow> t | None \<Rightarrow> midnight z wall_off (wp_start_date snap)),
      sch_ends_at = (case wp_planned_end_at snap of Some t \<Rightarrow> t | None \<Rightarrow> midnight z wall_off (wp_end_date snap + 1)),
      sch_allocations = wp_week_allocations snap\<rparr>"

definition completed_schedule ::
  "zone \<Rightarrow> (int \<Rightarrow> int) \<Rightarrow> PlanContext \<Rightarrow> int \<Rightarrow> (uuid \<times> WeeklyPlanStep) list \<Rightarrow> schedules \<Rightarrow> PlanStepInput
    \<Rightarrow> weekly_error + uuid \<times> Scheduled" where
  "completed_schedule z wall_off context monday snapshots recommended_packed item =
     (case map_of snapshots (step_id_of item) of
        Some snap \<Rightarrow> Inr (step_id_of item, snapshot_schedule z wall_off snap)
      | None \<Rightarrow>
          (case (vw_planned_start (in_step item), vw_planned_end (in_step item)) of
             (Some s, Some e) \<Rightarrow>
               if has_solver_dates item
               then Inr (step_id_of item, \<lparr>sch_starts_at = s, sch_ends_at = e,
                 sch_allocations = exact_allocations z context item monday\<rparr>)
               else and_then (schedule_get recommended_packed (step_id_of item)) (\<lambda>sch. Inr (step_id_of item, sch))
           | _ \<Rightarrow> and_then (schedule_get recommended_packed (step_id_of item)) (\<lambda>sch. Inr (step_id_of item, sch))))"

definition is_completed :: "PlanStepInput \<Rightarrow> bool" where
  "is_completed item \<longleftrightarrow> vw_state (in_step item) = COMPLETED"

definition fixed_schedules ::
  "zone \<Rightarrow> (int \<Rightarrow> int) \<Rightarrow> PlanContext \<Rightarrow> int \<Rightarrow> (uuid \<times> WeeklyPlanStep) list \<Rightarrow> schedules \<Rightarrow> PlanStepInput list
    \<Rightarrow> weekly_error + schedules" where
  "fixed_schedules z wall_off context monday snapshots recommended_packed recommended =
     and_then (collect (completed_schedule z wall_off context monday snapshots recommended_packed)
         (filter is_completed recommended))
       (\<lambda>kvs. Inr (py_dict kvs))"

subsection \<open>The whole plan\<close>

text \<open>What the function fixes before it builds the entries.\<close>

record plan_frame =
  fr_zone :: zone
  fr_context :: PlanContext
  fr_recommended :: "PlanStepInput list"
  fr_overrides :: "PlanOverrides option"
  fr_snapshots :: "(uuid \<times> WeeklyPlanStep) list"
  fr_monday :: int
  fr_fixed :: schedules
  fr_packed :: schedules

definition snapshot_of :: "plan_frame \<Rightarrow> PlanStepInput \<Rightarrow> WeeklyPlanStep option" where
  "snapshot_of fr item = (if is_completed item then map_of (fr_snapshots fr) (step_id_of item) else None)"

definition phase_of :: "int option \<Rightarrow> Phase" where
  "phase_of level = (case level of None \<Rightarrow> CORE | Some l \<Rightarrow> if l \<le> 3 then BASIC else if 6 \<le> l then ADVANCED else CORE)"

text \<open>The official total of a requirement is not an official estimate of the remaining hours.\<close>

definition basis_of :: "PlanStepInput \<Rightarrow> int \<Rightarrow> int \<Rightarrow> HoursBasis" where
  "basis_of item hours recommended_hours =
     (let basis = (case in_metadata item of None \<Rightarrow> ESTIMATED
            | Some meta \<Rightarrow> (case md_hours_basis meta of None \<Rightarrow> ESTIMATED | Some b \<Rightarrow> b));
          official = (case in_metadata item of None \<Rightarrow> None | Some meta \<Rightarrow> md_estimated_hours meta)
      in if hours \<noteq> recommended_hours then CUSTOM_BASIS
         else if official \<noteq> None \<and> official \<noteq> Some recommended_hours then ESTIMATED else basis)"

definition entry_dates :: "plan_frame \<Rightarrow> PlanStepInput \<Rightarrow> weekly_error + int \<times> int" where
  "entry_dates fr item =
     (case map_of (fr_fixed fr) (step_id_of item) of
        Some sch \<Rightarrow> Inr (local_date (fr_zone fr) (sch_starts_at sch),
          last_occupied_date (fr_zone fr) (sch_starts_at sch) (sch_ends_at sch))
      | None \<Rightarrow> dates_of (fr_zone fr) (fr_packed fr) (fr_overrides fr = None) item)"

definition entry_unmet :: "plan_frame \<Rightarrow> PlanStepInput \<Rightarrow> weekly_error + uuid list" where
  "entry_unmet fr item =
     (if is_completed item then Inr []
      else unmet_of (fr_recommended fr) (fr_packed fr) (fr_overrides fr = None) item)"

definition entry_exact :: "plan_frame \<Rightarrow> PlanStepInput \<Rightarrow> datetime option \<times> datetime option" where
  "entry_exact fr item =
     (case map_of (fr_packed fr) (step_id_of item) of
        Some sch \<Rightarrow> (Some (sch_starts_at sch), Some (sch_ends_at sch))
      | None \<Rightarrow> (vw_planned_start (in_step item), vw_planned_end (in_step item)))"

definition entry_hours :: "plan_frame \<Rightarrow> PlanStepInput \<Rightarrow> int" where
  "entry_hours fr item = (case snapshot_of fr item of
       Some snap \<Rightarrow> wp_hours snap | None \<Rightarrow> plan_hours (fr_context fr) (fr_overrides fr) item)"

definition entry_allocations :: "plan_frame \<Rightarrow> PlanStepInput \<Rightarrow> weekly_error + WeeklyPlanAllocation list" where
  "entry_allocations fr item =
     (case snapshot_of fr item of
        Some snap \<Rightarrow> Inr (wp_week_allocations snap)
      | None \<Rightarrow>
          if fr_overrides fr \<noteq> None \<or> \<not> has_solver_dates item
          then and_then (schedule_get (fr_packed fr) (step_id_of item)) (\<lambda>sch. Inr (sch_allocations sch))
          else Inr (exact_allocations (fr_zone fr) (fr_context fr) item (fr_monday fr)))"

definition string_criteria :: "JsonValue list \<Rightarrow> string list" where
  "string_criteria vs = List.map_filter (\<lambda>v. case v of JStr s \<Rightarrow> Some s | _ \<Rightarrow> None) vs"

definition position_in :: "PlanStepInput list \<Rightarrow> PlanStepInput \<Rightarrow> int" where
  "position_in items item =
     dict_get (py_dict (zip (map step_id_of items) (map int [1..<length items + 1]))) (step_id_of item) 0"

definition plan_entry :: "plan_frame \<Rightarrow> int \<times> PlanStepInput \<Rightarrow> weekly_error + WeeklyPlanStep" where
  "plan_entry fr = (\<lambda>(number, item).
     and_then (entry_dates fr item) (\<lambda>(first_date, last_date).
     and_then (entry_unmet fr item) (\<lambda>unmet.
     and_then (entry_allocations fr item) (\<lambda>allocations.
       let meta = in_metadata item;
           level = (case meta of None \<Rightarrow> None | Some m \<Rightarrow> md_ncs_level m);
           recommended_hours = hours_for (fr_context fr) item;
           hours = entry_hours fr item;
           (exact_start, exact_end) = entry_exact fr item;
           (key, name) = identity_of_step item
       in Inr \<lparr>wp_step_id = step_id_of item, wp_number = number,
            wp_recommended_number = position_in (fr_recommended fr) item,
            wp_title = title_of item, wp_name = name, wp_requirement_key = key,
            wp_state = vw_state (in_step item), wp_phase = phase_of level, wp_ncs_level = level,
            wp_field_code = (case meta of None \<Rightarrow> None | Some m \<Rightarrow> md_field_code m),
            wp_field_name = (case meta of None \<Rightarrow> None | Some m \<Rightarrow> md_field_name m),
            wp_hours = hours, wp_recommended_hours = recommended_hours,
            wp_hours_basis = basis_of item hours recommended_hours,
            wp_demand_pct = (case meta of None \<Rightarrow> None | Some m \<Rightarrow> md_demand_pct m),
            wp_start_week = (first_date - fr_monday fr) div 7 + 1,
            wp_end_week = (last_date - fr_monday fr) div 7 + 1,
            wp_start_date = first_date, wp_end_date = last_date,
            wp_reason = reason_of (fr_recommended fr) item,
            wp_moved = (number \<noteq> position_in (fr_recommended fr) item),
            wp_prerequisite_step_ids = vw_prerequisite_step_ids (in_step item),
            wp_unmet_prerequisite_step_ids = unmet,
            wp_completion_criteria = string_criteria (vw_criteria (in_step item)),
            wp_week_allocations = allocations,
            wp_planned_start_at = exact_start, wp_planned_end_at = exact_end\<rparr>))))"

definition violation_of :: "WeeklyPlanStep \<Rightarrow> WeeklyPlanWarning option" where
  "violation_of e = (if wp_unmet_prerequisite_step_ids e = [] then None
     else Some (PREREQUISITE_VIOLATION (wp_name e) (wp_step_id e) (wp_unmet_prerequisite_step_ids e)))"

text \<open>\<open>max(values, default=d)\<close> of days or weeks.\<close>

definition max_of :: "int \<Rightarrow> int list \<Rightarrow> int" where
  "max_of d xs = (case xs of [] \<Rightarrow> d | y # ys \<Rightarrow> foldl max y ys)"

definition plan_start_of :: "PlanContext \<Rightarrow> PlanStepInput list \<Rightarrow> datetime" where
  "plan_start_of context recommended =
     (case List.map_filter (vw_planned_start \<circ> in_step) (filter has_solver_dates recommended) of
        [] \<Rightarrow> px_created_at context | d # ds \<Rightarrow> dt_min d ds)"

definition plan_monday :: "zone \<Rightarrow> PlanContext \<Rightarrow> PlanStepInput list \<Rightarrow> int" where
  "plan_monday z context recommended =
     (let day = local_date z (plan_start_of context recommended) in day - weekday_of day)"

definition missing_dates :: "PlanStepInput list \<Rightarrow> uuid list" where
  "missing_dates recommended = map step_id_of (filter (\<lambda>item. \<not> has_solver_dates item) recommended)"

definition days_past :: "int option \<Rightarrow> int \<Rightarrow> int" where
  "days_past target completion = (case target of None \<Rightarrow> 0 | Some t \<Rightarrow> max 0 (completion - t))"

definition saved_in_zone :: "zone \<Rightarrow> PlanOverrides option \<Rightarrow> datetime option" where
  "saved_in_zone z overrides = (case overrides of None \<Rightarrow> None | Some ov \<Rightarrow> map_option (astimezone z) (po_saved_at ov))"

definition weekly_response ::
  "plan_frame \<Rightarrow> int \<Rightarrow> (int \<times> int) list \<Rightarrow> WeeklyPlanStep list \<Rightarrow> WeeklyPlanResponse" where
  "weekly_response fr version recommended_dates entries =
     (let context = fr_context fr; overrides = fr_overrides fr;
          missing = missing_dates (fr_recommended fr);
          completion = max_of (fr_monday fr) (map wp_end_date entries);
          past = days_past (px_target_date context) completion
      in \<lparr>wr_version = version, wr_roadmap_id = px_roadmap_id context, wr_start_date = fr_monday fr,
          wr_target_date = px_target_date context,
          wr_weekly_hours = (case overrides of None \<Rightarrow> px_recommended_weekly_hours context | Some ov \<Rightarrow> po_weekly_hours ov),
          wr_recommended_weekly_hours = px_recommended_weekly_hours context,
          wr_rest_weeks = (case overrides of None \<Rightarrow> [] | Some ov \<Rightarrow> sort (po_rest_weeks ov)),
          wr_is_customized = (overrides \<noteq> None),
          wr_saved_at = saved_in_zone (fr_zone fr) overrides,
          wr_total_hours = sum_list (map wp_hours entries),
          wr_total_weeks = max_of 0 (map wp_end_week entries),
          wr_completion_date = completion,
          wr_recommended_completion_date = max_of (fr_monday fr) (map snd recommended_dates),
          wr_schedule_source = (if overrides \<noteq> None then CUSTOM_SCHEDULE
             else if missing \<noteq> [] then FALLBACK_SCHEDULE else SOLVER_SCHEDULE),
          wr_deadline_exceeded = (past \<noteq> 0), wr_days_past_target = past,
          wr_has_dependency_violations = list_ex (\<lambda>e. wp_unmet_prerequisite_step_ids e \<noteq> []) entries,
          wr_warnings = (if missing = [] then [] else [MISSING_SOLVER_SCHEDULE missing])
            @ List.map_filter violation_of entries
            @ (if past = 0 then [] else [TARGET_DATE_EXCEEDED completion (px_target_date context) past]),
          wr_steps = entries\<rparr>)"

definition build_weekly_plan ::
  "zone \<Rightarrow> (int \<Rightarrow> int) \<Rightarrow> PlanContext \<Rightarrow> PlanStepInput list \<Rightarrow> PlanOverrides option \<Rightarrow> WeeklyPlanResponse run" where
  "build_weekly_plan z wall_off context items requested =
     (let recommended = recommended_order items;
          overrides = effective_overrides context recommended requested;
          ordered = ordered_steps recommended requested;
          plan_start = plan_start_of context recommended;
          monday = plan_monday z context recommended
      in run_then (if missing_dates recommended = [] then Some (Inr [])
            else pack z wall_off context recommended None plan_start monday []) (\<lambda>recommended_packed.
         run_then (Some (fixed_schedules z wall_off context monday (snapshots_of requested) recommended_packed recommended))
           (\<lambda>fixed.
         run_then (if overrides = None then Some (Inr (AList.updates (map fst fixed) (map snd fixed) recommended_packed))
            else pack z wall_off context ordered overrides plan_start monday fixed) (\<lambda>packed.
         let fr = \<lparr>fr_zone = z, fr_context = context, fr_recommended = recommended, fr_overrides = overrides,
                   fr_snapshots = snapshots_of requested, fr_monday = monday, fr_fixed = fixed, fr_packed = packed\<rparr>
         in Some (and_then (collect (dates_of z recommended_packed True) recommended) (\<lambda>recommended_dates.
            and_then (collect (plan_entry fr) (zip (map int [1..<length ordered + 1]) ordered)) (\<lambda>entries.
            Inr (weekly_response fr (case requested of None \<Rightarrow> 0 | Some ov \<Rightarrow> po_version ov) recommended_dates entries))))))))"

end
