(* ===== verification/Weekly_Planning.thy ===== *)
theory Weekly_Planning
  imports Weekly_Plan
begin

section \<open>What a weekly plan guarantees\<close>

text \<open>
  \<open>build_weekly_plan\<close> returns for every plan of distinct steps with positive hours; the only error it
  raises is that the calendar is too short. The lemmas follow the function: the order of the
  overrides is a permutation of the steps, completed steps have a fixed schedule, every step has a
  schedule where its entry needs one (\<open>frame_ok\<close>), and so every entry can be built.
\<close>

subsection \<open>Steps by their key and the order of the overrides\<close>

lemma by_id_eq: "distinct (map step_id_of items) \<Longrightarrow> by_id items = map_of (map (\<lambda>item. (step_id_of item, item)) items)"
  by (simp add: by_id_def py_dict_distinct comp_def)

lemma by_id_Some: "distinct (map step_id_of items) \<Longrightarrow> by_id items k = Some item \<longleftrightarrow> item \<in> set items \<and> step_id_of item = k"
  by (auto simp: by_id_eq map_of_eq_Some_iff comp_def)

lemma by_id_None: "by_id items k = None \<longleftrightarrow> k \<notin> step_id_of ` set items"
proof -
  have "fst ` set (py_dict kvs) = fst ` set kvs" for kvs :: "('a \<times> 'b) list"
  proof (induction kvs rule: rev_induct)
    case (snoc kv kvs)
    obtain k v where kv: "kv = (k, v)" by (cases kv)
    have "set (map fst (AList.update k v (py_dict kvs))) = insert k (fst ` set (py_dict kvs))"
      by (simp only: update_keys) (auto)
    then show ?case using snoc by (simp add: kv py_dict_snoc)
  qed (simp add: py_dict_def)
  from this [of "map (\<lambda>item. (step_id_of item, item)) items"]
  have "fst ` set (py_dict (map (\<lambda>item. (step_id_of item, item)) items)) = step_id_of ` set items"
    by (simp add: image_image)
  then show ?thesis by (simp add: by_id_def map_of_eq_None_iff)
qed

lemma by_id_cong:
  assumes "distinct (map step_id_of items)" and "mset items = mset items'"
  shows "by_id items = by_id items'"
proof
  fix k
  have ids: "distinct (map step_id_of items')" using assms by (metis mset_map mset_eq_imp_distinct_iff)
  have same: "set items = set items'" by (rule mset_eq_setD) (rule assms(2))
  show "by_id items k = by_id items' k"
  proof (cases "by_id items' k")
    case None
    then have "k \<notin> step_id_of ` set items" unfolding by_id_None same .
    with None show ?thesis by (simp flip: by_id_None)
  next
    case (Some item)
    then have "by_id items k = Some item" unfolding by_id_Some [OF ids] by_id_Some [OF assms(1)] same .
    with Some show ?thesis by simp
  qed
qed

lemma waiting_of_cong: "distinct (map step_id_of items) \<Longrightarrow> mset items = mset items' \<Longrightarrow> waiting_of items = waiting_of items'"
  by (rule ext) (simp only: waiting_of_def by_id_cong [of items items'])

lemma map_filter_by_id:
  assumes "distinct (map step_id_of items)" and "set ks \<subseteq> step_id_of ` set items"
  shows "map step_id_of (List.map_filter (by_id items) ks) = ks" "set (List.map_filter (by_id items) ks) \<subseteq> set items"
proof -
  have "map step_id_of (List.map_filter (by_id items) ks) = ks \<and> set (List.map_filter (by_id items) ks) \<subseteq> set items"
    using assms(2)
  proof (induction ks)
    case (Cons k ks)
    then obtain item where item: "by_id items k = Some item" using by_id_None [of items k] by fastforce
    then have "item \<in> set items \<and> step_id_of item = k" using by_id_Some [OF assms(1)] by blast
    with Cons item show ?case by (simp add: map_filter_simps)
  qed (simp add: map_filter_simps)
  then show "map step_id_of (List.map_filter (by_id items) ks) = ks" "set (List.map_filter (by_id items) ks) \<subseteq> set items"
    by simp_all
qed

lemma order_of_mset:
  assumes "distinct (map step_id_of items)" and "distinct (po_order ov)"
  shows "mset (order_of items ov) = mset items"
proof -
  define known where "known = filter (\<lambda>key. by_id items key \<noteq> None) (po_order ov)"
  define keys where "keys = known @ filter (\<lambda>key. key \<notin> set known) (map step_id_of items)"
  have sub: "set keys \<subseteq> step_id_of ` set items" by (auto simp: keys_def known_def by_id_None)
  have "distinct keys" using assms by (auto simp: keys_def known_def)
  moreover have order: "order_of items ov = List.map_filter (by_id items) keys"
    by (simp add: order_of_def keys_def known_def Let_def)
  moreover note m = map_filter_by_id [OF assms(1) sub]
  ultimately have "distinct (map step_id_of (order_of items ov))" by simp
  then have "distinct (order_of items ov)" by (simp add: distinct_map)
  moreover have "set (order_of items ov) = set items"
  proof
    show "set (order_of items ov) \<subseteq> set items" using m(2) by (simp add: order)
    show "set items \<subseteq> set (order_of items ov)"
    proof
      fix item assume item: "item \<in> set items"
      then have "step_id_of item \<in> set keys" by (auto simp: keys_def)
      then have "step_id_of item \<in> step_id_of ` set (order_of items ov)" using m(1) by (metis list.set_map order)
      then obtain x where "x \<in> set (order_of items ov)" "step_id_of x = step_id_of item" by auto
      with item m(2) assms(1) show "item \<in> set (order_of items ov)"
        by (auto simp: order distinct_map dest: inj_onD)
    qed
  qed
  moreover have "distinct items" using assms(1) by (simp add: distinct_map)
  ultimately show ?thesis by (simp add: set_eq_iff_mset_eq_distinct)
qed

lemma recommended_order_mset [simp]: "mset (recommended_order items) = mset items"
  by (simp add: recommended_order_def)

lemma recommended_order_set [simp]: "set (recommended_order items) = set items"
  by (simp add: recommended_order_def)

lemma ordered_steps_mset:
  assumes "distinct (map step_id_of items)" and "case requested of None \<Rightarrow> True | Some ov \<Rightarrow> distinct (po_order ov)"
  shows "mset (ordered_steps items requested) = mset items"
  using assms order_of_mset by (auto simp: ordered_steps_def split: option.splits)

lemma distinct_ids_mset: "distinct (map step_id_of items) \<Longrightarrow> mset items = mset items' \<Longrightarrow> distinct (map step_id_of items')"
  by (metis mset_map mset_eq_imp_distinct_iff)

lemma collect_ok:
  assumes "\<And>x. x \<in> set xs \<Longrightarrow> \<exists>y. f x = Inr y"
  shows "\<exists>ys. collect f xs = Inr ys"
proof -
  have "f x = Inr (SOME y. f x = Inr y)" if "x \<in> set xs" for x using assms [OF that] by (rule someI_ex)
  then have "collect f xs = Inr (map (\<lambda>x. SOME y. f x = Inr y) xs)" by (rule collect_total)
  then show ?thesis by blast
qed

lemma pack_result:
  assumes "midnight_follows z wall_off" and "plan_input_ok ctx ordered overrides fixed"
  shows "pack z wall_off ctx ordered overrides plan_start monday fixed = Some (Inl WeeklyPlanSchedulingError)
    \<or> (\<exists>f. pack z wall_off ctx ordered overrides plan_start monday fixed
          = Some (Inr (fixed @ map (\<lambda>item. (step_id_of item, f (step_id_of item))) (open_steps fixed ordered))))"
proof -
  from pack_rule [where X = "\<lambda>_ _. True", OF assms, of plan_start monday] obtain r where
    r: "pack z wall_off ctx ordered overrides plan_start monday fixed = Some r" and
    c: "case r of Inl e \<Rightarrow> e = WeeklyPlanSchedulingError
      | Inr packed \<Rightarrow> \<exists>f. packed = fixed @ map (\<lambda>item. (step_id_of item, f (step_id_of item))) (open_steps fixed ordered)"
    by (fastforce split: sum.splits)
  then show ?thesis by (cases r) auto
qed

definition plannable :: "PlanContext \<Rightarrow> PlanStepInput list \<Rightarrow> PlanOverrides option \<Rightarrow> bool" where
  "plannable ctx items requested \<longleftrightarrow> distinct (map step_id_of items)
     \<and> list_all (\<lambda>item. 0 < hours_for ctx item) items
     \<and> (case requested of None \<Rightarrow> True
        | Some ov \<Rightarrow> distinct (po_order ov) \<and> list_all (\<lambda>item. 0 < plan_hours ctx (Some ov) item) items)"

definition frame_ok ::
  "(int \<Rightarrow> int) \<Rightarrow> PlanStepInput list \<Rightarrow> PlanOverrides option \<Rightarrow> plan_frame \<Rightarrow> bool" where
  "frame_ok wall_off items requested fr \<longleftrightarrow>
     (\<forall>item \<in> set items. (map_of (fr_fixed fr) (step_id_of item) = None) = (\<not> is_completed item)
        \<and> (is_completed item \<longrightarrow> map_of (fr_packed fr) (step_id_of item) = map_of (fr_fixed fr) (step_id_of item))
        \<and> (fr_overrides fr \<noteq> None \<or> \<not> has_solver_dates item \<longrightarrow> map_of (fr_packed fr) (step_id_of item) \<noteq> None)
        \<and> (fr_overrides fr \<noteq> None \<or> missing_dates items \<noteq> [] \<longrightarrow> map_of (fr_packed fr) (step_id_of item) \<noteq> None)
        \<and> (\<forall>snap. is_completed item \<longrightarrow> map_of (fr_snapshots fr) (step_id_of item) = Some snap
             \<longrightarrow> map_of (fr_fixed fr) (step_id_of item) = Some (snapshot_schedule (fr_zone fr) wall_off snap)))"

lemma completed_schedule_ok:
  assumes "has_solver_dates item \<or> map_of packed (step_id_of item) \<noteq> None"
  shows "\<exists>sch. completed_schedule z wall_off ctx monday snaps packed item = Inr (step_id_of item, sch)
    \<and> (\<forall>snap. map_of snaps (step_id_of item) = Some snap \<longrightarrow> sch = snapshot_schedule z wall_off snap)"
  using assms by (auto simp: completed_schedule_def has_solver_dates_def schedule_get_def split: option.splits)

lemma fixed_schedules_ok:
  assumes ids: "distinct (map step_id_of items)"
    and known: "\<forall>item \<in> set items. has_solver_dates item \<or> map_of packed (step_id_of item) \<noteq> None"
  shows "\<exists>fixed. fixed_schedules z wall_off ctx monday snaps packed items = Inr fixed
    \<and> map fst fixed = map step_id_of (filter is_completed items)
    \<and> (\<forall>item \<in> set items. is_completed item \<longrightarrow> (\<forall>snap. map_of snaps (step_id_of item) = Some snap
         \<longrightarrow> map_of fixed (step_id_of item) = Some (snapshot_schedule z wall_off snap)))"
proof -
  define g where "g item = (SOME sch. completed_schedule z wall_off ctx monday snaps packed item = Inr (step_id_of item, sch)
    \<and> (\<forall>snap. map_of snaps (step_id_of item) = Some snap \<longrightarrow> sch = snapshot_schedule z wall_off snap))" for item
  have g: "completed_schedule z wall_off ctx monday snaps packed item = Inr (step_id_of item, g item)
    \<and> (\<forall>snap. map_of snaps (step_id_of item) = Some snap \<longrightarrow> g item = snapshot_schedule z wall_off snap)"
    if "item \<in> set items" for item
    unfolding g_def by (rule someI_ex, rule completed_schedule_ok) (use known that in blast)
  let ?kvs = "map (\<lambda>item. (step_id_of item, g item)) (filter is_completed items)"
  have dist: "distinct (map fst ?kvs)" using ids by (simp add: comp_def distinct_map_filter)
  have "collect (completed_schedule z wall_off ctx monday snaps packed) (filter is_completed items) = Inr ?kvs"
    by (rule collect_total) (use g in auto)
  then have "fixed_schedules z wall_off ctx monday snaps packed items = Inr ?kvs"
    by (simp add: fixed_schedules_def py_dict_distinct [OF dist])
  moreover have "map_of ?kvs (step_id_of item) = Some (g item)" if "item \<in> set items" "is_completed item" for item
    using that dist by (intro map_of_is_SomeI) auto
  ultimately show ?thesis using g by (fastforce simp: comp_def)
qed

lemma open_steps_none: "open_steps [] items = items"
  by (simp add: open_steps_def)

lemma map_of_keyed: "item \<in> set items \<Longrightarrow> map_of (map (\<lambda>item. (step_id_of item, f (step_id_of item))) items) (step_id_of item) = Some (f (step_id_of item))"
  by (induction items) auto

lemma plan_hours_none: "plan_hours ctx None item = hours_for ctx item"
  by (simp add: plan_hours_def)

lemma effective_cases:
  "effective_overrides ctx items requested = None
    \<or> (\<exists>ov. requested = Some ov \<and> effective_overrides ctx items requested = Some ov)"
  by (auto simp: effective_overrides_def split: option.splits)

lemma missing_dates_cong: "set items = set items' \<Longrightarrow> missing_dates items = [] \<longleftrightarrow> missing_dates items' = []"
  by (auto simp: missing_dates_def filter_empty_conv)

lemma missing_dates_iff: "missing_dates items \<noteq> [] \<longleftrightarrow> (\<exists>item \<in> set items. \<not> has_solver_dates item)"
  by (auto simp: missing_dates_def filter_empty_conv)

text \<open>The frame of a plan, once packing succeeded.\<close>

definition frame_of ::
  "zone \<Rightarrow> PlanContext \<Rightarrow> PlanStepInput list \<Rightarrow> PlanOverrides option \<Rightarrow> schedules \<Rightarrow> schedules \<Rightarrow> plan_frame" where
  "frame_of z ctx items requested fixed packed =
     \<lparr>fr_zone = z, fr_context = ctx, fr_recommended = recommended_order items,
      fr_overrides = effective_overrides ctx (recommended_order items) requested,
      fr_snapshots = snapshots_of requested, fr_monday = plan_monday z ctx (recommended_order items),
      fr_fixed = fixed, fr_packed = packed\<rparr>"

definition plan_of_frame ::
  "plan_frame \<Rightarrow> schedules \<Rightarrow> PlanOverrides option \<Rightarrow> weekly_error + WeeklyPlanResponse" where
  "plan_of_frame fr recommended_packed requested =
     and_then (collect (dates_of (fr_zone fr) recommended_packed True) (fr_recommended fr)) (\<lambda>recommended_dates.
     and_then (collect (plan_entry fr) (zip (map int [1..<length (ordered_steps (fr_recommended fr) requested) + 1])
         (ordered_steps (fr_recommended fr) requested))) (\<lambda>entries.
     Inr (weekly_response fr (case requested of None \<Rightarrow> 0 | Some ov \<Rightarrow> po_version ov) recommended_dates entries)))"

lemma map_of_keyed_None:
  "item \<in> set items \<Longrightarrow> (map_of (map (\<lambda>item. (step_id_of item, f (step_id_of item))) items) (step_id_of item) = None) = False"
  by (simp add: map_of_keyed)

lemma sum_bump: "sum_list (map snd (bump w d)) = sum_list (map snd d) + 1"
proof -
  have "sum_list (map snd (AList.update w (dict_get d w 0 + c) d)) = sum_list (map snd d) + c" for c
    by (induction d) (auto simp: dict_get_def)
  then show ?thesis by (simp add: bump_def)
qed

lemma sum_week_totals: "sum_list (map snd (week_totals pk W k)) = hours_of W k"
proof (induction W rule: rev_induct)
  case (snoc w W)
  then show ?case by (cases "fst w = k") (auto simp: week_totals_def hours_of_def sum_bump)
qed (simp add: week_totals_def hours_of_def)

lemma schedule_total: "sum_list (map wa_hours (sch_allocations (schedule_of pk W k))) = hours_of W k"
proof -
  have "wa_hours \<circ> (\<lambda>(w, h). \<lparr>wa_week = w, wa_hours = h\<rparr>) = snd" by auto
  then show ?thesis by (simp add: schedule_of_def sum_week_totals)
qed

lemma pack_hours:
  assumes "midnight_follows z wall_off" and "plan_input_ok ctx ordered overrides fixed"
    and packed: "pack z wall_off ctx ordered overrides plan_start monday fixed = Some (Inr packed)"
    and item: "item \<in> set (open_steps fixed ordered)"
  shows "\<exists>sch. map_of packed (step_id_of item) = Some sch
    \<and> sum_list (map wa_hours (sch_allocations sch)) = plan_hours ctx overrides item"
proof -
  have dist: "distinct (map step_id_of (open_steps fixed ordered))"
    using assms(2) by (simp add: plan_input_ok_def open_steps_def distinct_map_filter)
  from pack_rule [where X = "\<lambda>_ _. True", OF assms(1,2), of plan_start monday] packed
  obtain W pk where "\<forall>item \<in> set (open_steps fixed ordered). hours_of W (step_id_of item) = plan_hours ctx overrides item"
    "packed = fixed @ map (\<lambda>item. (step_id_of item, schedule_of pk W (step_id_of item))) (open_steps fixed ordered)"
    by fastforce
  with map_of_packed [OF dist item] item show ?thesis by (simp add: schedule_total)
qed

text \<open>Without overrides an unfinished step that has no solver dates is packed with all its hours.\<close>

definition default_hours :: "PlanContext \<Rightarrow> PlanStepInput list \<Rightarrow> schedules \<Rightarrow> bool" where
  "default_hours ctx items packed \<longleftrightarrow>
     (\<forall>item \<in> set items. \<not> is_completed item \<longrightarrow> \<not> has_solver_dates item
        \<longrightarrow> (\<exists>sch. map_of packed (step_id_of item) = Some sch
             \<and> sum_list (map wa_hours (sch_allocations sch)) = plan_hours ctx None item))"

lemma recommended_packed_ok:
  fixes plan_start :: datetime and monday :: int
  assumes zone: "midnight_follows z wall_off" and input: "plannable ctx items requested"
  defines "m \<equiv> (if missing_dates (recommended_order items) = [] then Some (Inr [])
      else pack z wall_off ctx (recommended_order items) None plan_start monday [])"
  shows "m = Some (Inl WeeklyPlanSchedulingError)
    \<or> (\<exists>packed. m = Some (Inr packed) \<and> (missing_dates items \<noteq> [] \<longrightarrow> (\<forall>item \<in> set items. map_of packed (step_id_of item) \<noteq> None))
         \<and> default_hours ctx items packed)"
proof (cases "missing_dates items = []")
  case False
  let ?rec = "recommended_order items"
  have "plan_input_ok ctx ?rec None []"
    using input distinct_ids_mset [of items ?rec]
    by (auto simp: plan_input_ok_def plannable_def open_steps_none plan_hours_none list_all_iff)
  note ok = this
  have m: "m = pack z wall_off ctx ?rec None plan_start monday []"
    using False missing_dates_cong [of items ?rec] by (simp add: m_def)
  from pack_result [OF zone ok, of plan_start monday] show ?thesis
  proof (elim disjE exE)
    fix f assume packed: "pack z wall_off ctx ?rec None plan_start monday []
      = Some (Inr ([] @ map (\<lambda>item. (step_id_of item, f (step_id_of item))) (open_steps [] ?rec)))"
    have "default_hours ctx items ([] @ map (\<lambda>item. (step_id_of item, f (step_id_of item))) (open_steps [] ?rec))"
      using pack_hours [OF zone ok packed] by (auto simp: default_hours_def open_steps_none)
    with packed show ?thesis unfolding m
      by (intro disjI2 exI conjI) (assumption, auto simp: open_steps_none map_of_keyed_None simp del: not_None_eq)
  qed (simp add: m)
next
  case True
  then show ?thesis
    using missing_dates_cong [of items "recommended_order items"]
    by (auto simp: m_def default_hours_def missing_dates_def filter_empty_conv)
qed

lemma map_of_updated:
  assumes "distinct (map fst fixed)"
  shows "map_of (AList.updates (map fst fixed) (map snd fixed) rp) k
    = (case map_of fixed k of None \<Rightarrow> map_of rp k | Some v \<Rightarrow> Some v)"
proof -
  have "map_of (rev fixed) = map_of fixed"
    using assms by (subst map_of_inject_set) (simp_all flip: rev_map)
  then have "map_of (AList.updates (map fst fixed) (map snd fixed) rp) = map_of rp ++ map_of fixed"
    by (simp add: updates_conv' map_upds_def zip_map_fst_snd)
  then show ?thesis by (simp add: map_add_def)
qed

lemma frame_ok_recommended:
  assumes "distinct (map step_id_of items)"
    and fixed: "map fst fixed = map step_id_of (filter is_completed (recommended_order items))"
      "\<forall>item \<in> set items. is_completed item \<longrightarrow> (\<forall>snap. map_of (snapshots_of requested) (step_id_of item) = Some snap
         \<longrightarrow> map_of fixed (step_id_of item) = Some (snapshot_schedule z wall_off snap))"
    and none: "effective_overrides ctx (recommended_order items) requested = None"
    and rp: "missing_dates items \<noteq> [] \<longrightarrow> (\<forall>item \<in> set items. map_of rp (step_id_of item) \<noteq> None)"
  shows "frame_ok wall_off items requested
    (frame_of z ctx items requested fixed (AList.updates (map fst fixed) (map snd fixed) rp))"
proof -
  have dist: "distinct (map step_id_of (recommended_order items))" using assms(1) distinct_ids_mset by fastforce
  have key: "map_of fixed (step_id_of item) = None \<longleftrightarrow> \<not> is_completed item" if "item \<in> set items" for item
  proof -
    have "map_of fixed (step_id_of item) = None \<longleftrightarrow> step_id_of item \<notin> set (map fst fixed)" by (simp add: map_of_eq_None_iff)
    also have "\<dots> \<longleftrightarrow> \<not> is_completed item"
      unfolding fixed(1) using that assms(1) by (auto simp: distinct_map dest: inj_onD)
    finally show ?thesis .
  qed
  have dfix: "distinct (map fst fixed)" unfolding fixed(1) using dist by (simp add: distinct_map_filter)
  note upd = map_of_updated [OF dfix]
  have "missing_dates items \<noteq> []" if "item \<in> set items" "\<not> has_solver_dates item" for item
    using that by (auto simp: missing_dates_iff)
  then show ?thesis
    using key fixed(2) rp none by (auto simp: frame_ok_def frame_of_def upd split: option.splits)
qed

lemma fixed_key:
  assumes "distinct (map step_id_of items)"
    and "map fst fixed = map step_id_of (filter is_completed (recommended_order items))" and "item \<in> set items"
  shows "(map_of fixed (step_id_of item) = None) = (\<not> is_completed item)"
proof -
  have "map_of fixed (step_id_of item) = None \<longleftrightarrow> step_id_of item \<notin> set (map fst fixed)" by (simp add: map_of_eq_None_iff)
  also have "\<dots> \<longleftrightarrow> \<not> is_completed item"
    unfolding assms(2) using assms(1,3) by (auto simp: distinct_map dest: inj_onD)
  finally show ?thesis .
qed

lemma frame_ok_custom:
  assumes ids: "distinct (map step_id_of items)" and order: "set ordered = set items"
    and fixed: "map fst fixed = map step_id_of (filter is_completed (recommended_order items))"
      "\<forall>item \<in> set items. is_completed item \<longrightarrow> (\<forall>snap. map_of (snapshots_of requested) (step_id_of item) = Some snap
         \<longrightarrow> map_of fixed (step_id_of item) = Some (snapshot_schedule z wall_off snap))"
    and packed: "packed = fixed @ map (\<lambda>item. (step_id_of item, f (step_id_of item))) (open_steps fixed ordered)"
  shows "frame_ok wall_off items requested (frame_of z ctx items requested fixed packed)"
proof -
  note key = fixed_key [OF ids fixed(1)]
  have "map_of packed (step_id_of item) \<noteq> None
      \<and> (is_completed item \<longrightarrow> map_of packed (step_id_of item) = map_of fixed (step_id_of item))" if mem: "item \<in> set items" for item
  proof (cases "is_completed item")
    case False
    then have "item \<in> set (open_steps fixed ordered)" using key [OF that] that order by (simp add: open_steps_def)
    then show ?thesis using False by (simp add: packed map_add_def map_of_keyed split: option.splits)
  next
    case True
    then obtain sch where sch: "map_of fixed (step_id_of item) = Some sch" using key [of item, OF mem] by (cases "map_of fixed (step_id_of item)") simp_all
    have "map_of (map (\<lambda>item. (step_id_of item, f (step_id_of item))) (open_steps fixed ordered)) (step_id_of item) = None"
      using sch by (subst map_of_eq_None_iff) (auto simp: open_steps_def)
    then show ?thesis using True sch by (simp add: packed map_add_def)
  qed
  then show ?thesis using key fixed(2) by (auto simp: frame_ok_def frame_of_def)
qed

lemma build_cases:
  assumes zone: "midnight_follows z wall_off" and input: "plannable ctx items requested"
  shows "build_weekly_plan z wall_off ctx items requested = Some (Inl WeeklyPlanSchedulingError)
    \<or> (\<exists>fixed packed rp. frame_ok wall_off items requested (frame_of z ctx items requested fixed packed)
         \<and> (missing_dates items \<noteq> [] \<longrightarrow> (\<forall>item \<in> set items. map_of rp (step_id_of item) \<noteq> None))
         \<and> (effective_overrides ctx (recommended_order items) requested \<noteq> None
              \<longrightarrow> plan_input_ok ctx (ordered_steps (recommended_order items) requested) requested fixed
                \<and> pack z wall_off ctx (ordered_steps (recommended_order items) requested) requested
                    (plan_start_of ctx (recommended_order items)) (plan_monday z ctx (recommended_order items)) fixed
                    = Some (Inr packed))
         \<and> (effective_overrides ctx (recommended_order items) requested = None \<longrightarrow> default_hours ctx items packed)
         \<and> build_weekly_plan z wall_off ctx items requested
             = Some (plan_of_frame (frame_of z ctx items requested fixed packed) rp requested))"
proof -
  let ?rec = "recommended_order items" and ?ov = "effective_overrides ctx (recommended_order items) requested"
  let ?start = "plan_start_of ctx ?rec" and ?monday = "plan_monday z ctx ?rec"
  let ?ordered = "ordered_steps ?rec requested"
  let ?m = "if missing_dates ?rec = [] then Some (Inr []) else pack z wall_off ctx ?rec None ?start ?monday []"
  have ids: "distinct (map step_id_of items)" using input by (simp add: plannable_def)
  then have dist: "distinct (map step_id_of ?rec)" using distinct_ids_mset by fastforce
  have order: "mset ?ordered = mset items"
    using ordered_steps_mset [OF dist] input by (auto simp: plannable_def split: option.splits)
  then have order_set: "set ?ordered = set items" by (rule mset_eq_setD)
  from recommended_packed_ok [OF zone input, of ?start ?monday] show ?thesis
  proof (elim disjE exE conjE)
    assume "?m = Some (Inl WeeklyPlanSchedulingError)"
    then have "build_weekly_plan z wall_off ctx items requested = Some (Inl WeeklyPlanSchedulingError)"
      unfolding build_weekly_plan_def Let_def by (simp only:) (simp add: run_then_def)
    then show ?thesis ..
  next
    fix rp assume m: "?m = Some (Inr rp)"
      and rp: "missing_dates items \<noteq> [] \<longrightarrow> (\<forall>item \<in> set items. map_of rp (step_id_of item) \<noteq> None)"
      and hours: "default_hours ctx items rp"
    have "\<forall>item \<in> set ?rec. has_solver_dates item \<or> map_of rp (step_id_of item) \<noteq> None"
      using rp by (auto simp: missing_dates_iff)
    from fixed_schedules_ok [OF dist this, of z wall_off ctx ?monday "snapshots_of requested"] obtain fixed where
      fixed: "fixed_schedules z wall_off ctx ?monday (snapshots_of requested) rp ?rec = Inr fixed"
      "map fst fixed = map step_id_of (filter is_completed ?rec)"
      "\<forall>item \<in> set items. is_completed item \<longrightarrow> (\<forall>snap. map_of (snapshots_of requested) (step_id_of item) = Some snap
         \<longrightarrow> map_of fixed (step_id_of item) = Some (snapshot_schedule z wall_off snap))" by auto
    have build: "build_weekly_plan z wall_off ctx items requested =
      run_then (if ?ov = None then Some (Inr (AList.updates (map fst fixed) (map snd fixed) rp))
          else pack z wall_off ctx ?ordered ?ov ?start ?monday fixed)
        (\<lambda>packed. Some (plan_of_frame (frame_of z ctx items requested fixed packed) rp requested))"
      unfolding build_weekly_plan_def Let_def m
      by (simp add: run_then_def fixed(1) plan_of_frame_def frame_of_def)
    show ?thesis
    proof (cases "?ov = None")
      case True
      have dfix: "distinct (map fst fixed)" unfolding fixed(2) using dist by (simp add: distinct_map_filter)
      have "default_hours ctx items (AList.updates (map fst fixed) (map snd fixed) rp)"
        unfolding default_hours_def
      proof (intro ballI impI)
        fix item assume item: "item \<in> set items" "\<not> is_completed item" "\<not> has_solver_dates item"
        have "map_of fixed (step_id_of item) = None" using fixed_key [OF ids fixed(2) item(1)] item(2) by simp
        moreover have "\<exists>sch. map_of rp (step_id_of item) = Some sch
            \<and> sum_list (map wa_hours (sch_allocations sch)) = plan_hours ctx None item"
          using hours item unfolding default_hours_def by blast
        ultimately show "\<exists>sch. map_of (AList.updates (map fst fixed) (map snd fixed) rp) (step_id_of item) = Some sch
            \<and> sum_list (map wa_hours (sch_allocations sch)) = plan_hours ctx None item"
          by (simp add: map_of_updated [OF dfix])
      qed
      with True build frame_ok_recommended [OF ids fixed(2,3) True rp] rp show ?thesis
        by (auto simp: run_then_def)
    next
      case False
      with effective_cases [of ctx ?rec requested] have ov: "?ov = requested" by auto
      have custom: "requested \<noteq> None" using False ov by simp
      have "plan_input_ok ctx ?ordered requested fixed"
        using input order_set distinct_ids_mset [OF ids order [symmetric]] False ov
        by (auto simp: plan_input_ok_def plannable_def open_steps_def list_all_iff split: option.splits)
      note input' = this
      from pack_result [OF zone this, of ?start ?monday] show ?thesis
      proof (elim disjE exE)
        assume "pack z wall_off ctx ?ordered requested ?start ?monday fixed = Some (Inl WeeklyPlanSchedulingError)"
        with build custom ov show ?thesis by (simp add: run_then_def)
      next
        fix f
        let ?packed = "fixed @ map (\<lambda>item. (step_id_of item, f (step_id_of item))) (open_steps fixed ?ordered)"
        assume p: "pack z wall_off ctx ?ordered requested ?start ?monday fixed = Some (Inr ?packed)"
        have built: "build_weekly_plan z wall_off ctx items requested
            = Some (plan_of_frame (frame_of z ctx items requested fixed ?packed) rp requested)"
          using build custom ov p by (simp add: run_then_def)
        have frame: "frame_ok wall_off items requested (frame_of z ctx items requested fixed ?packed)"
          by (rule frame_ok_custom [OF ids order_set fixed(2,3) refl])
        show ?thesis
          by (rule disjI2, rule exI [of _ fixed], rule exI [of _ ?packed], rule exI [of _ rp])
            (use False rp p input' built frame in \<open>intro conjI impI; simp\<close>)
      qed
    qed
  qed
qed

lemma entry_dates_ok:
  assumes "frame_ok wall_off items requested fr" and "item \<in> set items"
  shows "\<exists>ds. entry_dates fr item = Inr ds"
proof (cases "map_of (fr_fixed fr) (step_id_of item)")
  case None
  show ?thesis
  proof (cases "map_of (fr_packed fr) (step_id_of item)")
    case n: None
    then have "fr_overrides fr = None" "has_solver_dates item" using assms by (auto simp: frame_ok_def)
    then show ?thesis using None
      by (auto simp: entry_dates_def dates_of_def has_solver_dates_def split: option.splits)
  next
    case (Some sch)
    then show ?thesis using None
      by (auto simp: entry_dates_def dates_of_def schedule_get_def split: option.splits)
  qed
qed (simp add: entry_dates_def)

lemma prerequisite_ok:
  assumes frame: "frame_ok wall_off items requested fr" and ids: "distinct (map step_id_of items)"
    and item: "item \<in> set items" and rec: "mset (fr_recommended fr) = mset items"
  shows "\<exists>b. prerequisite_unmet (fr_recommended fr) (fr_packed fr) (fr_overrides fr = None) item p = Inr b"
proof (cases "by_id (fr_recommended fr) p")
  case (Some q)
  have "q \<in> set items" "step_id_of q = p" using Some ids by_id_cong [OF ids rec [symmetric]] by_id_Some [OF ids] by simp_all
  moreover have "missing_dates items \<noteq> []" if "\<not> (has_solver_dates item \<and> has_solver_dates q)"
    using that item \<open>q \<in> set items\<close> by (auto simp: missing_dates_iff)
  ultimately have "map_of (fr_packed fr) p \<noteq> None \<and> map_of (fr_packed fr) (step_id_of item) \<noteq> None"
    if "\<not> (fr_overrides fr = None \<and> has_solver_dates item \<and> has_solver_dates q)"
    using that frame item unfolding frame_ok_def by blast
  then show ?thesis
    using Some by (auto simp: prerequisite_unmet_def schedule_get_def split: option.splits)
qed (auto simp: prerequisite_unmet_def)

lemma entry_unmet_ok:
  assumes "frame_ok wall_off items requested fr" and "distinct (map step_id_of items)"
    and "item \<in> set items" and "mset (fr_recommended fr) = mset items"
  shows "\<exists>ps. entry_unmet fr item = Inr ps"
proof -
  have "\<exists>y. and_then (prerequisite_unmet (fr_recommended fr) (fr_packed fr) (fr_overrides fr = None) item p) (\<lambda>u. Inr (p, u)) = Inr y" for p
    using prerequisite_ok [OF assms, of p] by auto
  then have "\<exists>ys. collect (\<lambda>p. and_then (prerequisite_unmet (fr_recommended fr) (fr_packed fr) (fr_overrides fr = None) item p)
      (\<lambda>u. Inr (p, u))) (vw_prerequisite_step_ids (in_step item)) = Inr ys" by (intro collect_ok)
  then show ?thesis by (auto simp: entry_unmet_def unmet_of_def)
qed

lemma entry_allocations_ok:
  assumes "frame_ok wall_off items requested fr" and "item \<in> set items"
  shows "\<exists>al. entry_allocations fr item = Inr al"
  using assms by (fastforce simp: entry_allocations_def schedule_get_def frame_ok_def split: option.splits)

lemma plan_entry_ok:
  assumes "frame_ok wall_off items requested fr" and "distinct (map step_id_of items)"
    and "item \<in> set items" and "mset (fr_recommended fr) = mset items"
  shows "\<exists>e. plan_entry fr (n, item) = Inr e"
  using entry_dates_ok [OF assms(1,3)] entry_unmet_ok [OF assms] entry_allocations_ok [OF assms(1,3)]
  by (auto simp: plan_entry_def Let_def split: prod.splits)

text \<open>What an entry holds.\<close>

lemma plan_entryD:
  assumes "plan_entry fr (n, item) = Inr e"
  shows "wp_step_id e = step_id_of item" "wp_number e = n" "wp_hours e = entry_hours fr item"
    "entry_allocations fr item = Inr (wp_week_allocations e)"
    "entry_unmet fr item = Inr (wp_unmet_prerequisite_step_ids e)"
    "entry_dates fr item = Inr (wp_start_date e, wp_end_date e)"
    "entry_exact fr item = (wp_planned_start_at e, wp_planned_end_at e)"
    "wp_state e = vw_state (in_step item)" "wp_recommended_hours e = hours_for (fr_context fr) item"
proof -
  from assms obtain first_date last_date unmet allocations where
    parts: "entry_dates fr item = Inr (first_date, last_date)" "entry_unmet fr item = Inr unmet"
      "entry_allocations fr item = Inr allocations"
    by (auto simp: plan_entry_def err_simps)
  note e = assms [unfolded plan_entry_def prod.case parts and_then_simps Let_def, symmetric]
  show "wp_step_id e = step_id_of item" "wp_number e = n" "wp_hours e = entry_hours fr item"
    "entry_allocations fr item = Inr (wp_week_allocations e)"
    "entry_unmet fr item = Inr (wp_unmet_prerequisite_step_ids e)"
    "entry_dates fr item = Inr (wp_start_date e, wp_end_date e)"
    "entry_exact fr item = (wp_planned_start_at e, wp_planned_end_at e)"
    "wp_state e = vw_state (in_step item)" "wp_recommended_hours e = hours_for (fr_context fr) item"
    using e parts by (cases "entry_exact fr item"; cases "identity_of_step item"; simp)+
qed

lemma dates_of_ok:
  assumes "missing_dates items \<noteq> [] \<longrightarrow> (\<forall>item \<in> set items. map_of rp (step_id_of item) \<noteq> None)" and "item \<in> set items"
  shows "\<exists>ds. dates_of z rp True item = Inr ds"
proof (cases "has_solver_dates item")
  case False
  then have "map_of rp (step_id_of item) \<noteq> None" using assms by (auto simp: missing_dates_iff)
  then show ?thesis using False by (auto simp: dates_of_def schedule_get_def split: option.splits)
qed (auto simp: dates_of_def has_solver_dates_def split: option.splits)

lemma plan_of_frame_ok:
  assumes "frame_ok wall_off items requested fr" and "distinct (map step_id_of items)"
    and "mset (fr_recommended fr) = mset items"
    and "missing_dates items \<noteq> [] \<longrightarrow> (\<forall>item \<in> set items. map_of rp (step_id_of item) \<noteq> None)"
    and order: "mset (ordered_steps (fr_recommended fr) requested) = mset items"
  shows "\<exists>plan. plan_of_frame fr rp requested = Inr plan
    \<and> list_all2 (\<lambda>x e. plan_entry fr x = Inr e) (zip (map int [1..<length items + 1]) (ordered_steps (fr_recommended fr) requested))
         (wr_steps plan)
    \<and> (\<exists>v ds. plan = weekly_response fr v ds (wr_steps plan))"
proof -
  let ?xs = "zip (map int [1..<length items + 1]) (ordered_steps (fr_recommended fr) requested)"
  have len: "length (ordered_steps (fr_recommended fr) requested) = length items" using order by (metis size_mset)
  have "\<exists>ds. collect (dates_of (fr_zone fr) rp True) (fr_recommended fr) = Inr ds"
    by (rule collect_ok, rule dates_of_ok [OF assms(4)]) (use assms(3) mset_eq_setD in blast)
  then obtain ds where ds: "collect (dates_of (fr_zone fr) rp True) (fr_recommended fr) = Inr ds" ..
  have "\<exists>es. collect (plan_entry fr) ?xs = Inr es"
  proof (rule collect_ok)
    fix x assume "x \<in> set ?xs"
    then have "snd x \<in> set items" using mset_eq_setD [OF order] set_zip_rightD by (metis prod.collapse)
    then show "\<exists>e. plan_entry fr x = Inr e" using plan_entry_ok [OF assms(1,2) _ assms(3)] by (cases x) simp
  qed
  then obtain es where es: "collect (plan_entry fr) ?xs = Inr es" ..
  let ?v = "case requested of None \<Rightarrow> 0 | Some ov \<Rightarrow> po_version ov"
  have "plan_of_frame fr rp requested = Inr (weekly_response fr ?v ds es)"
    using ds es by (simp add: plan_of_frame_def len)
  moreover have "wr_steps (weekly_response fr ?v ds es) = es" by (simp add: weekly_response_def Let_def)
  ultimately show ?thesis using es by (intro exI [of _ "weekly_response fr ?v ds es"]) (auto simp: collect_Inr_iff)
qed

end
