(* ===== verification/Weekly_Guarantees.thy ===== *)
theory Weekly_Guarantees
  imports Weekly_Planning
begin

section \<open>Totality, prerequisites and history of weekly plans\<close>

text \<open>
  From a built plan (\<open>built\<close> collects what the previous theory shows of one) follow the properties of
  \<open>build_weekly_plan\<close>: it returns, a customized plan violates no prerequisite, and a completed
  step keeps the hours, weeks and interval of its snapshot.
\<close>

subsection \<open>A built plan\<close>

lemma weekly_response_fields:
  "wr_is_customized (weekly_response fr v ds es) = (fr_overrides fr \<noteq> None)"
  "wr_steps (weekly_response fr v ds es) = es"
  "wr_start_date (weekly_response fr v ds es) = fr_monday fr"
  "wr_has_dependency_violations (weekly_response fr v ds es) = list_ex (\<lambda>e. wp_unmet_prerequisite_step_ids e \<noteq> []) es"
  by (simp_all add: weekly_response_def Let_def)

text \<open>One fact about a plan that was built.\<close>

definition built ::
  "zone \<Rightarrow> (int \<Rightarrow> int) \<Rightarrow> PlanContext \<Rightarrow> PlanStepInput list \<Rightarrow> PlanOverrides option \<Rightarrow> WeeklyPlanResponse \<Rightarrow> plan_frame \<Rightarrow> bool" where
  "built z wall_off ctx items requested plan fr \<longleftrightarrow>
     frame_ok wall_off items requested fr \<and> fr_zone fr = z \<and> fr_context fr = ctx
     \<and> fr_recommended fr = recommended_order items \<and> fr_snapshots fr = snapshots_of requested
     \<and> fr_overrides fr = effective_overrides ctx (recommended_order items) requested
     \<and> wr_is_customized plan = (fr_overrides fr \<noteq> None)
     \<and> wr_start_date plan = plan_monday z ctx (recommended_order items)
     \<and> fr_monday fr = plan_monday z ctx (recommended_order items)
     \<and> (fr_overrides fr = None \<longrightarrow> default_hours ctx items (fr_packed fr))
     \<and> wr_has_dependency_violations plan = list_ex (\<lambda>e. wp_unmet_prerequisite_step_ids e \<noteq> []) (wr_steps plan)
     \<and> mset (ordered_steps (recommended_order items) requested) = mset items
     \<and> list_all2 (\<lambda>x e. plan_entry fr x = Inr e)
         (zip (map int [1..<length items + 1]) (ordered_steps (recommended_order items) requested)) (wr_steps plan)
     \<and> (fr_overrides fr \<noteq> None \<longrightarrow> plan_input_ok ctx (ordered_steps (recommended_order items) requested) requested (fr_fixed fr)
         \<and> pack z wall_off ctx (ordered_steps (recommended_order items) requested) requested
             (plan_start_of ctx (recommended_order items)) (plan_monday z ctx (recommended_order items)) (fr_fixed fr)
             = Some (Inr (fr_packed fr)))"

lemma build_result:
  assumes zone: "midnight_follows z wall_off" and input: "plannable ctx items requested"
  shows "build_weekly_plan z wall_off ctx items requested = Some (Inl WeeklyPlanSchedulingError)
    \<or> (\<exists>plan fr. build_weekly_plan z wall_off ctx items requested = Some (Inr plan)
         \<and> built z wall_off ctx items requested plan fr)"
  using build_cases [OF zone input]
proof (elim disjE exE conjE)
  fix fixed packed rp
  let ?fr = "frame_of z ctx items requested fixed packed"
  assume frame: "frame_ok wall_off items requested ?fr"
    and rp: "missing_dates items \<noteq> [] \<longrightarrow> (\<forall>item \<in> set items. map_of rp (step_id_of item) \<noteq> None)"
    and packed: "effective_overrides ctx (recommended_order items) requested \<noteq> None
              \<longrightarrow> plan_input_ok ctx (ordered_steps (recommended_order items) requested) requested fixed
                \<and> pack z wall_off ctx (ordered_steps (recommended_order items) requested) requested
                    (plan_start_of ctx (recommended_order items)) (plan_monday z ctx (recommended_order items)) fixed
                    = Some (Inr packed)"
    and hours: "effective_overrides ctx (recommended_order items) requested = None \<longrightarrow> default_hours ctx items packed"
    and build: "build_weekly_plan z wall_off ctx items requested = Some (plan_of_frame ?fr rp requested)"
  have ids: "distinct (map step_id_of items)" using input by (simp add: plannable_def)
  then have dist: "distinct (map step_id_of (recommended_order items))" using distinct_ids_mset by fastforce
  have order: "mset (ordered_steps (recommended_order items) requested) = mset items"
    using ordered_steps_mset [OF dist] input by (auto simp: plannable_def split: option.splits)
  have rec: "fr_recommended ?fr = recommended_order items" by (simp add: frame_of_def)
  from plan_of_frame_ok [OF frame ids _ rp] order obtain plan v ds where
    plan: "plan_of_frame ?fr rp requested = Inr plan" "plan = weekly_response ?fr v ds (wr_steps plan)"
    "list_all2 (\<lambda>x e. plan_entry ?fr x = Inr e)
       (zip (map int [1..<length items + 1]) (ordered_steps (recommended_order items) requested)) (wr_steps plan)"
    unfolding rec by auto
  have "wr_is_customized plan = (fr_overrides ?fr \<noteq> None)" "wr_start_date plan = fr_monday ?fr"
    "wr_has_dependency_violations plan = list_ex (\<lambda>e. wp_unmet_prerequisite_step_ids e \<noteq> []) (wr_steps plan)"
    using plan(2) weekly_response_fields by metis+
  then have "built z wall_off ctx items requested plan ?fr"
    using frame plan(3) packed order hours unfolding built_def frame_of_def by simp
  with build plan(1) show ?thesis by auto
qed simp

lemma list_all2_memD: "list_all2 P xs ys \<Longrightarrow> y \<in> set ys \<Longrightarrow> \<exists>x \<in> set xs. P x y"
  by (induction rule: list_all2_induct) auto

lemma built_entry:
  assumes "built z wall_off ctx items requested plan fr" and "e \<in> set (wr_steps plan)"
  shows "\<exists>n item. item \<in> set items \<and> plan_entry fr (n, item) = Inr e"
proof -
  have "list_all2 (\<lambda>x e. plan_entry fr x = Inr e)
      (zip (map int [1..<length items + 1]) (ordered_steps (recommended_order items) requested)) (wr_steps plan)"
    using assms(1) unfolding built_def by blast
  from list_all2_memD [OF this assms(2)]
  obtain x where x: "x \<in> set (zip (map int [1..<length items + 1]) (ordered_steps (recommended_order items) requested))"
    "plan_entry fr x = Inr e" by blast
  moreover have "snd x \<in> set items"
  proof -
    have "snd x \<in> set (ordered_steps (recommended_order items) requested)"
      using x(1) by (metis prod.collapse set_zip_rightD)
    moreover have "mset (ordered_steps (recommended_order items) requested) = mset items" using assms(1) unfolding built_def by blast
    ultimately show ?thesis using mset_eq_setD by blast
  qed
  ultimately show ?thesis using x(2) by (metis prod.collapse)
qed

lemma built_has_entry:
  assumes b: "built z wall_off ctx items requested plan fr" and item: "item \<in> set items"
  shows "\<exists>n e. e \<in> set (wr_steps plan) \<and> plan_entry fr (n, item) = Inr e"
proof -
  let ?xs = "ordered_steps (recommended_order items) requested"
  have order: "mset ?xs = mset items" using b by (simp add: built_def)
  have len: "length ?xs = length items" using order by (metis size_mset)
  have "item \<in> set ?xs" using mset_eq_setD [OF order] item by simp
  then obtain i where i: "i < length items" "?xs ! i = item" unfolding in_set_conv_nth len by blast
  have l2: "list_all2 (\<lambda>x e. plan_entry fr x = Inr e) (zip (map int [1..<length items + 1]) ?xs) (wr_steps plan)"
    using b unfolding built_def by blast
  then have "length (wr_steps plan) = length items" using len list_all2_lengthD [OF l2] by (simp del: upt_Suc)
  moreover have "plan_entry fr (zip (map int [1..<length items + 1]) ?xs ! i) = Inr (wr_steps plan ! i)"
    by (rule list_all2_nthD2 [OF l2]) (use calculation i(1) in simp)
  ultimately show ?thesis using i len
    by (intro exI [of _ "int (Suc i)"] exI [of _ "wr_steps plan ! i"]) (simp del: upt_Suc add: nth_upt)
qed

lemma built_ids:
  assumes b: "built z wall_off ctx items requested plan fr"
  shows "map wp_step_id (wr_steps plan) = map step_id_of (ordered_steps (recommended_order items) requested)"
    "map wp_number (wr_steps plan) = map int [1..<length items + 1]"
proof -
  let ?xs = "ordered_steps (recommended_order items) requested"
  let ?zs = "zip (map int [1..<length items + 1]) ?xs"
  have len: "length ?xs = length items" using b unfolding built_def by (metis size_mset)
  have l2: "list_all2 (\<lambda>x e. plan_entry fr x = Inr e) ?zs (wr_steps plan)" using b unfolding built_def by blast
  have eq: "map (step_id_of \<circ> snd) zs = map wp_step_id es \<and> map fst zs = map wp_number es"
    if "list_all2 (\<lambda>x e. plan_entry fr x = Inr e) zs es" for zs es
    using that by (induction rule: list_all2_induct) (auto simp: plan_entryD)
  have "map snd ?zs = ?xs" "map fst ?zs = map int [1..<length items + 1]"
    using len by (simp_all del: upt_Suc)
  with eq [OF l2] show "map wp_step_id (wr_steps plan) = map step_id_of ?xs"
    "map wp_number (wr_steps plan) = map int [1..<length items + 1]"
    by (simp_all flip: map_map del: upt_Suc)
qed

lemma built_allocations:
  assumes zone: "midnight_follows z wall_off" and b: "built z wall_off ctx items requested plan fr"
    and custom: "wr_is_customized plan" and e: "e \<in> set (wr_steps plan)" "wp_state e \<noteq> COMPLETED"
  shows "sum_list (map wa_hours (wp_week_allocations e)) = wp_hours e"
proof -
  from built_entry [OF b e(1)] obtain n item where item: "item \<in> set items" "plan_entry fr (n, item) = Inr e" by blast
  note D = plan_entryD [OF item(2)]
  have open_item: "\<not> is_completed item" using D(8) e(2) by (simp add: is_completed_def)
  have ov: "fr_overrides fr \<noteq> None" using b custom unfolding built_def by blast
  have "fr_overrides fr = effective_overrides ctx (recommended_order items) requested" using b unfolding built_def by blast
  then have req: "fr_overrides fr = requested"
    using ov effective_cases [of ctx "recommended_order items" requested] by auto
  let ?xs = "ordered_steps (recommended_order items) requested"
  have "item \<in> set ?xs" using b item(1) mset_eq_setD unfolding built_def by blast
  moreover have "map_of (fr_fixed fr) (step_id_of item) = None"
    using b item(1) open_item by (simp add: built_def frame_ok_def)
  ultimately have "item \<in> set (open_steps (fr_fixed fr) ?xs)" by (simp add: open_steps_def)
  then obtain sch where sch: "map_of (fr_packed fr) (step_id_of item) = Some sch"
    "sum_list (map wa_hours (sch_allocations sch)) = plan_hours ctx requested item"
    using b ov pack_hours [OF zone] unfolding built_def by blast
  have "wp_week_allocations e = sch_allocations sch"
    using D(4) ov open_item sch(1) by (simp add: entry_allocations_def snapshot_of_def schedule_get_def)
  moreover have "wp_hours e = plan_hours ctx requested item"
    using D(3) open_item b req by (simp add: entry_hours_def snapshot_of_def built_def)
  ultimately show ?thesis using sch(2) by simp
qed

text \<open>The weeks of an unfinished step in the plan that nobody customized.\<close>

lemma sum_exact_allocations:
  "sum_list (map wa_hours (exact_allocations z ctx item monday))
    = int (length (dict_get (px_step_allocations ctx) (vw_step_key (in_step item)) []))"
proof -
  have counts: "sum_list (map snd (foldl (\<lambda>d v. bump (f v) d) d vs)) = sum_list (map snd d) + int (length vs)"
    for f :: "datetime \<Rightarrow> int" and d :: "(int \<times> int) list" and vs
    by (induction vs arbitrary: d) (simp_all add: sum_bump)
  have snds: "wa_hours \<circ> (\<lambda>(w, h). \<lparr>wa_week = w, wa_hours = h\<rparr>) = snd" by auto
  have sorted: "sum_list (map snd (sort_key fst d)) = sum_list (map snd d)" for d :: "(int \<times> int) list"
    by (metis mset_map mset_sort sum_mset_sum_list)
  show ?thesis by (simp add: exact_allocations_def snds sorted counts)
qed

lemma default_allocations:
  assumes b: "built z wall_off ctx items requested plan fr" and default: "\<not> wr_is_customized plan"
    and item: "item \<in> set items" "plan_entry fr (n, item) = Inr e" and unfinished: "wp_state e \<noteq> COMPLETED"
  shows "if has_solver_dates item
    then wp_week_allocations e = exact_allocations z ctx item (wr_start_date plan)
    else sum_list (map wa_hours (wp_week_allocations e)) = wp_hours e"
proof -
  note D = plan_entryD [OF item(2)]
  have open_item: "\<not> is_completed item" using D(8) unfinished by (simp add: is_completed_def)
  have none: "fr_overrides fr = None" using b default unfolding built_def by blast
  have fr: "fr_zone fr = z" "fr_context fr = ctx" "fr_monday fr = wr_start_date plan"
    and hours: "default_hours ctx items (fr_packed fr)" using b none unfolding built_def by simp_all
  show ?thesis
  proof (cases "has_solver_dates item")
    case True
    then show ?thesis using D(4) none open_item fr by (simp add: entry_allocations_def snapshot_of_def)
  next
    case False
    with hours item(1) open_item obtain sch where sch: "map_of (fr_packed fr) (step_id_of item) = Some sch"
      "sum_list (map wa_hours (sch_allocations sch)) = plan_hours ctx None item" unfolding default_hours_def by blast
    have "wp_week_allocations e = sch_allocations sch"
      using D(4) False open_item sch(1) by (simp add: entry_allocations_def snapshot_of_def schedule_get_def)
    moreover have "wp_hours e = plan_hours ctx None item"
      using D(3) open_item none fr(2) by (simp add: entry_hours_def snapshot_of_def)
    ultimately show ?thesis using False sch(2) by simp
  qed
qed

lemma unfinished_allocations:
  assumes zone: "midnight_follows z wall_off" and b: "built z wall_off ctx items requested plan fr"
    and e: "e \<in> set (wr_steps plan)" "wp_state e \<noteq> COMPLETED"
  shows "\<exists>item \<in> set items. step_id_of item = wp_step_id e \<and>
    (if \<not> wr_is_customized plan \<and> has_solver_dates item
     then wp_week_allocations e = exact_allocations z ctx item (wr_start_date plan)
     else sum_list (map wa_hours (wp_week_allocations e)) = wp_hours e)"
proof -
  from built_entry [OF b e(1)] obtain n item where item: "item \<in> set items" "plan_entry fr (n, item) = Inr e" by blast
  show ?thesis
    using item(1) plan_entryD(1) [OF item(2)] built_allocations [OF zone b _ e] default_allocations [OF b _ item e(2)]
    by (intro bexI [of _ item]; cases "wr_is_customized plan"; simp)
qed

text \<open>
  C12: planning a roadmap of distinct steps with positive hours always returns; the only error it can
  raise is the exhausted calendar. A plan has each step exactly once, in the asked order and numbered
  from one. The weeks of an unfinished step depend on where its dates come from. When the plan is
  customized, or the solver gave the step no dates, the hours of its weeks add up to its hours. In a
  plan nobody customized, a step with solver dates has exactly the weeks of the slots the solver stored
  for it, one hour for each slot; these hours add up to the number of stored slots, which the code does
  not compare with the hours of the step.
\<close>

theorem weekly_plan_returns:
  assumes "midnight_follows z wall_off" and "plannable ctx items requested"
  shows "\<exists>r. build_weekly_plan z wall_off ctx items requested = Some r
    \<and> (case r of Inl e \<Rightarrow> e = WeeklyPlanSchedulingError
      | Inr plan \<Rightarrow> mset (map wp_step_id (wr_steps plan)) = mset (map step_id_of items)
          \<and> map wp_step_id (wr_steps plan) = map step_id_of (ordered_steps (recommended_order items) requested)
          \<and> map wp_number (wr_steps plan) = map int [1..<length items + 1]
          \<and> (\<forall>e \<in> set (wr_steps plan). wp_state e \<noteq> COMPLETED
               \<longrightarrow> (\<exists>item \<in> set items. step_id_of item = wp_step_id e \<and>
                  (if \<not> wr_is_customized plan \<and> has_solver_dates item
                   then wp_week_allocations e = exact_allocations z ctx item (wr_start_date plan)
                     \<and> sum_list (map wa_hours (wp_week_allocations e))
                       = int (length (dict_get (px_step_allocations ctx) (vw_step_key (in_step item)) []))
                   else sum_list (map wa_hours (wp_week_allocations e)) = wp_hours e))))"
  using build_result [OF assms]
proof (elim disjE exE conjE)
  fix plan fr assume build: "build_weekly_plan z wall_off ctx items requested = Some (Inr plan)"
    and b: "built z wall_off ctx items requested plan fr"
  have "mset (map wp_step_id (wr_steps plan)) = mset (map step_id_of items)"
    using built_ids(1) [OF b] b unfolding built_def by (metis mset_map)
  moreover have "\<exists>item \<in> set items. step_id_of item = wp_step_id e \<and>
      (if \<not> wr_is_customized plan \<and> has_solver_dates item
       then wp_week_allocations e = exact_allocations z ctx item (wr_start_date plan)
         \<and> sum_list (map wa_hours (wp_week_allocations e))
           = int (length (dict_get (px_step_allocations ctx) (vw_step_key (in_step item)) []))
       else sum_list (map wa_hours (wp_week_allocations e)) = wp_hours e)"
    if "e \<in> set (wr_steps plan)" "wp_state e \<noteq> COMPLETED" for e
    using unfinished_allocations [OF assms(1) b that] sum_exact_allocations by (metis (lifting))
  ultimately show ?thesis using build built_ids [OF b] by simp
qed simp

lemma closed_waiting:
  assumes ids: "distinct (map step_id_of items)" and same: "mset ordered = mset items"
    and b: "\<forall>item \<in> set items. (map_of fixed (step_id_of item) = None) = (\<not> is_completed item)"
    and closed: "\<forall>item \<in> set items. \<not> is_completed item \<longrightarrow> set (vw_prerequisite_step_ids (in_step item)) \<subseteq> step_id_of ` set items"
  shows "\<forall>item \<in> set (open_steps fixed ordered). waiting_of ordered (step_id_of item) \<subseteq> step_id_of ` set (open_steps fixed ordered)"
proof (intro ballI subsetI)
  fix item p assume item: "item \<in> set (open_steps fixed ordered)" and p: "p \<in> waiting_of ordered (step_id_of item)"
  have set_eq: "set ordered = set items" using same by (rule mset_eq_setD)
  have item': "item \<in> set items" "\<not> is_completed item" using item b by (auto simp: open_steps_def set_eq)
  have wait: "waiting_of ordered = waiting_of items" using waiting_of_cong [OF ids] same by metis
  have "by_id items (step_id_of item) = Some item" using by_id_Some [OF ids] item'(1) by blast
  then have p': "p \<in> set (vw_prerequisite_step_ids (in_step item))"
    "case by_id items p of None \<Rightarrow> True | Some q \<Rightarrow> vw_state (in_step q) \<noteq> COMPLETED"
    using p unfolding wait by (auto simp: waiting_of_def)
  then obtain q where q: "q \<in> set items" "step_id_of q = p" using closed item' by blast
  then have "by_id items p = Some q" using by_id_Some [OF ids] by blast
  with p'(2) have "\<not> is_completed q" by (simp add: is_completed_def)
  with q b show "p \<in> step_id_of ` set (open_steps fixed ordered)" by (auto simp: open_steps_def set_eq)
qed

text \<open>
  C13: a customized plan never reports a violated prerequisite when the prerequisites of the
  unfinished steps are in the roadmap and form no cycle, whatever order the user asked for.
\<close>

theorem custom_plan_has_no_violations:
  assumes zone: "midnight_follows z wall_off" and input: "plannable ctx items requested"
    and closed: "\<forall>item \<in> set items. \<not> is_completed item
      \<longrightarrow> set (vw_prerequisite_step_ids (in_step item)) \<subseteq> step_id_of ` set items"
    and acyclic: "acyclic {(p, k). k \<in> step_id_of ` set (filter (\<lambda>item. \<not> is_completed item) items) \<and> p \<in> waiting_of items k}"
    and build: "build_weekly_plan z wall_off ctx items requested = Some (Inr plan)" and custom: "wr_is_customized plan"
  shows "\<not> wr_has_dependency_violations plan \<and> (\<forall>e \<in> set (wr_steps plan). wp_unmet_prerequisite_step_ids e = [])"
proof -
  from build_result [OF zone input] build obtain fr where b: "built z wall_off ctx items requested plan fr" by auto
  have ids: "distinct (map step_id_of items)" using input by (simp add: plannable_def)
  let ?xs = "ordered_steps (recommended_order items) requested"
  have same: "mset ?xs = mset items" and frame: "frame_ok wall_off items requested fr"
    and rec: "fr_recommended fr = recommended_order items"
    and viol: "wr_has_dependency_violations plan = list_ex (\<lambda>e. wp_unmet_prerequisite_step_ids e \<noteq> []) (wr_steps plan)"
    and ov: "fr_overrides fr \<noteq> None" using b custom unfolding built_def by blast+
  with b have packed: "plan_input_ok ctx ?xs requested (fr_fixed fr)"
    "pack z wall_off ctx ?xs requested (plan_start_of ctx (recommended_order items))
       (plan_monday z ctx (recommended_order items)) (fr_fixed fr) = Some (Inr (fr_packed fr))"
    unfolding built_def by blast+
  have set_eq: "set ?xs = set items" using same by (rule mset_eq_setD)
  have key: "\<forall>item \<in> set items. (map_of (fr_fixed fr) (step_id_of item) = None) = (\<not> is_completed item)"
    using frame by (simp add: frame_ok_def)
  have wait: "waiting_of ?xs = waiting_of items" using waiting_of_cong [OF ids] same by metis
  have opens: "set (open_steps (fr_fixed fr) ?xs) = set (filter (\<lambda>item. \<not> is_completed item) items)"
    using key by (auto simp: open_steps_def set_eq)
  have acyclic': "acyclic {(p, k). k \<in> step_id_of ` set (open_steps (fr_fixed fr) ?xs) \<and> p \<in> waiting_of ?xs k}"
    unfolding opens wait by (rule acyclic)
  have "wp_unmet_prerequisite_step_ids e = []" if e: "e \<in> set (wr_steps plan)" for e
  proof -
    from built_entry [OF b e] obtain n item where item: "item \<in> set items" "plan_entry fr (n, item) = Inr e" by blast
    note D = plan_entryD(5) [OF item(2)]
    show ?thesis
    proof (cases "is_completed item")
      case True
      with D show ?thesis by (simp add: entry_unmet_def)
    next
      case False
      have open_item: "item \<in> set (open_steps (fr_fixed fr) ?xs)" using False item(1) unfolding opens by simp
      have "prerequisite_unmet (fr_recommended fr) (fr_packed fr) (fr_overrides fr = None) item p = Inr False"
        if p: "p \<in> set (vw_prerequisite_step_ids (in_step item))" for p
      proof -
        obtain q where q: "q \<in> set items" "step_id_of q = p" using closed item(1) False p by blast
        have by_q: "by_id (recommended_order items) p = Some q" "by_id items p = Some q"
          using q by_id_Some [OF ids] by_id_cong [OF ids recommended_order_mset [symmetric]] by auto
        show ?thesis
        proof (cases "vw_state (in_step q) = COMPLETED")
          case True
          then show ?thesis by (simp add: prerequisite_unmet_def rec by_q)
        next
          case nq: False
          have "by_id items (step_id_of item) = Some item" using by_id_Some [OF ids] item(1) by blast
          then have "p \<in> waiting_of ?xs (step_id_of item)"
            unfolding wait using p by_q(2) nq by (simp add: waiting_of_def)
          from pack_ordered [OF zone packed(1) closed_waiting [OF ids same key closed] acyclic' packed(2) open_item this]
          show ?thesis using nq ov by (auto simp: prerequisite_unmet_def rec by_q schedule_get_def)
        qed
      qed
      then have "collect (\<lambda>p. and_then (prerequisite_unmet (fr_recommended fr) (fr_packed fr) (fr_overrides fr = None) item p)
          (\<lambda>u. Inr (p, u))) (vw_prerequisite_step_ids (in_step item))
        = Inr (map (\<lambda>p. (p, False)) (vw_prerequisite_step_ids (in_step item)))" by (intro collect_total) simp
      then have "unmet_of (fr_recommended fr) (fr_packed fr) (fr_overrides fr = None) item = Inr []"
        by (simp add: unmet_of_def filter_map comp_def)
      with D False show ?thesis by (simp add: entry_unmet_def)
    qed
  qed
  then show ?thesis unfolding viol list_ex_iff by blast
qed

subsection \<open>The history of completed steps\<close>

text \<open>What a completed step keeps: its hours, its weeks and its interval.\<close>

definition history_of :: "WeeklyPlanStep \<Rightarrow> int \<times> WeeklyPlanAllocation list \<times> (datetime option \<times> datetime option) \<times> int \<times> int" where
  "history_of e = (wp_hours e, wp_week_allocations e, (wp_planned_start_at e, wp_planned_end_at e), wp_start_date e, wp_end_date e)"

text \<open>The dates of an entry are those of its exact interval.\<close>

definition exact_entry :: "zone \<Rightarrow> WeeklyPlanStep \<Rightarrow> bool" where
  "exact_entry z e \<longleftrightarrow> (case (wp_planned_start_at e, wp_planned_end_at e) of
     (Some s, Some t) \<Rightarrow> wp_start_date e = local_date z s \<and> wp_end_date e = last_occupied_date z s t | _ \<Rightarrow> False)"

lemma completed_entry:
  assumes b: "built z wall_off ctx items requested plan fr" and item: "item \<in> set items" "is_completed item"
    and e: "plan_entry fr (n, item) = Inr e"
  shows "exact_entry z e" "wp_unmet_prerequisite_step_ids e = []" "wp_state e = COMPLETED"
    "\<lbrakk> map_of (snapshots_of requested) (step_id_of item) = Some snap; exact_entry z snap \<rbrakk> \<Longrightarrow> history_of e = history_of snap"
proof -
  have frame: "frame_ok wall_off items requested fr" and z: "fr_zone fr = z" and sn: "fr_snapshots fr = snapshots_of requested"
    using b by (simp_all add: built_def)
  note D = plan_entryD [OF e]
  from frame item obtain sch where sch: "map_of (fr_fixed fr) (step_id_of item) = Some sch" by (auto simp: frame_ok_def)
  moreover from frame item have "map_of (fr_packed fr) (step_id_of item) = map_of (fr_fixed fr) (step_id_of item)"
    unfolding frame_ok_def by blast
  ultimately have packed: "map_of (fr_packed fr) (step_id_of item) = Some sch" by simp
  note E = D(6) [unfolded entry_dates_def sch] D(7) [unfolded entry_exact_def packed]
  have "wp_planned_start_at e = Some (sch_starts_at sch)" "wp_planned_end_at e = Some (sch_ends_at sch)" using E(2) by simp_all
  then show "exact_entry z e" using E(1) z by (simp add: exact_entry_def)
  show "wp_unmet_prerequisite_step_ids e = []" using D(5) item by (simp add: entry_unmet_def)
  show "wp_state e = COMPLETED" using D(8) item by (simp add: is_completed_def)
  assume snap: "map_of (snapshots_of requested) (step_id_of item) = Some snap" "exact_entry z snap"
  then have "sch = snapshot_schedule z wall_off snap"
    using frame item sch z sn unfolding frame_ok_def by fastforce
  moreover obtain s t where "wp_planned_start_at snap = Some s" "wp_planned_end_at snap = Some t"
    "wp_start_date snap = local_date z s" "wp_end_date snap = last_occupied_date z s t"
    using snap(2) by (auto simp: exact_entry_def split: option.splits)
  ultimately show "history_of e = history_of snap"
    using E z D(3,4) snap(1) item sn
    by (simp add: history_of_def snapshot_schedule_def entry_hours_def entry_allocations_def snapshot_of_def)
qed

subsection \<open>The sample plan\<close>

lemma sample_built:
  "map_option (map_sum id (\<lambda>r. (wr_is_customized r, map wp_step_id (wr_steps r))))
     (build_weekly_plan utc_zone (\<lambda>_. 0) sample_context sample_ordered (Some sample_overrides))
   = Some (Inr (True, [''c'', ''b'', ''a'']))"
  by code_simp

lemma sample_weekly_plan:
  obtains plan where
    "build_weekly_plan utc_zone (\<lambda>_. 0) sample_context sample_ordered (Some sample_overrides) = Some (Inr plan)"
    "wr_is_customized plan" "map wp_step_id (wr_steps plan) = [''c'', ''b'', ''a'']"
proof -
  obtain r where r: "build_weekly_plan utc_zone (\<lambda>_. 0) sample_context sample_ordered (Some sample_overrides) = Some r"
    using sample_built by auto
  with sample_built obtain plan where "r = Inr plan" by (cases r) auto
  with r sample_built that show thesis by simp
qed

lemma sample_plannable: "plannable sample_context sample_ordered (Some sample_overrides)"
  by (simp add: plannable_def plan_hours_def dict_get_def hours_for_def sample_plan_defs)

lemma sample_waits:
  "waiting_of sample_ordered ''a'' = {}" "waiting_of sample_ordered ''b'' = {''a''}" "waiting_of sample_ordered ''c'' = {}"
  by (auto simp: waiting_of_def by_id_def py_dict_def sample_plan_defs split: if_splits)

theorem weekly_plan_returns_witness:
  "\<exists>plan. build_weekly_plan utc_zone (\<lambda>_. 0) sample_context sample_ordered (Some sample_overrides) = Some (Inr plan)
     \<and> (\<forall>e \<in> set (wr_steps plan). wp_state e \<noteq> COMPLETED \<longrightarrow> sum_list (map wa_hours (wp_week_allocations e)) = wp_hours e)"
proof (rule sample_weekly_plan)
  fix plan assume plan: "build_weekly_plan utc_zone (\<lambda>_. 0) sample_context sample_ordered (Some sample_overrides) = Some (Inr plan)"
    "wr_is_customized plan"
  have all: "\<forall>e \<in> set (wr_steps plan). wp_state e \<noteq> COMPLETED
      \<longrightarrow> sum_list (map wa_hours (wp_week_allocations e)) = wp_hours e"
    using weekly_plan_returns [OF midnight_follows_utc sample_plannable] plan by (auto split: if_splits)
  show ?thesis by (rule exI [of _ plan], rule conjI [OF plan(1) all])
qed

theorem custom_plan_has_no_violations_witness:
  "\<exists>plan. build_weekly_plan utc_zone (\<lambda>_. 0) sample_context sample_ordered (Some sample_overrides) = Some (Inr plan)
     \<and> map wp_step_id (wr_steps plan) = [''c'', ''b'', ''a''] \<and> \<not> wr_has_dependency_violations plan"
proof (rule sample_weekly_plan)
  fix plan assume plan: "build_weekly_plan utc_zone (\<lambda>_. 0) sample_context sample_ordered (Some sample_overrides) = Some (Inr plan)"
    "wr_is_customized plan" "map wp_step_id (wr_steps plan) = [''c'', ''b'', ''a'']"
  have ids: "step_id_of ` set (filter (\<lambda>item. \<not> is_completed item) sample_ordered) = {''a'', ''b'', ''c''}"
    by (auto simp: sample_plan_defs is_completed_def)
  have "{(p, k). k \<in> step_id_of ` set (filter (\<lambda>item. \<not> is_completed item) sample_ordered) \<and> p \<in> waiting_of sample_ordered k}
      = {(''a'', ''b'')}"
    unfolding ids using sample_waits by auto
  then have acyclic: "acyclic {(p, k). k \<in> step_id_of ` set (filter (\<lambda>item. \<not> is_completed item) sample_ordered)
      \<and> p \<in> waiting_of sample_ordered k}" by (simp add: acyclic_def trancl_insert)
  have closed: "\<forall>item \<in> set sample_ordered. \<not> is_completed item
      \<longrightarrow> set (vw_prerequisite_step_ids (in_step item)) \<subseteq> step_id_of ` set sample_ordered"
    by (simp add: sample_plan_defs)
  from custom_plan_has_no_violations [OF midnight_follows_utc sample_plannable closed acyclic plan(1,2)] plan(1,3)
  show ?thesis by (intro exI [of _ plan] conjI) simp_all
qed

end
