(* ===== verification/Weekly_Store.thy ===== *)
theory Weekly_Store
  imports Weekly_Plan Database
begin

section \<open>Weekly plans in the database\<close>

text \<open>
  \<open>src/jobtology_be/infrastructure/persistence/weekly_plan.py\<close>: the context of a plan, read from its
  roadmap, proposal, goal and analysis, and the versioned overrides of a roadmap; with the query of a
  roadmap in \<open>queries.py\<close>. Parameters (\<open>plan_lib\<close>): \<open>ZoneInfo\<close>, the offset it gives a wall clock,
  \<open>datetime.fromisoformat\<close> (\<open>None\<close> where it raises \<open>ValueError\<close>) and pydantic's validation of
  the stored metadata and constraints (\<open>None\<close> where it raises).
\<close>

subsection \<open>Parameters and errors\<close>

record PlanningLimits =
  pl_available_hours_per_week :: "int option"
  pl_weekly_availability :: "WeeklyAvailabilityWindow list"
  pl_unavailable_dates :: "int list"

record plan_lib =
  lib_zone :: "string \<Rightarrow> zone"
  lib_wall_off :: "string \<Rightarrow> int \<Rightarrow> int"
  lib_fromisoformat :: "string \<Rightarrow> datetime option"
  lib_metadata :: "JsonValue \<Rightarrow> RequirementMetadata option"
  lib_constraints :: "json_object \<Rightarrow> PlanningLimits option"

datatype plan_error =
    StoreError persistence_error
  | ValidationError
  | KeyError string
  | HttpError int string
  | Unhandled weekly_error

text \<open>A Python mapping, or nothing.\<close>

fun mapping_of :: "JsonValue \<Rightarrow> json_object option" where
  "mapping_of (JMap m) = Some m"
| "mapping_of _ = None"

fun string_of_json :: "JsonValue \<Rightarrow> string option" where
  "string_of_json (JStr s) = Some s"
| "string_of_json _ = None"

definition elements_of :: "JsonValue option \<Rightarrow> JsonValue list" where
  "elements_of v = (case v of Some (JSeq xs) \<Rightarrow> xs | _ \<Rightarrow> [])"

subsection \<open>The slots of a step\<close>

definition allocation_start :: "(string \<Rightarrow> datetime option) \<Rightarrow> JsonValue \<Rightarrow> datetime option" where
  "allocation_start parse allocation =
     (case mapping_of allocation of
        None \<Rightarrow> None
      | Some m \<Rightarrow>
          (case (map_of m ''starts_at'', map_of m ''ends_at'') of
             (Some (JStr first), Some (JStr final)) \<Rightarrow>
               (case (parse first, parse final) of
                  (Some s, Some e) \<Rightarrow>
                    if is_aware s \<and> is_aware e \<and> dt_diff e s = HOUR then Some s else None
                | _ \<Rightarrow> None)
           | _ \<Rightarrow> None))"

definition allocation_starts :: "(string \<Rightarrow> datetime option) \<Rightarrow> JsonValue list \<Rightarrow> int \<Rightarrow> datetime list option" where
  "allocation_starts parse allocations hours =
     (if list_all (\<lambda>a. allocation_start parse a \<noteq> None) allocations then
        let starts = List.map_filter (allocation_start parse) allocations
        in if distinct (map instant starts) \<and> int (length starts) = hours then Some starts else None
      else None)"

subsection \<open>The context of a plan\<close>

definition revision_history :: "roadmaps_row \<Rightarrow> json_object" where
  "revision_history r = (case map_of (rm_validity r) ''revision_history_steps'' of
       Some (JMap h) \<Rightarrow> h | _ \<Rightarrow> [])"

definition validated_metadata :: "plan_lib \<Rightarrow> JsonValue \<Rightarrow> plan_error + RequirementMetadata option" where
  "validated_metadata lib v =
     (if v = JNull then Inr None
      else case lib_metadata lib v of None \<Rightarrow> Inl ValidationError | Some m \<Rightarrow> Inr (Some m))"

text \<open>The first of a revised step's requirements.\<close>

definition history_metadata :: "plan_lib \<Rightarrow> string \<times> JsonValue \<Rightarrow> plan_error + string \<times> RequirementMetadata option" where
  "history_metadata lib = (\<lambda>(key, document).
     let first = (case mapping_of document of
           Some d \<Rightarrow> (case map_of d ''requirement_metadata'' of
               Some (JMap ((_, v) # _)) \<Rightarrow> v | _ \<Rightarrow> JNull)
         | None \<Rightarrow> JNull)
     in and_then (validated_metadata lib first) (\<lambda>m. Inr (key, m)))"

definition step_effort :: "JsonValue \<Rightarrow> (string \<times> int) option" where
  "step_effort step = (case mapping_of step of
       None \<Rightarrow> None
     | Some m \<Rightarrow> (case (map_of m ''step_key'', map_of m ''estimated_hours'') of
          (Some (JStr key), Some (JInt hours)) \<Rightarrow> if \<not> blank key \<and> 0 < hours then Some (key, hours) else None
        | _ \<Rightarrow> None))"

definition step_slots :: "plan_lib \<Rightarrow> JsonValue \<Rightarrow> (string \<times> datetime list) option" where
  "step_slots lib step =
     (case step_effort step of
        None \<Rightarrow> None
      | Some (key, hours) \<Rightarrow>
          (case json_get ''slot_allocations'' (Some step) of
             Some (JSeq allocations) \<Rightarrow>
               if int (length allocations) = hours
               then map_option (Pair key) (allocation_starts (lib_fromisoformat lib) allocations hours) else None
           | _ \<Rightarrow> None))"

definition requirement_metadata_entry ::
  "plan_lib \<Rightarrow> json_object \<Rightarrow> (plan_error + string \<times> RequirementMetadata option) option" where
  "requirement_metadata_entry lib requirement =
     (case (map_of requirement ''requirement_key'', map_of requirement ''metadata'') of
        (Some (JStr key), Some v) \<Rightarrow> Some (and_then (validated_metadata lib v) (\<lambda>m. Inr (key, m)))
      | _ \<Rightarrow> None)"

text \<open>The joined rows of a roadmap: its proposal, its goal and the proposal's analysis.\<close>

definition context_rows ::
  "uuid \<Rightarrow> uuid \<Rightarrow> database \<Rightarrow> (roadmaps_row \<times> route_proposals_row \<times> goals_row \<times> analyses_row) option" where
  "context_rows user_id roadmap_id db =
     (case [(r, p, g, a). r \<leftarrow> roadmaps db, rm_id r = roadmap_id \<and> rm_user_id r = user_id,
            p \<leftarrow> route_proposals db, rp_id p = rm_proposal_id r \<and> rp_user_id p = user_id,
            g \<leftarrow> goals db, go_id g = rm_goal_id r \<and> go_user_id g = user_id,
            a \<leftarrow> analyses db, an_id a = rp_analysis_id p] of
        [] \<Rightarrow> None | row # _ \<Rightarrow> Some row)"

definition get_context :: "plan_lib \<Rightarrow> env \<Rightarrow> uuid \<Rightarrow> uuid \<Rightarrow> database \<Rightarrow> plan_error + PlanContext" where
  "get_context lib env user_id roadmap_id db =
     (case context_rows user_id roadmap_id db of
        None \<Rightarrow> Inl (StoreError (MissingRecordError ''roadmap''))
      | Some (r, p, g, a) \<Rightarrow>
          (case lib_constraints lib (rp_constraints_snapshot p) of
             None \<Rightarrow> Inl ValidationError
           | Some limits \<Rightarrow>
               let history = revision_history r;
                   efforts = map JMap (rp_steps p) @ map snd history;
                   results = (case an_results a of None \<Rightarrow> [] | Some o1 \<Rightarrow> o1);
                   requirements = List.map_filter mapping_of (elements_of (map_of results ''requirements''))
               in and_then (collect (history_metadata lib) history) (\<lambda>step_metadata.
                  and_then (collect id (List.map_filter (requirement_metadata_entry lib) requirements)) (\<lambda>metadata.
                  Inr \<lparr>px_roadmap_id = roadmap_id, px_created_at = utc_dt (rm_created_at r),
                    px_recommended_weekly_hours = (case pl_available_hours_per_week limits of None \<Rightarrow> 10 | Some h \<Rightarrow> h),
                    px_target_date = Some (local_date (lib_zone lib (go_timezone g)) (utc_dt (go_target_by g))),
                    px_timezone = go_timezone g,
                    px_step_hours = py_dict (List.map_filter step_effort efforts),
                    px_step_allocations = py_dict (List.map_filter (step_slots lib) efforts),
                    px_requirement_metadata = py_dict metadata,
                    px_as_of = Some (utc_dt (e_app_now env)),
                    px_step_metadata = py_dict step_metadata,
                    px_weekly_availability = pl_weekly_availability limits,
                    px_unavailable_dates = pl_unavailable_dates limits\<rparr>))))"

subsection \<open>Overrides\<close>

definition require_owner :: "uuid \<Rightarrow> uuid \<Rightarrow> bool \<Rightarrow> database \<Rightarrow> persistence_error + unit" where
  "require_owner user_id roadmap_id writable db =
     (case one_or_none (\<lambda>r. rm_id r = roadmap_id \<and> rm_user_id r = user_id) (roadmaps db) of
        None \<Rightarrow> Inl (MissingRecordError ''roadmap'')
      | Some owner \<Rightarrow> require (\<not> (writable \<and> rm_state owner = ARCHIVED)) (PersistenceConflictError ''archived roadmap plan''))"

text \<open>
  The row as \<open>PlanOverrides\<close>. The schedules of the steps are kept as values: written to JSON and read
  back, a timestamp has the same wall clock, offset and instant but a fixed offset in place of its zone.
\<close>

definition stored_plan :: "roadmap_plan_overrides_row \<Rightarrow> PlanOverrides" where
  "stored_plan row = \<lparr>po_weekly_hours = ov_weekly_hours row, po_rest_weeks = ov_rest_weeks row,
     po_order = ov_step_order row, po_hours = ov_step_hours row, po_saved_at = Some (utc_dt (ov_updated_at row)),
     po_version = ov_version row, po_is_customized = ov_is_customized row, po_step_schedules = ov_step_schedules row\<rparr>"

definition overrides_row :: "uuid \<Rightarrow> database \<Rightarrow> roadmap_plan_overrides_row option" where
  "overrides_row roadmap_id db = one_or_none (\<lambda>v. ov_roadmap_id v = roadmap_id) (roadmap_plan_overrides db)"

definition get_overrides :: "uuid \<Rightarrow> uuid \<Rightarrow> database \<Rightarrow> persistence_error + PlanOverrides option" where
  "get_overrides user_id roadmap_id db =
     and_then (require_owner user_id roadmap_id False db)
       (\<lambda>_. Inr (map_option stored_plan (overrides_row roadmap_id db)))"

text \<open>The table's checks: \<open>version >= 1\<close> and \<open>weekly_hours BETWEEN 1 AND 60\<close>.\<close>

definition plan_row :: "env \<Rightarrow> uuid \<Rightarrow> PlanOverrides \<Rightarrow> roadmap_plan_overrides_row" where
  "plan_row env roadmap_id plan = \<lparr>ov_roadmap_id = roadmap_id, ov_weekly_hours = po_weekly_hours plan,
     ov_rest_weeks = po_rest_weeks plan, ov_step_order = po_order plan, ov_step_hours = po_hours plan,
     ov_version = po_version plan + 1, ov_is_customized = po_is_customized plan,
     ov_step_schedules = po_step_schedules plan, ov_updated_at = e_started env\<rparr>"

definition write_plan :: "env \<Rightarrow> uuid \<Rightarrow> PlanOverrides \<Rightarrow> PlanOverrides transaction" where
  "write_plan env roadmap_id plan db =
     (let current = overrides_row roadmap_id db;
          row = plan_row env roadmap_id plan
      in and_then (require ((case current of None \<Rightarrow> 0 | Some v \<Rightarrow> ov_version v) = po_version plan)
           (PersistenceConflictError ''weekly plan''))
         (\<lambda>_. and_then (require (1 \<le> ov_version row \<and> 1 \<le> ov_weekly_hours row \<and> ov_weekly_hours row \<le> 60)
           (IntegrityError ''roadmap_plan_overrides''))
         (\<lambda>_. Inr (stored_plan row, db\<lparr>roadmap_plan_overrides :=
            (if current = None then roadmap_plan_overrides db @ [row]
             else update_where (\<lambda>v. ov_roadmap_id v = roadmap_id) (\<lambda>_. row) (roadmap_plan_overrides db))\<rparr>))))"

definition completed_ids :: "uuid \<Rightarrow> database \<Rightarrow> uuid list" where
  "completed_ids roadmap_id db =
     map st_id (rows_where (\<lambda>s. st_roadmap_id s = roadmap_id \<and> st_state s = COMPLETED) (roadmap_steps db))"

definition upsert :: "env \<Rightarrow> uuid \<Rightarrow> uuid \<Rightarrow> PlanOverrides \<Rightarrow> PlanOverrides transaction" where
  "upsert env user_id roadmap_id plan db =
     and_then (require_owner user_id roadmap_id True db)
     (\<lambda>_. and_then (require (\<not> list_ex (\<lambda>key. case map_of (po_step_schedules plan) key of
           None \<Rightarrow> False | Some s \<Rightarrow> wp_state s \<noteq> COMPLETED) (completed_ids roadmap_id db))
         (PersistenceConflictError ''roadmap progress''))
     (\<lambda>_. write_plan env roadmap_id plan db))"

text \<open>A reset is a versioned tombstone that keeps the history of completed steps.\<close>

definition delete_overrides ::
  "plan_lib \<Rightarrow> env \<Rightarrow> uuid \<Rightarrow> uuid \<Rightarrow> int \<Rightarrow> database \<Rightarrow> plan_error + PlanOverrides \<times> database" where
  "delete_overrides lib env user_id roadmap_id expected_version db =
     and_then (get_context lib env user_id roadmap_id db) (\<lambda>ctx.
       case and_then (require_owner user_id roadmap_id True db)
         (\<lambda>_. let schedules = (case overrides_row roadmap_id db of
                    None \<Rightarrow> []
                  | Some row \<Rightarrow> filter (\<lambda>(key, _). key \<in> set (completed_ids roadmap_id db)) (ov_step_schedules row))
              in write_plan env roadmap_id \<lparr>po_weekly_hours = px_recommended_weekly_hours ctx, po_rest_weeks = [],
                   po_order = [], po_hours = [], po_saved_at = None, po_version = expected_version,
                   po_is_customized = False, po_step_schedules = schedules\<rparr> db) of
         Inl e \<Rightarrow> Inl (StoreError e) | Inr result \<Rightarrow> Inr result)"

subsection \<open>A roadmap\<close>

record RoadmapView =
  rv_roadmap_id :: uuid
  rv_roadmap_version :: int
  rv_state :: Lifecycle
  rv_goal_id :: uuid
  rv_proposal_id :: uuid
  rv_title :: string
  rv_profile_version :: int
  rv_release_id :: "string option"
  rv_validity :: json_object
  rv_steps :: "RoadmapStepView list"
  rv_analysis_id :: "uuid option"

definition proposal_title :: "json_object \<Rightarrow> plan_error + JsonValue \<times> JsonValue" where
  "proposal_title step =
     (case (map_of step ''step_key'', map_of step ''title'') of
        (None, _) \<Rightarrow> Inl (KeyError ''step_key'') | (_, None) \<Rightarrow> Inl (KeyError ''title'')
      | (Some k, Some t) \<Rightarrow> Inr (k, t))"

definition history_title :: "string \<times> JsonValue \<Rightarrow> (JsonValue \<times> JsonValue) option" where
  "history_title = (\<lambda>(key, item). case json_get ''title'' (Some item) of
     Some (JStr t) \<Rightarrow> Some (JStr key, JStr t) | _ \<Rightarrow> None)"

definition step_view ::
  "database \<Rightarrow> uuid \<Rightarrow> (JsonValue \<times> JsonValue) list \<Rightarrow> roadmap_steps_row \<Rightarrow> RoadmapStepView" where
  "step_view db roadmap_id titles row =
     \<lparr>vw_step_id = st_id row, vw_step_key = st_step_key row, vw_position = st_position row,
      vw_action_id = st_action_id row, vw_template_revision = st_template_revision row, vw_state = st_state row,
      vw_planned_start = map_option utc_dt (st_planned_start row), vw_planned_end = map_option utc_dt (st_planned_end row),
      vw_outcomes = st_outcomes row, vw_criteria = st_criteria row,
      vw_prerequisite_step_ids = map sd_prerequisite_step_id
        (rows_where (\<lambda>d. sd_roadmap_id d = roadmap_id \<and> sd_step_id d = st_id row) (step_dependencies db)),
      vw_title = (case map_of titles (JStr (st_step_key row)) of Some (JStr t) \<Rightarrow> Some t | _ \<Rightarrow> None)\<rparr>"

definition get_roadmap :: "uuid \<Rightarrow> uuid \<Rightarrow> database \<Rightarrow> plan_error + RoadmapView" where
  "get_roadmap user_id roadmap_id db =
     (case one_or_none (\<lambda>r. rm_id r = roadmap_id \<and> rm_user_id r = user_id) (roadmaps db) of
        None \<Rightarrow> Inl (StoreError (MissingRecordError ''roadmap''))
      | Some r \<Rightarrow>
          (case one_or_none (\<lambda>p. rp_id p = rm_proposal_id r \<and> rp_user_id p = user_id) (route_proposals db) of
             None \<Rightarrow> Inl (StoreError (MissingRecordError ''route proposal''))
           | Some p \<Rightarrow>
               and_then (collect proposal_title (rp_steps p)) (\<lambda>titles.
               let titles = py_dict (titles @ List.map_filter history_title (revision_history r));
                   rows = sort_key (\<lambda>s. (st_position s, st_id s))
                     (rows_where (\<lambda>s. st_roadmap_id s = roadmap_id) (roadmap_steps db))
               in Inr \<lparr>rv_roadmap_id = rm_id r, rv_roadmap_version = rm_version r, rv_state = rm_state r,
                    rv_goal_id = rm_goal_id r, rv_proposal_id = rm_proposal_id r, rv_title = rm_title r,
                    rv_profile_version = rm_profile_version r, rv_release_id = rm_release_id r,
                    rv_validity = rm_validity r, rv_steps = map (step_view db roadmap_id titles) rows,
                    rv_analysis_id = Some (rp_analysis_id p)\<rparr>)))"

end
