(* ===== verification/Weekly_Requests.thy ===== *)
theory Weekly_Requests
  imports Weekly_Guarantees Weekly_Store Transitions
begin

section \<open>Weekly plan requests\<close>

text \<open>
  The handlers of \<open>src/jobtology_be/api/roadmap_plan.py\<close>: reading, saving, previewing and resetting a
  weekly plan. A handler is a function of the inputs and the database; \<open>None\<close> means that it does not
  return. The metadata lookup of a release is a parameter; authentication and the mapping of store
  errors to status codes are not modelled.
\<close>

subsection \<open>Requests and inputs\<close>

record WeeklyPlanRequest =
  rq_expected_version :: int
  rq_weekly_hours :: int
  rq_rest_weeks :: "int list"
  rq_order :: "uuid list"
  rq_hours :: "(uuid \<times> int) list"

definition request_valid :: "WeeklyPlanRequest \<Rightarrow> bool" where
  "request_valid rq \<longleftrightarrow> 0 \<le> rq_expected_version rq \<and> 1 \<le> rq_weekly_hours rq \<and> rq_weekly_hours rq \<le> 60
     \<and> list_all (\<lambda>w. 1 \<le> w \<and> w \<le> 104) (rq_rest_weeks rq) \<and> list_all (\<lambda>(_, h). 1 \<le> h \<and> h \<le> 400) (rq_hours rq)
     \<and> length (rq_rest_weeks rq) = card (set (rq_rest_weeks rq))"

record metadata_lookup =
  ml_release_id :: "string option"
  ml_lookup :: "string \<Rightarrow> RequirementMetadata option"

record PlanInputs =
  pi_user_id :: uuid
  pi_context :: PlanContext
  pi_steps :: "PlanStepInput list"

text \<open>The metadata of a step: pinned by the revision, by the analysis, or looked up in its release.\<close>

definition pinned_metadata ::
  "metadata_lookup option \<Rightarrow> string option \<Rightarrow> PlanContext \<Rightarrow> RoadmapStepView \<Rightarrow> RequirementMetadata option" where
  "pinned_metadata lookup wanted ctx view =
     (let key = json_field ''requirement_key'' (case vw_outcomes view of [] \<Rightarrow> None | o1 # _ \<Rightarrow> Some o1) in
      case map_of (px_step_metadata ctx) (vw_step_key view) of
        Some m \<Rightarrow> m
      | None \<Rightarrow>
          (case key of
             None \<Rightarrow> None
           | Some k \<Rightarrow>
               (case map_of (px_requirement_metadata ctx) k of
                  Some m \<Rightarrow> m
                | None \<Rightarrow>
                    (case lookup of
                       Some ml \<Rightarrow> if wanted \<noteq> None \<and> ml_release_id ml = wanted then ml_lookup ml k else None
                     | None \<Rightarrow> None))))"

definition load_plan ::
  "plan_lib \<Rightarrow> env \<Rightarrow> metadata_lookup option \<Rightarrow> uuid \<Rightarrow> uuid \<Rightarrow> database \<Rightarrow> plan_error + PlanInputs" where
  "load_plan lib env lookup user_id roadmap_id db =
     and_then (get_roadmap user_id roadmap_id db) (\<lambda>roadmap.
     and_then (get_context lib env user_id roadmap_id db) (\<lambda>ctx.
       Inr \<lparr>pi_user_id = user_id, pi_context = ctx,
         pi_steps = map (\<lambda>view. \<lparr>in_step = view,
           in_metadata = pinned_metadata lookup (rv_release_id roadmap) ctx view\<rparr>) (rv_steps roadmap)\<rparr>))"

subsection \<open>Handlers\<close>

type_synonym 'a handler = "(plan_error + 'a) option"

definition handle :: "'a handler \<Rightarrow> ('a \<Rightarrow> 'b handler) \<Rightarrow> 'b handler" where
  "handle m f = (case m of None \<Rightarrow> None | Some (Inl e) \<Rightarrow> Some (Inl e) | Some (Inr v) \<Rightarrow> f v)"

definition stored :: "persistence_error + 'a \<Rightarrow> 'a handler" where
  "stored r = Some (case r of Inl e \<Rightarrow> Inl (StoreError e) | Inr v \<Rightarrow> Inr v)"

definition calendar_exhausted :: string where
  "calendar_exhausted = ''Requested work does not fit the available calendar within 520 weeks''"

definition build_plan :: "plan_lib \<Rightarrow> PlanInputs \<Rightarrow> PlanOverrides option \<Rightarrow> WeeklyPlanResponse handler" where
  "build_plan lib inputs overrides =
     (let ctx = pi_context inputs in
      map_option (map_sum (\<lambda>e. if e = WeeklyPlanSchedulingError then HttpError 422 calendar_exhausted else Unhandled e) id)
        (build_weekly_plan (lib_zone lib (px_timezone ctx)) (lib_wall_off lib (px_timezone ctx)) ctx (pi_steps inputs) overrides))"

text \<open>The hours that differ from the recommendation.\<close>

definition asked_hours :: "WeeklyPlanRequest \<Rightarrow> WeeklyPlanResponse \<Rightarrow> (uuid \<times> int) list" where
  "asked_hours rq recommended = py_dict (List.map_filter (\<lambda>e. case map_of (rq_hours rq) (wp_step_id e) of
       None \<Rightarrow> None
     | Some h \<Rightarrow> if h \<noteq> wp_recommended_hours e then Some (wp_step_id e, h) else None) (wr_steps recommended))"

definition overrides_of ::
  "plan_lib \<Rightarrow> WeeklyPlanRequest \<Rightarrow> PlanInputs \<Rightarrow> datetime option \<Rightarrow> PlanOverrides option \<Rightarrow> PlanOverrides handler" where
  "overrides_of lib request inputs saved_at existing =
     (let step_ids = set (map step_id_of (pi_steps inputs)) in
      if length (rq_order request) \<noteq> card step_ids \<or> set (rq_order request) \<noteq> step_ids
      then Some (Inl (HttpError 422 ''order must be an exact permutation of step IDs''))
      else if \<not> fst ` set (rq_hours request) \<subseteq> step_ids
      then Some (Inl (HttpError 422 ''hours contains unknown step IDs''))
      else handle (build_plan lib inputs None) (\<lambda>recommended.
        handle (build_plan lib inputs existing) (\<lambda>current.
          let completed = py_dict (map (\<lambda>e. (wp_step_id e, e)) (filter (\<lambda>e. wp_state e = COMPLETED) (wr_steps current)))
          in if list_ex (\<lambda>(key, e). case map_of (rq_hours request) key of None \<Rightarrow> False | Some h \<Rightarrow> h \<noteq> wp_hours e) completed
             then Some (Inl (HttpError 422 ''completed step hours cannot be changed''))
             else Some (Inr \<lparr>po_weekly_hours = rq_weekly_hours request, po_rest_weeks = sort (rq_rest_weeks request),
               po_order = rq_order request,
               po_hours = asked_hours request recommended,
               po_saved_at = saved_at, po_version = rq_expected_version request, po_is_customized = True,
               po_step_schedules = completed\<rparr>))))"

definition get_weekly_plan :: "plan_lib \<Rightarrow> PlanInputs \<Rightarrow> database \<Rightarrow> WeeklyPlanResponse handler" where
  "get_weekly_plan lib inputs db =
     handle (stored (get_overrides (pi_user_id inputs) (px_roadmap_id (pi_context inputs)) db)) (build_plan lib inputs)"

definition plan_to_save :: "PlanOverrides \<Rightarrow> WeeklyPlanResponse \<Rightarrow> PlanOverrides" where
  "plan_to_save plan preview =
     plan\<lparr>po_is_customized := (po_is_customized plan \<and> wr_is_customized preview),
          po_step_schedules := py_dict (map (\<lambda>e. (wp_step_id e, e)) (wr_steps preview))\<rparr>"

definition put_weekly_plan ::
  "plan_lib \<Rightarrow> env \<Rightarrow> WeeklyPlanRequest \<Rightarrow> PlanInputs \<Rightarrow> database \<Rightarrow> (WeeklyPlanResponse \<times> database) handler" where
  "put_weekly_plan lib env request inputs db =
     (let user = pi_user_id inputs; roadmap = px_roadmap_id (pi_context inputs) in
      handle (stored (get_overrides user roadmap db)) (\<lambda>existing.
      handle (overrides_of lib request inputs (Some (utc_dt (e_app_now env))) existing) (\<lambda>plan.
      handle (build_plan lib inputs (Some plan)) (\<lambda>preview.
      handle (stored (upsert env user roadmap (plan_to_save plan preview) db)) (\<lambda>(saved, db').
      handle (build_plan lib inputs (Some saved)) (\<lambda>response. Some (Inr (response, db'))))))))"

definition preview_weekly_plan ::
  "plan_lib \<Rightarrow> WeeklyPlanRequest option \<Rightarrow> PlanInputs \<Rightarrow> database \<Rightarrow> WeeklyPlanResponse handler" where
  "preview_weekly_plan lib request inputs db =
     handle (stored (get_overrides (pi_user_id inputs) (px_roadmap_id (pi_context inputs)) db)) (\<lambda>existing.
       case request of
         Some rq \<Rightarrow> handle (overrides_of lib rq inputs None existing) (\<lambda>plan. build_plan lib inputs (Some plan))
       | None \<Rightarrow> build_plan lib inputs (map_option (\<lambda>ov. ov\<lparr>po_is_customized := False\<rparr>) existing))"

definition delete_weekly_plan ::
  "plan_lib \<Rightarrow> env \<Rightarrow> PlanInputs \<Rightarrow> int \<Rightarrow> database \<Rightarrow> (WeeklyPlanResponse \<times> database) handler" where
  "delete_weekly_plan lib env inputs expected_version db =
     handle (Some (delete_overrides lib env (pi_user_id inputs) (px_roadmap_id (pi_context inputs)) expected_version db))
       (\<lambda>(reset, db'). handle (build_plan lib inputs (Some reset)) (\<lambda>response. Some (Inr (response, db'))))"

subsection \<open>Versions\<close>

definition version_at :: "uuid \<Rightarrow> database \<Rightarrow> int" where
  "version_at roadmap_id db = (case overrides_row roadmap_id db of None \<Rightarrow> 0 | Some v \<Rightarrow> ov_version v)"

datatype plan_op = SavePlan env uuid uuid PlanOverrides | ResetPlan plan_lib env uuid uuid int

fun op_roadmap :: "plan_op \<Rightarrow> uuid" where
  "op_roadmap (SavePlan _ _ roadmap_id _) = roadmap_id"
| "op_roadmap (ResetPlan _ _ _ roadmap_id _) = roadmap_id"

fun op_version :: "plan_op \<Rightarrow> int" where
  "op_version (SavePlan _ _ _ plan) = po_version plan"
| "op_version (ResetPlan _ _ _ _ expected) = expected"

fun run_op :: "plan_op \<Rightarrow> database \<Rightarrow> plan_error + PlanOverrides \<times> database" where
  "run_op (SavePlan env user_id roadmap_id plan) db = map_sum StoreError id (upsert env user_id roadmap_id plan db)"
| "run_op (ResetPlan lib env user_id roadmap_id expected) db = delete_overrides lib env user_id roadmap_id expected db"

definition plan_step :: "plan_op \<Rightarrow> database \<Rightarrow> database \<Rightarrow> bool" where
  "plan_step op db db' \<longleftrightarrow> (\<exists>result. run_op op db = Inr (result, db'))"

definition plans_keyed :: "database \<Rightarrow> bool" where
  "plans_keyed db \<longleftrightarrow> keyed ov_roadmap_id (roadmap_plan_overrides db)"

lemma write_planD:
  assumes "write_plan env r plan db = Inr (saved, db')" and key: "plans_keyed db"
  shows "version_at r db = po_version plan" "version_at r db' = po_version plan + 1" "plans_keyed db'"
    "overrides_row r db' = Some (plan_row env r plan)" "saved = stored_plan (plan_row env r plan)"
    "r' \<noteq> r \<Longrightarrow> overrides_row r' db' = overrides_row r' db"
proof -
  let ?row = "plan_row env r plan"
  have id: "ov_roadmap_id ?row = r" by (simp add: plan_row_def)
  from assms(1) have w: "version_at r db = po_version plan" "saved = stored_plan ?row"
    "db' = db\<lparr>roadmap_plan_overrides := (if overrides_row r db = None then roadmap_plan_overrides db @ [?row]
             else update_where (\<lambda>v. ov_roadmap_id v = r) (\<lambda>_. ?row) (roadmap_plan_overrides db))\<rparr>"
    by (auto simp: write_plan_def Let_def err_simps version_at_def)
  show "version_at r db = po_version plan" "saved = stored_plan ?row" by (rule w)+
  have rows: "overrides_row k db' = (if k = r then Some ?row else overrides_row k db)" for k
  proof (cases "overrides_row r db")
    case None
    then have "\<forall>v \<in> set (roadmap_plan_overrides db). ov_roadmap_id v \<noteq> r" by (simp add: overrides_row_def table_simps)
    moreover have "\<forall>v \<in> set t. ov_roadmap_id v \<noteq> r \<Longrightarrow> find (\<lambda>v. ov_roadmap_id v = k) (t @ [?row])
        = (if k = r then Some ?row else find (\<lambda>v. ov_roadmap_id v = k) t)" for t
      by (induction t) (auto simp: id)
    ultimately show ?thesis using None by (simp add: w(3) overrides_row_def one_or_none_def)
  next
    case (Some v)
    have "find (\<lambda>v. ov_roadmap_id v = k) (update_where (\<lambda>v. ov_roadmap_id v = r) (\<lambda>_. ?row) t)
        = (if k = r \<and> find (\<lambda>v. ov_roadmap_id v = r) t \<noteq> None then Some ?row
           else find (\<lambda>v. ov_roadmap_id v = k) t)" for t
      by (induction t) (auto simp: update_where_def id)
    then show ?thesis using Some by (simp add: w(3) overrides_row_def one_or_none_def)
  qed
  show "overrides_row r db' = Some ?row" by (simp add: rows)
  then show "version_at r db' = po_version plan + 1" by (simp add: version_at_def plan_row_def)
  show "overrides_row r' db' = overrides_row r' db" if "r' \<noteq> r" using that by (simp add: rows)
  show "plans_keyed db'"
  proof (cases "overrides_row r db = None")
    case True
    then show ?thesis using key id by (auto simp: plans_keyed_def w(3) keyed_snoc overrides_row_def table_simps)
  next
    case False
    have "map ov_roadmap_id (update_where (\<lambda>v. ov_roadmap_id v = r) (\<lambda>_. ?row) t) = map ov_roadmap_id t" for t
      by (simp add: update_where_def id)
    then show ?thesis using key False by (auto simp: plans_keyed_def keyed_def w(3))
  qed
qed

lemma delete_overridesD:
  assumes "delete_overrides lib env user_id r expected db = Inr result"
  shows "\<exists>plan. write_plan env r plan db = Inr result \<and> po_version plan = expected \<and> \<not> po_is_customized plan
    \<and> po_step_schedules plan = (case overrides_row r db of None \<Rightarrow> []
        | Some row \<Rightarrow> filter (\<lambda>(key, _). key \<in> set (completed_ids r db)) (ov_step_schedules row))"
proof -
  obtain ctx where "get_context lib env user_id r db = Inr ctx"
    using assms by (cases "get_context lib env user_id r db") (auto simp: delete_overrides_def)
  with assms have "write_plan env r \<lparr>po_weekly_hours = px_recommended_weekly_hours ctx, po_rest_weeks = [],
      po_order = [], po_hours = [], po_saved_at = None, po_version = expected, po_is_customized = False,
      po_step_schedules = (case overrides_row r db of None \<Rightarrow> []
        | Some row \<Rightarrow> filter (\<lambda>(key, _). key \<in> set (completed_ids r db)) (ov_step_schedules row))\<rparr> db = Inr result"
    by (auto simp: delete_overrides_def err_simps Let_def split: sum.splits)
  then show ?thesis by (intro exI conjI) (assumption, simp_all)
qed

lemma run_opD:
  assumes "run_op op db = Inr (saved, db')"
  shows "\<exists>env plan. write_plan env (op_roadmap op) plan db = Inr (saved, db') \<and> po_version plan = op_version op"
proof (cases op)
  case (SavePlan env user_id roadmap_id plan)
  then show ?thesis using assms by (auto simp: upsert_def err_simps map_sum_def split: sum.splits)
next
  case (ResetPlan lib env user_id roadmap_id expected)
  with assms have "delete_overrides lib env user_id roadmap_id expected db = Inr (saved, db')" by simp
  from delete_overridesD [OF this] ResetPlan show ?thesis by auto
qed

lemma plan_step_version:
  assumes "plan_step op db db'" and "plans_keyed db"
  shows "plans_keyed db'" "version_at (op_roadmap op) db = op_version op"
    "version_at r db' = version_at r db + (if op_roadmap op = r then 1 else 0)"
proof -
  from assms(1) obtain saved where "run_op op db = Inr (saved, db')" by (auto simp: plan_step_def)
  from run_opD [OF this] obtain env plan where w: "write_plan env (op_roadmap op) plan db = Inr (saved, db')"
    "po_version plan = op_version op" by blast
  note W = write_planD [OF w(1) assms(2)]
  show "plans_keyed db'" "version_at (op_roadmap op) db = op_version op" using W w(2) by simp_all
  show "version_at r db' = version_at r db + (if op_roadmap op = r then 1 else 0)"
    using W(1,2) W(6) [of r] by (auto simp: version_at_def)
qed

interpretation plans: monotone_system plan_step plans_keyed "\<lambda>db db'. \<forall>r. version_at r db \<le> version_at r db'"
  by unfold_locales (auto simp: plan_step_version intro: order_trans)

lemma run_version:
  "run plan_step tr db db' \<Longrightarrow> plans_keyed db
    \<Longrightarrow> version_at r db' = version_at r db + int (length (filter (\<lambda>op. op_roadmap op = r) tr))"
proof (induction rule: run.induct)
  case (run_step op db db1 tr db2)
  with plan_step_version [OF run_step.hyps(1)] show ?case by simp
qed simp

text \<open>
  C15: no update of a weekly plan is lost. The version of a roadmap's plan is the number of saves and
  resets it went through; once one of them succeeded with an expected version, every later save or
  reset of that roadmap that still expects this version, or an older one, is refused and changes
  nothing, whoever made the changes in between (a reset included).
\<close>

theorem stale_plan_refused:
  assumes "plans_keyed db0" and "plan_step op db0 db1" and "run plan_step tr db1 db2"
    and "op_roadmap op' = op_roadmap op" and "op_version op' \<le> op_version op"
  shows "(\<exists>e. run_op op' db2 = Inl e)
    \<and> version_at (op_roadmap op) db2 = op_version op + 1 + int (length (filter (\<lambda>o1. op_roadmap o1 = op_roadmap op) tr))"
proof -
  note first = plan_step_version [OF assms(2,1)]
  have version: "version_at (op_roadmap op) db2
      = op_version op + 1 + int (length (filter (\<lambda>o1. op_roadmap o1 = op_roadmap op) tr))"
    using run_version [OF assms(3) first(1), of "op_roadmap op"] first(2) first(3) [of "op_roadmap op"] by simp
  have "plans_keyed db2" using plans.run_inv [OF assms(3) first(1)] .
  then have "run_op op' db2 \<noteq> Inr (saved, db3)" for saved db3
    using plan_step_version(2) [of op' db2 db3] assms(4,5) version by (auto simp: plan_step_def)
  then have "\<exists>e. run_op op' db2 = Inl e" by (cases "run_op op' db2") auto
  with version show ?thesis by blast
qed

subsection \<open>Saving keeps the history\<close>

lemma py_dict_mem: "map_of (py_dict kvs) k = Some v \<Longrightarrow> (k, v) \<in> set kvs"
  by (induction kvs rule: rev_induct) (auto simp: py_dict_def update_conv' split: if_splits)

lemma map_of_steps:
  assumes "distinct (map wp_step_id es)" and "e \<in> set es"
  shows "map_of (py_dict (map (\<lambda>e. (wp_step_id e, e)) es)) (wp_step_id e) = Some e"
proof -
  have dist: "distinct (map fst (map (\<lambda>e. (wp_step_id e, e)) es))" using assms(1) by (simp add: comp_def)
  then have "py_dict (map (\<lambda>e. (wp_step_id e, e)) es) = map (\<lambda>e. (wp_step_id e, e)) es" by (rule py_dict_distinct)
  then show ?thesis using dist assms(2) by (simp add: map_of_is_SomeI)
qed

lemma handle_Inr: "handle m f = Some (Inr r) \<longleftrightarrow> (\<exists>v. m = Some (Inr v) \<and> f v = Some (Inr r))"
  by (auto simp: handle_def split: option.splits sum.splits)

lemma stored_Inr: "stored m = Some (Inr v) \<longleftrightarrow> m = Inr v"
  by (auto simp: stored_def split: sum.splits)

lemma build_plan_Inr: "build_plan lib inputs ov = Some (Inr plan) \<longleftrightarrow>
    build_weekly_plan (lib_zone lib (px_timezone (pi_context inputs))) (lib_wall_off lib (px_timezone (pi_context inputs)))
      (pi_context inputs) (pi_steps inputs) ov = Some (Inr plan)"
proof -
  have "map_sum f id r = Inr plan \<longleftrightarrow> r = Inr plan" for f :: "weekly_error \<Rightarrow> plan_error" and r :: "weekly_error + WeeklyPlanResponse"
    by (cases r) auto
  then show ?thesis by (auto simp: build_plan_def Let_def)
qed

lemma asked_hours_mem: "map_of (asked_hours rq recommended) k = Some h \<Longrightarrow> (k, h) \<in> set (rq_hours rq)"
  unfolding asked_hours_def
  by (drule py_dict_mem) (auto simp: List.map_filter_def dest: map_of_SomeD split: option.splits if_splits)

lemma overrides_ofD:
  assumes "overrides_of lib rq inputs saved existing = Some (Inr plan)" and valid: "request_valid rq"
    and input: "plannable (pi_context inputs) (pi_steps inputs) existing"
  shows "\<exists>current. build_plan lib inputs existing = Some (Inr current)
      \<and> po_step_schedules plan = py_dict (map (\<lambda>e. (wp_step_id e, e)) (filter (\<lambda>e. wp_state e = COMPLETED) (wr_steps current)))"
    "plannable (pi_context inputs) (pi_steps inputs) (Some plan)"
proof -
  from assms(1) have
    order: "length (rq_order rq) = card (set (map step_id_of (pi_steps inputs)))" "set (rq_order rq) = set (map step_id_of (pi_steps inputs))"
    unfolding overrides_of_def Let_def by (auto split: if_splits)
  with assms(1) obtain recommended current where
    current: "build_plan lib inputs existing = Some (Inr current)" and
    fields: "po_order plan = rq_order rq"
      "po_step_schedules plan = py_dict (map (\<lambda>e. (wp_step_id e, e)) (filter (\<lambda>e. wp_state e = COMPLETED) (wr_steps current)))"
    and hours: "po_hours plan = asked_hours rq recommended"
    unfolding overrides_of_def Let_def by (auto simp: handle_Inr split: if_splits)
  then show "\<exists>current. build_plan lib inputs existing = Some (Inr current)
      \<and> po_step_schedules plan = py_dict (map (\<lambda>e. (wp_step_id e, e)) (filter (\<lambda>e. wp_state e = COMPLETED) (wr_steps current)))"
    using fields(2) by auto
  have "distinct (po_order plan)" using order fields(1) by (simp add: card_distinct)
  moreover have "0 < dict_get (po_hours plan) k (hours_for (pi_context inputs) item)"
    if item: "item \<in> set (pi_steps inputs)" for k item
  proof (cases "map_of (po_hours plan) k")
    case None
    then show ?thesis using item input by (simp add: dict_get_def plannable_def list_all_iff)
  next
    case (Some h)
    then have "(k, h) \<in> set (rq_hours rq)" unfolding hours by (rule asked_hours_mem)
    then show ?thesis using valid Some by (auto simp: dict_get_def request_valid_def list_all_iff)
  qed
  ultimately show "plannable (pi_context inputs) (pi_steps inputs) (Some plan)"
    using input by (auto simp: plannable_def plan_hours_def list_all_iff)
qed

lemma plannable_cong: "po_order ov = po_order ov' \<Longrightarrow> po_hours ov = po_hours ov'
    \<Longrightarrow> plannable ctx items (Some ov) = plannable ctx items (Some ov')"
  by (simp add: plannable_def plan_hours_def)

lemma history_carried:
  assumes b: "built z wall_off ctx items requested plan fr" and item: "item \<in> set items" "is_completed item"
    and snap: "map_of (snapshots_of requested) (step_id_of item) = Some snap" "exact_entry z snap"
  shows "\<exists>e \<in> set (wr_steps plan). wp_step_id e = step_id_of item \<and> wp_state e = COMPLETED
    \<and> history_of e = history_of snap \<and> exact_entry z e"
proof -
  from built_has_entry [OF b item(1)] obtain n e where e: "e \<in> set (wr_steps plan)" "plan_entry fr (n, item) = Inr e" by blast
  from completed_entry [OF b item e(2)] snap plan_entryD(1) [OF e(2)] e(1) show ?thesis by blast
qed

lemma built_distinct:
  assumes "built z wall_off ctx items requested plan fr" and "distinct (map step_id_of items)"
  shows "distinct (map wp_step_id (wr_steps plan))"
  unfolding built_ids(1) [OF assms(1)] using assms distinct_ids_mset unfolding built_def by metis

text \<open>
  C14: saving a plan keeps the history of completed steps. When a valid request is saved, every step
  that the plan showed as completed before has the same hours, hours per week, interval and dates in
  the answer, whatever the request asks for; and the plan read back afterwards is the answer.
\<close>

theorem put_keeps_completed_history:
  assumes zone: "midnight_follows (lib_zone lib (px_timezone (pi_context inputs))) (lib_wall_off lib (px_timezone (pi_context inputs)))"
    and valid: "request_valid rq" and key: "plans_keyed db"
    and input: "plannable (pi_context inputs) (pi_steps inputs)
      (map_option stored_plan (overrides_row (px_roadmap_id (pi_context inputs)) db))"
    and before: "get_weekly_plan lib inputs db = Some (Inr plan)"
    and put: "put_weekly_plan lib env rq inputs db = Some (Inr (plan', db'))"
  shows "(\<forall>e \<in> set (wr_steps plan). wp_state e = COMPLETED \<longrightarrow>
      (\<exists>e' \<in> set (wr_steps plan'). wp_step_id e' = wp_step_id e \<and> wp_state e' = COMPLETED \<and> history_of e' = history_of e))
    \<and> get_weekly_plan lib inputs db' = Some (Inr plan')"
proof -
  let ?ctx = "pi_context inputs" and ?items = "pi_steps inputs" and ?r = "px_roadmap_id (pi_context inputs)"
  let ?z = "lib_zone lib (px_timezone ?ctx)" and ?w = "lib_wall_off lib (px_timezone ?ctx)"
  let ?existing = "map_option stored_plan (overrides_row ?r db)"
  from put obtain ov preview saved where
    get: "require_owner (pi_user_id inputs) ?r False db = Inr ()" and
    ov: "overrides_of lib rq inputs (Some (utc_dt (e_app_now env))) ?existing = Some (Inr ov)" and
    preview: "build_plan lib inputs (Some ov) = Some (Inr preview)" and
    up: "upsert env (pi_user_id inputs) ?r (plan_to_save ov preview) db = Inr (saved, db')" and
    answer: "build_plan lib inputs (Some saved) = Some (Inr plan')"
    by (auto simp: put_weekly_plan_def Let_def handle_Inr stored_Inr get_overrides_def err_simps)
  from up have w: "write_plan env ?r (plan_to_save ov preview) db = Inr (saved, db')" by (auto simp: upsert_def err_simps)
  note W = write_planD [OF w key]
  have same_roadmaps: "roadmaps db' = roadmaps db" using w by (auto simp: write_plan_def Let_def err_simps)
  have read_back: "get_weekly_plan lib inputs db' = Some (Inr plan')"
    using answer get W(4,5) same_roadmaps
    by (simp add: get_weekly_plan_def get_overrides_def require_owner_def handle_def stored_def split: option.splits)
  from overrides_ofD [OF ov valid input] obtain current where current: "build_plan lib inputs ?existing = Some (Inr current)"
    "po_step_schedules ov = py_dict (map (\<lambda>e. (wp_step_id e, e)) (filter (\<lambda>e. wp_state e = COMPLETED) (wr_steps current)))"
    and ok: "plannable ?ctx ?items (Some ov)" by blast
  have "plan = current"
    using before current(1) get by (simp add: get_weekly_plan_def get_overrides_def handle_def stored_def)
  have ok': "plannable ?ctx ?items (Some saved)"
    using ok plannable_cong [of saved ov] by (simp add: W(5) stored_plan_def plan_row_def plan_to_save_def)
  have ids: "distinct (map step_id_of ?items)" using input by (simp add: plannable_def)
  from build_result [OF zone input] current(1) obtain fr0 where b0: "built ?z ?w ?ctx ?items ?existing current fr0"
    by (auto simp: build_plan_Inr)
  from build_result [OF zone ok] preview obtain fr1 where b1: "built ?z ?w ?ctx ?items (Some ov) preview fr1"
    by (auto simp: build_plan_Inr)
  from build_result [OF zone ok'] answer obtain fr2 where b2: "built ?z ?w ?ctx ?items (Some saved) plan' fr2"
    by (auto simp: build_plan_Inr)
  have "\<exists>e' \<in> set (wr_steps plan'). wp_step_id e' = wp_step_id e \<and> wp_state e' = COMPLETED \<and> history_of e' = history_of e"
    if e: "e \<in> set (wr_steps current)" "wp_state e = COMPLETED" for e
  proof -
    from built_entry [OF b0 e(1)] obtain n item where item: "item \<in> set ?items" "plan_entry fr0 (n, item) = Inr e" by blast
    have done_item: "is_completed item" using plan_entryD(8) [OF item(2)] e(2) by (simp add: is_completed_def)
    have id: "wp_step_id e = step_id_of item" by (rule plan_entryD(1) [OF item(2)])
    have "distinct (map wp_step_id (filter (\<lambda>e. wp_state e = COMPLETED) (wr_steps current)))"
      using built_distinct [OF b0 ids] by (rule distinct_map_filter)
    from map_of_steps [OF this, of e] e have "map_of (snapshots_of (Some ov)) (step_id_of item) = Some e"
      by (simp add: snapshots_of_def current(2) id)
    from history_carried [OF b1 item(1) done_item this completed_entry(1) [OF b0 item(1) done_item item(2)]]
    obtain e1 where e1: "e1 \<in> set (wr_steps preview)" "wp_step_id e1 = step_id_of item" "history_of e1 = history_of e"
      "exact_entry ?z e1" by blast
    have "map_of (snapshots_of (Some saved)) (step_id_of item) = Some e1"
      using map_of_steps [OF built_distinct [OF b1 ids] e1(1)]
      by (simp add: snapshots_of_def W(5) stored_plan_def plan_row_def plan_to_save_def e1(2))
    from history_carried [OF b2 item(1) done_item this e1(4)] e1(3) id show ?thesis by auto
  qed
  with read_back \<open>plan = current\<close> show ?thesis by blast
qed

subsection \<open>An example\<close>

text \<open>A roadmap whose step \<open>a\<close> is completed; the user asks for twice the hours and for \<open>c\<close> first.\<close>

definition sample_plan_lib :: plan_lib where
  "sample_plan_lib = \<lparr>lib_zone = (\<lambda>_. utc_zone), lib_wall_off = (\<lambda>_ _. 0), lib_fromisoformat = (\<lambda>_. None),
     lib_metadata = (\<lambda>_. None), lib_constraints = (\<lambda>_. None)\<rparr>"

definition sample_roadmap_db :: database where
  "sample_roadmap_db = empty_db\<lparr>roadmaps := [\<lparr>rm_id = ''r'', rm_user_id = ''u'', rm_goal_id = ''g'', rm_proposal_id = ''p'',
     rm_title = [], rm_state = ACTIVE, rm_version = 1, rm_profile_version = 1, rm_release_id = None, rm_validity = [],
     rm_created_at = 0\<rparr>]\<rparr>"

definition sample_inputs :: PlanInputs where
  "sample_inputs = \<lparr>pi_user_id = ''u'', pi_context = sample_context,
     pi_steps = map (\<lambda>item. if step_id_of item = ''a'' then item\<lparr>in_step := (in_step item)\<lparr>vw_state := COMPLETED\<rparr>\<rparr> else item)
       sample_ordered\<rparr>"

definition sample_request :: WeeklyPlanRequest where
  "sample_request = \<lparr>rq_expected_version = 0, rq_weekly_hours = 8, rq_rest_weeks = [2],
     rq_order = [''c'', ''b'', ''a''], rq_hours = [(''b'', 4)]\<rparr>"

lemmas sample_request_defs = sample_plan_lib_def sample_roadmap_db_def sample_inputs_def sample_request_def empty_db_def

lemma sample_get: "map_option (map_sum (\<lambda>_. ()) (\<lambda>plan. map wp_state (wr_steps plan)))
    (get_weekly_plan sample_plan_lib sample_inputs sample_roadmap_db) = Some (Inr [COMPLETED, TODO, TODO])"
  by code_simp

lemma sample_put: "map_option (map_sum (\<lambda>_. ()) (\<lambda>(plan, db). (wr_total_hours plan, wr_version plan)))
    (put_weekly_plan sample_plan_lib (sample_env 0) sample_request sample_inputs sample_roadmap_db) = Some (Inr (7, 1))"
  by code_simp

lemma handler_InrD: "map_option (map_sum f g) m = Some (Inr y) \<Longrightarrow> \<exists>x. m = Some (Inr x) \<and> g x = y"
proof (cases m)
  case (Some r)
  then show "map_option (map_sum f g) m = Some (Inr y) \<Longrightarrow> \<exists>x. m = Some (Inr x) \<and> g x = y" by (cases r) simp_all
qed simp

theorem put_keeps_completed_history_witness:
  "\<exists>plan plan' db' e e'. get_weekly_plan sample_plan_lib sample_inputs sample_roadmap_db = Some (Inr plan)
     \<and> put_weekly_plan sample_plan_lib (sample_env 0) sample_request sample_inputs sample_roadmap_db = Some (Inr (plan', db'))
     \<and> e \<in> set (wr_steps plan) \<and> wp_state e = COMPLETED \<and> e' \<in> set (wr_steps plan') \<and> history_of e' = history_of e
     \<and> get_weekly_plan sample_plan_lib sample_inputs db' = Some (Inr plan')"
proof -
  from handler_InrD [OF sample_get] obtain plan where
    plan: "get_weekly_plan sample_plan_lib sample_inputs sample_roadmap_db = Some (Inr plan)"
      "map wp_state (wr_steps plan) = [COMPLETED, TODO, TODO]" by (elim exE conjE)
  from handler_InrD [OF sample_put] obtain x where
    x: "put_weekly_plan sample_plan_lib (sample_env 0) sample_request sample_inputs sample_roadmap_db = Some (Inr x)"
    by (elim exE conjE)
  obtain plan' db' where "x = (plan', db')" by (rule prod.exhaust)
  with x have put: "put_weekly_plan sample_plan_lib (sample_env 0) sample_request sample_inputs sample_roadmap_db
      = Some (Inr (plan', db'))" by (simp only:)
  have zone: "midnight_follows (lib_zone sample_plan_lib (px_timezone (pi_context sample_inputs)))
      (lib_wall_off sample_plan_lib (px_timezone (pi_context sample_inputs)))"
    using midnight_follows_utc by (simp add: sample_plan_lib_def)
  have valid: "request_valid sample_request" by (simp add: request_valid_def sample_request_def)
  have key: "plans_keyed sample_roadmap_db" by (simp add: plans_keyed_def sample_roadmap_db_def empty_db_def)
  have none: "overrides_row k sample_roadmap_db = None" for k
    by (simp add: overrides_row_def one_or_none_def sample_roadmap_db_def empty_db_def)
  have input: "plannable (pi_context sample_inputs) (pi_steps sample_inputs)
      (map_option stored_plan (overrides_row (px_roadmap_id (pi_context sample_inputs)) sample_roadmap_db))"
    unfolding none by (simp add: plannable_def hours_for_def sample_inputs_def sample_plan_defs)
  from plan(2) obtain e where e: "e \<in> set (wr_steps plan)" "wp_state e = COMPLETED" by (cases "wr_steps plan") auto
  note kept = put_keeps_completed_history [OF zone valid key input plan(1) put]
  from kept [THEN conjunct1] e obtain e' where "e' \<in> set (wr_steps plan')" "history_of e' = history_of e" by blast
  with kept [THEN conjunct2] e plan(1) put show ?thesis by (intro exI conjI)
qed

lemma sample_saved: "map_sum (\<lambda>_. ()) (\<lambda>_. ()) (run_op (SavePlan (sample_env 0) ''u'' ''r'' sample_overrides) sample_roadmap_db) = Inr ()"
  by code_simp

theorem stale_plan_refused_witness:
  "\<exists>saved db e. run_op (SavePlan (sample_env 0) ''u'' ''r'' sample_overrides) sample_roadmap_db = Inr (saved, db)
     \<and> run_op (ResetPlan sample_plan_lib (sample_env 5) ''u'' ''r'' 0) db = Inl e \<and> version_at ''r'' db = 1"
proof -
  let ?op = "SavePlan (sample_env 0) ''u'' ''r'' sample_overrides"
  obtain saved db where run: "run_op ?op sample_roadmap_db = Inr (saved, db)"
    using sample_saved by (cases "run_op ?op sample_roadmap_db") auto
  have key: "plans_keyed sample_roadmap_db" by (simp add: plans_keyed_def sample_roadmap_db_def empty_db_def)
  have step: "plan_step ?op sample_roadmap_db db" using run by (auto simp: plan_step_def)
  from stale_plan_refused [OF key step run_nil, of "ResetPlan sample_plan_lib (sample_env 5) ''u'' ''r'' 0"]
  have "(\<exists>e. run_op (ResetPlan sample_plan_lib (sample_env 5) ''u'' ''r'' 0) db = Inl e) \<and> version_at ''r'' db = 1"
    by (simp del: run_op.simps add: sample_overrides_def)
  with run show ?thesis by blast
qed
end
