(* ===== verification/Store_Guarantees.thy ===== *)
theory Store_Guarantees
  imports User_State_Safety
begin

section \<open>Guarantees of the application store\<close>

text \<open>
  Properties of runs of the user-state transactions, through the interpretation of the locale
  \<open>monotone_system\<close>: the active route always fits the goal, changes are serialized by the profile
  version, activations end in domain conflicts rather than in violated indexes, a completion can be
  taken back without trace, and the automatic roadmap displaces nothing.
\<close>

subsection \<open>Runs\<close>

definition versions_later :: "database \<Rightarrow> database \<Rightarrow> bool" where
  "versions_later db db' \<longleftrightarrow>
     (\<forall>u v. profile_version u db = Some v \<longrightarrow> (\<exists>v'. profile_version u db' = Some v' \<and> v \<le> v'))"

lemma step_later: "execute lib env c db = Inr db' \<Longrightarrow> store_ok db \<Longrightarrow> versions_later db db'"
  using execute_step [of lib env c db db']
  by (cases "base c") (auto simp: versions_later_def keeps_versions_def changes_def advances_def,
      metis option.inject order.refl zle_add1_eq_le zless_add1_eq)

interpretation store: monotone_system "user_step lib" store_ok versions_later for lib
proof
  fix l db db' assume "user_step lib l db db'" "store_ok db"
  then show "store_ok db'" "versions_later db db'"
    by (cases l; auto simp: user_step_iff dest: execute_step step_later)+
next
  fix db db1 db2 assume "versions_later db db1" "versions_later db1 db2"
  then show "versions_later db db2" unfolding versions_later_def by (meson order_trans)
qed (auto simp: versions_later_def)

lemma store_ok_empty: "store_ok empty_db"
  by (simp add: store_ok_def empty_db_def one_active_goal_def one_active_roadmap_def active_roadmaps_def rows_where_def)

text \<open>Executing a list of commands, each in its own transaction.\<close>

definition run_commands :: "store_lib \<Rightarrow> (env \<times> command) list \<Rightarrow> database \<Rightarrow> persistence_error + database" where
  "run_commands lib tr db = fold_err (\<lambda>(env, c). execute lib env c) tr db"

lemma run_commands_run: "run_commands lib tr db = Inr db' \<Longrightarrow> run (user_step lib) tr db db'"
  unfolding run_commands_def
  by (induction tr arbitrary: db) (auto simp: err_simps intro: run.intros user_step)

subsection \<open>A small history\<close>

definition sample_store_lib :: store_lib where
  "sample_store_lib = \<lparr>sl_context = \<lparr>cl_parse = (\<lambda>_. None), cl_dump = (\<lambda>_. None), cl_zone = (\<lambda>_. None),
       cl_wall_off = (\<lambda>_ _. 0), cl_spec = (\<lambda>_. None), cl_capability_list_authoritative = False\<rparr>,
     sl_iso = (\<lambda>_. None),
     sl_outcome = (\<lambda>j. case j of JStr s \<Rightarrow> Some \<lparr>ro_requirement_key = s, ro_entity_id = s, ro_raw_text = s,
         ro_experience_codes = []\<rparr> | _ \<Rightarrow> None),
     sl_google_accounts_only = False\<rparr>"

text \<open>Transaction number \<open>k\<close>, with its own fresh ids.\<close>

definition tx_env :: "nat \<Rightarrow> env" where
  "tx_env k = (sample_env (int k))\<lparr>e_uuid := (\<lambda>n. show_nat k @ ''-'' @ show_nat n)\<rparr>"

definition sample_goal :: "int \<Rightarrow> uuid option \<Rightarrow> string \<Rightarrow> GoalMutation" where
  "sample_goal version goal occupation = \<lparr>gm_user_id = ''ada'', gm_expected_profile_version = version, gm_goal_id = goal,
     gm_goal_mode = ''TARGETED'', gm_occupation_id = Some occupation, gm_target_by = 1000, gm_timezone = ''UTC'',
     gm_original_time_phrase = [], gm_status = ACTIVE\<rparr>"

definition sample_analysis :: AnalysisPersist where
  "sample_analysis = \<lparr>ap_user_id = ''ada'', ap_analysis_id = ''an'', ap_goal_id = ''1-3'', ap_profile_version = 2,
     ap_basis_type = ''EDITORIAL'', ap_basis_version = ''1'', ap_release_id = None, ap_methodology_version = ''1'',
     ap_status = ''READY'', ap_reference_at = 0, ap_input_snapshot = [(''snapshot_selection'',
       JMap [(''occupation_id'', JStr ''backend'')])], ap_input_hash = [], ap_results = None, ap_is_fixture = False\<rparr>"

definition sample_proposal :: RouteProposalPersist where
  "sample_proposal = \<lparr>pp_user_id = ''ada'', pp_proposal_id = ''pr'', pp_analysis_id = ''an'', pp_profile_version = 2,
     pp_proposal_hash = [], pp_constraints_snapshot = [], pp_feasibility = ''FEASIBLE'', pp_optimization_status = ''OPTIMAL'',
     pp_steps = [[(''step_key'', JStr ''a''), (''action_id'', JStr ''learn-a''), (''template_revision'', JInt 1),
         (''outcomes'', JSeq [JStr ''sql''])],
       [(''step_key'', JStr ''b''), (''action_id'', JStr ''learn-b''), (''template_revision'', JInt 1),
         (''outcomes'', JSeq [JStr ''git'']), (''prerequisite_step_keys'', JSeq [JStr ''a''])]],
     pp_trace_id = ''tr'', pp_trace_versions = [], pp_trace_outputs = [], pp_release_id = None\<rparr>"

definition sample_create :: RoadmapCreate where
  "sample_create = \<lparr>rc_user_id = ''ada'', rc_roadmap_id = ''rm'', rc_goal_id = ''1-3'', rc_proposal_id = ''pr'',
     rc_title = ''route'', rc_profile_version = 2\<rparr>"

definition sample_activate :: RoadmapMutation where
  "sample_activate = \<lparr>rmu_user_id = ''ada'', rmu_roadmap_id = ''rm'', rmu_expected_roadmap_version = 1,
     rmu_expected_profile_version = 2, rmu_state = ACTIVE, rmu_title = None\<rparr>"

definition sample_history :: "(env \<times> command) list" where
  "sample_history = [(tx_env 0, CreateUser ''ada''), (tx_env 1, MutateGoal (sample_goal 1 None ''backend'')),
     (tx_env 2, PersistAnalysis sample_analysis), (tx_env 3, PersistProposal sample_proposal),
     (tx_env 4, CreateRoadmap sample_create), (tx_env 5, MutateRoadmap sample_activate)]"

lemma sample_history_runs:
  "case run_commands sample_store_lib sample_history empty_db of Inl _ \<Rightarrow> False
   | Inr db \<Rightarrow> map rm_state (roadmaps db) = [ACTIVE] \<and> profile_version ''ada'' db = Some 2"
  by code_simp

subsection \<open>The active route fits the goal\<close>

text \<open>What the fuller invariant says of one active roadmap.\<close>

definition current_route :: "database \<Rightarrow> roadmaps_row \<Rightarrow> bool" where
  "current_route db r \<longleftrightarrow> route_matches db r
     \<and> (\<forall>r' \<in> set (roadmaps db). rm_user_id r' = rm_user_id r \<and> rm_state r' = ACTIVE \<longrightarrow> r' = r)
     \<and> (\<forall>g \<in> set (goals db). go_user_id g = rm_user_id r \<and> go_status g = ACTIVE \<longrightarrow> go_id g = rm_goal_id r)"

lemma store_ok_current:
  assumes ok: "store_ok db" and r: "r \<in> set (roadmaps db)" "rm_state r = ACTIVE"
  shows "current_route db r"
proof -
  have m: "route_matches db r" using ok r by (simp add: store_ok_def list_all_iff active_roadmaps_def set_rows_where)
  then obtain g p a where g: "g \<in> set (goals db)" "go_id g = rm_goal_id r" "go_user_id g = rm_user_id r" "planned_for_goal (p, a, g)"
    by (rule route_matchesE)
  have one: "keyed rm_user_id (rows_where (\<lambda>r. rm_state r = ACTIVE) (roadmaps db))"
    "keyed go_user_id (rows_where (\<lambda>g. go_status g = ACTIVE) (goals db))"
    using ok by (simp_all add: store_ok_def one_active_roadmap_def one_active_goal_def)
  have "r' = r" if "r' \<in> set (roadmaps db)" "rm_user_id r' = rm_user_id r" "rm_state r' = ACTIVE" for r'
    using keyed_inject [OF one(1), of r' r] that r by (simp add: set_rows_where)
  moreover have "go_id g' = rm_goal_id r" if "g' \<in> set (goals db)" "go_user_id g' = rm_user_id r" "go_status g' = ACTIVE" for g'
    using keyed_inject [OF one(2), of g' g] that g by (simp add: set_rows_where planned_for_goal_def)
  ultimately show ?thesis using m by (auto simp: current_route_def)
qed

text \<open>
  C18: in every state that the user-state transactions reach, in any interleaving, an active roadmap is the
  only active roadmap of its user, its goal is the user's one active goal, and its proposal was computed
  for the occupation that goal names now.
\<close>

theorem active_route_matches_goal:
  assumes "run (user_step lib) tr db db'" and "store_ok db" and "r \<in> set (roadmaps db')" and "rm_state r = ACTIVE"
  shows "current_route db' r"
  by (rule store_ok_current [OF store.run_inv [OF assms(1,2)] assms(3,4)])

definition sample_db :: database where
  "sample_db = (case run_commands sample_store_lib sample_history empty_db of Inr db \<Rightarrow> db | Inl _ \<Rightarrow> empty_db)"

lemma sample_db_run: "run (user_step sample_store_lib) sample_history empty_db sample_db"
  using sample_history_runs unfolding sample_db_def
  by (cases "run_commands sample_store_lib sample_history empty_db") (auto intro: run_commands_run)

lemma sample_db_ok: "store_ok sample_db"
  by (rule store.run_inv [OF sample_db_run store_ok_empty])

lemma sample_db_active: "map rm_state (roadmaps sample_db) = [ACTIVE]"
  using sample_history_runs unfolding sample_db_def
  by (cases "run_commands sample_store_lib sample_history empty_db") auto

theorem active_route_matches_goal_witness: "current_route sample_db (hd (roadmaps sample_db))"
  by (rule active_route_matches_goal [OF sample_db_run store_ok_empty]) (use sample_db_active in \<open>auto simp: map_eq_Cons_conv\<close>)

subsection \<open>Changes are serialized by the version\<close>

definition bases :: "uuid \<Rightarrow> (env \<times> command) list \<Rightarrow> int list" where
  "bases u tr = List.map_filter (\<lambda>(env, c). case base c of Some (w, v) \<Rightarrow> if w = u then Some v else None | None \<Rightarrow> None) tr"

lemma bases_simps: "bases u [] = []"
  "bases u ((env, c) # tr) = (case base c of Some (w, v) \<Rightarrow> if w = u then v # bases u tr else bases u tr | None \<Rightarrow> bases u tr)"
  by (simp_all add: bases_def map_filter_simps split: option.splits)

text \<open>One step: the log grows by the version after the base, exactly when the step is a change of this user.\<close>

lemma logs_log_of:
  "logs w v db db' \<Longrightarrow> log_of u db' = (if w = u then log_of u db @ [v] else log_of u db)"
  by (auto simp: logs_def log_of_def rows_where_def)

lemma step_serial:
  assumes "execute lib env c db = Inr db'" and "store_ok db" and v: "profile_version u db = Some v"
  shows "bases u [(env, c)] = [] \<and> profile_version u db' = Some v \<and> log_of u db' = log_of u db
    \<or> bases u [(env, c)] = [v] \<and> profile_version u db' = Some (v + 1) \<and> log_of u db' = log_of u db @ [v + 1]"
proof (cases "base c")
  case None
  with execute_step [OF assms(1,2)] v show ?thesis by (simp add: keeps_versions_def bases_simps)
next
  case (Some wv)
  obtain w x where wx: "wv = (w, x)" by force
  with Some execute_step [OF assms(1,2)] have ch: "changes w x db db'" by simp
  then have adv: "advances w x db db'" and lg: "logs w (x + 1) db db'" by (simp_all add: changes_def)
  show ?thesis
  proof (cases "w = u")
    case True
    with adv v logs_log_of [OF lg, of u] Some wx show ?thesis by (simp add: advances_def bases_simps)
  next
    case False
    with adv v logs_log_of [OF lg, of u] Some wx show ?thesis by (simp add: advances_def bases_simps)
  qed
qed

text \<open>
  C19: along every run, the accepted changes of a user were based on consecutive versions, each on the
  state its predecessor left: two changes based on the same version never both succeed. The final version
  counts the changes, and the event log has gained exactly one entry for each, under its new version.
\<close>

theorem changes_are_serialized:
  assumes "run (user_step lib) tr db db'" and "store_ok db" and "profile_version u db = Some v"
  shows "bases u tr = map (\<lambda>i. v + int i) [0..<length (bases u tr)]
    \<and> profile_version u db' = Some (v + int (length (bases u tr)))
    \<and> log_of u db' = log_of u db @ map (\<lambda>b. b + 1) (bases u tr)"
  using assms
proof (induction arbitrary: v rule: run.induct)
  case (run_nil s)
  then show ?case by (simp add: bases_simps)
next
  case (run_step l s s1 tr s2)
  obtain env c where l: "l = (env, c)" by force
  with run_step.hyps(1) have ex: "execute lib env c s = Inr s1" by (simp add: user_step_iff)
  have ok1: "store_ok s1" using execute_step [OF ex run_step.prems(1)] by simp
  from step_serial [OF ex run_step.prems(1,2)] show ?case
  proof (elim disjE conjE)
    assume "bases u [(env, c)] = []" "profile_version u s1 = Some v" "log_of u s1 = log_of u s"
    with run_step.IH [OF ok1] l show ?thesis by (simp add: bases_simps split: option.splits if_splits prod.splits)
  next
    assume s: "bases u [(env, c)] = [v]" "profile_version u s1 = Some (v + 1)" "log_of u s1 = log_of u s @ [v + 1]"
    then have b: "bases u (l # tr) = v # bases u tr"
      using l by (simp add: bases_simps split: option.splits if_splits prod.splits)
    have "map (\<lambda>i. v + int i) [0..<Suc n] = v # map (\<lambda>i. v + 1 + int i) [0..<n]" for n
      by (simp add: upt_conv_Cons map_Suc_upt [symmetric] del: upt_Suc)
    with run_step.IH [OF ok1 s(2)] s(3) b show ?thesis by (simp del: upt_Suc)
  qed
qed

definition sample_changes :: "(env \<times> command) list" where
  "sample_changes = [(tx_env 6, MutateGoal (sample_goal 2 (Some ''1-3'') ''frontend''))]"

definition changed_db :: database where
  "changed_db = (case run_commands sample_store_lib sample_changes sample_db of Inr db \<Rightarrow> db | Inl _ \<Rightarrow> empty_db)"

lemma sample_changes_runs:
  "case run_commands sample_store_lib (sample_history @ sample_changes) empty_db of Inl _ \<Rightarrow> False
   | Inr db \<Rightarrow> map rm_state (roadmaps db) = [ARCHIVED]"
  by code_simp

lemma run_commands_append:
  "run_commands lib (xs @ ys) db = and_then (run_commands lib xs db) (run_commands lib ys)"
  unfolding run_commands_def by (induction xs arbitrary: db) (auto simp: and_then_def split: sum.splits)

lemma changed_db_run: "run_commands sample_store_lib sample_changes sample_db = Inr changed_db"
proof -
  from sample_history_runs obtain db where 1: "run_commands sample_store_lib sample_history empty_db = Inr db"
    by (cases "run_commands sample_store_lib sample_history empty_db") auto
  then have s: "sample_db = db" by (simp add: sample_db_def)
  from sample_changes_runs 1 obtain db2 where "run_commands sample_store_lib sample_changes db = Inr db2"
    by (cases "run_commands sample_store_lib sample_changes db") (auto simp: run_commands_append)
  then show ?thesis using s by (simp add: changed_db_def)
qed

lemma sample_db_version: "profile_version ''ada'' sample_db = Some 2"
  using sample_history_runs unfolding sample_db_def
  by (cases "run_commands sample_store_lib sample_history empty_db") auto

theorem changes_are_serialized_witness:
  "bases ''ada'' sample_changes = [2] \<and> profile_version ''ada'' changed_db = Some 3
     \<and> log_of ''ada'' changed_db = log_of ''ada'' sample_db @ [3]"
proof -
  have b: "bases ''ada'' sample_changes = [2]"
    by (simp add: sample_changes_def bases_simps sample_goal_def)
  from changes_are_serialized [OF run_commands_run [OF changed_db_run] sample_db_ok sample_db_version] b
  show ?thesis by simp
qed

subsection \<open>Activations end in conflicts, not in violated indexes\<close>

lemma keyed_rowsI:
  assumes "keyed j t" and "\<And>x y. x \<in> set t \<Longrightarrow> y \<in> set t \<Longrightarrow> P x \<Longrightarrow> P y \<Longrightarrow> k x = k y \<Longrightarrow> j x = j y"
  shows "keyed k (rows_where P t)"
proof -
  have "distinct (filter P t)" "inj_on j (set t)"
    using assms(1) by (simp_all add: keyed_def distinct_map)
  then have "inj_on k (set (filter P t))"
    using assms(2) by (intro inj_onI) (auto dest: inj_onD)
  with \<open>distinct (filter P t)\<close> show ?thesis by (simp add: keyed_def rows_where_def distinct_map)
qed

lemma keyed_rowsD:
  "keyed k (rows_where P t) \<Longrightarrow> x \<in> set t \<Longrightarrow> y \<in> set t \<Longrightarrow> P x \<Longrightarrow> P y \<Longrightarrow> k x = k y \<Longrightarrow> x = y"
  using keyed_inject [of k "rows_where P t" x y] by (simp add: set_rows_where)

definition index_error :: "persistence_error \<Rightarrow> bool" where
  "index_error e \<longleftrightarrow> e \<in> {IntegrityError ''goals_one_active_per_user'', IntegrityError ''roadmaps_one_active_per_user''}"

lemma persist_no_index_error:
  "persist_recompute_request env r j q db = Inl e \<Longrightarrow> \<not> index_error e"
  by (auto simp: persist_recompute_request_def insert_request_def err_simps Let_def index_error_def
      split: option.split_asm if_split_asm)

lemma enqueue_no_index_error:
  "enqueue_recompute env u v ev r j db = Inl e \<Longrightarrow> \<not> index_error e"
  "enqueue_for_goal lib env u v ev g r j db = Inl e \<Longrightarrow> \<not> index_error e"
  "enqueue_for_active_user lib env u v ev r j db = Inl e \<Longrightarrow> \<not> index_error e"
proof -
  show a: "\<not> index_error e" if "enqueue_recompute env u v ev r j db = Inl e"
    using that persist_no_index_error by (auto simp: enqueue_recompute_def err_simps)
  show b: "\<not> index_error e" if "enqueue_for_goal lib env u v ev g r j db = Inl e" for g
    using that persist_no_index_error enqueue_recompute_def
    by (auto simp: enqueue_for_goal_def enqueue_recompute_def err_simps split: option.split_asm)
  show "\<not> index_error e" if "enqueue_for_active_user lib env u v ev r j db = Inl e"
    using that a b by (auto simp: enqueue_for_active_user_def split: list.split_asm)
qed

lemma simple_no_index_error:
  "require_version u v db = Inl e \<Longrightarrow> \<not> index_error e" "previous_goal q db = Inl e \<Longrightarrow> \<not> index_error e"
  "bump_profile env u v db = Inl e \<Longrightarrow> \<not> index_error e"
  "append_event i u a v kind payload db = Inl e \<Longrightarrow> \<not> index_error e"
  by (auto simp: require_version_def previous_goal_def bump_profile_def update_profile_def append_event_def
      insert_event_def Let_def err_simps index_error_def split: option.split_asm)

text \<open>The guard of \<open>mutate_goal\<close> keeps the index on goals satisfied.\<close>

lemma write_goal_no_index_error:
  assumes "write_goal env q goal db = Inl e" and ok: "keyed go_id (goals db)" "one_active_goal db"
    and goal: "\<And>g. gm_goal_id q = Some g \<Longrightarrow> goal = g"
    and guard: "gm_status q = ACTIVE \<Longrightarrow> \<not> row_exists (\<lambda>g. go_user_id g = gm_user_id q \<and> go_status g = ACTIVE \<and> go_id g \<noteq> goal) (goals db)"
  shows "\<not> index_error e"
proof -
  let ?this = "\<lambda>g. go_id g = goal \<and> go_user_id g = gm_user_id q"
  note one = ok(2) [unfolded one_active_goal_def]
  have upd: "one_active_goal (db\<lparr>goals := update_where ?this (set_goal env q) (goals db)\<rparr>)"
    unfolding one_active_goal_def using ok(1) guard keyed_rowsD [OF one]
    by (intro keyed_rowsI [of go_id])
      (auto simp: keyed_update set_goal_def set_update_where row_exists_iff split: if_splits)
  have new: "one_active_goal (db\<lparr>goals := goals db @ [g]\<rparr>)"
    if "go_id g = goal" "go_user_id g = gm_user_id q" "go_status g = gm_status q" "\<not> row_exists (\<lambda>g. go_id g = goal) (goals db)" for g
    unfolding one_active_goal_def using ok(1) guard keyed_rowsD [OF one] that
    by (intro keyed_rowsI [of go_id]) (auto simp: keyed_snoc row_exists_iff)
  from assms(1) upd new show ?thesis
    by (auto simp: write_goal_def Let_def err_simps require_Inr_iff require_Inl_iff index_error_def split: if_split_asm)
qed

lemma mutate_goal_no_index_error:
  assumes ok: "store_ok db" and err: "mutate_goal lib env q db = Inl e"
  shows "\<not> index_error e"
proof -
  define goal where "goal = (case gm_goal_id q of Some g \<Rightarrow> g | None \<Rightarrow> e_uuid env 3)"
  have keyed: "keyed p_user_id (profiles db)" "keyed go_id (goals db)" "one_active_goal db"
    using ok by (simp_all add: store_ok_def)
  from err consider "require_version (gm_user_id q) (gm_expected_profile_version q) db = Inl e" | "previous_goal q db = Inl e"
    | "e = PersistenceConflictError ''goal''" | "bump_profile env (gm_user_id q) (gm_expected_profile_version q) db = Inl e"
    | db1 where "gm_status q = ACTIVE \<longrightarrow> \<not> row_exists (\<lambda>g. go_user_id g = gm_user_id q \<and> go_status g = ACTIVE \<and> go_id g \<noteq> goal) (goals db)"
        "bump_profile env (gm_user_id q) (gm_expected_profile_version q) db = Inr db1" "write_goal env q goal db1 = Inl e"
    | i u a v kind payload db3 where "append_event i u a v kind payload db3 = Inl e"
    | db3 where "(if gm_status q = ACTIVE
         then enqueue_for_goal lib env (gm_user_id q) (gm_expected_profile_version q + 1) (e_uuid env 0) goal (e_uuid env 1) (e_uuid env 2) db3
         else enqueue_for_active_user lib env (gm_user_id q) (gm_expected_profile_version q + 1) (e_uuid env 0) (e_uuid env 1) (e_uuid env 2) db3) = Inl e"
    unfolding mutate_goal_def Let_def goal_def [symmetric] and_then_Inl_iff require_Inl_iff require_Inr_iff
    by (elim disjE exE conjE) (auto split: prod.splits)
  then show ?thesis
  proof cases
    case 5
    note b = bump_profile_Inr [OF 5(2) keyed(1)]
    then have "goals db1 = goals db" by (simp add: plans_of_def)
    with 5 keyed(2,3) show ?thesis
      by (intro write_goal_no_index_error [OF 5(3)]) (simp_all add: one_active_goal_def goal_def)
  next
    case 7
    then show ?thesis using enqueue_no_index_error by (auto split: if_split_asm)
  qed (auto simp: index_error_def dest: simple_no_index_error [unfolded index_error_def])
qed

lemma check_activation_no_index_error: "check_activation lib env u r db = Inl e \<Longrightarrow> \<not> index_error e"
  by (auto simp: check_activation_def err_simps index_error_def split: option.split_asm)

text \<open>Archiving first is what keeps the index on roadmaps satisfied.\<close>

lemma archive_not_active: "rm_state r = ACTIVE \<Longrightarrow> r \<noteq> archive x"
  using archive_simps(5) [of x] by auto

lemma activation_keeps_index:
  assumes "store_ok db" and "db1 = (if rmu_state q = ACTIVE then archive_others (rmu_user_id q) (rmu_roadmap_id q) db else db)"
  shows "one_active_roadmap (db1\<lparr>roadmaps := update_where (this_roadmap q) (set_roadmap q) (roadmaps db1)\<rparr>)"
proof -
  have ok1: "keyed rm_id (roadmaps db1)" "one_active_roadmap db1"
    using assms archive_others_store_ok [OF assms(1)] by (simp_all add: store_ok_def)
  have others: "rm_id r = rmu_roadmap_id q" if "rmu_state q = ACTIVE" "r \<in> set (roadmaps db1)" "rm_state r = ACTIVE"
      "rm_user_id r = rmu_user_id q" for r
    using that assms(2) archive_not_active [of r] by (auto simp: archive_others_def set_update_where split: if_splits)
  show ?thesis
    unfolding one_active_roadmap_def using ok1 others keyed_rowsD [OF ok1(2) [unfolded one_active_roadmap_def]]
    by (intro keyed_rowsI [of rm_id]) (auto simp: keyed_update set_update_where this_roadmap_def split: if_splits)
qed

lemma mutate_roadmap_no_index_error:
  assumes ok: "store_ok db" and err: "mutate_roadmap lib env q db = Inl e"
  shows "\<not> index_error e"
proof -
  note index = activation_keeps_index [OF ok refl, of q]
  from err consider "require_version (rmu_user_id q) (rmu_expected_profile_version q) db = Inl e"
    | "e = PersistenceConflictError ''roadmap''"
    | row where "(if rmu_state q = ACTIVE then check_activation lib env (rmu_user_id q) row db else Inr ()) = Inl e"
    unfolding mutate_roadmap_def Let_def
    by (auto simp: and_then_Inl_iff require_Inl_iff require_Inr_iff index split: option.split_asm split del: if_split)
  then show ?thesis
    using simple_no_index_error(1) check_activation_no_index_error
    by cases (auto simp: index_error_def split: if_split_asm)
qed

text \<open>
  C22: the checks of the handlers imply the database's own unique indexes: no sequence of transactions
  makes an activation fail with an integrity error of the index on active goals or on active roadmaps.
\<close>

theorem activation_never_violates_index:
  assumes "run (user_step lib) tr db db'" and "store_ok db"
  shows "mutate_goal clib env q db' \<noteq> Inl (IntegrityError ''goals_one_active_per_user'')
    \<and> mutate_roadmap lib env' r db' \<noteq> Inl (IntegrityError ''roadmaps_one_active_per_user'')"
proof (intro conjI notI)
  note ok = store.run_inv [OF assms]
  show False if "mutate_goal clib env q db' = Inl (IntegrityError ''goals_one_active_per_user'')"
    using mutate_goal_no_index_error [OF ok that] by (simp add: index_error_def)
  show False if "mutate_roadmap lib env' r db' = Inl (IntegrityError ''roadmaps_one_active_per_user'')"
    using mutate_roadmap_no_index_error [OF ok that] by (simp add: index_error_def)
qed

theorem activation_never_violates_index_witness:
  "mutate_goal (sl_context sample_store_lib) (tx_env 7) (sample_goal 2 None ''data'') sample_db
       \<noteq> Inl (IntegrityError ''goals_one_active_per_user'')
     \<and> mutate_roadmap sample_store_lib (tx_env 7) sample_activate sample_db
       \<noteq> Inl (IntegrityError ''roadmaps_one_active_per_user'')"
  by (rule activation_never_violates_index [OF sample_db_run store_ok_empty])

subsection \<open>Taking a completion back\<close>

text \<open>The capabilities of the transaction, apart from what the other tables hold.\<close>

lemma append_event_capabilities:
  assumes "append_event i u a v kind payload db = Inr db'"
  shows "user_capabilities db' = user_capabilities db" "step_completion_inheritances db' = step_completion_inheritances db"
    "\<forall>e \<in> set (user_state_events db). ev_id e \<noteq> i" "roadmap_steps db' = roadmap_steps db"
  using assms by (auto simp: append_event_def insert_event_def err_simps row_exists_iff require_Inr_iff)

lemma bump_profile_others:
  assumes "bump_profile env u v db = Inr db'"
  shows "user_capabilities db' = user_capabilities db" "step_completion_inheritances db' = step_completion_inheritances db"
    "user_state_events db' = user_state_events db" "roadmap_steps db' = roadmap_steps db"
  using assms by (auto simp: bump_profile_def update_profile_def Let_def err_simps)

lemma write_step_state_others:
  assumes "write_step_state q db = Inr db'"
  shows "user_capabilities db' = user_capabilities db" "step_completion_inheritances db' = step_completion_inheritances db"
    "user_state_events db' = user_state_events db"
  using assms by (auto simp: write_step_state_def Let_def err_simps)

text \<open>What a completion grants carries its event.\<close>

lemma outcome_capability_event [simp]:
  "uc_source_completion_event_id (outcome_capability env i u s e x) = Some e"
  by (simp add: outcome_capability_def)

lemma grant_outcome_cases:
  assumes "grant_outcome env u s e nx db = Inr db'"
  obtains "db' = db" | c where "insert_capability c db = Inr db'" "uc_source_completion_event_id c = Some e"
proof (cases nx)
  case (Pair n x)
  let ?c = "outcome_capability env (e_uuid env n) u s e x"
  show thesis
  proof (cases "row_exists (same_completion_entity ?c) (user_capabilities db)")
    case True
    with assms Pair have "db' = db" by (simp add: grant_outcome_def Let_def)
    then show thesis by (rule that(1))
  next
    case False
    with assms Pair have "insert_capability ?c db = Inr db'" by (simp add: grant_outcome_def Let_def)
    then show thesis by (rule that(2)) simp
  qed
qed

definition grants :: "uuid \<Rightarrow> database \<Rightarrow> database \<Rightarrow> bool" where
  "grants e db db' \<longleftrightarrow> (\<exists>cs. user_capabilities db' = user_capabilities db @ cs
     \<and> (\<forall>c \<in> set cs. uc_source_completion_event_id c = Some e))
     \<and> step_completion_inheritances db' = step_completion_inheritances db \<and> roadmap_steps db' = roadmap_steps db"

lemma grant_outcomes_grants:
  assumes "fold_err (grant_outcome env u s e) xs db = Inr db'"
  shows "grants e db db'"
proof (rule fold_err_invariant [OF assms])
  fix x d d' assume g: "grant_outcome env u s e x d = Inr d'" and I: "grants e db d"
  from g show "grants e db d'"
  proof (cases rule: grant_outcome_cases)
    case (2 c)
    from I obtain cs where cs: "user_capabilities d = user_capabilities db @ cs"
      "\<forall>c \<in> set cs. uc_source_completion_event_id c = Some e" by (auto simp: grants_def)
    have "d' = d\<lparr>user_capabilities := user_capabilities d @ [c]\<rparr>" using 2(1) by (simp add: insert_capability_def err_simps)
    with I cs 2(2) show ?thesis unfolding grants_def by (intro conjI exI [of _ "cs @ [c]"]) simp_all
  qed (use I in simp)
qed (simp add: grants_def)

lemma set_inheritance_lineage:
  "map_option si_original_completion_event_id
     (one_or_none (\<lambda>i. si_step_id i = s) (step_completion_inheritances (set_inheritance s e db))) = Some e"
proof -
  have upd: "map_option si_original_completion_event_id (find (\<lambda>i. si_step_id i = s)
      (update_where (\<lambda>i. si_step_id i = s) (\<lambda>i. i\<lparr>si_original_completion_event_id := e\<rparr>) t)) = Some e"
    if "\<exists>i \<in> set t. si_step_id i = s" for t
    using that unfolding update_where_def by (induction t) auto
  have new: "map_option si_original_completion_event_id (find (\<lambda>i. si_step_id i = s)
      (t @ [\<lparr>si_step_id = s, si_original_completion_event_id = e\<rparr>])) = Some e"
    if "\<forall>i \<in> set t. si_step_id i \<noteq> s" for t
    using that by (induction t) auto
  show ?thesis using upd new by (auto simp: set_inheritance_def one_or_none_def row_exists_iff)
qed

text \<open>The two kinds of transition taken apart.\<close>

lemma completing_parts:
  assumes "mutate_step_state lib env q db = Inr (x, db')" and "sm_state q = COMPLETED"
  obtains db1 step db2 db4 db5 kind payload outcomes where
    "bump_profile env (sm_user_id q) (sm_expected_profile_version q) db = Inr db1"
    "one_or_none (\<lambda>s. st_id s = sm_step_id q \<and> st_roadmap_id s = sm_roadmap_id q) (roadmap_steps db1) = Some step"
    "write_step_state q db1 = Inr db2"
    "append_event (e_uuid env 0) (sm_user_id q) (sm_step_id q) (sm_expected_profile_version q + 1) kind payload db2 = Inr db4"
    "grants (e_uuid env 0) (set_inheritance (sm_step_id q) (e_uuid env 0) db4) db5" "queue_only db5 db'"
proof -
  from assms(1) obtain db1 goal step where 1: "bump_profile env (sm_user_id q) (sm_expected_profile_version q) db = Inr db1"
    "one_or_none (\<lambda>s. st_id s = sm_step_id q \<and> st_roadmap_id s = sm_roadmap_id q) (roadmap_steps db1) = Some step"
    and tr: "apply_transition lib env q goal step db1 = Inr db'" by (rule mutate_step_state_Inr) (rule that)
  have no_reverse: "\<not> (st_state step = COMPLETED \<and> sm_state q \<in> {IN_PROGRESS, TODO})" using assms(2) by simp
  from tr obtain db2 db4 db5 kind payload where 2: "write_step_state q db1 = Inr db2"
    "append_event (e_uuid env 0) (sm_user_id q) (sm_step_id q) (sm_expected_profile_version q + 1) kind payload db2 = Inr db4"
    and 5: "complete_step lib env (sm_user_id q) (sm_step_id q) (e_uuid env 0) (st_outcomes step) db4 = Inr db5"
    and 6: "queue_only db5 db'"
    unfolding apply_transition_def Let_def if_not_P [OF no_reverse] and_then_Inr_iff
    using assms(2) by (elim exE conjE) (auto split: prod.splits dest: enqueue_queue_only(2))
  from 5 have "grants (e_uuid env 0) (set_inheritance (sm_step_id q) (e_uuid env 0) db4) db5"
    by (auto simp: complete_step_def and_then_Inr_iff dest: grant_outcomes_grants)
  with that [OF 1 2 _ 6] show thesis by blast
qed

lemma reversing_parts:
  assumes "mutate_step_state lib env q db = Inr (x, db')" and "sm_state q \<noteq> COMPLETED"
    and completed: "\<And>s. s \<in> set (roadmap_steps db) \<Longrightarrow> st_id s = sm_step_id q \<Longrightarrow> st_state s = COMPLETED"
  obtains db1 db2 db3 db4 kind payload where
    "bump_profile env (sm_user_id q) (sm_expected_profile_version q) db = Inr db1"
    "write_step_state q db1 = Inr db2" "reverse_completion (sm_step_id q) db2 = Inr db3"
    "append_event (e_uuid env 0) (sm_user_id q) (sm_step_id q) (sm_expected_profile_version q + 1) kind payload db3 = Inr db4"
    "queue_only db4 db'"
proof -
  from assms(1) obtain db1 goal step where bump: "bump_profile env (sm_user_id q) (sm_expected_profile_version q) db = Inr db1"
    and step: "one_or_none (\<lambda>s. st_id s = sm_step_id q \<and> st_roadmap_id s = sm_roadmap_id q) (roadmap_steps db1) = Some step"
    and tr: "apply_transition lib env q goal step db1 = Inr db'" by (rule mutate_step_state_Inr) (rule that)
  have reverse: "st_state step = COMPLETED \<and> sm_state q \<in> {IN_PROGRESS, TODO}"
    using one_or_none_SomeD [OF step] completed bump_profile_others(4) [OF bump] assms(2) by (cases "sm_state q") auto
  from tr obtain db2 db3 db4 kind payload where "write_step_state q db1 = Inr db2"
    "reverse_completion (sm_step_id q) db2 = Inr db3"
    "append_event (e_uuid env 0) (sm_user_id q) (sm_step_id q) (sm_expected_profile_version q + 1) kind payload db3 = Inr db4"
    "queue_only db4 db'"
    unfolding apply_transition_def Let_def if_P [OF reverse] and_then_Inr_iff
    using assms(2) by (elim exE conjE) (auto split: prod.splits dest: enqueue_queue_only(2))
  with that [OF bump] show thesis by blast
qed

lemma completing_capabilities:
  assumes "mutate_step_state lib env q db = Inr (x, db')" and "sm_state q = COMPLETED"
  obtains cs where "user_capabilities db' = user_capabilities db @ cs"
    "\<forall>c \<in> set cs. uc_source_completion_event_id c = Some (e_uuid env 0)"
    "map_option si_original_completion_event_id
       (one_or_none (\<lambda>i. si_step_id i = sm_step_id q) (step_completion_inheritances db')) = Some (e_uuid env 0)"
    "\<forall>e \<in> set (user_state_events db). ev_id e \<noteq> e_uuid env 0"
    "roadmap_steps db' = update_where (\<lambda>s. st_id s = sm_step_id q \<and> st_roadmap_id s = sm_roadmap_id q)
       (set_step_state COMPLETED) (roadmap_steps db)"
    "\<exists>s \<in> set (roadmap_steps db). st_id s = sm_step_id q \<and> st_roadmap_id s = sm_roadmap_id q"
proof (rule completing_parts [OF assms])
  fix db1 step db2 db4 db5 kind payload
  assume bump: "bump_profile env (sm_user_id q) (sm_expected_profile_version q) db = Inr db1"
    and step: "one_or_none (\<lambda>s. st_id s = sm_step_id q \<and> st_roadmap_id s = sm_roadmap_id q) (roadmap_steps db1) = Some step"
    and 2: "write_step_state q db1 = Inr db2"
    and 4: "append_event (e_uuid env 0) (sm_user_id q) (sm_step_id q) (sm_expected_profile_version q + 1) kind payload db2 = Inr db4"
    and gr: "grants (e_uuid env 0) (set_inheritance (sm_step_id q) (e_uuid env 0) db4) db5" and 6: "queue_only db5 db'"
  note frame = bump_profile_others [OF bump] write_step_state_others [OF 2] append_event_capabilities [OF 4] queue_only_fields [OF 6]
  have set_i: "user_capabilities (set_inheritance s e d) = user_capabilities d"
    "roadmap_steps (set_inheritance s e d) = roadmap_steps d" for s e d by (simp_all add: set_inheritance_def)
  from gr obtain cs where cs: "user_capabilities db' = user_capabilities db @ cs"
      "\<forall>c \<in> set cs. uc_source_completion_event_id c = Some (e_uuid env 0)"
    using frame set_i by (auto simp: grants_def)
  have steps: "roadmap_steps db2 = update_where (\<lambda>s. st_id s = sm_step_id q \<and> st_roadmap_id s = sm_roadmap_id q)
      (set_step_state COMPLETED) (roadmap_steps db1)"
    using 2 assms(2) by (auto simp: write_step_state_def Let_def err_simps)
  show thesis
  proof (rule that [OF cs])
    show "map_option si_original_completion_event_id
       (one_or_none (\<lambda>i. si_step_id i = sm_step_id q) (step_completion_inheritances db')) = Some (e_uuid env 0)"
      using set_inheritance_lineage gr frame by (simp add: grants_def)
    show "\<exists>s \<in> set (roadmap_steps db). st_id s = sm_step_id q \<and> st_roadmap_id s = sm_roadmap_id q"
      using one_or_none_SomeD [OF step] frame by auto
  qed (use frame steps gr set_i in \<open>simp_all add: grants_def\<close>)
qed

lemma completing_step_state:
  assumes "mutate_step_state lib env q db = Inr (x, db')" and "sm_state q = COMPLETED"
    and keyed: "keyed st_id (roadmap_steps db)" and s: "s \<in> set (roadmap_steps db')" "st_id s = sm_step_id q"
  shows "st_state s = COMPLETED"
proof (rule completing_capabilities [OF assms(1,2)])
  let ?mine = "\<lambda>s. st_id s = sm_step_id q \<and> st_roadmap_id s = sm_roadmap_id q"
  assume "roadmap_steps db' = update_where ?mine (set_step_state COMPLETED) (roadmap_steps db)"
    and "\<exists>s \<in> set (roadmap_steps db). ?mine s"
  with s(1) obtain s0 s1 where s0: "s0 \<in> set (roadmap_steps db)" "s = (if ?mine s0 then set_step_state COMPLETED s0 else s0)"
    and s1: "s1 \<in> set (roadmap_steps db)" "?mine s1" by (auto simp: set_update_where)
  have "st_id s0 = st_id s1" using s(2) s0(2) s1(2) by (auto simp: set_step_state_def split: if_splits)
  with keyed_inject [OF keyed s0(1) s1(1)] s1(2) s0(2) show ?thesis by (simp add: set_step_state_def)
qed

lemma reversing_capabilities:
  assumes "mutate_step_state lib env q db = Inr (x, db')" and "sm_state q \<noteq> COMPLETED"
    and lineage: "map_option si_original_completion_event_id
       (one_or_none (\<lambda>i. si_step_id i = sm_step_id q) (step_completion_inheritances db)) = Some e"
    and completed: "\<And>s. s \<in> set (roadmap_steps db) \<Longrightarrow> st_id s = sm_step_id q \<Longrightarrow> st_state s = COMPLETED"
  shows "user_capabilities db' = update_where (\<lambda>c. uc_source_completion_event_id c = Some e) revoke (user_capabilities db)"
proof (rule reversing_parts [OF assms(1,2) completed])
  fix db1 db2 db3 db4 kind payload
  assume bump: "bump_profile env (sm_user_id q) (sm_expected_profile_version q) db = Inr db1"
    and 2: "write_step_state q db1 = Inr db2" and 3: "reverse_completion (sm_step_id q) db2 = Inr db3"
    and 4: "append_event (e_uuid env 0) (sm_user_id q) (sm_step_id q) (sm_expected_profile_version q + 1) kind payload db3 = Inr db4"
    and 6: "queue_only db4 db'"
  note frame = bump_profile_others [OF bump] write_step_state_others [OF 2] append_event_capabilities(1) [OF 4] queue_only_fields [OF 6]
  from lineage frame have "map_option si_original_completion_event_id
      (one_or_none (\<lambda>i. si_step_id i = sm_step_id q) (step_completion_inheritances db2)) = Some e" by simp
  with 3 have "user_capabilities db3 = update_where (\<lambda>c. uc_source_completion_event_id c = Some e) revoke (user_capabilities db2)"
    by (auto simp: reverse_completion_def split: option.split_asm)
  then show ?thesis using frame by simp
qed

text \<open>
  C20: completing a step and then taking the completion back leaves every user's active capabilities, in
  their order, as they were: the reversal revokes all that the completion granted and nothing else.
\<close>

theorem completion_reversal_roundtrip:
  assumes "mutate_step_state lib env q db = Inr (x, db1)" and "sm_state q = COMPLETED"
    and "mutate_step_state lib' env' q' db1 = Inr (y, db2)" and "sm_step_id q' = sm_step_id q" "sm_state q' \<noteq> COMPLETED"
    and "foreign_keys_ok db" and "keyed st_id (roadmap_steps db)"
  shows "active_capability_rows user db2 = active_capability_rows user db"
proof (rule completing_capabilities [OF assms(1,2)])
  fix cs assume cs: "user_capabilities db1 = user_capabilities db @ cs"
      "\<forall>c \<in> set cs. uc_source_completion_event_id c = Some (e_uuid env 0)"
    and lineage: "map_option si_original_completion_event_id
       (one_or_none (\<lambda>i. si_step_id i = sm_step_id q) (step_completion_inheritances db1)) = Some (e_uuid env 0)"
    and fresh: "\<forall>e \<in> set (user_state_events db). ev_id e \<noteq> e_uuid env 0"
  have "user_capabilities db2 = update_where (\<lambda>c. uc_source_completion_event_id c = Some (e_uuid env 0)) revoke (user_capabilities db1)"
    by (rule reversing_capabilities [OF assms(3,5) lineage [folded assms(4)]]) (use completing_step_state [OF assms(1,2,7)] assms(4) in simp)
  moreover have source: "refers (user_capabilities db) uc_source_completion_event_id (user_state_events db) ev_id"
    using assms(6) by (simp add: foreign_keys_ok_def record_keys_ok_def)
  have "uc_source_completion_event_id c \<noteq> Some (e_uuid env 0)" if "c \<in> set (user_capabilities db)" for c
    using source fresh that unfolding refers_iff by blast
  ultimately have "user_capabilities db2 = user_capabilities db @ map revoke cs"
    using cs by (auto simp: update_where_def intro!: map_idI)
  then have "rows_where (\<lambda>c. uc_user_id c = user \<and> uc_lifecycle c = ''ACTIVE'') (user_capabilities db2)
      = rows_where (\<lambda>c. uc_user_id c = user \<and> uc_lifecycle c = ''ACTIVE'') (user_capabilities db)"
    by (simp add: rows_where_def revoke_def filter_empty_conv)
  then show ?thesis by (simp add: active_capability_rows_def)
qed

definition sample_complete :: StepStateMutation where
  "sample_complete = \<lparr>sm_user_id = ''ada'', sm_roadmap_id = ''rm'', sm_step_id = ''4-1'',
     sm_expected_roadmap_version = 2, sm_expected_profile_version = 2, sm_state = COMPLETED\<rparr>"

definition sample_reverse :: StepStateMutation where
  "sample_reverse = \<lparr>sm_user_id = ''ada'', sm_roadmap_id = ''rm'', sm_step_id = ''4-1'',
     sm_expected_roadmap_version = 3, sm_expected_profile_version = 3, sm_state = TODO\<rparr>"

lemma sample_completion_runs:
  "case run_commands sample_store_lib sample_history empty_db of Inl _ \<Rightarrow> False
   | Inr db \<Rightarrow> (case mutate_step_state sample_store_lib (tx_env 6) sample_complete db of Inl _ \<Rightarrow> False
     | Inr (x, db1) \<Rightarrow> (case mutate_step_state sample_store_lib (tx_env 7) sample_reverse db1 of Inl _ \<Rightarrow> False
       | Inr (y, db2) \<Rightarrow> foreign_keys_ok db \<and> distinct (map st_id (roadmap_steps db))
           \<and> length (active_capability_rows ''ada'' db1) = 1 \<and> length (user_capabilities db2) = 1))"
  by code_simp

theorem completion_reversal_roundtrip_witness:
  "\<exists>x db1 y db2. mutate_step_state sample_store_lib (tx_env 6) sample_complete sample_db = Inr (x, db1)
     \<and> mutate_step_state sample_store_lib (tx_env 7) sample_reverse db1 = Inr (y, db2)
     \<and> length (active_capability_rows ''ada'' db1) = 1
     \<and> active_capability_rows ''ada'' db2 = active_capability_rows ''ada'' sample_db"
proof -
  from sample_completion_runs obtain db where 0: "run_commands sample_store_lib sample_history empty_db = Inr db"
    by (cases "run_commands sample_store_lib sample_history empty_db") auto
  then have eq: "db = sample_db" by (simp add: sample_db_def)
  have runs: "case mutate_step_state sample_store_lib (tx_env 6) sample_complete sample_db of Inl _ \<Rightarrow> False
     | Inr (x, db1) \<Rightarrow> (case mutate_step_state sample_store_lib (tx_env 7) sample_reverse db1 of Inl _ \<Rightarrow> False
       | Inr (y, db2) \<Rightarrow> foreign_keys_ok sample_db \<and> distinct (map st_id (roadmap_steps sample_db))
           \<and> length (active_capability_rows ''ada'' db1) = 1 \<and> length (user_capabilities db2) = 1)"
    using sample_completion_runs unfolding 0 sum.case eq .
  then obtain x db1 where 1: "mutate_step_state sample_store_lib (tx_env 6) sample_complete sample_db = Inr (x, db1)"
    by (auto split: sum.split_asm)
  with runs obtain y db2 where 2: "mutate_step_state sample_store_lib (tx_env 7) sample_reverse db1 = Inr (y, db2)"
    by (auto split: sum.split_asm)
  with runs 1 have 3: "foreign_keys_ok sample_db" "distinct (map st_id (roadmap_steps sample_db))"
    "length (active_capability_rows ''ada'' db1) = 1" by simp_all
  have "active_capability_rows ''ada'' db2 = active_capability_rows ''ada'' sample_db"
    by (rule completion_reversal_roundtrip [OF 1 _ 2])
      (use 3 in \<open>simp_all add: sample_complete_def sample_reverse_def keyed_def\<close>)
  with 1 2 3 show ?thesis by blast
qed

subsection \<open>The automatic roadmap\<close>

text \<open>A stored result belongs to the account of its request, as \<open>finalize_recompute\<close> checks when it stores it.\<close>

definition results_owned :: "database \<Rightarrow> bool" where
  "results_owned db \<longleftrightarrow> list_all (\<lambda>r. list_all (\<lambda>a. rr_resulting_analysis_id r = Some (an_id a) \<longrightarrow>
      list_ex (\<lambda>g. go_id g = an_goal_id a \<and> go_user_id g = rr_user_id r) (goals db)) (analyses db)) (recompute_requests db)"

lemma mutate_roadmap_other_user:
  assumes "mutate_roadmap lib env q db = Inr (x, db')" and "r \<in> set (roadmaps db)" and "rm_user_id r \<noteq> rmu_user_id q"
  shows "r \<in> set (roadmaps db')"
proof -
  define db1 where "db1 = (if rmu_state q = ACTIVE then archive_others (rmu_user_id q) (rmu_roadmap_id q) db else db)"
  from mutate_roadmap_Inr [OF assms(1) db1_def]
  have db': "db' = db1\<lparr>roadmaps := update_where (this_roadmap q) (set_roadmap q) (roadmaps db1)\<rparr>" by metis
  have "r \<in> set (roadmaps db1)" using assms(2,3) by (auto simp: db1_def archive_others_def intro: update_whereI)
  with assms(3) show ?thesis by (auto simp: db' this_roadmap_def intro: update_whereI)
qed

lemma adopt_proposal_other_user:
  assumes "adopt_proposal lib env title req goal p existing db = Inr (x, db')"
    and r: "r \<in> set (roadmaps db)" "rm_user_id r \<noteq> rr_user_id req"
  shows "r \<in> set (roadmaps db')"
proof (cases existing)
  case None
  with assms(1) obtain q y db1 q' where 1: "create_roadmap lib env q db = Inr (y, db1)"
    and 2: "mutate_roadmap lib env q' db1 = Inr (x, db')" and q': "rmu_user_id q' = rr_user_id req"
    by (auto simp: adopt_proposal_def and_then_Inr_iff)
  have "r \<in> set (roadmaps db1)" using create_roadmap_adds [OF 1] r by (auto simp: adds_draft_def)
  from mutate_roadmap_other_user [OF 2 this] r q' show ?thesis by simp
next
  case (Some e)
  with assms show ?thesis by (auto simp: adopt_proposal_def and_then_Inr_iff intro: mutate_roadmap_other_user)
qed

text \<open>An eligible result means that its user has no active roadmap at all.\<close>

lemma automatic_row_in:
  assumes "automatic_row request db = Some (r, a, p, g)"
  shows "r \<in> set (recompute_requests db)" "rr_id r = request" "a \<in> set (analyses db)" "rr_resulting_analysis_id r = Some (an_id a)"
    "g \<in> set (goals db)" "go_id g = an_goal_id a"
proof -
  have "(r, a, p, g) \<in> set [(r, a, p, g). r \<leftarrow> recompute_requests db, rr_id r = request,
      a \<leftarrow> analyses db, rr_resulting_analysis_id r = Some (an_id a),
      p \<leftarrow> route_proposals db, rr_proposal_id r = Some (rp_id p), g \<leftarrow> goals db, go_id g = an_goal_id a]"
    using assms by (auto simp only: automatic_row_def split: list.splits intro: list.set_intros(1))
  then show "r \<in> set (recompute_requests db)" "rr_id r = request" "a \<in> set (analyses db)"
    "rr_resulting_analysis_id r = Some (an_id a)" "g \<in> set (goals db)" "go_id g = an_goal_id a" by auto
qed

lemma eligible_no_active:
  assumes row: "automatic_row request db = Some (req, a, p, g)" and el: "automatic_eligible db (req, a, p, g)"
    and ok: "store_ok db" and own: "results_owned db" and r: "r \<in> set (roadmaps db)" "rm_state r = ACTIVE"
  shows "rm_user_id r \<noteq> rr_user_id req"
proof
  assume u: "rm_user_id r = rr_user_id req"
  note in_db = automatic_row_in [OF row]
  from own in_db obtain g' where g': "g' \<in> set (goals db)" "go_id g' = an_goal_id a" "go_user_id g' = rr_user_id req"
    unfolding results_owned_def list_all_iff list_ex_iff by blast
  have "keyed go_id (goals db)" using ok by (simp add: store_ok_def)
  from keyed_inject [OF this in_db(5) g'(1)] in_db(6) g'(2,3) u have owner: "go_user_id g = rm_user_id r" by simp
  have status: "go_status g = ACTIVE" using el by (simp add: automatic_eligible_def)
  have goal: "go_id g = rm_goal_id r"
    using store_ok_current [OF ok r] in_db(5) owner status unfolding current_route_def by blast
  have "one_or_none (\<lambda>r. rm_user_id r = rr_user_id req \<and> rm_goal_id r = go_id g \<and> rm_state r = ACTIVE) (roadmaps db) = None"
    using el by (simp add: automatic_eligible_def active_roadmap_of_def)
  from bspec [OF this [unfolded one_or_none_None] r(1)] u goal r(2) show False by simp
qed

text \<open>A settled request stays settled, whoever reconciles it.\<close>

definition no_op :: "uuid \<Rightarrow> database \<Rightarrow> bool" where
  "no_op request db \<longleftrightarrow> (\<forall>lib env title. reconcile_automatic_roadmap lib env request title db = Inr ((), db))"

lemma settled_no_op: "no_op request (settle_request request db)"
proof -
  let ?db = "settle_request request db"
  have pending: "\<not> rr_auto_roadmap_pending r" if "automatic_row request ?db = Some (r, a, p, g)" for r a p g
  proof -
    note in_db = automatic_row_in [OF that]
    from in_db(1) obtain r' where "r = (if rr_id r' = request then r'\<lparr>rr_auto_roadmap_pending := False\<rparr> else r')"
      by (auto simp: settle_request_def set_update_where)
    with in_db(2) show ?thesis by (cases "rr_id r' = request") simp_all
  qed
  show ?thesis
    unfolding no_op_def reconcile_automatic_roadmap_def
    using pending by (auto split: option.split)
qed

lemma reconcile_results:
  assumes "reconcile_automatic_roadmap lib env request title db = Inr (x, db')"
  obtains "db' = db" "no_op request db"
    | "db' = settle_request request db"
    | req a p g existing y db1 where "automatic_row request db = Some (req, a, p, g)" "automatic_eligible db (req, a, p, g)"
      "adopt_proposal lib env title req (go_id g) (rp_id p) existing db = Inr (y, db1)" "db' = settle_request request db1"
proof (cases "one_or_none (\<lambda>r. rr_id r = request) (recompute_requests db)")
  case None
  then show thesis using assms by (intro that(1)) (auto simp: reconcile_automatic_roadmap_def no_op_def)
next
  case (Some request_row)
  show thesis
  proof (cases "row_exists (\<lambda>u. u_id u = rr_user_id request_row) (users db)")
    case False
    with Some show thesis using assms by (intro that(1)) (auto simp: reconcile_automatic_roadmap_def no_op_def)
  next
    case user: True
    show thesis
    proof (cases "automatic_row request db")
      case None
      with Some user show thesis using assms by (intro that(1)) (auto simp: reconcile_automatic_roadmap_def no_op_def)
    next
      case row: (Some row)
      obtain req a p g where r: "row = (req, a, p, g)" by (cases row)
      show thesis
      proof (cases "rr_auto_roadmap_pending req")
        case False
        with Some user row r show thesis using assms by (intro that(1)) (auto simp: reconcile_automatic_roadmap_def no_op_def)
      next
        case pending: True
        note known = Some user row r pending
        show thesis
        proof (cases "automatic_eligible db (req, a, p, g)")
          case False
          with known have "db' = settle_request request db" using assms by (simp add: reconcile_automatic_roadmap_def)
          then show thesis by (rule that(2))
        next
          case True
          let ?existing = "oldest_roadmap (rr_user_id req) (rp_id p) db"
          from known True have "db' = settle_request request db
              \<or> (\<exists>y db1. adopt_proposal lib env title req (go_id g) (rp_id p) ?existing db = Inr (y, db1)
                  \<and> db' = settle_request request db1)"
            using assms unfolding reconcile_automatic_roadmap_def Let_def
            by (auto split: if_split_asm sum.split_asm persistence_error.split_asm)
          with True row r that(2,3) show thesis by blast
        qed
      qed
    qed
  qed
qed

text \<open>
  C21: a follow-up that has been reconciled leaves every roadmap that is in use as it is, whatever became of
  the proposal, and reconciling it again changes nothing.
\<close>

theorem automatic_roadmap_displaces_nothing:
  assumes "reconcile_automatic_roadmap lib env request title db = Inr (x, db')"
    and ok: "store_ok db" and own: "results_owned db"
  shows "set (active_roadmaps db) \<subseteq> set (roadmaps db')
    \<and> reconcile_automatic_roadmap lib' env' request title' db' = Inr ((), db')"
  using assms(1)
proof (cases rule: reconcile_results)
  case 1
  then show ?thesis by (auto simp: no_op_def active_roadmaps_def set_rows_where)
next
  case 2
  then show ?thesis using settled_no_op by (auto simp: no_op_def active_roadmaps_def set_rows_where settle_request_def)
next
  case (3 req a p g existing y db1)
  have "r \<in> set (roadmaps db1)" if "r \<in> set (roadmaps db)" "rm_state r = ACTIVE" for r
    using adopt_proposal_other_user [OF 3(3) that(1)] eligible_no_active [OF 3(1,2) ok own that] by blast
  then show ?thesis using settled_no_op 3(4)
    by (auto simp: no_op_def active_roadmaps_def set_rows_where settle_request_def)
qed

text \<open>A finished request whose proposal waits to become a roadmap, before and after one is active.\<close>

definition pending_request :: recompute_requests_row where
  "pending_request = \<lparr>rr_id = ''rq'', rr_user_id = ''ada'', rr_profile_version = 2, rr_trigger_event_id = ''1-0'',
     rr_state = REQ_READY, rr_resulting_analysis_id = Some ''an'', rr_proposal_id = Some ''pr'',
     rr_auto_roadmap_pending = True, rr_error_code = None, rr_failure_details = None, rr_created_at = 3, rr_updated_at = 3\<rparr>"

definition waiting_db :: database where
  "waiting_db = (case run_commands sample_store_lib (take 4 sample_history) empty_db of Inl _ \<Rightarrow> empty_db
     | Inr db \<Rightarrow> db\<lparr>recompute_requests := [pending_request]\<rparr>)"

lemma waiting_runs:
  "case run_commands sample_store_lib (take 4 sample_history) empty_db of Inl _ \<Rightarrow> False
   | Inr db \<Rightarrow> (let db = db\<lparr>recompute_requests := [pending_request]\<rparr> in results_owned db
       \<and> (case reconcile_automatic_roadmap sample_store_lib (tx_env 8) ''rq'' ''auto'' db of Inl _ \<Rightarrow> False
         | Inr (x, db') \<Rightarrow> map rm_state (roadmaps db') = [ACTIVE]))"
  by code_simp

theorem automatic_roadmap_displaces_nothing_witness:
  "\<exists>x db'. reconcile_automatic_roadmap sample_store_lib (tx_env 8) ''rq'' ''auto'' waiting_db = Inr (x, db')
     \<and> map rm_state (roadmaps db') = [ACTIVE] \<and> set (active_roadmaps waiting_db) \<subseteq> set (roadmaps db')
     \<and> reconcile_automatic_roadmap sample_store_lib (tx_env 9) ''rq'' ''again'' db' = Inr ((), db')"
proof -
  from waiting_runs obtain db where 0: "run_commands sample_store_lib (take 4 sample_history) empty_db = Inr db"
    by (cases "run_commands sample_store_lib (take 4 sample_history) empty_db") auto
  then have eq: "db\<lparr>recompute_requests := [pending_request]\<rparr> = waiting_db" by (simp add: waiting_db_def)
  have runs: "results_owned waiting_db
       \<and> (case reconcile_automatic_roadmap sample_store_lib (tx_env 8) ''rq'' ''auto'' waiting_db of Inl _ \<Rightarrow> False
         | Inr (x, db') \<Rightarrow> map rm_state (roadmaps db') = [ACTIVE])"
    using waiting_runs unfolding 0 sum.case Let_def eq .
  then obtain x db' where 1: "reconcile_automatic_roadmap sample_store_lib (tx_env 8) ''rq'' ''auto'' waiting_db = Inr (x, db')"
    by (auto split: sum.split_asm)
  have "store_ok db" by (rule store.run_inv [OF run_commands_run [OF 0] store_ok_empty])
  then have "store_ok waiting_db" unfolding eq [symmetric] by (rule quiet_store_ok [rotated]) simp
  from automatic_roadmap_displaces_nothing [OF 1 this, of sample_store_lib "tx_env 9" "''again''"] 1 runs
  show ?thesis by (intro exI [of _ x] exI [of _ db']) simp
qed

end
