(* ===== verification/Spec2Isabelle.thy ===== *)
theory Spec2Isabelle
  imports Planner_Correctness Goal_Validation Profile_Normalizer Next_Actions Idempotency_Guarantees
    Queue_Guarantees Recompute_Requests Account_Erasure Access_Safety Weekly_Requests Store_Guarantees
begin

text \<open>
  The Jobtology backend, as far as its own logic goes: what a user lacks for an occupation, which
  activities close the gap, when they fit into the user's weeks, and how the results are computed,
  stored and changed. The source is \<open>src/src/jobtology_be\<close>; file names below are relative to it.

  How the parts interact. A validated goal (\<open>Goal_Validation\<close>) and the normalized profile
  (\<open>Profile_Normalizer\<close>) of a user are submitted for recomputation (\<open>Recompute_Requests\<close>), which
  queues a job (\<open>Outbox\<close>). A worker claims it, loads its context and finalizes it (\<open>Worker\<close>). In between
  it analyzes the gap (\<open>Gap_Analysis\<close>), generates candidate activities (\<open>Candidates\<close>), lays out the
  calendar (\<open>Calendar\<close>), and plans a route with a constraint solver (\<open>Solver_Models\<close>, \<open>Cp_Sat_Model\<close>,
  \<open>Route_Planner\<close>). The user sees next actions (\<open>Next_Actions\<close>) and a weekly plan of the saved roadmap
  that can be customized (\<open>Weekly_Plan\<close>, \<open>Weekly_Requests\<close>). Budgets (\<open>Fixed_Window\<close>) and request
  records (\<open>Idempotency\<close>) guard the writes; accounts are opened, suspended and erased by \<open>Access\<close> and
  \<open>Account_Erasure\<close>.

  Theories and code.
    \<^item> \<open>Prelude\<close>, \<open>Tables\<close>, \<open>Transitions\<close>, \<open>Json\<close>: generic. Timestamps are wall clock, offset and
      zone identity, compared the way Python compares them; errors are sums with \<open>and_then\<close> and
      \<open>collect\<close>; tables are lists of rows; runs of a labelled step relation, with the locales
      \<open>invariant_system\<close> and \<open>monotone_system\<close> that the transactional theories interpret.
    \<^item> \<open>Contracts\<close> (\<open>contracts.py\<close>, \<open>planning/contracts.py\<close>): shared value types and validators.
    \<^item> \<open>Gap_Analysis\<close> (\<open>modules/analyses\<close>): evaluation of requirements, coverage and its bounds.
    \<^item> \<open>Candidates\<close> (\<open>planning/candidates.py\<close>): catalog validation, depth-first expansion, blockers.
    \<^item> \<open>Solver_Models\<close>, \<open>Cp_Sat_Model\<close>, \<open>Route_Planner\<close> (\<open>planning/solver_models.py\<close>,
      \<open>cp_sat_model.py\<close>, \<open>cp_sat_planner.py\<close>, \<open>cp_sat_results.py\<close>): the planning problem, its
      constraint model over a small constraint language, the search. \<open>Route_Semantics\<close> states what a
      valid route is, \<open>Route_Completeness\<close> that the model has exactly these solutions, \<open>Route_Hint\<close>
      that the greedy hint is one, \<open>Planner_Correctness\<close> what each planner status means;
      \<open>Sample_Route\<close> holds the example problem.
    \<^item> \<open>Calendar\<close> (\<open>planning/calendar.py\<close>, \<open>effort.py\<close>): slots, availability, ISO weeks, effort.
    \<^item> \<open>Goal_Validation\<close>, \<open>Profile_Normalizer\<close>, \<open>Next_Actions\<close>: \<open>modules/goals\<close>,
      \<open>modules/profiles\<close>, \<open>modules/dashboard\<close>.
    \<^item> \<open>Database\<close> (\<open>infrastructure/persistence/schema.py\<close>, \<open>contracts.py\<close>): rows, errors and the
      environment of a transaction.
    \<^item> \<open>Fixed_Window\<close> (\<open>compute_budget.py\<close>, \<open>rate_limit.py\<close>), \<open>Idempotency\<close> (\<open>idempotency.py\<close>),
      \<open>Outbox\<close> and \<open>Worker\<close> (\<open>outbox.py\<close>, \<open>worker.py\<close>), \<open>Recompute_Requests\<close>
      (\<open>recompute_requests.py\<close>, \<open>application/recompute_freshness.py\<close>), \<open>Account_Erasure\<close>
      (\<open>accounts.py\<close>), \<open>Access\<close> (\<open>admissions.py\<close>, \<open>auth_store.py\<close>, \<open>management.py\<close>) with
      \<open>Access_Safety\<close>.
    \<^item> \<open>Weekly_Plan_Models\<close>, \<open>Weekly_Packer\<close>, \<open>Weekly_Plan\<close> (\<open>application/weekly_plan.py\<close> and its
      models), \<open>Weekly_Store\<close> (\<open>infrastructure/persistence/weekly_plan.py\<close>), \<open>Weekly_Requests\<close>
      (\<open>api/roadmap_plan.py\<close>). \<open>Weekly_Packing\<close> shows what the packer guarantees,
      \<open>Weekly_Planning\<close> and \<open>Weekly_Guarantees\<close> carry it to whole plans.
    \<^item> \<open>Self_Reports\<close> (\<open>application/specs.py\<close>): structured self-reports and the planning credit they earn.
    \<^item> \<open>Configured_Recompute\<close> (\<open>configured_recompute.py\<close>, \<open>workers/context.py\<close>): the context document a
      change queues. \<open>User_State\<close>, \<open>Roadmap_State\<close> (\<open>store.py\<close>, \<open>roadmap_steps.py\<close>,
      \<open>completion_outcomes.py\<close>, \<open>roadmap_source_validity.py\<close>), \<open>Goal_Deletion\<close> (\<open>goal_deletion.py\<close>):
      the transactions on what a user states and on roadmaps. \<open>User_State_Safety\<close> shows that each keeps
      the store's invariant and frames the rest, \<open>Store_Guarantees\<close> what this means for runs.
    \<^item> What several components write has its guarantees in theories of their own. Jobs and requests are
      written by the worker, by nearly every transaction of the store, by the reconciliation of the
      automatic roadmap and by the erasure of goals and accounts: \<open>Queue_Safety\<close> has the invariant and
      the worker's operations, \<open>Queue_Transactions\<close> all the others, \<open>Queue_Guarantees\<close> the step relation
      and what holds along its runs. The records of request keys are written by the requests, by their
      retention and by both erasures: \<open>Idempotency_Guarantees\<close> has their runs.

  Conventions. A transaction is a function from the database to an error or a result with the new
  database, so that a raised exception rolls back; transactions are serial, and \<open>SKIP LOCKED\<close>, the
  clocks, \<open>uuid4\<close> and text collation are arguments (\<open>env\<close>). A record field is named as the column or
  attribute, with a prefix per record. Identifiers that clash with Isabelle's get a suffix. Strings are
  ASCII; sentences shown to the user in Korean are kept as what they are built from.

  Parameters and what is asked of them. The CP-SAT solver is a function of a model; the
  theorems that need it say which of its status codes are honest (\<open>honest_solver\<close>). MODEL_INVALID is
  an answer it may give, which \<open>plan\<close> raises; \<open>checking_solver\<close> and \<open>rejecting_solver\<close> are instances. A time zone is the offset at each
  instant and, where Python asks for it, at each wall clock; \<open>steady\<close> and \<open>midnight_follows\<close> state
  what a zone satisfies, and UTC is an instance. SHA-256, the JSON encoder, ISO parsing and pydantic's
  validation of stored documents are parameters of the functions that call them.

  Loops and fuel. Recursions of the planner and the calendar end by a measure. The packer's hour loop is a \<open>while_option\<close>, because its jump
  to the next Monday depends on the zone: that it returns is part of \<open>pack_places_all_work\<close> and
  \<open>weekly_plan_returns\<close> (the limit of 520 weeks bounds the cursor, the zone hypothesis makes it
  progress). No definition uses fuel.

  What the lemma groups show: soundness and completeness of route planning, and when it raises; exact
  meaning of validation, normalization and evaluation; what a calendar guarantees to the planning
  problem, and that beside a change of the offset by half an hour it may start before planning does
  (\<open>calendar_may_start_early\<close>); limits of budgets; at most one lease per account, and one ending per
  request that stays until a goal of its user or the account is erased; at most one execution per
  request key, until its record expires or is erased; admissions never beyond an invitation;
  erasure of exactly an account's rows; totality, precedence and history of weekly plans; and that no
  weekly plan change is lost; that user-state changes are serialized by the profile version, that the
  active route always fits the active goal, and that a completion can be taken back without trace.

  Not modelled. HTTP routing, authentication middleware, settings and composition (glue around the
  modelled operations); chat, LLM and resume extraction (calls to external models); the Neo4j corpus
  and its readers (queries in another language); \<open>document_processor\<close> (conversion of HWP, PDF and
  HTML files on top of third-party parsers); migrations, experiments and evaluation scripts.
  The adoption of a roadmap revision is a step of the queue's runs only, by the transactions it calls.
  Concurrency inside a transaction, column length limits, float rounding in stored JSON and Python's
  recursion limit are not modelled either; a schedule stored in JSON keeps its zone in the model, where
  reading it back gives the same wall clock and instant with a fixed offset.
\<close>

end
